(* ===== verification/PyPrelude.thy ===== *)
theory PyPrelude
  imports Complex_Main "HOL-Library.Monad_Syntax" "HOL-Library.Char_ord"
    "HOL-Library.List_Lexorder"
begin

text \<open>
  The Python layer every component shares: JSON-like values with Python's truth test, equality,
  ordering, membership and iteration, dictionaries as association lists in insertion order, the
  string operations the services use, and the error value of code that reports through
  exceptions. An operation that raises is the value None; code that tells exceptions apart
  returns a sum with a \<open>pyexc\<close> on the left.

  A Python string is a list of HOL characters, so the model covers texts over the first 256 code
  points; case folding is that of ASCII. A float is the exact rational it denotes, and arithmetic
  on floats and decimals is exact. An em dash in a message is written as two hyphens.
\<close>

named_theorems py_simps \<open>equations of the Python layer that unfold safely\<close>

section \<open>Values\<close>

datatype pyval =
    PNone
  | PBool bool
  | PInt int
  | PFloat rat
  | PStr string
  | PList "pyval list"
  | PDict "(string \<times> pyval) list"

type_synonym pydict = "(string \<times> pyval) list"

datatype pyexc =
    ValueError string
  | TypeError
  | ArithmeticError
  | LookupError
  | IntegrityError
  | OtherError

text \<open>Sequencing of computations that report an exception.\<close>

fun rbind :: "'e + 'a \<Rightarrow> ('a \<Rightarrow> 'e + 'b) \<Rightarrow> 'e + 'b" where
  "rbind (Inl e) f = Inl e"
| "rbind (Inr v) f = f v"

lemma rbind_eq_Inr [simp]: "rbind m f = Inr w \<longleftrightarrow> (\<exists>v. m = Inr v \<and> f v = Inr w)"
  by (cases m) auto

lemma rbind_eq_Inl: "rbind m f = Inl e \<longleftrightarrow> m = Inl e \<or> (\<exists>v. m = Inr v \<and> f v = Inl e)"
  by (cases m) auto

lemma rbind_cong [fundef_cong]:
  "m = m' \<Longrightarrow> (\<And>v. m' = Inr v \<Longrightarrow> f v = g v) \<Longrightarrow> rbind m f = rbind m' g"
  by (cases m') auto

definition guard_r :: "bool \<Rightarrow> pyexc \<Rightarrow> pyexc + unit" where
  "guard_r b e = (if b then Inr () else Inl e)"

lemma guard_r_eq_Inr [simp]: "guard_r b e = Inr u \<longleftrightarrow> b"
  by (simp add: guard_r_def)

subsection \<open>Truth, numbers, equality, order\<close>

fun truthy :: "pyval \<Rightarrow> bool" where
  "truthy PNone = False"
| "truthy (PBool b) = b"
| "truthy (PInt i) = (i \<noteq> 0)"
| "truthy (PFloat q) = (q \<noteq> 0)"
| "truthy (PStr s) = (s \<noteq> [])"
| "truthy (PList xs) = (xs \<noteq> [])"
| "truthy (PDict kvs) = (kvs \<noteq> [])"

text \<open>\<open>a or b\<close> of Python returns one of the two values.\<close>

definition py_or :: "pyval \<Rightarrow> pyval \<Rightarrow> pyval" where
  "py_or a b = (if truthy a then a else b)"

fun num_of :: "pyval \<Rightarrow> rat option" where
  "num_of (PBool b) = Some (if b then 1 else 0)"
| "num_of (PInt i) = Some (of_int i)"
| "num_of (PFloat q) = Some q"
| "num_of _ = None"

fun is_str :: "pyval \<Rightarrow> bool" where
  "is_str (PStr _) = True"
| "is_str _ = False"

text \<open>\<open>isinstance(v, int)\<close> holds of booleans too; \<open>is_int_nb\<close> excludes them.\<close>

fun is_int_nb :: "pyval \<Rightarrow> bool" where
  "is_int_nb (PInt _) = True"
| "is_int_nb _ = False"

fun is_dict :: "pyval \<Rightarrow> bool" where
  "is_dict (PDict _) = True"
| "is_dict _ = False"

fun is_list :: "pyval \<Rightarrow> bool" where
  "is_list (PList _) = True"
| "is_list _ = False"

text \<open>
  Python's \<open>==\<close>: numbers of different types compare by value and dictionaries ignore order.
  \<open>py_norm\<close> is a canonical form whose equality is that relation.
\<close>

primrec py_norm :: "pyval \<Rightarrow> pyval" where
  "py_norm PNone = PNone"
| "py_norm (PBool b) = PFloat (if b then 1 else 0)"
| "py_norm (PInt i) = PFloat (of_int i)"
| "py_norm (PFloat q) = PFloat q"
| "py_norm (PStr s) = PStr s"
| "py_norm (PList xs) = PList (map py_norm xs)"
| "py_norm (PDict kvs) = PDict (sort_key fst (map (map_prod id py_norm) kvs))"

definition py_eq :: "pyval \<Rightarrow> pyval \<Rightarrow> bool" where
  "py_eq a b \<longleftrightarrow> py_norm a = py_norm b"

lemma py_eq_refl [simp]: "py_eq a a"
  by (simp add: py_eq_def)

lemma py_eq_sym: "py_eq a b \<longleftrightarrow> py_eq b a"
  by (auto simp: py_eq_def)

lemma py_norm_str [simp]: "PStr s = py_norm v \<longleftrightarrow> v = PStr s" "py_norm v = PStr s \<longleftrightarrow> v = PStr s"
  by (cases v; auto)+

lemma py_eq_str [simp]: "py_eq (PStr s) v \<longleftrightarrow> v = PStr s" "py_eq v (PStr s) \<longleftrightarrow> v = PStr s"
  by (auto simp: py_eq_def)

text \<open>
  \<open><\<close> and \<open>\<le>\<close>: numbers with numbers, strings with strings, lists element by element;
  anything else raises.
\<close>

fun py_cmp :: "bool \<Rightarrow> pyval \<Rightarrow> pyval \<Rightarrow> bool option"
  and py_cmp_list :: "bool \<Rightarrow> pyval list \<Rightarrow> pyval list \<Rightarrow> bool option" where
  "py_cmp strict (PStr s) (PStr t) = Some (if strict then s < t else s \<le> t)"
| "py_cmp strict (PList xs) (PList ys) = py_cmp_list strict xs ys"
| "py_cmp strict a b =
     (case (num_of a, num_of b) of
        (Some x, Some y) \<Rightarrow> Some (if strict then x < y else x \<le> y)
      | _ \<Rightarrow> None)"
| "py_cmp_list strict [] [] = Some (\<not> strict)"
| "py_cmp_list strict [] (y # ys) = Some True"
| "py_cmp_list strict (x # xs) [] = Some False"
| "py_cmp_list strict (x # xs) (y # ys) =
     (if py_eq x y then py_cmp_list strict xs ys else py_cmp strict x y)"

definition py_lt :: "pyval \<Rightarrow> pyval \<Rightarrow> bool option" where
  "py_lt a b = py_cmp True a b"

definition py_le :: "pyval \<Rightarrow> pyval \<Rightarrow> bool option" where
  "py_le a b = py_cmp False a b"

lemma py_cmp_int [simp]:
  "py_cmp strict (PInt i) (PInt j) = Some (if strict then i < j else i \<le> j)"
  by simp

lemma py_lt_int [simp]: "py_lt (PInt i) (PInt j) = Some (i < j)"
  by (simp add: py_lt_def)

lemma py_le_int [simp]: "py_le (PInt i) (PInt j) = Some (i \<le> j)"
  by (simp add: py_le_def)

lemma py_le_int_float [simp]: "py_le (PFloat q) (PInt j) = Some (q \<le> of_int j)"
  by (simp add: py_le_def)

lemma py_lt_int_float [simp]: "py_lt (PFloat q) (PInt j) = Some (q < of_int j)"
  by (simp add: py_lt_def)

lemma py_cmp_int_float [simp]:
  "py_lt (PInt j) (PFloat q) = Some (of_int j < q)" "py_le (PInt j) (PFloat q) = Some (of_int j \<le> q)"
  by (simp_all add: py_lt_def py_le_def)

subsection \<open>Arithmetic\<close>

text \<open>\<open>v * q\<close> for a float \<open>q\<close>, and \<open>v + k\<close> for an integer \<open>k\<close>.\<close>

definition py_scale :: "pyval \<Rightarrow> rat \<Rightarrow> pyval option" where
  "py_scale v q = map_option (\<lambda>x. PFloat (x * q)) (num_of v)"

lemma py_scale_int [simp]: "py_scale (PInt i) q = Some (PFloat (of_int i * q))"
  by (simp add: py_scale_def)

fun py_add :: "pyval \<Rightarrow> pyval \<Rightarrow> pyval option" where
  "py_add (PStr s) (PStr t) = Some (PStr (s @ t))"
| "py_add (PList xs) (PList ys) = Some (PList (xs @ ys))"
| "py_add (PFloat x) b = map_option (\<lambda>y. PFloat (x + y)) (num_of b)"
| "py_add a (PFloat y) = map_option (\<lambda>x. PFloat (x + y)) (num_of a)"
| "py_add a b =
     (case (num_of a, num_of b) of
        (Some x, Some y) \<Rightarrow> Some (PInt (\<lfloor>x\<rfloor> + \<lfloor>y\<rfloor>))
      | _ \<Rightarrow> None)"

fun py_sub :: "pyval \<Rightarrow> pyval \<Rightarrow> pyval option" where
  "py_sub (PFloat x) b = map_option (\<lambda>y. PFloat (x - y)) (num_of b)"
| "py_sub a (PFloat y) = map_option (\<lambda>x. PFloat (x - y)) (num_of a)"
| "py_sub a b =
     (case (num_of a, num_of b) of
        (Some x, Some y) \<Rightarrow> Some (PInt (\<lfloor>x\<rfloor> - \<lfloor>y\<rfloor>))
      | _ \<Rightarrow> None)"

lemma py_add_int [simp]: "py_add (PInt i) (PInt j) = Some (PInt (i + j))"
  by simp

lemma py_sub_int [simp]: "py_sub (PInt i) (PInt j) = Some (PInt (i - j))"
  by simp

text \<open>\<open>int(v)\<close>: truncation of a float, parsing of a string (spaces, a sign, digits).\<close>

definition is_space :: "char \<Rightarrow> bool" where
  "is_space c \<longleftrightarrow> c \<in> {CHR '' '', CHR 0x09, CHR 0x0A, CHR 0x0B, CHR 0x0C, CHR 0x0D,
     CHR 0x1C, CHR 0x1D, CHR 0x1E, CHR 0x1F, CHR 0x85, CHR 0xA0}"

definition lstrip :: "string \<Rightarrow> string" where
  "lstrip s = dropWhile is_space s"

definition strip :: "string \<Rightarrow> string" where
  "strip s = rev (dropWhile is_space (rev (lstrip s)))"

fun digit_val :: "char \<Rightarrow> nat option" where
  "digit_val c = (if CHR ''0'' \<le> c \<and> c \<le> CHR ''9'' then Some (of_char c - 48) else None)"

text \<open>Digits with single underscores between them, as Python's integer literals have.\<close>

fun parse_digits :: "nat \<Rightarrow> string \<Rightarrow> nat option" where
  "parse_digits acc [] = Some acc"
| "parse_digits acc (c # cs) =
     (case digit_val c of
        Some d \<Rightarrow> parse_digits (10 * acc + d) cs
      | None \<Rightarrow>
          (case (c = CHR ''_'', cs) of
             (True, c' # cs') \<Rightarrow>
               (case digit_val c' of Some d \<Rightarrow> parse_digits (10 * acc + d) cs' | None \<Rightarrow> None)
           | _ \<Rightarrow> None))"

definition parse_nat :: "string \<Rightarrow> nat option" where
  "parse_nat s =
     (case s of [] \<Rightarrow> None
      | c # cs \<Rightarrow> (case digit_val c of Some d \<Rightarrow> parse_digits d cs | None \<Rightarrow> None))"

definition parse_int :: "string \<Rightarrow> int option" where
  "parse_int s =
     (case strip s of
        [] \<Rightarrow> None
      | c # cs \<Rightarrow>
          (if c = CHR ''-'' then map_option (\<lambda>n. - int n) (parse_nat cs)
           else if c = CHR ''+'' then map_option int (parse_nat cs)
           else map_option int (parse_nat (c # cs))))"

fun py_int :: "pyval \<Rightarrow> pyexc + int" where
  "py_int (PInt i) = Inr i"
| "py_int (PBool b) = Inr (if b then 1 else 0)"
| "py_int (PFloat q) = Inr (if q < 0 then \<lceil>q\<rceil> else \<lfloor>q\<rfloor>)"
| "py_int (PStr s) =
     (case parse_int s of Some i \<Rightarrow> Inr i
      | None \<Rightarrow> Inl (ValueError (''invalid literal for int() with base 10: '' @ s)))"
| "py_int _ = Inl TypeError"

text \<open>An exception seen by code that does not tell exceptions apart.\<close>

fun res_option :: "'e + 'a \<Rightarrow> 'a option" where
  "res_option (Inl _) = None"
| "res_option (Inr v) = Some v"

subsection \<open>Dictionaries, membership, iteration\<close>

definition dget :: "pydict \<Rightarrow> string \<Rightarrow> pyval \<Rightarrow> pyval" where
  "dget d k dflt = (case map_of d k of None \<Rightarrow> dflt | Some v \<Rightarrow> v)"

text \<open>\<open>obj.get(key, default)\<close> raises AttributeError on anything but a dictionary.\<close>

fun pget :: "pyval \<Rightarrow> string \<Rightarrow> pyval \<Rightarrow> pyval option" where
  "pget (PDict d) k dflt = Some (dget d k dflt)"
| "pget _ k dflt = None"

text \<open>\<open>d[key] = value\<close>: an existing key keeps its place, a new one goes last.\<close>

fun dput :: "'k \<Rightarrow> 'v \<Rightarrow> ('k \<times> 'v) list \<Rightarrow> ('k \<times> 'v) list" where
  "dput k v [] = [(k, v)]"
| "dput k v ((k', v') # d) = (if k = k' then (k, v) # d else (k', v') # dput k v d)"

definition ddel :: "string \<Rightarrow> (string \<times> 'v) list \<Rightarrow> (string \<times> 'v) list" where
  "ddel k d = filter (\<lambda>(k', _). k' \<noteq> k) d"

lemma map_of_dput: "map_of (dput k v d) = (map_of d)(k \<mapsto> v)"
  by (induction d) (auto simp: fun_eq_iff)

lemma dom_dput: "fst ` set (dput k v d) = insert k (fst ` set d)"
proof (induction d)
  case Nil
  show ?case by simp
next
  case (Cons a d)
  then show ?case by (cases a) (simp add: insert_commute)
qed

lemma distinct_dput: "distinct (map fst d) \<Longrightarrow> distinct (map fst (dput k v d))"
proof (induction d)
  case Nil
  show ?case by simp
next
  case (Cons a d)
  then show ?case by (cases a) (simp add: dom_dput)
qed

lemma map_of_ddel: "map_of (ddel k d) = (map_of d)(k := None)"
  by (induction d) (auto simp: ddel_def fun_eq_iff)

lemma dget_dput [simp]: "dget (dput k v d) k' w = (if k' = k then v else dget d k' w)"
  by (simp add: dget_def map_of_dput)

fun substring :: "string \<Rightarrow> string \<Rightarrow> bool" where
  "substring t [] = (t = [])"
| "substring t (c # s) = (take (length t) (c # s) = t \<or> substring t s)"

lemma substring_iff: "substring t s \<longleftrightarrow> (\<exists>u w. s = u @ t @ w)"
proof (induction s)
  case Nil
  then show ?case by auto
next
  case (Cons c s)
  have "take (length t) (c # s) = t \<longleftrightarrow> (\<exists>w. c # s = t @ w)"
    by (metis append_eq_conv_conj append_take_drop_id)
  moreover have "(\<exists>u w. c # s = u @ t @ w) \<longleftrightarrow>
      (\<exists>w. c # s = t @ w) \<or> (\<exists>u w. s = u @ t @ w)"
    by (metis append_Cons append_Nil list.exhaust list.inject)
  ultimately show ?case using Cons.IH by simp
qed

text \<open>\<open>x in container\<close>; looking an unhashable value up in a dictionary raises.\<close>

fun py_in :: "pyval \<Rightarrow> pyval \<Rightarrow> bool option" where
  "py_in x (PList ys) = Some (\<exists>y \<in> set ys. py_eq x y)"
| "py_in (PStr t) (PStr s) = Some (substring t s)"
| "py_in (PStr k) (PDict d) = Some (k \<in> fst ` set d)"
| "py_in (PList _) (PDict d) = None"
| "py_in (PDict _) (PDict d) = None"
| "py_in x (PDict d) = Some False"
| "py_in x _ = None"

lemma py_in_str_list [simp]: "py_in (PStr s) (PList ys) = Some (PStr s \<in> set ys)"
  by auto

text \<open>Iteration: the elements of a list, the characters of a string, the keys of a dictionary.\<close>

fun py_iter :: "pyval \<Rightarrow> pyval list option" where
  "py_iter (PList xs) = Some xs"
| "py_iter (PStr s) = Some (map (\<lambda>c. PStr [c]) s)"
| "py_iter (PDict d) = Some (map (\<lambda>(k, _). PStr k) d)"
| "py_iter _ = None"

fun py_len :: "pyval \<Rightarrow> nat option" where
  "py_len (PList xs) = Some (length xs)"
| "py_len (PStr s) = Some (length s)"
| "py_len (PDict d) = Some (length d)"
| "py_len _ = None"

fun str_of :: "pyval \<Rightarrow> string option" where
  "str_of (PStr s) = Some s"
| "str_of _ = None"

lemma str_of_Some [simp]: "str_of v = Some s \<longleftrightarrow> v = PStr s"
  by (cases v) auto

text \<open>
  \<open>any(p(x) for x in xs)\<close> and \<open>for x in xs: if p(x): break\<close> with a test that may raise: the
  elements after the first hit are not looked at.
\<close>

fun any_m :: "('a \<Rightarrow> bool option) \<Rightarrow> 'a list \<Rightarrow> bool option" where
  "any_m p [] = Some False"
| "any_m p (x # xs) =
     (case p x of None \<Rightarrow> None | Some True \<Rightarrow> Some True | Some False \<Rightarrow> any_m p xs)"

fun find_m :: "('a \<Rightarrow> bool option) \<Rightarrow> 'a list \<Rightarrow> 'a option option" where
  "find_m p [] = Some None"
| "find_m p (x # xs) =
     (case p x of None \<Rightarrow> None | Some True \<Rightarrow> Some (Some x) | Some False \<Rightarrow> find_m p xs)"

fun map_m :: "('a \<Rightarrow> 'b option) \<Rightarrow> 'a list \<Rightarrow> 'b list option" where
  "map_m f [] = Some []"
| "map_m f (x # xs) =
     (case f x of None \<Rightarrow> None
      | Some y \<Rightarrow> (case map_m f xs of None \<Rightarrow> None | Some ys \<Rightarrow> Some (y # ys)))"

text \<open>\<open>[x for x in xs if p(x)]\<close>.\<close>

fun filter_m :: "('a \<Rightarrow> bool option) \<Rightarrow> 'a list \<Rightarrow> 'a list option" where
  "filter_m f [] = Some []"
| "filter_m f (x # xs) =
     do { b \<leftarrow> f x; ys \<leftarrow> filter_m f xs; Some (if b then x # ys else ys) }"

lemma filter_m_Some: "filter_m f xs = Some ys \<Longrightarrow> ys = filter (\<lambda>x. f x = Some True) xs"
  by (induction xs arbitrary: ys) (auto split: Option.bind_splits if_splits)

lemma any_m_True: "any_m p xs = Some True \<Longrightarrow> \<exists>x \<in> set xs. p x = Some True"
  by (induction xs) (auto split: option.splits bool.splits)

lemma any_m_False: "any_m p xs = Some False \<longleftrightarrow> (\<forall>x \<in> set xs. p x = Some False)"
  by (induction xs) (auto split: option.splits bool.splits)

lemma any_m_total: "any_m (\<lambda>x. Some (q x)) xs = Some (\<exists>x \<in> set xs. q x)"
  by (induction xs) (auto split: bool.splits)

lemma find_m_None: "find_m p xs = Some None \<longleftrightarrow> (\<forall>x \<in> set xs. p x = Some False)"
  by (induction xs) (auto split: option.splits bool.splits)

lemma find_m_Some: "find_m p xs = Some (Some x) \<Longrightarrow> x \<in> set xs \<and> p x = Some True"
  by (induction xs) (auto split: option.splits bool.splits)

lemma map_m_Some: "map_m f xs = Some ys \<longleftrightarrow> map f xs = map Some ys"
proof (induction xs arbitrary: ys)
  case Nil
  then show ?case by auto
next
  case (Cons x xs)
  show ?case
    by (cases ys) (auto split: option.splits simp flip: Cons.IH)
qed

section \<open>Text\<close>

definition lower_char :: "char \<Rightarrow> char" where
  "lower_char c = (if CHR ''A'' \<le> c \<and> c \<le> CHR ''Z'' then char_of (of_char c + 32 :: nat) else c)"

definition upper_char :: "char \<Rightarrow> char" where
  "upper_char c = (if CHR ''a'' \<le> c \<and> c \<le> CHR ''z'' then char_of (of_char c - 32 :: nat) else c)"

definition lower :: "string \<Rightarrow> string" where
  "lower s = map lower_char s"

definition upper :: "string \<Rightarrow> string" where
  "upper s = map upper_char s"

definition starts_with :: "string \<Rightarrow> string \<Rightarrow> bool" where
  "starts_with p s \<longleftrightarrow> take (length p) s = p"

lemma starts_with_append [simp]: "starts_with p (p @ s)"
  by (simp add: starts_with_def)

lemma starts_with_iff: "starts_with p s \<longleftrightarrow> (\<exists>t. s = p @ t)"
  by (metis append_eq_conv_conj append_take_drop_id starts_with_def)

fun join :: "string \<Rightarrow> string list \<Rightarrow> string" where
  "join sep [] = []"
| "join sep [s] = s"
| "join sep (s # t # ss) = s @ sep @ join sep (t # ss)"

text \<open>\<open>sep.join(v)\<close> raises unless \<open>v\<close> is iterable and every element is a string.\<close>

definition py_join :: "string \<Rightarrow> pyval \<Rightarrow> string option" where
  "py_join sep v = do { xs \<leftarrow> py_iter v; ss \<leftarrow> map_m str_of xs; Some (join sep ss) }"

fun show_nat :: "nat \<Rightarrow> string" where
  "show_nat n = (if n < 10 then [''0123456789'' ! n] else show_nat (n div 10) @ [''0123456789'' ! (n mod 10)])"

declare show_nat.simps [simp del]

definition show_int :: "int \<Rightarrow> string" where
  "show_int i = (if i < 0 then ''-'' @ show_nat (nat (- i)) else show_nat (nat i))"

text \<open>Rounding to the nearest integer, ties to the even one.\<close>

definition round_half_even :: "rat \<Rightarrow> int" where
  "round_half_even q =
     (let f = \<lfloor>q\<rfloor>; r = q - of_int f in
      if r < 1 / 2 then f else if 1 / 2 < r then f + 1 else if even f then f else f + 1)"

definition pad_zeros :: "nat \<Rightarrow> string \<Rightarrow> string" where
  "pad_zeros n s = replicate (n - length s) (CHR ''0'') @ s"

text \<open>\<open>f"{q:.df}"\<close>, and \<open>str(q)\<close> cut after sixteen decimal places.\<close>

definition fmt_fixed :: "nat \<Rightarrow> rat \<Rightarrow> string" where
  "fmt_fixed d q =
     (let n = nat (round_half_even (\<bar>q\<bar> * 10 ^ d)); sgn = (if q < 0 then ''-'' else [])
      in if d = 0 then sgn @ show_nat n
         else sgn @ show_nat (n div 10 ^ d) @ ''.'' @ pad_zeros d (show_nat (n mod 10 ^ d)))"

definition show_float :: "rat \<Rightarrow> string" where
  "show_float q =
     (let s = fmt_fixed 16 q; t = rev (dropWhile (\<lambda>c. c = CHR ''0'') (rev s))
      in if t \<noteq> [] \<and> last t = CHR ''.'' then t @ ''0'' else t)"

text \<open>\<open>str(v)\<close>, which an f-string applies; inside a container the elements print by \<open>repr\<close>.\<close>

primrec py_repr :: "pyval \<Rightarrow> string" where
  "py_repr PNone = ''None''"
| "py_repr (PBool b) = (if b then ''True'' else ''False'')"
| "py_repr (PInt i) = show_int i"
| "py_repr (PFloat q) = show_float q"
| "py_repr (PStr s) = [CHR 0x27] @ s @ [CHR 0x27]"
| "py_repr (PList xs) = ''['' @ join '', '' (map py_repr xs) @ '']''"
| "py_repr (PDict kvs) =
     ''{'' @ join '', '' (map (\<lambda>(k, s). [CHR 0x27] @ k @ [CHR 0x27] @ '': '' @ s)
       (map (map_prod id py_repr) kvs)) @ ''}''"

fun py_str :: "pyval \<Rightarrow> string" where
  "py_str (PStr s) = s"
| "py_str v = py_repr v"

text \<open>A single quote of a message.\<close>

definition sq :: string where
  "sq = [CHR 0x27]"

definition quoted :: "string \<Rightarrow> string" where
  "quoted s = sq @ s @ sq"

lemma lower_char_idem [simp]: "lower_char (lower_char c) = lower_char c"
proof (cases "CHR ''A'' \<le> c \<and> c \<le> CHR ''Z''")
  case True
  then have "65 \<le> (of_char c :: nat)" "(of_char c :: nat) \<le> 90"
    by (simp_all add: less_eq_char_def)
  then have "(of_char (lower_char c) :: nat) = of_char c + 32"
    using True by (simp add: lower_char_def)
  with \<open>65 \<le> of_char c\<close> have "\<not> lower_char c \<le> CHR ''Z''"
    by (simp add: less_eq_char_def)
  then show ?thesis unfolding lower_char_def [of "lower_char c"] by simp
next
  case False
  then have "lower_char c = c" unfolding lower_char_def by (rule if_not_P)
  then show ?thesis by simp
qed

lemma lower_idem [simp]: "lower (lower s) = lower s"
  by (simp add: lower_def)

lemma lower_append [simp]: "lower (s @ t) = lower s @ lower t"
  by (simp add: lower_def)

section \<open>Conditions that may raise\<close>

text \<open>\<open>if c: t else: e\<close>, \<open>a and b\<close> (short-circuit) and \<open>not a\<close> over tests that may raise.\<close>

definition if_m :: "bool option \<Rightarrow> 'a option \<Rightarrow> 'a option \<Rightarrow> 'a option" where
  "if_m c t e = (case c of None \<Rightarrow> None | Some b \<Rightarrow> if b then t else e)"

definition and_m :: "bool option \<Rightarrow> bool option \<Rightarrow> bool option" where
  "and_m a b = (case a of None \<Rightarrow> None | Some x \<Rightarrow> if x then b else Some False)"

definition not_m :: "bool option \<Rightarrow> bool option" where
  "not_m a = map_option Not a"

lemma if_m_Some [simp]: "if_m (Some b) t e = (if b then t else e)" "if_m None t e = None"
  by (simp_all add: if_m_def)

lemma and_m_Some [simp]: "and_m (Some a) b = (if a then b else Some False)" "and_m None b = None"
  by (simp_all add: and_m_def)

lemma not_m_Some [simp]: "not_m (Some a) = Some (\<not> a)" "not_m None = None"
  by (simp_all add: not_m_def)

lemma if_m_eq_Some: "if_m c t e = Some x \<longleftrightarrow> (c = Some True \<and> t = Some x) \<or> (c = Some False \<and> e = Some x)"
  by (auto simp: if_m_def split: option.splits if_splits)

text \<open>\<open>d[k]\<close> raises on a missing key; \<open>v.lower()\<close> raises on anything but a string.\<close>

fun pindex :: "pyval \<Rightarrow> string \<Rightarrow> pyval option" where
  "pindex (PDict d) k = map_of d k"
| "pindex _ k = None"

definition py_lower :: "pyval \<Rightarrow> string option" where
  "py_lower v = map_option lower (str_of v)"

definition py_upper :: "pyval \<Rightarrow> string option" where
  "py_upper v = map_option upper (str_of v)"

lemma py_lower_str [simp]: "py_lower (PStr s) = Some (lower s)"
  by (simp add: py_lower_def)

text \<open>\<open>v in ('a', 'b')\<close> for a tuple of strings: no value but such a string is equal to one.\<close>

definition one_of :: "pyval \<Rightarrow> string list \<Rightarrow> bool" where
  "one_of v ss \<longleftrightarrow> list_ex (\<lambda>s. v = PStr s) ss"

lemma one_of_iff: "one_of v ss \<longleftrightarrow> v \<in> PStr ` set ss"
  by (auto simp: one_of_def list_ex_iff)

end
