(* ===== verification/Cache.thy ===== *)
theory Cache
  imports PyPrelude
begin

text \<open>
  The Django cache (\<open>django.core.cache.cache\<close>), a service outside the repository: a record of the
  operations the code calls, over an abstract cache state. \<open>None\<close> of \<open>c_get\<close> is a missing key and
  \<open>None\<close> of \<open>c_incr\<close> and \<open>c_decr\<close> is the ValueError Django raises for a missing key; both
  may happen at any time, since entries expire. \<open>cache_laws\<close> is the documented behaviour the
  proofs use; \<open>dict_cache\<close> is a cache in memory that has it.
\<close>

section \<open>The operations\<close>

record 'c cache_ops =
  c_get :: "string \<Rightarrow> 'c \<Rightarrow> pyval option"
  c_add :: "string \<Rightarrow> pyval \<Rightarrow> int option \<Rightarrow> 'c \<Rightarrow> bool \<times> 'c"
  c_set :: "string \<Rightarrow> pyval \<Rightarrow> int option \<Rightarrow> 'c \<Rightarrow> 'c"
  c_incr :: "string \<Rightarrow> int \<Rightarrow> 'c \<Rightarrow> (int \<times> 'c) option"
  c_decr :: "string \<Rightarrow> int \<Rightarrow> 'c \<Rightarrow> (int \<times> 'c) option"
  c_touch :: "string \<Rightarrow> int option \<Rightarrow> 'c \<Rightarrow> 'c"
  c_delete :: "string \<Rightarrow> 'c \<Rightarrow> 'c"

text \<open>\<open>cache.get(key, default)\<close>, and \<open>cache.get(key) or 0\<close> where a number is stored.\<close>

definition cache_get_default :: "'c cache_ops \<Rightarrow> string \<Rightarrow> pyval \<Rightarrow> 'c \<Rightarrow> pyval" where
  "cache_get_default ops k dflt c = (case c_get ops k c of None \<Rightarrow> dflt | Some v \<Rightarrow> v)"

section \<open>Documented behaviour\<close>

text \<open>
  A cache that loses no entry between two operations: reads return the last write, \<open>add\<close> writes
  only a missing key, \<open>incr\<close> adds to the stored integer and fails only on a missing key, and no
  operation touches another key.
\<close>

definition count_law ::
  "'c cache_ops \<Rightarrow> (string \<Rightarrow> int \<Rightarrow> 'c \<Rightarrow> (int \<times> 'c) option) \<Rightarrow> (int \<Rightarrow> int \<Rightarrow> int) \<Rightarrow> bool" where
  "count_law ops step f \<longleftrightarrow>
     (\<forall>k d i c. c_get ops k c = Some (PInt i) \<longrightarrow>
        (\<exists>c'. step k d c = Some (f i d, c') \<and> c_get ops k c' = Some (PInt (f i d)) \<and>
          (\<forall>k'. k' \<noteq> k \<longrightarrow> c_get ops k' c' = c_get ops k' c)))"

lemma count_law_present:
  assumes "count_law ops step f" "c_get ops k c = Some (PInt i)"
  obtains c' where "step k d c = Some (f i d, c')" "c_get ops k c' = Some (PInt (f i d))"
    "\<And>k'. k' \<noteq> k \<Longrightarrow> c_get ops k' c' = c_get ops k' c"
  using assms unfolding count_law_def by blast

definition cache_laws :: "'c cache_ops \<Rightarrow> bool" where
  "cache_laws ops \<longleftrightarrow>
     (\<forall>k v t c. c_get ops k (snd (c_add ops k v t c)) =
        (case c_get ops k c of None \<Rightarrow> Some v | Some w \<Rightarrow> Some w)) \<and>
     (\<forall>k k' v t c. k' \<noteq> k \<longrightarrow> c_get ops k' (snd (c_add ops k v t c)) = c_get ops k' c) \<and>
     (\<forall>k k' v t c. c_get ops k' (c_set ops k v t c) = (if k' = k then Some v else c_get ops k' c)) \<and>
     count_law ops (c_incr ops) (+) \<and>
     count_law ops (c_decr ops) (-) \<and>
     (\<forall>k k' t c. c_get ops k' (c_touch ops k t c) = c_get ops k' c) \<and>
     (\<forall>k k' c. c_get ops k' (c_delete ops k c) = (if k' = k then None else c_get ops k' c))"

named_theorems cache_simps \<open>what a lawful cache answers after each operation\<close>

lemma get_after_add [cache_simps]:
  "cache_laws ops \<Longrightarrow> c_get ops k (snd (c_add ops k v t c)) =
     Some (case c_get ops k c of None \<Rightarrow> v | Some w \<Rightarrow> w)"
  by (simp add: cache_laws_def split: option.splits)

lemma get_after_add_other [cache_simps]:
  "cache_laws ops \<Longrightarrow> k' \<noteq> k \<Longrightarrow> c_get ops k' (snd (c_add ops k v t c)) = c_get ops k' c"
  by (simp add: cache_laws_def)

lemma get_after_set [cache_simps]:
  "cache_laws ops \<Longrightarrow> c_get ops k' (c_set ops k v t c) = (if k' = k then Some v else c_get ops k' c)"
  by (simp add: cache_laws_def)

lemma get_after_touch [cache_simps]:
  "cache_laws ops \<Longrightarrow> c_get ops k' (c_touch ops k t c) = c_get ops k' c"
  by (simp add: cache_laws_def)

lemma get_after_delete [cache_simps]:
  "cache_laws ops \<Longrightarrow> c_get ops k' (c_delete ops k c) = (if k' = k then None else c_get ops k' c)"
  by (simp add: cache_laws_def)

lemma incr_present:
  assumes "cache_laws ops" "c_get ops k c = Some (PInt i)"
  obtains c' where "c_incr ops k d c = Some (i + d, c')" "c_get ops k c' = Some (PInt (i + d))"
    "\<And>k'. k' \<noteq> k \<Longrightarrow> c_get ops k' c' = c_get ops k' c"
  using assms count_law_present [of ops "c_incr ops" "(+)" k c i d] unfolding cache_laws_def by metis

lemma decr_present:
  assumes "cache_laws ops" "c_get ops k c = Some (PInt i)"
  obtains c' where "c_decr ops k d c = Some (i - d, c')" "c_get ops k c' = Some (PInt (i - d))"
    "\<And>k'. k' \<noteq> k \<Longrightarrow> c_get ops k' c' = c_get ops k' c"
  using assms count_law_present [of ops "c_decr ops" "(-)" k c i d] unfolding cache_laws_def by metis

section \<open>A cache in memory\<close>

type_synonym mem_cache = "(string \<times> pyval) list"

definition mem_incr :: "string \<Rightarrow> int \<Rightarrow> mem_cache \<Rightarrow> (int \<times> mem_cache) option" where
  "mem_incr k d c =
     (case map_of c k of
        Some (PInt i) \<Rightarrow> Some (i + d, dput k (PInt (i + d)) c)
      | _ \<Rightarrow> None)"

definition dict_cache :: "mem_cache cache_ops" where
  "dict_cache =
     \<lparr>c_get = (\<lambda>k c. map_of c k),
      c_add = (\<lambda>k v t c. case map_of c k of None \<Rightarrow> (True, dput k v c) | Some _ \<Rightarrow> (False, c)),
      c_set = (\<lambda>k v t c. dput k v c),
      c_incr = mem_incr,
      c_decr = (\<lambda>k d. mem_incr k (- d)),
      c_touch = (\<lambda>k t c. c),
      c_delete = ddel\<rparr>"

lemma dict_cache_laws: "cache_laws dict_cache"
  by (auto simp: cache_laws_def count_law_def dict_cache_def map_of_dput map_of_ddel mem_incr_def
      split: option.splits)

end
