(* ===== verification/Actions.thy ===== *)
theory Actions
  imports Cache "HOL-Library.Product_Lexorder"
begin

text \<open>
  The action set and what a matched rule does: \<open>models/actions.py\<close> and \<open>services/actions.py\<close>.
  The enumerations with their order, the validation that brings a rule's settings into canonical
  form, the decision of one matched rule (escalation, then the mode's cap), the fallback chain of
  an action and the choice of the strongest decision.
\<close>

section \<open>The ordered enumerations\<close>

datatype action = LOG | ALERT | WARN | STEER | REDACT | REQUIRE_APPROVAL | BLOCK

datatype block_level = TOOL_CALL | TURN | REVOKE_KEY | STOP | QUARANTINE

datatype severity = INFO | LOW | MEDIUM | HIGH | CRITICAL

datatype mode = ENFORCE | AUDIT | DISABLED

text \<open>The strings the enumerations are stored as, in \<open>ACTION_ORDER\<close> and so on.\<close>

fun action_value :: "action \<Rightarrow> string" where
  "action_value LOG = ''log''"
| "action_value ALERT = ''alert''"
| "action_value WARN = ''warn''"
| "action_value STEER = ''steer''"
| "action_value REDACT = ''redact''"
| "action_value REQUIRE_APPROVAL = ''require_approval''"
| "action_value BLOCK = ''block''"

fun level_value :: "block_level \<Rightarrow> string" where
  "level_value TOOL_CALL = ''tool_call''"
| "level_value TURN = ''turn''"
| "level_value REVOKE_KEY = ''revoke_key''"
| "level_value STOP = ''stop''"
| "level_value QUARANTINE = ''quarantine''"

fun severity_value :: "severity \<Rightarrow> string" where
  "severity_value INFO = ''info''"
| "severity_value LOW = ''low''"
| "severity_value MEDIUM = ''medium''"
| "severity_value HIGH = ''high''"
| "severity_value CRITICAL = ''critical''"

fun mode_value :: "mode \<Rightarrow> string" where
  "mode_value ENFORCE = ''enforce''"
| "mode_value AUDIT = ''audit''"
| "mode_value DISABLED = ''disabled''"

definition ACTION_ORDER :: "action list" where
  "ACTION_ORDER = [LOG, ALERT, WARN, STEER, REDACT, REQUIRE_APPROVAL, BLOCK]"

definition BLOCK_LEVEL_ORDER :: "block_level list" where
  "BLOCK_LEVEL_ORDER = [TOOL_CALL, TURN, REVOKE_KEY, STOP, QUARANTINE]"

definition SEVERITY_ORDER :: "severity list" where
  "SEVERITY_ORDER = [INFO, LOW, MEDIUM, HIGH, CRITICAL]"

text \<open>\<open>ORDER.index(x)\<close>.\<close>

fun index_of :: "'a \<Rightarrow> 'a list \<Rightarrow> nat" where
  "index_of x [] = 0"
| "index_of x (y # ys) = (if x = y then 0 else Suc (index_of x ys))"

definition action_index :: "action \<Rightarrow> nat" where
  "action_index a = index_of a ACTION_ORDER"

definition level_index :: "block_level \<Rightarrow> nat" where
  "level_index l = index_of l BLOCK_LEVEL_ORDER"

definition severity_index :: "severity \<Rightarrow> nat" where
  "severity_index s = index_of s SEVERITY_ORDER"

lemma action_index_simps [simp]:
  "action_index LOG = 0" "action_index ALERT = 1" "action_index WARN = 2" "action_index STEER = 3"
  "action_index REDACT = 4" "action_index REQUIRE_APPROVAL = 5" "action_index BLOCK = 6"
  by (simp_all add: action_index_def ACTION_ORDER_def)

lemma level_index_simps [simp]:
  "level_index TOOL_CALL = 0" "level_index TURN = 1" "level_index REVOKE_KEY = 2"
  "level_index STOP = 3" "level_index QUARANTINE = 4"
  by (simp_all add: level_index_def BLOCK_LEVEL_ORDER_def)

lemma severity_index_simps [simp]:
  "severity_index INFO = 0" "severity_index LOW = 1" "severity_index MEDIUM = 2"
  "severity_index HIGH = 3" "severity_index CRITICAL = 4"
  by (simp_all add: severity_index_def SEVERITY_ORDER_def)

lemma action_index_inject [simp]: "action_index a = action_index b \<longleftrightarrow> a = b"
  by (cases a; cases b) simp_all

lemma level_index_inject [simp]: "level_index a = level_index b \<longleftrightarrow> a = b"
  by (cases a; cases b) simp_all

lemma severity_index_inject [simp]: "severity_index a = severity_index b \<longleftrightarrow> a = b"
  by (cases a; cases b) simp_all

instantiation action :: linorder
begin

definition less_eq_action :: "action \<Rightarrow> action \<Rightarrow> bool" where
  "less_eq_action a b \<longleftrightarrow> action_index a \<le> action_index b"

definition less_action :: "action \<Rightarrow> action \<Rightarrow> bool" where
  "less_action a b \<longleftrightarrow> action_index a < action_index b"

instance
  by intro_classes (auto simp: less_eq_action_def less_action_def antisym)

end

instantiation severity :: linorder
begin

definition less_eq_severity :: "severity \<Rightarrow> severity \<Rightarrow> bool" where
  "less_eq_severity a b \<longleftrightarrow> severity_index a \<le> severity_index b"

definition less_severity :: "severity \<Rightarrow> severity \<Rightarrow> bool" where
  "less_severity a b \<longleftrightarrow> severity_index a < severity_index b"

instance
  by intro_classes (auto simp: less_eq_severity_def less_severity_def antisym)

end

text \<open>Reading a stored string: \<open>x in ORDER\<close>, \<open>ORDER.index(x)\<close>.\<close>

definition of_value :: "('a \<Rightarrow> string) \<Rightarrow> 'a list \<Rightarrow> pyval \<Rightarrow> 'a option" where
  "of_value f order v = find (\<lambda>x. v = PStr (f x)) order"

definition action_of :: "pyval \<Rightarrow> action option" where
  "action_of = of_value action_value ACTION_ORDER"

definition level_of :: "pyval \<Rightarrow> block_level option" where
  "level_of = of_value level_value BLOCK_LEVEL_ORDER"

definition severity_of :: "pyval \<Rightarrow> severity option" where
  "severity_of = of_value severity_value SEVERITY_ORDER"

lemma action_of_value [simp]: "action_of (PStr (action_value a)) = Some a"
  by (cases a) (simp_all add: action_of_def of_value_def ACTION_ORDER_def)

lemma level_of_value [simp]: "level_of (PStr (level_value l)) = Some l"
  by (cases l) (simp_all add: level_of_def of_value_def BLOCK_LEVEL_ORDER_def)

lemma severity_of_value [simp]: "severity_of (PStr (severity_value s)) = Some s"
  by (cases s) (simp_all add: severity_of_def of_value_def SEVERITY_ORDER_def)

lemma of_value_Some: "of_value f order v = Some x \<Longrightarrow> v = PStr (f x)"
  by (auto simp: of_value_def find_Some_iff)

lemma action_of_Some: "action_of v = Some a \<longleftrightarrow> v = PStr (action_value a)"
  using of_value_Some [of action_value ACTION_ORDER v a] by (auto simp flip: action_of_def)

lemma level_of_Some: "level_of v = Some l \<longleftrightarrow> v = PStr (level_value l)"
  using of_value_Some [of level_value BLOCK_LEVEL_ORDER v l] by (auto simp flip: level_of_def)

lemma severity_of_Some: "severity_of v = Some s \<longleftrightarrow> v = PStr (severity_value s)"
  using of_value_Some [of severity_value SEVERITY_ORDER v s] by (auto simp flip: severity_of_def)

lemma action_value_inject [simp]: "action_value a = action_value b \<longleftrightarrow> a = b"
  by (metis action_of_value option.inject)

lemma level_value_inject [simp]: "level_value l = level_value m \<longleftrightarrow> l = m"
  by (metis level_of_value option.inject)

lemma severity_value_inject [simp]: "severity_value s = severity_value t \<longleftrightarrow> s = t"
  by (metis severity_of_value option.inject)

section \<open>Rank\<close>

text \<open>\<open>rank\<close>: position in the ordered set; block levels order the blocks.\<close>

definition rank :: "action \<Rightarrow> block_level option \<Rightarrow> nat \<times> int" where
  "rank a bl =
     (action_index a,
      case bl of Some l \<Rightarrow> if a = BLOCK then int (level_index l) else - 1 | None \<Rightarrow> - 1)"

definition level_for :: "action \<Rightarrow> block_level option \<Rightarrow> block_level option" where
  "level_for a bl = (if a \<noteq> BLOCK then None else case bl of Some l \<Rightarrow> Some l | None \<Rightarrow> Some TOOL_CALL)"

text \<open>A well-formed pair: exactly a block has a level. On these \<open>rank\<close> is injective.\<close>

definition wf_pair :: "action \<Rightarrow> block_level option \<Rightarrow> bool" where
  "wf_pair a bl \<longleftrightarrow> (a = BLOCK \<longleftrightarrow> bl \<noteq> None)"

lemma wf_pair_level_for [simp]: "wf_pair a (level_for a bl)"
  by (cases bl) (auto simp: wf_pair_def level_for_def)

lemma rank_inject: "wf_pair a l \<Longrightarrow> wf_pair b m \<Longrightarrow> rank a l = rank b m \<longleftrightarrow> a = b \<and> l = m"
  by (auto simp: rank_def wf_pair_def split: option.splits if_splits)

lemma fst_rank [simp]: "fst (rank a l) = action_index a"
  by (simp add: rank_def)

lemma rank_le_action: "rank a l \<le> rank b m \<Longrightarrow> a \<le> b"
  by (auto simp: rank_def less_eq_action_def less_eq_prod_def)

section \<open>Escalation settings\<close>

text \<open>
  A step in canonical form; the threshold is a count for \<open>repeat\<close> steps and a severity for
  \<open>severity\<close> steps. An escalation without \<open>repeat\<close> steps has no window.
\<close>

record 't step =
  step_at :: 't
  step_action :: action
  step_level :: "block_level option"

record escalation =
  esc_window :: int
  esc_repeat :: "int step list"
  esc_severity :: "severity step list"

definition no_escalation :: escalation where
  "no_escalation = \<lparr>esc_window = 0, esc_repeat = [], esc_severity = []\<rparr>"

definition MAX_STEPS :: nat where "MAX_STEPS = 10"
definition MAX_REPEAT_COUNT :: int where "MAX_REPEAT_COUNT = 10000"
definition MAX_WINDOW_SECONDS :: int where "MAX_WINDOW_SECONDS = 7 * 24 * 3600"
definition MAX_STEER_MESSAGE :: nat where "MAX_STEER_MESSAGE = 2000"
definition MAX_RENDERED_STEER :: nat where "MAX_RENDERED_STEER = 4000"
definition MAX_STEER_VALUE :: nat where "MAX_STEER_VALUE = 200"

text \<open>The two kinds of threshold: how one is read, its place in the order, how it is stored.\<close>

record 't threshold =
  th_key :: string
  th_read :: "pyval \<Rightarrow> string + 't"
  th_ordinal :: "'t \<Rightarrow> int"
  th_value :: "'t \<Rightarrow> pyval"

fun read_count :: "pyval \<Rightarrow> string + int" where
  "read_count (PInt n) =
     (if 2 \<le> n \<and> n \<le> MAX_REPEAT_COUNT then Inr n
      else Inl (''repeat count must be a whole number from 2 to 10000; the rule'' @ sq @
             ''s own action applies to the first match''))"
| "read_count _ =
     Inl (''repeat count must be a whole number from 2 to 10000; the rule'' @ sq @
       ''s own action applies to the first match'')"

definition read_severity :: "pyval \<Rightarrow> string + severity" where
  "read_severity v =
     (case severity_of v of Some s \<Rightarrow> Inr s
      | None \<Rightarrow> Inl (''min_severity must be one of '' @ join '', '' (map severity_value SEVERITY_ORDER)))"

definition count_threshold :: "int threshold" where
  "count_threshold =
     \<lparr>th_key = ''count'', th_read = read_count, th_ordinal = id, th_value = PInt\<rparr>"

definition severity_threshold :: "severity threshold" where
  "severity_threshold =
     \<lparr>th_key = ''min_severity'', th_read = read_severity,
      th_ordinal = (\<lambda>s. int (severity_index s)), th_value = (\<lambda>s. PStr (severity_value s))\<rparr>"

definition read_action :: "string \<Rightarrow> pyval \<Rightarrow> string + action" where
  "read_action what v =
     (case action_of v of Some a \<Rightarrow> Inr a
      | None \<Rightarrow> Inl (what @ '' must be one of '' @ join '', '' (map action_value ACTION_ORDER)))"

definition read_level :: "pyval \<Rightarrow> string + block_level" where
  "read_level v =
     (case level_of v of Some l \<Rightarrow> Inr l
      | None \<Rightarrow> Inl (''block_level must be one of '' @ join '', '' (map level_value BLOCK_LEVEL_ORDER)))"

text \<open>One pass of the loop of \<open>_steps\<close>: the previous ordinal and rank are its state.\<close>

definition read_step ::
  "'t threshold \<Rightarrow> int option \<Rightarrow> nat \<times> int \<Rightarrow> pyval \<Rightarrow> string + 't step" where
  "read_step th prev_threshold prev_rank raw =
     (case raw of
        PDict d \<Rightarrow>
          if fst ` set d - {th_key th, ''action'', ''block_level''} \<noteq> {}
          then Inl (''each escalation step takes '' @ th_key th @ '', action and block_level'')
          else
            rbind (th_read th (dget d (th_key th) PNone)) (\<lambda>t.
            rbind (read_action ''escalation action'' (dget d ''action'' PNone)) (\<lambda>a.
            rbind (let l = dget d ''block_level'' PNone in
                   if a = BLOCK
                   then rbind (read_level (py_or l (PStr (level_value TOOL_CALL)))) (\<lambda>bl. Inr (Some bl))
                   else if l \<noteq> PNone then Inl ''block_level only applies to block''
                   else Inr None) (\<lambda>bl.
            if (case prev_threshold of Some p \<Rightarrow> th_ordinal th t \<le> p | None \<Rightarrow> False)
            then Inl (''escalation '' @ th_key th @ '' thresholds must increase'')
            else if rank a bl \<le> prev_rank
            then Inl ''each escalation step must be stronger than the action before it''
            else Inr \<lparr>step_at = t, step_action = a, step_level = bl\<rparr>)))
      | _ \<Rightarrow> Inl (''each escalation step takes '' @ th_key th @ '', action and block_level''))"

fun read_steps ::
  "'t threshold \<Rightarrow> int option \<Rightarrow> nat \<times> int \<Rightarrow> pyval list \<Rightarrow> string + 't step list" where
  "read_steps th prev_threshold prev_rank [] = Inr []"
| "read_steps th prev_threshold prev_rank (raw # raws) =
     rbind (read_step th prev_threshold prev_rank raw) (\<lambda>st.
     rbind (read_steps th (Some (th_ordinal th (step_at st)))
              (rank (step_action st) (step_level st)) raws) (\<lambda>sts.
     Inr (st # sts)))"

definition steps_of :: "'t threshold \<Rightarrow> nat \<times> int \<Rightarrow> pyval \<Rightarrow> string + 't step list" where
  "steps_of th base raw =
     (case raw of
        PList raws \<Rightarrow>
          if length raws > MAX_STEPS
          then Inl (''escalation '' @ th_key th @ '' steps must be a list of at most 10'')
          else read_steps th None base raws
      | _ \<Rightarrow> Inl (''escalation '' @ th_key th @ '' steps must be a list of at most 10''))"

fun read_window :: "pyval \<Rightarrow> string + int" where
  "read_window (PInt w) =
     (if 1 \<le> w \<and> w \<le> MAX_WINDOW_SECONDS then Inr w
      else Inl ''window_seconds must be a whole number from 1 to 604800'')"
| "read_window _ = Inl ''window_seconds must be a whole number from 1 to 604800''"

definition escalation_keys :: "string list" where
  "escalation_keys = [''window_seconds'', ''repeat'', ''severity'']"

text \<open>\<open>normalize_escalation\<close>: the canonical form, or the message of the ValueError.\<close>

definition normalize_escalation ::
  "pyval \<Rightarrow> action \<Rightarrow> block_level option \<Rightarrow> string + escalation" where
  "normalize_escalation raw a bl =
     (case raw of
        PNone \<Rightarrow> Inr no_escalation
      | PDict d \<Rightarrow>
          if d = [] then Inr no_escalation
          else
            (let unknown = filter (\<lambda>k. k \<notin> set escalation_keys) (sort (remdups (map fst d)));
                 base = rank a (level_for a bl)
             in if unknown \<noteq> [] then Inl (''unknown escalation keys: '' @ join '', '' unknown)
                else
                  rbind (steps_of count_threshold base (dget d ''repeat'' (PList []))) (\<lambda>rep.
                  rbind (if rep \<noteq> [] then read_window (dget d ''window_seconds'' PNone)
                         else if ''window_seconds'' \<in> fst ` set d
                         then Inl ''window_seconds applies only to repeat steps''
                         else Inr 0) (\<lambda>w.
                  rbind (steps_of severity_threshold base (dget d ''severity'' (PList []))) (\<lambda>sev.
                  Inr \<lparr>esc_window = w, esc_repeat = rep, esc_severity = sev\<rparr>))))
      | _ \<Rightarrow> Inl ''escalation must be an object'')"

text \<open>The dictionary the code returns and the models store.\<close>

definition step_json :: "'t threshold \<Rightarrow> 't step \<Rightarrow> pyval" where
  "step_json th st =
     PDict ([(th_key th, th_value th (step_at st)), (''action'', PStr (action_value (step_action st)))] @
       (case step_level st of Some l \<Rightarrow> [(''block_level'', PStr (level_value l))] | None \<Rightarrow> []))"

definition escalation_json :: "escalation \<Rightarrow> pyval" where
  "escalation_json e =
     PDict ((if esc_repeat e \<noteq> []
             then [(''window_seconds'', PInt (esc_window e)),
                   (''repeat'', PList (map (step_json count_threshold) (esc_repeat e)))] else []) @
            (if esc_severity e \<noteq> []
             then [(''severity'', PList (map (step_json severity_threshold) (esc_severity e)))] else []))"

subsection \<open>What the canonical form guarantees\<close>

definition step_rank :: "'t step \<Rightarrow> nat \<times> int" where
  "step_rank st = rank (step_action st) (step_level st)"

text \<open>The loop invariant of \<open>_steps\<close>, as a check of a finished list.\<close>

fun steps_ok :: "'t threshold \<Rightarrow> int option \<Rightarrow> nat \<times> int \<Rightarrow> 't step list \<Rightarrow> bool" where
  "steps_ok th prev base [] = True"
| "steps_ok th prev base (st # sts) =
     (th_read th (th_value th (step_at st)) = Inr (step_at st) \<and>
      (case prev of Some p \<Rightarrow> p < th_ordinal th (step_at st) | None \<Rightarrow> True) \<and>
      wf_pair (step_action st) (step_level st) \<and>
      base < step_rank st \<and>
      steps_ok th (Some (th_ordinal th (step_at st))) (step_rank st) sts)"

definition good_threshold :: "'t threshold \<Rightarrow> bool" where
  "good_threshold th \<longleftrightarrow> th_key th \<notin> {''action'', ''block_level''} \<and>
     (\<forall>v t. th_read th v = Inr t \<longrightarrow> th_read th (th_value th t) = Inr t)"

lemma threshold_ordinals [simp]:
  "th_ordinal count_threshold n = n" "th_ordinal severity_threshold s = int (severity_index s)"
  by (simp_all add: count_threshold_def severity_threshold_def)

lemma good_count_threshold [simp]: "good_threshold count_threshold"
  unfolding good_threshold_def count_threshold_def
  by (auto elim!: read_count.elims split: if_splits)

lemma good_severity_threshold [simp]: "good_threshold severity_threshold"
  by (auto simp: good_threshold_def severity_threshold_def read_severity_def split: option.splits)

lemma read_step_ok:
  assumes "read_step th prev base raw = Inr st" "good_threshold th"
  shows "th_read th (th_value th (step_at st)) = Inr (step_at st)"
    "case prev of Some p \<Rightarrow> p < th_ordinal th (step_at st) | None \<Rightarrow> True"
    "wf_pair (step_action st) (step_level st)" "base < step_rank st"
  using assms
  by (auto simp: read_step_def good_threshold_def step_rank_def Let_def wf_pair_def
      split: pyval.splits if_splits option.splits)

lemma read_steps_ok:
  "read_steps th prev base raws = Inr sts \<Longrightarrow> good_threshold th \<Longrightarrow>
   steps_ok th prev base sts \<and> length sts = length raws"
proof (induction raws arbitrary: prev base sts)
  case Nil
  then show ?case by simp
next
  case (Cons raw raws)
  then obtain st rest where "read_step th prev base raw = Inr st" "sts = st # rest"
    "read_steps th (Some (th_ordinal th (step_at st))) (step_rank st) raws = Inr rest"
    by (auto simp: step_rank_def)
  with Cons.IH Cons.prems(2) read_step_ok [of th prev base raw st] show ?case by auto
qed

lemma steps_of_ok:
  "steps_of th base raw = Inr sts \<Longrightarrow> good_threshold th \<Longrightarrow>
   steps_ok th None base sts \<and> length sts \<le> MAX_STEPS"
  by (auto simp: steps_of_def split: pyval.splits if_splits dest: read_steps_ok)

lemma read_level_value [simp]: "read_level (PStr (level_value l)) = Inr l"
  by (simp add: read_level_def)

lemma read_action_value [simp]: "read_action what (PStr (action_value a)) = Inr a"
  by (simp add: read_action_def)

lemma read_action_Inr [simp]: "read_action what v = Inr a \<longleftrightarrow> v = PStr (action_value a)"
  by (auto simp: read_action_def simp flip: action_of_Some split: option.splits)

lemma read_level_Inr [simp]: "read_level v = Inr l \<longleftrightarrow> v = PStr (level_value l)"
  by (auto simp: read_level_def simp flip: level_of_Some split: option.splits)

lemma level_value_not_Nil [simp]: "level_value l \<noteq> []"
  by (cases l) simp_all

lemma read_step_json:
  assumes "good_threshold th" "th_read th (th_value th (step_at st)) = Inr (step_at st)"
    "case prev of Some p \<Rightarrow> p < th_ordinal th (step_at st) | None \<Rightarrow> True"
    "wf_pair (step_action st) (step_level st)" "base < step_rank st"
  shows "read_step th prev base (step_json th st) = Inr st"
proof -
  have key: "th_key th \<noteq> ''action''" "th_key th \<noteq> ''block_level''"
    using assms(1) by (auto simp: good_threshold_def)
  show ?thesis
  proof (cases "step_level st")
    case None
    with assms key show ?thesis
      by (auto simp: read_step_def step_json_def dget_def wf_pair_def step_rank_def Let_def
          split: option.splits)
  next
    case (Some l)
    with assms(4) have "step_action st = BLOCK" by (simp add: wf_pair_def)
    with assms key Some show ?thesis
      by (auto simp: read_step_def step_json_def dget_def py_or_def step_rank_def Let_def
          simp del: action_value.simps split: option.splits)
  qed
qed

lemma read_steps_json:
  "good_threshold th \<Longrightarrow> steps_ok th prev base sts \<Longrightarrow>
   read_steps th prev base (map (step_json th) sts) = Inr sts"
proof (induction sts arbitrary: prev base)
  case Nil
  then show ?case by simp
next
  case (Cons st sts)
  then have "read_step th prev base (step_json th st) = Inr st"
    by (simp add: read_step_json)
  with Cons show ?case by (auto simp: step_rank_def)
qed

lemma steps_of_json:
  "good_threshold th \<Longrightarrow> steps_ok th None base sts \<Longrightarrow> length sts \<le> MAX_STEPS \<Longrightarrow>
   steps_of th base (PList (map (step_json th) sts)) = Inr sts"
  by (simp add: steps_of_def read_steps_json)

text \<open>The shape of a canonical escalation over the rank of the rule's own action.\<close>

definition esc_wf :: "nat \<times> int \<Rightarrow> escalation \<Rightarrow> bool" where
  "esc_wf base e \<longleftrightarrow>
     steps_ok count_threshold None base (esc_repeat e) \<and> length (esc_repeat e) \<le> MAX_STEPS \<and>
     steps_ok severity_threshold None base (esc_severity e) \<and> length (esc_severity e) \<le> MAX_STEPS \<and>
     (if esc_repeat e = [] then esc_window e = 0
      else 1 \<le> esc_window e \<and> esc_window e \<le> MAX_WINDOW_SECONDS)"

lemma read_window_Inr: "read_window v = Inr w \<longleftrightarrow> v = PInt w \<and> 1 \<le> w \<and> w \<le> MAX_WINDOW_SECONDS"
  by (cases v) auto

lemma esc_wf_no_escalation [simp]: "esc_wf base no_escalation"
  by (simp add: esc_wf_def no_escalation_def)

lemma normalize_escalation_wf:
  assumes "normalize_escalation raw a bl = Inr e"
  shows "esc_wf (rank a (level_for a bl)) e"
proof (cases "raw = PNone \<or> raw = PDict []")
  case True
  with assms show ?thesis by (auto simp: normalize_escalation_def)
next
  case False
  let ?base = "rank a (level_for a bl)"
  from assms False obtain d rep w sev where raw: "raw = PDict d"
    and rep: "steps_of count_threshold ?base (dget d ''repeat'' (PList [])) = Inr rep"
    and w: "(if rep \<noteq> [] then read_window (dget d ''window_seconds'' PNone)
             else if ''window_seconds'' \<in> fst ` set d
             then Inl ''window_seconds applies only to repeat steps'' else Inr 0) = Inr w"
    and sev: "steps_of severity_threshold ?base (dget d ''severity'' (PList [])) = Inr sev"
    and e: "e = \<lparr>esc_window = w, esc_repeat = rep, esc_severity = sev\<rparr>"
    by (auto simp: normalize_escalation_def Let_def simp del: sum.inject(1)
        split: pyval.splits if_splits)
  show ?thesis
    using steps_of_ok [OF rep] steps_of_ok [OF sev] w
    by (auto simp: esc_wf_def e read_window_Inr split: if_splits)
qed

lemma escalation_json_keys:
  "escalation_json e = PDict d \<Longrightarrow> fst ` set d \<subseteq> set escalation_keys"
  by (auto simp: escalation_json_def escalation_keys_def)

lemma unknown_keys_empty:
  "filter (\<lambda>k. k \<notin> set ks) (sort (remdups (map fst d))) = [] \<longleftrightarrow> fst ` set d \<subseteq> set ks"
  by (auto simp: filter_empty_conv)

lemma normalize_escalation_json:
  assumes "esc_wf (rank a (level_for a bl)) e"
  shows "normalize_escalation (escalation_json e) a bl = Inr e"
proof -
  obtain d where d: "escalation_json e = PDict d" by (simp add: escalation_json_def)
  have rep: "dget d ''repeat'' (PList []) = PList (map (step_json count_threshold) (esc_repeat e))"
    and sev: "dget d ''severity'' (PList []) = PList (map (step_json severity_threshold) (esc_severity e))"
    and win: "esc_repeat e \<noteq> [] \<Longrightarrow> dget d ''window_seconds'' PNone = PInt (esc_window e)"
    and win': "esc_repeat e = [] \<Longrightarrow> ''window_seconds'' \<notin> fst ` set d"
    using d by (auto simp: escalation_json_def dget_def)
  note wf = assms [unfolded esc_wf_def]
  note steps = steps_of_json [of count_threshold _ "esc_repeat e"]
    steps_of_json [of severity_threshold _ "esc_severity e"]
  show ?thesis
  proof (cases "d = []")
    case True
    then have "esc_repeat e = []" "esc_severity e = []"
      using d by (auto simp: escalation_json_def split: if_splits)
    with wf True d show ?thesis
      by (simp add: normalize_escalation_def no_escalation_def)
  next
    case False
    have known: "filter (\<lambda>k. k \<notin> set escalation_keys) (sort (remdups (map fst d))) = []"
      using escalation_json_keys [OF d] by (simp only: unknown_keys_empty)
    show ?thesis
      using wf False win win'
      by (simp add: normalize_escalation_def d known rep sev steps Let_def rbind_eq_Inr
          split: if_splits)
  qed
qed

text \<open>Thresholds and ranks of a canonical step list strictly increase, from above the base.\<close>

lemma steps_ok_ranks: "steps_ok th prev base sts \<Longrightarrow> sorted_wrt (<) (base # map step_rank sts)"
proof (induction sts arbitrary: prev base)
  case Nil
  then show ?case by simp
next
  case (Cons st sts)
  then have "base < step_rank st" by simp
  moreover have "sorted_wrt (<) (step_rank st # map step_rank sts)"
    using Cons.prems by (intro Cons.IH [of "Some (th_ordinal th (step_at st))"]) simp
  ultimately show ?case by (auto intro: order.strict_trans)
qed

lemma steps_ok_ordinals:
  "steps_ok th prev base sts \<Longrightarrow>
   sorted_wrt (<) (map (\<lambda>st. th_ordinal th (step_at st)) sts) \<and>
   (\<forall>p. prev = Some p \<longrightarrow> (\<forall>st \<in> set sts. p < th_ordinal th (step_at st)))"
proof (induction sts arbitrary: prev base)
  case Nil
  then show ?case by simp
next
  case (Cons st sts)
  then have "steps_ok th (Some (th_ordinal th (step_at st))) (step_rank st) sts" by simp
  from Cons.IH [OF this] Cons.prems show ?case by (auto intro: order.strict_trans)
qed

lemma steps_ok_wf_pair:
  "steps_ok th prev base sts \<Longrightarrow> \<forall>st \<in> set sts. wf_pair (step_action st) (step_level st)"
  by (induction th prev base sts rule: steps_ok.induct) auto

section \<open>Deciding\<close>

text \<open>The two ways an escalation raises an action, as recorded in the decision.\<close>

datatype escalated = ByRepeat int int | BySeverity severity

record decision =
  d_action :: action
  d_block_level :: "block_level option"
  d_mode :: mode
  d_configured :: "action option"
  d_rule :: "pyval"
  d_escalation :: "escalated option"
  d_capped_from :: "action option"
  d_message :: "string option"

text \<open>The state of the two loops of \<open>decide\<close>: the current pair, the actions reached, and how.\<close>

record climb =
  cl_current :: "action \<times> block_level option"
  cl_reached :: "action list"
  cl_how :: "escalated option"

definition climb_step :: "escalated \<Rightarrow> 't step \<Rightarrow> climb \<Rightarrow> climb" where
  "climb_step how st c =
     (let c1 = c\<lparr>cl_reached := cl_reached c @ [step_action st]\<rparr>
      in if rank (fst (cl_current c)) (snd (cl_current c)) < rank (step_action st) (step_level st)
         then c1\<lparr>cl_current := (step_action st, step_level st), cl_how := Some how\<rparr> else c1)"

definition climb_all :: "('t \<Rightarrow> bool) \<Rightarrow> escalated \<Rightarrow> 't step list \<Rightarrow> climb \<Rightarrow> climb" where
  "climb_all hit how sts c = fold (\<lambda>st c. if hit (step_at st) then climb_step how st c else c) sts c"

definition decide_start :: "action \<Rightarrow> block_level option \<Rightarrow> bool \<Rightarrow> action \<times> block_level option" where
  "decide_start a bl approval_kind =
     (if approval_kind \<and> rank REQUIRE_APPROVAL None < rank a (level_for a bl)
      then (REQUIRE_APPROVAL, None) else (a, level_for a bl))"

definition climb_from ::
  "action \<Rightarrow> block_level option \<Rightarrow> escalation \<Rightarrow> int option \<Rightarrow> severity option \<Rightarrow> bool \<Rightarrow> climb" where
  "climb_from a bl e cnt sev approval_kind =
     (let start = decide_start a bl approval_kind;
          c0 = \<lparr>cl_current = start, cl_reached = [fst start], cl_how = None\<rparr>;
          c1 = (case cnt of None \<Rightarrow> c0
                | Some n \<Rightarrow> climb_all (\<lambda>t. t \<le> n) (ByRepeat n (esc_window e)) (esc_repeat e) c0)
      in case sev of None \<Rightarrow> c1
         | Some s \<Rightarrow> climb_all (\<lambda>t. t \<le> s) (BySeverity s) (esc_severity e) c1)"

definition decide ::
  "action \<Rightarrow> block_level option \<Rightarrow> escalation \<Rightarrow> mode \<Rightarrow> int option \<Rightarrow> severity option \<Rightarrow>
   bool \<Rightarrow> pyval \<Rightarrow> decision" where
  "decide a bl e md cnt sev approval_kind rule =
     (let c = climb_from a bl e cnt sev approval_kind;
          d = \<lparr>d_action = fst (cl_current c), d_block_level = snd (cl_current c), d_mode = md,
               d_configured = Some a, d_rule = rule, d_escalation = cl_how c,
               d_capped_from = None, d_message = None\<rparr>
      in if md = ENFORCE then d
         else
           (let capped = (if ALERT \<in> set (cl_reached c) then ALERT else LOG);
                d1 = (if d_action d \<noteq> capped then d\<lparr>d_capped_from := Some (d_action d)\<rparr> else d)
            in d1\<lparr>d_action := capped, d_block_level := None\<rparr>))"

definition REFUSING_ACTIONS :: "action list" where
  "REFUSING_ACTIONS = [BLOCK, REQUIRE_APPROVAL, REDACT]"

definition ladder :: "action \<Rightarrow> escalation \<Rightarrow> action list" where
  "ladder a e = [a] @ map step_action (esc_repeat e) @ map step_action (esc_severity e)"

definition can_refuse :: "action \<Rightarrow> escalation \<Rightarrow> bool" where
  "can_refuse a e \<longleftrightarrow> list_ex (\<lambda>x. x \<in> set REFUSING_ACTIONS) (ladder a e)"

definition denies :: "decision \<Rightarrow> bool" where
  "denies d \<longleftrightarrow> (if d_mode d \<noteq> ENFORCE then False
                  else d_action d \<in> {BLOCK, REQUIRE_APPROVAL, REDACT})"

subsection \<open>The climb takes the maximum\<close>

definition cl_rank :: "climb \<Rightarrow> nat \<times> int" where
  "cl_rank c = rank (fst (cl_current c)) (snd (cl_current c))"

lemma cl_rank_step: "cl_rank (climb_step how st c) = max (cl_rank c) (step_rank st)"
  by (auto simp: climb_step_def cl_rank_def step_rank_def Let_def max_def)

definition hit_ranks :: "('t \<Rightarrow> bool) \<Rightarrow> 't step list \<Rightarrow> (nat \<times> int) set" where
  "hit_ranks hit sts = step_rank ` {st \<in> set sts. hit (step_at st)}"

lemma finite_hit_ranks [simp]: "finite (hit_ranks hit sts)"
  by (simp add: hit_ranks_def)

lemma hit_ranks_Cons: "hit_ranks hit (st # sts) =
    (if hit (step_at st) then insert (step_rank st) (hit_ranks hit sts) else hit_ranks hit sts)"
  by (auto simp: hit_ranks_def)

lemma cl_rank_climb_all:
  "cl_rank (climb_all hit how sts c) = Max (insert (cl_rank c) (hit_ranks hit sts))"
proof (induction sts arbitrary: c)
  case Nil
  then show ?case by (simp add: climb_all_def hit_ranks_def)
next
  case (Cons st sts)
  have "cl_rank (climb_all hit how (st # sts) c) =
      cl_rank (climb_all hit how sts (if hit (step_at st) then climb_step how st c else c))"
    by (simp add: climb_all_def)
  also have "\<dots> = Max (insert (if hit (step_at st) then max (cl_rank c) (step_rank st) else cl_rank c)
      (hit_ranks hit sts))"
    by (simp add: Cons.IH cl_rank_step)
  also have "\<dots> = Max (insert (cl_rank c) (hit_ranks hit (st # sts)))"
    by (cases "hit_ranks hit sts = {}") (auto simp: hit_ranks_Cons max.assoc Max_insert)
  finally show ?case .
qed

definition count_hits :: "int option \<Rightarrow> escalation \<Rightarrow> (nat \<times> int) set" where
  "count_hits cnt e = (case cnt of None \<Rightarrow> {} | Some n \<Rightarrow> hit_ranks (\<lambda>t. t \<le> n) (esc_repeat e))"

definition severity_hits :: "severity option \<Rightarrow> escalation \<Rightarrow> (nat \<times> int) set" where
  "severity_hits sev e = (case sev of None \<Rightarrow> {} | Some s \<Rightarrow> hit_ranks (\<lambda>t. t \<le> s) (esc_severity e))"

lemma finite_hits [simp]: "finite (count_hits cnt e)" "finite (severity_hits sev e)"
  by (simp_all add: count_hits_def severity_hits_def split: option.splits)

definition start_rank :: "action \<Rightarrow> block_level option \<Rightarrow> bool \<Rightarrow> nat \<times> int" where
  "start_rank a bl k = rank (fst (decide_start a bl k)) (snd (decide_start a bl k))"

lemma cl_rank_climb_from:
  "cl_rank (climb_from a bl e cnt sev k) =
   Max (insert (start_rank a bl k) (count_hits cnt e \<union> severity_hits sev e))"
proof -
  have base: "cl_rank \<lparr>cl_current = decide_start a bl k, cl_reached = r, cl_how = h\<rparr> = start_rank a bl k"
    for r h by (simp add: cl_rank_def start_rank_def)
  have union: "Max (insert (Max (insert x A)) B) = Max (insert x (A \<union> B))"
    if "finite A" "finite B" for x :: "nat \<times> int" and A B
    using that by (cases "A = {}"; cases "B = {}") (simp_all add: Max_insert Max_Un max.assoc)
  show ?thesis
    by (cases cnt; cases sev)
      (simp_all add: climb_from_def Let_def base cl_rank_climb_all count_hits_def severity_hits_def union)
qed

lemma cl_rank_bounds:
  "start_rank a bl k \<le> cl_rank (climb_from a bl e cnt sev k)"
  by (simp add: cl_rank_climb_from)

lemma denying_actions: "x \<in> {BLOCK, REQUIRE_APPROVAL, REDACT} \<longleftrightarrow> REDACT \<le> x"
  by (cases x) (simp_all add: less_eq_action_def)

lemma decide_enforce:
  "decide a bl e ENFORCE cnt sev k r =
   (let c = climb_from a bl e cnt sev k in
    \<lparr>d_action = fst (cl_current c), d_block_level = snd (cl_current c), d_mode = ENFORCE,
     d_configured = Some a, d_rule = r, d_escalation = cl_how c, d_capped_from = None,
     d_message = None\<rparr>)"
  by (simp add: decide_def Let_def)

definition d_rank :: "decision \<Rightarrow> nat \<times> int" where
  "d_rank d = rank (d_action d) (d_block_level d)"

lemma d_rank_decide:
  "d_rank (decide a bl e ENFORCE cnt sev k r) =
   Max (insert (start_rank a bl k) (count_hits cnt e \<union> severity_hits sev e))"
  by (simp add: decide_enforce d_rank_def Let_def flip: cl_rank_climb_from) (simp add: cl_rank_def)

lemma hit_ranks_mono: "(\<And>t. p t \<Longrightarrow> q t) \<Longrightarrow> hit_ranks p sts \<subseteq> hit_ranks q sts"
  by (auto simp: hit_ranks_def)

lemma Max_hits_mono:
  assumes "A \<subseteq> B" "finite B"
  shows "Max (insert (x :: nat \<times> int) A) \<le> Max (insert x B)"
  using assms by (intro Max_mono) auto

text \<open>What the climb reaches comes from the ladder, or is the approval an approval-kind match starts at.\<close>

lemma climb_all_reached:
  "cl_reached (climb_all hit how sts c) =
   cl_reached c @ map step_action (filter (\<lambda>st. hit (step_at st)) sts)"
  by (induction sts arbitrary: c) (auto simp: climb_all_def climb_step_def Let_def)

lemma climb_all_current:
  "fst (cl_current c) \<in> set (cl_reached c) \<Longrightarrow>
   fst (cl_current (climb_all hit how sts c)) \<in> set (cl_reached (climb_all hit how sts c))"
  by (induction sts arbitrary: c) (auto simp: climb_all_def climb_step_def Let_def)

lemma climb_from_current:
  "fst (cl_current (climb_from a bl e cnt sev k)) \<in> set (cl_reached (climb_from a bl e cnt sev k))"
  by (auto simp: climb_from_def Let_def split: option.splits intro!: climb_all_current)

lemma climb_from_reached:
  "set (cl_reached (climb_from a bl e cnt sev k)) \<subseteq>
   insert (fst (decide_start a bl k)) (set (ladder a e))"
  by (auto simp: climb_from_def Let_def climb_all_reached ladder_def split: option.splits)

section \<open>Properties of a decision\<close>

text \<open>
  C25: Under enforce, the rank of the decided action is exactly the greatest of the rule's own
  starting rank (lowered to require_approval when an approval can release the match) and the
  ranks of the escalation steps that the match count and the severity reach, and a decided block
  always names a level.
\<close>

theorem decide_takes_maximum:
  assumes "esc_wf (rank a (level_for a bl)) e"
  shows "d_rank (decide a bl e ENFORCE cnt sev k r) =
      Max (insert (start_rank a bl k) (count_hits cnt e \<union> severity_hits sev e)) \<and>
    wf_pair (d_action (decide a bl e ENFORCE cnt sev k r))
      (d_block_level (decide a bl e ENFORCE cnt sev k r))"
proof (intro conjI d_rank_decide)
  have keep: "wf_pair (fst (cl_current (climb_all hit how sts c)))
      (snd (cl_current (climb_all hit how sts c)))"
    if "\<forall>st \<in> set sts. wf_pair (step_action st) (step_level st)"
      "wf_pair (fst (cl_current c)) (snd (cl_current c))"
    for hit how c and sts :: "'t step list"
    using that
    by (induction sts arbitrary: c) (auto simp: climb_all_def climb_step_def Let_def)
  have start: "wf_pair (fst (decide_start a bl k)) (snd (decide_start a bl k))"
    by (simp add: decide_start_def) (simp add: wf_pair_def)
  from assms have "\<forall>st \<in> set (esc_repeat e). wf_pair (step_action st) (step_level st)"
    "\<forall>st \<in> set (esc_severity e). wf_pair (step_action st) (step_level st)"
    by (auto simp: esc_wf_def dest: steps_ok_wf_pair)
  with start show "wf_pair (d_action (decide a bl e ENFORCE cnt sev k r))
      (d_block_level (decide a bl e ENFORCE cnt sev k r))"
    by (auto simp: decide_enforce climb_from_def Let_def split: option.splits intro!: keep)
qed

definition repeat_block :: escalation where
  "repeat_block = \<lparr>esc_window = 60,
     esc_repeat = [\<lparr>step_at = 3, step_action = BLOCK, step_level = Some TURN\<rparr>], esc_severity = []\<rparr>"

theorem decide_takes_maximum_witness:
  "d_rank (decide WARN None repeat_block ENFORCE (Some 5) None False PNone) =
     Max {rank WARN None, rank BLOCK (Some TURN)}"
proof -
  have "esc_wf (rank WARN (level_for WARN None)) repeat_block"
    by (simp add: esc_wf_def repeat_block_def count_threshold_def MAX_STEPS_def MAX_REPEAT_COUNT_def
        MAX_WINDOW_SECONDS_def wf_pair_def rank_def level_for_def step_rank_def)
  from decide_takes_maximum [OF this, of "Some 5" None False PNone] show ?thesis
    by (simp add: count_hits_def severity_hits_def hit_ranks_def repeat_block_def step_rank_def
        start_rank_def decide_start_def level_for_def)
qed

text \<open>
  Repetition and severity only tighten: matching more often, or more severely, never lowers
  the rank of the decided action, and never turns a refusal into a permission.
\<close>

lemma decide_monotone:
  assumes "n \<le> m" "s \<le> t"
  shows "d_rank (decide a bl e ENFORCE (Some n) (Some s) k r) \<le>
         d_rank (decide a bl e ENFORCE (Some m) (Some t) k r) \<and>
    (denies (decide a bl e ENFORCE (Some n) (Some s) k r) \<longrightarrow>
         denies (decide a bl e ENFORCE (Some m) (Some t) k r))"
proof (intro conjI impI)
  have "count_hits (Some n) e \<union> severity_hits (Some s) e \<subseteq>
      count_hits (Some m) e \<union> severity_hits (Some t) e"
    using assms by (auto simp: count_hits_def severity_hits_def hit_ranks_def)
  then show le: "d_rank (decide a bl e ENFORCE (Some n) (Some s) k r) \<le>
      d_rank (decide a bl e ENFORCE (Some m) (Some t) k r)"
    unfolding d_rank_decide by (rule Max_hits_mono) simp
  assume "denies (decide a bl e ENFORCE (Some n) (Some s) k r)"
  then show "denies (decide a bl e ENFORCE (Some m) (Some t) k r)"
    using rank_le_action [OF le [unfolded d_rank_def]]
    unfolding denies_def denying_actions by (auto simp: decide_enforce Let_def)
qed

lemma decide_monotone_witness:
  "denies (decide LOG None \<lparr>esc_window = 60, esc_repeat = [\<lparr>step_at = 3, step_action = BLOCK,
      step_level = Some TURN\<rparr>], esc_severity = []\<rparr> ENFORCE (Some 5) (Some HIGH) False PNone)"
  by (rule decide_monotone [of 3 5 LOW HIGH, THEN conjunct2, THEN mp])
    (simp_all add: less_eq_severity_def decide_def climb_from_def climb_all_def climb_step_def
      decide_start_def level_for_def rank_def denies_def Let_def)

text \<open>
  A rule in audit (or disabled) mode never disrupts: it decides log or alert without a block
  level, never denies, alerts only where the rule reached alert, and says what it was capped from
  exactly when enforce would have decided otherwise.
\<close>

lemma audit_never_disrupts:
  assumes "md \<noteq> ENFORCE"
    and d: "d = decide a bl e md cnt sev k r"
    and would: "would = d_action (decide a bl e ENFORCE cnt sev k r)"
  shows "d_action d \<in> {LOG, ALERT} \<and> d_block_level d = None \<and> \<not> denies d \<and>
    (d_action d = ALERT \<longrightarrow> ALERT \<in> insert would (set (ladder a e))) \<and>
    d_capped_from d = (if would = d_action d then None else Some would)"
proof -
  have "fst (decide_start a bl k) = ALERT \<Longrightarrow> a = ALERT"
    by (auto simp: decide_start_def split: if_splits)
  then have "ALERT \<in> set (cl_reached (climb_from a bl e cnt sev k)) \<Longrightarrow> ALERT \<in> set (ladder a e)"
    using climb_from_reached [of a bl e cnt sev k] by (auto simp: ladder_def)
  with assms(1) show ?thesis
    by (auto simp: d would decide_def denies_def Let_def)
qed

lemma audit_never_disrupts_witness:
  "\<not> denies (decide BLOCK (Some STOP) no_escalation AUDIT (Some 1) None False PNone)"
  by (rule audit_never_disrupts [OF _ refl refl, THEN conjunct2, THEN conjunct2, THEN conjunct1]) simp

text \<open>
  A rule whose own action and escalation steps never reach block, require_approval or redact
  never refuses a call, in any mode and at any match count or severity.
\<close>

lemma harmless_rule_never_denies:
  assumes "\<not> can_refuse a e"
  shows "\<not> denies (decide a bl e md cnt sev k r)"
proof (cases "md = ENFORCE")
  case True
  have harmless: "\<forall>x \<in> set (ladder a e). x < REDACT"
    using assms by (auto simp: can_refuse_def list_ex_iff REFUSING_ACTIONS_def not_le [symmetric]
        simp flip: denying_actions)
  then have "a < REDACT" by (simp add: ladder_def)
  then have "fst (decide_start a bl k) = a"
    by (cases a) (auto simp: decide_start_def level_for_def rank_def less_action_def)
  with harmless \<open>a < REDACT\<close> have "fst (cl_current (climb_from a bl e cnt sev k)) < REDACT"
    using climb_from_current [of a bl e cnt sev k] climb_from_reached [of a bl e cnt sev k] by auto
  then show ?thesis
    unfolding denies_def denying_actions using True by (auto simp: decide_enforce Let_def)
next
  case False
  then show ?thesis by (auto simp: decide_def denies_def Let_def)
qed

lemma harmless_rule_never_denies_witness:
  "\<not> denies (decide WARN None \<lparr>esc_window = 60, esc_repeat = [\<lparr>step_at = 2, step_action = STEER,
     step_level = None\<rparr>], esc_severity = []\<rparr> ENFORCE (Some 9) None False PNone)"
  by (rule harmless_rule_never_denies) (simp add: can_refuse_def ladder_def REFUSING_ACTIONS_def)

text \<open>
  The canonical escalation is canonical: what \<open>normalize_escalation\<close> accepts has at most ten
  steps of each kind whose thresholds and ranks strictly increase from above the rule's own
  action, a window exactly when there are repeat steps, and its stored form normalizes to itself.
\<close>

lemma normalize_escalation_canonical:
  assumes "normalize_escalation raw a bl = Inr e"
  shows "normalize_escalation (escalation_json e) a bl = Inr e \<and>
     sorted_wrt (<) (rank a (level_for a bl) # map step_rank (esc_repeat e)) \<and>
     sorted_wrt (<) (rank a (level_for a bl) # map step_rank (esc_severity e)) \<and>
     sorted_wrt (<) (map step_at (esc_repeat e)) \<and>
     sorted_wrt (<) (map (\<lambda>st. severity_index (step_at st)) (esc_severity e)) \<and>
     length (esc_repeat e) \<le> MAX_STEPS \<and> length (esc_severity e) \<le> MAX_STEPS \<and>
     (esc_repeat e \<noteq> [] \<longleftrightarrow> 1 \<le> esc_window e)"
proof (intro conjI)
  note wf = normalize_escalation_wf [OF assms]
  note parts = wf [unfolded esc_wf_def]
  show "normalize_escalation (escalation_json e) a bl = Inr e"
    by (rule normalize_escalation_json [OF wf])
  show "sorted_wrt (<) (rank a (level_for a bl) # map step_rank (esc_repeat e))"
    "sorted_wrt (<) (rank a (level_for a bl) # map step_rank (esc_severity e))"
    using parts steps_ok_ranks by blast+
  show "sorted_wrt (<) (map step_at (esc_repeat e))"
    using parts steps_ok_ordinals [of count_threshold None _ "esc_repeat e"]
    by simp blast
  show "sorted_wrt (<) (map (\<lambda>st. severity_index (step_at st)) (esc_severity e))"
    using parts steps_ok_ordinals [of severity_threshold None _ "esc_severity e"]
    by (simp add: sorted_wrt_map) blast
qed (use normalize_escalation_wf [OF assms] in \<open>auto simp: esc_wf_def split: if_splits\<close>)

lemma normalize_escalation_canonical_witness:
  "normalize_escalation (escalation_json \<lparr>esc_window = 60,
      esc_repeat = [\<lparr>step_at = 3, step_action = BLOCK, step_level = Some TOOL_CALL\<rparr>],
      esc_severity = []\<rparr>) WARN None =
   Inr \<lparr>esc_window = 60, esc_repeat = [\<lparr>step_at = 3, step_action = BLOCK, step_level = Some TOOL_CALL\<rparr>],
      esc_severity = []\<rparr>"
  by (rule normalize_escalation_canonical [THEN conjunct1, of "PDict [(''window_seconds'', PInt 60),
      (''repeat'', PList [PDict [(''count'', PInt 3), (''action'', PStr ''block'')]])]"])
    (simp add: normalize_escalation_def dget_def steps_of_def MAX_STEPS_def escalation_keys_def
      count_threshold_def severity_threshold_def read_step_def read_action_def read_level_def
      action_of_def level_of_def of_value_def ACTION_ORDER_def BLOCK_LEVEL_ORDER_def py_or_def
      level_for_def rank_def MAX_REPEAT_COUNT_def MAX_WINDOW_SECONDS_def Let_def)

end
