(* ===== verification/ActionTargets.thy ===== *)
theory ActionTargets
  imports Actions
begin

text \<open>
  The second half of \<open>services/actions.py\<close>: the fallback chain of a decided action, the option a
  target with declared capabilities takes, the summary of an evaluation, the refusal that needs no
  rule, and the repeat counter kept in the cache.
\<close>

section \<open>Fallback\<close>

record target_option =
  op_action :: action
  op_level :: "block_level option"
  op_requires :: "string option"

type_synonym capabilities = "(string \<times> bool) list"

text \<open>\<open>REQUIRES.get((action, level))\<close>.\<close>

fun requires_of :: "action \<Rightarrow> block_level option \<Rightarrow> string option" where
  "requires_of STEER None = Some ''supports_steer''"
| "requires_of REDACT None = Some ''supports_redact''"
| "requires_of REQUIRE_APPROVAL None = Some ''supports_approval''"
| "requires_of BLOCK (Some TURN) = Some ''supports_interrupt''"
| "requires_of BLOCK (Some REVOKE_KEY) = Some ''supports_revoke_key''"
| "requires_of BLOCK (Some STOP) = Some ''supports_stop''"
| "requires_of BLOCK (Some QUARANTINE) = Some ''supports_quarantine''"
| "requires_of _ _ = None"

definition CAPABILITIES :: "string list" where
  "CAPABILITIES = [''supports_steer'', ''supports_redact'', ''supports_approval'',
     ''supports_interrupt'', ''supports_revoke_key'', ''supports_stop'', ''supports_quarantine'']"

lemma CAPABILITIES_complete: "requires_of a l = Some c \<Longrightarrow> c \<in> set CAPABILITIES"
  by (cases "(a, l)" rule: requires_of.cases) (auto simp: CAPABILITIES_def)

definition chain_pairs :: "action \<Rightarrow> block_level option \<Rightarrow> (action \<times> block_level option) list" where
  "chain_pairs a bl =
     (if a = BLOCK then
        (let start = level_index (case bl of Some l \<Rightarrow> l | None \<Rightarrow> TOOL_CALL)
         in (if start \<noteq> 0 then map (\<lambda>l. (a, Some l)) (drop start BLOCK_LEVEL_ORDER) else []) @
            [(a, Some TOOL_CALL)])
      else if a = STEER then [(a, None), (WARN, None)]
      else if a \<in> {REDACT, REQUIRE_APPROVAL} then [(a, None), (BLOCK, Some TOOL_CALL)]
      else [(a, None)])"

definition fallback_chain :: "action \<Rightarrow> block_level option \<Rightarrow> target_option list" where
  "fallback_chain a bl =
     map (\<lambda>(x, l). \<lparr>op_action = x, op_level = l, op_requires = requires_of x l\<rparr>) (chain_pairs a bl)"

definition honours :: "capabilities \<Rightarrow> target_option \<Rightarrow> bool" where
  "honours caps opt \<longleftrightarrow> (case op_requires opt of None \<Rightarrow> True | Some c \<Rightarrow> map_of caps c = Some True)"

text \<open>\<open>select\<close>: the first option the target can honour, else the last of the chain.\<close>

fun select_from :: "target_option list \<Rightarrow> capabilities \<Rightarrow> target_option \<Rightarrow> target_option" where
  "select_from [] caps final = final"
| "select_from (opt # opts) caps final = (if honours caps opt then opt else select_from opts caps final)"

definition select :: "target_option list \<Rightarrow> capabilities \<Rightarrow> target_option" where
  "select chain caps = select_from chain caps (last chain)"

text \<open>\<open>normalize_capabilities\<close>: booleans only, unknown names ignored; None was not declared.\<close>

fun is_bool :: "pyval \<Rightarrow> bool" where
  "is_bool (PBool b) = True"
| "is_bool _ = False"

fun normalize_capabilities :: "pyval \<Rightarrow> string + capabilities option" where
  "normalize_capabilities PNone = Inr None"
| "normalize_capabilities (PDict d) =
     (let wrong = sort (map fst (filter (\<lambda>(_, v). \<not> is_bool v) d))
      in if wrong \<noteq> []
         then Inl (''target_capabilities values must be true or false: '' @ join '', '' wrong)
         else Inr (Some (filter (\<lambda>(k, _). k \<in> set CAPABILITIES) (map (\<lambda>(k, v). (k, truthy v)) d))))"
| "normalize_capabilities _ = Inl ''target_capabilities must be an object of booleans''"

section \<open>The strongest decision\<close>

text \<open>\<open>max(xs, key=key)\<close>: the first of the greatest elements.\<close>

fun max_by :: "('a \<Rightarrow> 'k::linorder) \<Rightarrow> 'a \<Rightarrow> 'a list \<Rightarrow> 'a" where
  "max_by key x [] = x"
| "max_by key x (y # ys) = max_by key (if key x < key y then y else x) ys"

lemma max_by_in: "max_by key x ys \<in> insert x (set ys)"
  by (induction ys arbitrary: x) (auto split: if_splits)

lemma max_by_ge: "z \<in> insert x (set ys) \<Longrightarrow> key z \<le> key (max_by key x ys)"
proof (induction ys arbitrary: x z)
  case Nil
  then show ?case by simp
next
  case (Cons y ys)
  let ?w = "if key x < key y then y else x"
  have "key x \<le> key ?w" "key y \<le> key ?w" by auto
  moreover have "\<And>z. z \<in> insert ?w (set ys) \<Longrightarrow> key z \<le> key (max_by key ?w ys)"
    by (rule Cons.IH)
  ultimately show ?case using Cons.prems by (auto intro: order.trans)
qed

text \<open>
  The contract a summary relies on: among the well-formed items, what makes one item matter also
  holds of every stronger one. Then looking at the strongest item alone decides whether any
  item matters.
\<close>

locale strongest =
  fixes key :: "'a \<Rightarrow> 'k::linorder" and ok :: "'a \<Rightarrow> bool" and matters :: "'a \<Rightarrow> bool"
  assumes upward: "ok x \<Longrightarrow> ok y \<Longrightarrow> key x \<le> key y \<Longrightarrow> matters x \<Longrightarrow> matters y"
begin

lemma strongest_decides:
  assumes "\<forall>z \<in> insert x (set ys). ok z"
  shows "matters (max_by key x ys) \<longleftrightarrow> (\<exists>z \<in> insert x (set ys). matters z)"
  using assms max_by_in [of key x ys] max_by_ge [of _ x ys key] upward by metis

end

text \<open>A decision as \<open>decide\<close> and \<open>refusal\<close> make it: outside enforce the cap has been applied.\<close>

definition capped :: "decision \<Rightarrow> bool" where
  "capped d \<longleftrightarrow> d_mode d = ENFORCE \<or> d_action d \<in> {LOG, ALERT}"

lemma capped_decide [simp]: "capped (decide a bl e md cnt sev k r)"
  by (auto simp: capped_def decide_def Let_def)

lemma capped_denies: "capped d \<Longrightarrow> denies d \<longleftrightarrow> REDACT \<le> d_action d"
  using denying_actions [of "d_action d"]
  by (auto simp: capped_def denies_def less_eq_action_def)

interpretation decisions: strongest d_rank capped denies
  by unfold_locales (auto simp: capped_denies d_rank_def dest!: rank_le_action)

record summary =
  sm_decisive :: "decision option"
  sm_chain :: "target_option list"
  sm_selected :: "target_option option"
  sm_fallback :: "bool option"

definition summarize :: "decision list \<Rightarrow> capabilities option \<Rightarrow> summary" where
  "summarize ds caps =
     (case ds of
        [] \<Rightarrow> \<lparr>sm_decisive = None, sm_chain = [], sm_selected = None, sm_fallback = None\<rparr>
      | d # rest \<Rightarrow>
          (let decisive = max_by d_rank d rest;
               chain = fallback_chain (d_action decisive) (d_block_level decisive);
               selected = map_option (select chain) caps
           in \<lparr>sm_decisive = Some decisive, sm_chain = chain, sm_selected = selected,
               sm_fallback = map_option (\<lambda>s. s \<noteq> hd chain) selected\<rparr>))"

definition refusal_decision :: decision where
  "refusal_decision =
     \<lparr>d_action = BLOCK, d_block_level = Some TOOL_CALL, d_mode = ENFORCE, d_configured = None,
      d_rule = PNone, d_escalation = None, d_capped_from = None, d_message = None\<rparr>"

definition refusal :: "capabilities option \<Rightarrow> summary" where
  "refusal caps = summarize [refusal_decision] caps"

section \<open>The repeat counter\<close>

definition escalation_key :: "string \<Rightarrow> string \<Rightarrow> string \<Rightarrow> string \<Rightarrow> string" where
  "escalation_key tenant kind rule scope =
     ''zentinelle:escalation:'' @ tenant @ '':'' @ kind @ '':'' @ rule @ '':'' @ scope"

text \<open>
  \<open>count_match\<close>. None: the cache holds something that is no number, so \<open>int\<close> raises. The branch
  after a failed increment is the window that closed between \<open>add\<close> and \<open>incr\<close>.
\<close>

definition count_match ::
  "'c cache_ops \<Rightarrow> string \<Rightarrow> int \<Rightarrow> bool \<Rightarrow> 'c \<Rightarrow> (int \<times> 'c) option" where
  "count_match ops key window record c =
     (if \<not> record
      then (case py_int (py_or (cache_get_default ops key PNone c) (PInt 0)) of
              Inr n \<Rightarrow> Some (n + 1, c) | Inl _ \<Rightarrow> None)
      else
        (let c1 = snd (c_add ops key (PInt 0) (Some window) c)
         in case c_incr ops key 1 c1 of
              Some (n, c2) \<Rightarrow> Some (n, c2)
            | None \<Rightarrow> Some (1, c_set ops key (PInt 1) (Some window) c1)))"

section \<open>Lemmas on chains\<close>

lemma chain_pairs_not_Nil [simp]: "chain_pairs a bl \<noteq> []"
  by (simp add: chain_pairs_def Let_def)

lemma fallback_chain_not_Nil [simp]: "fallback_chain a bl \<noteq> []"
  by (simp add: fallback_chain_def)

lemma last_chain_pairs: "last (chain_pairs a bl) =
    (if a \<in> {BLOCK, REDACT, REQUIRE_APPROVAL} then (BLOCK, Some TOOL_CALL)
     else if a = STEER then (WARN, None) else (a, None))"
  by (simp add: chain_pairs_def Let_def)

lemma last_fallback_chain_requires: "op_requires (last (fallback_chain a bl)) = None"
  by (cases a) (simp_all add: fallback_chain_def last_map last_chain_pairs)

lemma fallback_chain_refuses:
  "opt \<in> set (fallback_chain a bl) \<Longrightarrow> REDACT \<le> op_action opt \<longleftrightarrow> REDACT \<le> a"
  by (cases a) (auto simp: fallback_chain_def chain_pairs_def less_eq_action_def Let_def split: if_splits)

lemma select_from_cases:
  "(\<exists>pre post. opts = pre @ select_from opts caps z # post \<and> (\<forall>x \<in> set pre. \<not> honours caps x) \<and>
      honours caps (select_from opts caps z)) \<or>
   (select_from opts caps z = z \<and> (\<forall>x \<in> set opts. \<not> honours caps x))"
proof (induction opts)
  case Nil
  then show ?case by simp
next
  case (Cons opt opts)
  show ?case
  proof (cases "honours caps opt")
    case True
    then show ?thesis by (intro disjI1) (rule exI [of _ "[]"], rule exI [of _ opts], simp)
  next
    case False
    from Cons.IH show ?thesis
    proof (elim disjE exE conjE)
      fix pre post
      assume *: "opts = pre @ select_from opts caps z # post" "\<forall>x \<in> set pre. \<not> honours caps x"
        "honours caps (select_from opts caps z)"
      have "opt # opts = (opt # pre) @ select_from opts caps z # post"
        using *(1) by simp
      with False * show ?thesis
        by (intro disjI1 exI [of _ "opt # pre"] exI [of _ post]) simp
    qed (use False in simp)
  qed
qed

lemma select_in_chain: "select (fallback_chain a bl) caps \<in> set (fallback_chain a bl)"
  using last_in_set [OF fallback_chain_not_Nil [of a bl]]
    select_from_cases [of "fallback_chain a bl" caps "last (fallback_chain a bl)"]
  unfolding select_def by (metis in_set_conv_decomp)

lemma select_refuses: "REDACT \<le> op_action (select (fallback_chain a bl) caps) \<longleftrightarrow> REDACT \<le> a"
  by (rule fallback_chain_refuses [OF select_in_chain])

section \<open>Properties\<close>

text \<open>
  Whatever a target declares, \<open>select\<close> takes an option of the fallback chain that the target
  can honour, the first one of them, and falling back never changes whether the call is refused:
  a chain that starts with a refusal holds refusals only, one that does not holds none.
\<close>

lemma fallback_keeps_refusal:
  "\<exists>pre post. fallback_chain a bl = pre @ select (fallback_chain a bl) caps # post \<and>
     (\<forall>opt \<in> set pre. \<not> honours caps opt) \<and>
     honours caps (select (fallback_chain a bl) caps) \<and>
     (\<forall>opt \<in> set (fallback_chain a bl). REDACT \<le> op_action opt \<longleftrightarrow> REDACT \<le> a)"
proof -
  let ?c = "fallback_chain a bl"
  have "honours caps (last ?c)"
    by (simp add: honours_def last_fallback_chain_requires)
  then have "\<exists>x \<in> set ?c. honours caps x"
    using last_in_set [of ?c] by auto
  with select_from_cases [of ?c caps "last ?c"] fallback_chain_refuses [of _ a bl]
  show ?thesis unfolding select_def by blast
qed

lemma fallback_keeps_refusal_witness:
  "op_level (select (fallback_chain BLOCK (Some STOP)) [(''supports_quarantine'', True)]) =
     Some QUARANTINE \<and>
   honours [(''supports_quarantine'', True)]
     (select (fallback_chain BLOCK (Some STOP)) [(''supports_quarantine'', True)]) \<and>
   list_all (\<lambda>opt. REDACT \<le> op_action opt) (fallback_chain BLOCK (Some STOP))"
  using fallback_keeps_refusal [of BLOCK "Some STOP" "[(''supports_quarantine'', True)]"]
  by (auto simp: fallback_chain_def chain_pairs_def BLOCK_LEVEL_ORDER_def select_def honours_def
      less_eq_action_def)

text \<open>
  The summary of an evaluation is as strict as its strictest rule: among decisions that are
  capped by their mode, the reported decision denies exactly when some matched rule denies, it is
  one of the matched decisions and none is stronger, and the option selected for the target
  refuses the call whenever any rule denied it.
\<close>

lemma summary_strictest:
  assumes "ds \<noteq> []" "\<forall>d \<in> set ds. capped d"
  shows "\<exists>d \<in> set ds. sm_decisive (summarize ds caps) = Some d \<and>
    (\<forall>x \<in> set ds. d_rank x \<le> d_rank d) \<and>
    (denies d \<longleftrightarrow> (\<exists>x \<in> set ds. denies x)) \<and>
    (\<forall>opt. sm_selected (summarize ds caps) = Some opt \<longrightarrow>
       ((\<exists>x \<in> set ds. denies x) \<longleftrightarrow> REDACT \<le> op_action opt))"
proof -
  obtain y ys where ds: "ds = y # ys" using assms(1) by (cases ds) auto
  let ?d = "max_by d_rank y ys"
  have "\<forall>z \<in> insert y (set ys). capped z" using assms(2) ds by simp
  from decisions.strongest_decides [OF this]
  have iff: "denies ?d \<longleftrightarrow> (\<exists>x \<in> set ds. denies x)" by (simp add: ds)
  have "?d \<in> set ds" using max_by_in [of d_rank y ys] by (simp add: ds)
  moreover from this assms(2) have "denies ?d \<longleftrightarrow> REDACT \<le> d_action ?d" by (simp add: capped_denies)
  moreover have "\<forall>x \<in> set ds. d_rank x \<le> d_rank ?d"
    by (simp add: ds max_by_ge)
  moreover have "sm_decisive (summarize ds caps) = Some ?d"
    "sm_selected (summarize ds caps) =
       map_option (select (fallback_chain (d_action ?d) (d_block_level ?d))) caps"
    by (simp_all add: summarize_def ds Let_def)
  ultimately show ?thesis using iff by (intro bexI [of _ ?d]) (auto simp: select_refuses)
qed

lemma summary_strictest_witness:
  "\<exists>d. sm_decisive (summarize [decide LOG None no_escalation ENFORCE None None False PNone,
       refusal_decision] None) = Some d \<and> denies d"
proof -
  let ?ds = "[decide LOG None no_escalation ENFORCE None None False PNone, refusal_decision]"
  have "denies refusal_decision" "capped refusal_decision"
    by (simp_all add: denies_def refusal_decision_def capped_def)
  then show ?thesis
    using summary_strictest [of ?ds None] by (metis capped_decide list.distinct(1) list.set_intros
        set_ConsD empty_iff list.set(1))
qed

text \<open>Recording matches one after the other.\<close>

fun record_matches :: "'c cache_ops \<Rightarrow> string \<Rightarrow> int \<Rightarrow> nat \<Rightarrow> 'c \<Rightarrow> (int list \<times> 'c) option" where
  "record_matches ops key window 0 c = Some ([], c)"
| "record_matches ops key window (Suc n) c =
     do { (k, c1) \<leftarrow> count_match ops key window True c;
          (ks, c2) \<leftarrow> record_matches ops key window n c1;
          Some (k # ks, c2) }"

definition stored_count :: "'c cache_ops \<Rightarrow> string \<Rightarrow> 'c \<Rightarrow> nat \<Rightarrow> bool" where
  "stored_count ops key c n \<longleftrightarrow>
     c_get ops key c = Some (PInt (int n)) \<or> (n = 0 \<and> c_get ops key c = None)"

lemma count_match_record:
  assumes "cache_laws ops" "stored_count ops key c n"
  obtains c' where "count_match ops key window True c = Some (int (Suc n), c')"
    "stored_count ops key c' (Suc n)" "\<And>k. k \<noteq> key \<Longrightarrow> c_get ops k c' = c_get ops k c"
proof -
  let ?c1 = "snd (c_add ops key (PInt 0) (Some window) c)"
  have "c_get ops key ?c1 = Some (PInt (int n))"
    using assms by (auto simp: cache_simps stored_count_def)
  then obtain c' where "c_incr ops key 1 ?c1 = Some (int n + 1, c')"
    "c_get ops key c' = Some (PInt (int n + 1))" "\<And>k. k \<noteq> key \<Longrightarrow> c_get ops k c' = c_get ops k ?c1"
    using incr_present [OF assms(1), of key ?c1 "int n" 1] by metis
  with assms(1) that [of c'] show thesis
    by (simp add: count_match_def Let_def stored_count_def cache_simps add.commute)
qed

lemma count_match_preview:
  "stored_count ops key c n \<Longrightarrow> count_match ops key window False c = Some (int (Suc n), c)"
  by (auto simp: count_match_def cache_get_default_def stored_count_def py_or_def)

text \<open>
  The repeat counter counts: over a cache that keeps its entries within the window, the
  matches recorded one after the other are numbered consecutively, other entries are left alone,
  and a preview reports the number the next match would get without recording anything.
\<close>

lemma matches_counted:
  assumes "cache_laws ops" "stored_count ops key c n"
  shows "\<exists>c'. record_matches ops key window m c = Some (map int [Suc n..<Suc n + m], c') \<and>
    count_match ops key window False c' = Some (int (Suc n + m), c') \<and>
    (\<forall>k. k \<noteq> key \<longrightarrow> c_get ops k c' = c_get ops k c)"
  using assms(2)
proof (induction m arbitrary: n c)
  case 0
  then show ?case by (simp add: count_match_preview)
next
  case (Suc m)
  obtain c1 where c1: "count_match ops key window True c = Some (int (Suc n), c1)"
    "stored_count ops key c1 (Suc n)" "\<And>k. k \<noteq> key \<Longrightarrow> c_get ops k c1 = c_get ops k c"
    using count_match_record [OF assms(1) Suc.prems] by metis
  from Suc.IH [OF c1(2)] c1 show ?case
    by (auto simp: upt_conv_Cons simp del: upt_Suc)
qed

lemma matches_counted_witness:
  "\<exists>c'. record_matches dict_cache ''k'' 60 3 [] = Some (map int [1..<4], c') \<and>
     count_match dict_cache ''k'' 60 False c' = Some (4, c')"
  using matches_counted [of dict_cache "''k''" "[]" 0 60 3] dict_cache_laws
  by (auto simp: stored_count_def dict_cache_def numeral_eq_Suc)

end
