(* ===== verification/SteerTemplate.thy ===== *)
theory SteerTemplate
  imports Actions
begin

text \<open>
  Steer messages and the settings of a rule taken together (\<open>services/actions.py\<close>): Python's
  \<open>string.Formatter().parse\<close> on a template, the check of its placeholders, the rendering that
  substitutes values the caller controls, and \<open>validate_rule_action\<close> with \<open>action_fields\<close>.
\<close>

section \<open>\<open>Formatter().parse\<close>\<close>

definition lbrace :: char where "lbrace = CHR 0x7B"
definition rbrace :: char where "rbrace = CHR 0x7D"

lemma braces_differ [simp]: "lbrace \<noteq> rbrace" "rbrace \<noteq> lbrace"
  by (simp_all add: lbrace_def rbrace_def)

text \<open>The name of a field, up to a closing brace, a colon or an exclamation mark; brackets nest once.\<close>

fun scan_name :: "bool \<Rightarrow> string \<Rightarrow> string + (string \<times> char option \<times> string)" where
  "scan_name inb [] = Inr ([], None, [])"
| "scan_name inb (c # s) =
     (let keep = (\<lambda>b. rbind (scan_name b s) (\<lambda>(n, t, r). Inr (c # n, t, r)))
      in if inb then keep (c \<noteq> CHR '']'')
         else if c = lbrace then Inl (''unexpected '' @ quoted [lbrace] @ '' in field name'')
         else if c = CHR ''['' then keep True
         else if c = rbrace \<or> c = CHR '':'' \<or> c = CHR ''!'' then Inr ([], Some c, s)
         else keep False)"

text \<open>A format specification, up to the brace that closes the field.\<close>

fun scan_spec :: "nat \<Rightarrow> string \<Rightarrow> string + (string \<times> string)" where
  "scan_spec depth [] = Inl (''unmatched '' @ quoted [lbrace] @ '' in format spec'')"
| "scan_spec depth (c # s) =
     (if c = rbrace \<and> depth = 1 then Inr ([], s)
      else rbind (scan_spec (if c = lbrace then depth + 1 else if c = rbrace then depth - 1 else depth) s)
             (\<lambda>(sp, r). Inr (c # sp, r)))"

text \<open>A field: its name, its specification and its conversion (empty when there is none).\<close>

type_synonym field = "string \<times> string \<times> string"

definition scan_field :: "string \<Rightarrow> string + (field \<times> string)" where
  "scan_field s =
     rbind (scan_name False s) (\<lambda>(name, t, r).
       case t of
         None \<Rightarrow> Inl (''expected '' @ quoted [rbrace] @ '' before end of string'')
       | Some c \<Rightarrow>
           if c = rbrace then Inr ((name, [], []), r)
           else if c = CHR '':'' then
             rbind (scan_spec 1 r) (\<lambda>(sp, r'). Inr ((name, sp, []), r'))
           else
             (case r of
                [] \<Rightarrow> Inl ''end of string while looking for conversion specifier''
              | cv # [] \<Rightarrow> Inl (''unmatched '' @ quoted [lbrace] @ '' in format spec'')
              | cv # d # r' \<Rightarrow>
                  if d = rbrace then Inr ((name, [], [cv]), r')
                  else if d \<noteq> CHR '':'' then
                    Inl (''expected '' @ quoted '':'' @ '' after conversion specifier'')
                  else rbind (scan_spec 1 r') (\<lambda>(sp, r''). Inr ((name, sp, [cv]), r''))))"

lemma scan_name_shorter: "scan_name b s = Inr (n, t, r) \<Longrightarrow> length r \<le> length s"
proof (induction s arbitrary: b n t r)
  case Nil
  then show ?case by simp
next
  case (Cons c s)
  then show ?case by (auto simp: Let_def split: if_splits dest!: Cons.IH)
qed

lemma scan_spec_shorter: "scan_spec d s = Inr (sp, r) \<Longrightarrow> length r < length s"
  by (induction s arbitrary: d sp r) (fastforce split: if_splits)+

lemma scan_field_shorter: "scan_field s = Inr (f, r) \<Longrightarrow> length r \<le> length s"
  by (fastforce simp: scan_field_def split: option.splits if_splits list.splits
      dest: scan_name_shorter scan_spec_shorter)

text \<open>
  The pieces of a template: literal text, then a field or none. A doubled brace is an escape and
  ends a piece after one brace.
\<close>

definition not_brace :: "char \<Rightarrow> bool" where
  "not_brace c \<longleftrightarrow> c \<noteq> lbrace \<and> c \<noteq> rbrace"

lemma dropWhile_tail_shorter: "dropWhile P s = c # s1 \<Longrightarrow> length s1 < length s"
  using length_dropWhile_le [of P s] by simp

function parse_template :: "string \<Rightarrow> string + (string \<times> field option) list" where
  "parse_template s =
     (if s = [] then Inr []
      else
        (let lit = takeWhile not_brace s; rest = dropWhile not_brace s
         in case rest of
              [] \<Rightarrow> Inr [(lit, None)]
            | c # s1 \<Rightarrow>
                if c = rbrace \<and> (s1 = [] \<or> hd s1 \<noteq> rbrace) then
                  Inl (''Single '' @ quoted [rbrace] @ '' encountered in format string'')
                else if s1 = [] then
                  Inl (''Single '' @ quoted [lbrace] @ '' encountered in format string'')
                else if hd s1 = c then
                  rbind (parse_template (tl s1)) (\<lambda>ps. Inr ((lit @ [c], None) # ps))
                else
                  rbind (scan_field s1) (\<lambda>(f, s2).
                  rbind (parse_template s2) (\<lambda>ps. Inr ((lit, Some f) # ps)))))"
  by pat_completeness auto

termination
proof (relation "measure length", simp, goal_cases)
  case (1 s lit rest c s1)
  then show ?case using dropWhile_tail_shorter [of not_brace s c s1] by simp
next
  case (2 s lit rest c s1 fs f s2)
  then show ?case
    using dropWhile_tail_shorter [of not_brace s c s1] scan_field_shorter [of s1 f s2] by simp
qed

declare parse_template.simps [simp del]

section \<open>Rendering\<close>

definition STEER_FIELDS :: "string list" where
  "STEER_FIELDS = [''rule'', ''reason'', ''action'', ''tool'', ''agent'']"

text \<open>\<open>unicodedata.category(c) in UNPRINTABLE_CATEGORIES\<close> for the first 256 code points.\<close>

definition unprintable :: "char \<Rightarrow> bool" where
  "unprintable c \<longleftrightarrow> (let n = of_char c :: nat in n < 32 \<or> (127 \<le> n \<and> n < 160) \<or> n = 173)"

text \<open>\<open>text.split()\<close>: the words between runs of white space.\<close>

fun split_words :: "string \<Rightarrow> string \<Rightarrow> string list" where
  "split_words w [] = (if w = [] then [] else [w])"
| "split_words w (c # s) =
     (if is_space c then (if w = [] then split_words [] s else w # split_words [] s)
      else split_words (w @ [c]) s)"

text \<open>\<open>json.dumps(s, ensure_ascii=False)\<close>.\<close>

definition hex_digit :: "nat \<Rightarrow> char" where
  "hex_digit n = ''0123456789abcdef'' ! n"

definition json_escape :: "char \<Rightarrow> string" where
  "json_escape c =
     (if c = CHR 0x22 then [CHR 0x5C, CHR 0x22]
      else if c = CHR 0x5C then [CHR 0x5C, CHR 0x5C]
      else if c = CHR 0x0A then [CHR 0x5C, CHR ''n'']
      else if c = CHR 0x0D then [CHR 0x5C, CHR ''r'']
      else if c = CHR 0x09 then [CHR 0x5C, CHR ''t'']
      else if c = CHR 0x0C then [CHR 0x5C, CHR ''f'']
      else if c = CHR 0x08 then [CHR 0x5C, CHR ''b'']
      else if (of_char c :: nat) < 32 then
        [CHR 0x5C, CHR ''u'', CHR ''0'', CHR ''0'', hex_digit (of_char c div 16), hex_digit (of_char c mod 16)]
      else [c])"

definition json_quote :: "string \<Rightarrow> string" where
  "json_quote s = [CHR 0x22] @ concat (map json_escape s) @ [CHR 0x22]"

definition clean_text :: "string \<Rightarrow> string" where
  "clean_text s = join '' '' (split_words [] (map (\<lambda>c. if unprintable c then CHR '' '' else c) s))"

definition steer_value :: "pyval \<Rightarrow> string" where
  "steer_value v = json_quote (take MAX_STEER_VALUE (clean_text (py_str (py_or v (PStr [])))))"

definition render_parts :: "(string \<times> field option) list \<Rightarrow> pydict \<Rightarrow> string" where
  "render_parts ps vals =
     concat (map (\<lambda>(lit, f). lit @ (case f of None \<Rightarrow> []
       | Some (name, _, _) \<Rightarrow> steer_value (dget vals name PNone))) ps)"

definition render_steer :: "string \<Rightarrow> pydict \<Rightarrow> string + string" where
  "render_steer template vals =
     rbind (parse_template template) (\<lambda>ps. Inr (take MAX_RENDERED_STEER (render_parts ps vals)))"

section \<open>Validation\<close>

definition placeholder_message :: string where
  "placeholder_message = ''steer message placeholders are '' @ [lbrace] @
     join ([rbrace] @ '', '' @ [lbrace]) STEER_FIELDS @ [rbrace]"

definition field_ok :: "string \<times> field option \<Rightarrow> bool" where
  "field_ok p = (case snd p of None \<Rightarrow> True
     | Some (name, spec, conv) \<Rightarrow> name \<in> set STEER_FIELDS \<and> spec = [] \<and> conv = [])"

definition validate_steer_template :: "string \<Rightarrow> string + unit" where
  "validate_steer_template t =
     (if length t > MAX_STEER_MESSAGE then Inl ''steer message must be at most 2000 characters''
      else
        (case parse_template t of
           Inl exc \<Rightarrow> Inl (''steer message is not a valid template: '' @ exc)
         | Inr ps \<Rightarrow> if list_all field_ok ps then Inr () else Inl placeholder_message))"

definition validate_rule_action ::
  "pyval \<Rightarrow> pyval \<Rightarrow> pyval \<Rightarrow> pyval \<Rightarrow> string + escalation" where
  "validate_rule_action action block_level steer_message escalation =
     rbind (read_action ''action'' action) (\<lambda>a.
     rbind (read_level block_level) (\<lambda>bl.
     (case steer_message of
        PStr msg \<Rightarrow>
          rbind (normalize_escalation escalation a (Some bl)) (\<lambda>e.
          rbind (if msg \<noteq> [] then validate_steer_template msg else Inr ()) (\<lambda>_.
          if STEER \<in> set (ladder a e) \<and> strip msg = []
          then Inl ''a rule that can steer needs a steer message''
          else Inr e))
      | _ \<Rightarrow> Inl ''steer message must be text'')))"

definition ACTION_FIELDS :: "string list" where
  "ACTION_FIELDS = [''action'', ''block_level'', ''steer_message'', ''escalation'']"

definition ACTION_DEFAULTS :: pydict where
  "ACTION_DEFAULTS =
     [(''action'', PStr (action_value BLOCK)), (''block_level'', PStr (level_value TOOL_CALL)),
      (''steer_message'', PStr []), (''escalation'', PDict [])]"

text \<open>\<open>action_fields\<close>: the policy being updated is the dictionary of its attributes.\<close>

definition action_fields :: "pydict \<Rightarrow> pydict \<Rightarrow> string + pydict" where
  "action_fields source current =
     (let given = map (\<lambda>n. (n, dget source n PNone)) (filter (\<lambda>n. n \<in> fst ` set source) ACTION_FIELDS);
          merged = (\<lambda>n. dget given n (dget current n (dget ACTION_DEFAULTS n PNone)))
      in rbind (validate_rule_action (merged ''action'') (merged ''block_level'')
                  (merged ''steer_message'') (merged ''escalation'')) (\<lambda>e.
         Inr (if ''escalation'' \<in> fst ` set given then dput ''escalation'' (escalation_json e) given
              else given)))"

section \<open>A reader of JSON strings\<close>

definition hex_val :: "char \<Rightarrow> nat option" where
  "hex_val c = find (\<lambda>n. hex_digit n = c) [0..<16]"

text \<open>The text of a JSON string literal, and what follows its closing quote.\<close>

fun json_chars :: "string \<Rightarrow> (string \<times> string) option" where
  "json_chars [] = None"
| "json_chars (c # s) =
     (if c = CHR 0x22 then Some ([], s)
      else if c \<noteq> CHR 0x5C then
        (if (of_char c :: nat) < 32 then None else map_option (map_prod ((#) c) id) (json_chars s))
      else
        (case s of
           [] \<Rightarrow> None
         | e # s1 \<Rightarrow>
             if e \<in> {CHR 0x22, CHR 0x5C, CHR ''/''} then map_option (map_prod ((#) e) id) (json_chars s1)
             else if e = CHR ''n'' then map_option (map_prod ((#) (CHR 0x0A)) id) (json_chars s1)
             else if e = CHR ''r'' then map_option (map_prod ((#) (CHR 0x0D)) id) (json_chars s1)
             else if e = CHR ''t'' then map_option (map_prod ((#) (CHR 0x09)) id) (json_chars s1)
             else if e = CHR ''f'' then map_option (map_prod ((#) (CHR 0x0C)) id) (json_chars s1)
             else if e = CHR ''b'' then map_option (map_prod ((#) (CHR 0x08)) id) (json_chars s1)
             else if e = CHR ''u'' then
               (case s1 of
                  a # b # x # y # s2 \<Rightarrow>
                    (case (hex_val a, hex_val b, hex_val x, hex_val y) of
                       (Some 0, Some 0, Some i, Some j) \<Rightarrow>
                         map_option (map_prod ((#) (char_of (16 * i + j))) id) (json_chars s2)
                     | _ \<Rightarrow> None)
                | _ \<Rightarrow> None)
             else None))"

definition json_unquote :: "string \<Rightarrow> (string \<times> string) option" where
  "json_unquote s = (case s of c # r \<Rightarrow> if c = CHR 0x22 then json_chars r else None | [] \<Rightarrow> None)"

lemma hex_val_digit: "n < 16 \<Longrightarrow> hex_val (hex_digit n) = Some n"
proof -
  have "\<forall>n \<in> set [0..<16]. hex_val (hex_digit n) = Some n"
    by (simp add: hex_val_def hex_digit_def upt_rec)
  then show "n < 16 \<Longrightarrow> hex_val (hex_digit n) = Some n" by simp
qed

lemma json_chars_escape:
  "json_chars (json_escape c @ t) = map_option (map_prod ((#) c) id) (json_chars t)"
proof (cases "(of_char c :: nat) < 32 \<and> c \<notin> {CHR 0x0A, CHR 0x0D, CHR 0x09, CHR 0x0C, CHR 0x08}")
  case True
  let ?n = "of_char c :: nat"
  have low: "(of_char c :: nat) < 32" using True by blast
  have "c \<noteq> CHR 0x22" "c \<noteq> CHR 0x5C" by (rule notI, use low in simp)+
  with True have esc: "json_escape c = [CHR 0x5C, CHR ''u'', CHR ''0'', CHR ''0'',
      hex_digit (?n div 16), hex_digit (?n mod 16)]"
    by (simp add: json_escape_def)
  have zero: "hex_val (CHR ''0'') = Some 0"
    using hex_val_digit [of 0] by (simp add: hex_digit_def)
  have "?n div 16 < 16" using conjunct1 [OF True] by linarith
  then show ?thesis
    by (simp add: esc hex_val_digit zero)
next
  case False
  then consider "c = CHR 0x22" | "c = CHR 0x5C" | "c = CHR 0x0A" | "c = CHR 0x0D" | "c = CHR 0x09" | "c = CHR 0x0C"
    | "c = CHR 0x08" | "\<not> (of_char c :: nat) < 32" "c \<noteq> CHR 0x22" "c \<noteq> CHR 0x5C" by blast
  then show ?thesis
  proof cases
    case 8
    then have "c \<noteq> CHR 0x0A" "c \<noteq> CHR 0x0D" "c \<noteq> CHR 0x09" "c \<noteq> CHR 0x0C" "c \<noteq> CHR 0x08" by auto
    with 8 show ?thesis by (simp add: json_escape_def)
  qed (simp_all add: json_escape_def)
qed

lemma json_unquote_quote: "json_unquote (json_quote s @ rest) = Some (s, rest)"
proof -
  have "json_chars (concat (map json_escape s) @ CHR 0x22 # rest) = Some (s, rest)"
    by (induction s) (simp_all add: json_chars_escape)
  then show ?thesis by (simp add: json_unquote_def json_quote_def)
qed

subsection \<open>Rendered text\<close>

lemma set_split_words: "\<Union> (set ` set (split_words w s)) \<subseteq> set w \<union> set s"
  by (induction w s rule: split_words.induct) auto

lemma set_join: "set (join sep xs) \<subseteq> set sep \<union> \<Union> (set ` set xs)"
  by (induction sep xs rule: join.induct) (simp_all, blast+)

lemma clean_text_printable: "c \<in> set (clean_text s) \<Longrightarrow> \<not> unprintable c"
proof -
  let ?t = "map (\<lambda>c. if unprintable c then CHR '' '' else c) s"
  have space: "\<not> unprintable (CHR '' '')" by (simp add: unprintable_def)
  have "set (clean_text s) \<subseteq> {CHR '' ''} \<union> set ?t"
    unfolding clean_text_def
    using set_join [of "'' ''" "split_words [] ?t"] set_split_words [of "[]" ?t] by simp blast
  with space show "c \<in> set (clean_text s) \<Longrightarrow> \<not> unprintable c" by (auto split: if_splits)
qed

lemma json_quote_printable:
  assumes "\<forall>c \<in> set s. \<not> unprintable c" "c \<in> set (json_quote s)"
  shows "\<not> unprintable c"
proof -
  have "d \<in> set (json_escape a) \<Longrightarrow> \<not> unprintable a \<Longrightarrow> \<not> unprintable d" for a d
    by (auto simp: json_escape_def unprintable_def Let_def split: if_splits)
  then show ?thesis
    using assms by (auto simp: json_quote_def) (auto simp: unprintable_def)
qed

lemma steer_value_printable: "c \<in> set (steer_value v) \<Longrightarrow> \<not> unprintable c"
  unfolding steer_value_def
  by (rule json_quote_printable) (auto dest: in_set_takeD clean_text_printable)

text \<open>
  C34: A value substituted into a steer message cannot break out of its place: the rendered value
  is one quoted string on one line, without control or hidden characters, and a reader of JSON
  strings gets back the cleaned text of at most 200 characters and stops at its closing quote,
  whatever text follows.
\<close>

theorem steer_value_contained:
  "json_unquote (steer_value v @ rest) =
     Some (take MAX_STEER_VALUE (clean_text (py_str (py_or v (PStr [])))), rest) \<and>
   list_all (\<lambda>c. \<not> unprintable c) (steer_value v) \<and>
   length (take MAX_STEER_VALUE (clean_text (py_str (py_or v (PStr []))))) \<le> 200"
  using steer_value_printable [of _ v]
  by (auto simp: steer_value_def json_unquote_quote list_all_iff MAX_STEER_VALUE_def)

definition literals :: "(string \<times> field option) list \<Rightarrow> string" where
  "literals ps = concat (map fst ps)"

lemma render_parts_unprintable:
  "filter unprintable (render_parts ps vals) = filter unprintable (literals ps)"
proof (induction ps)
  case Nil
  then show ?case by (simp add: render_parts_def literals_def)
next
  case (Cons p ps)
  have "filter unprintable (steer_value v) = []" for v
    using steer_value_printable [of _ v] by (simp add: filter_empty_conv)
  with Cons show ?case
    by (cases p) (auto simp: render_parts_def literals_def split: option.splits)
qed

lemma render_parts_agree:
  assumes "list_all field_ok ps" "\<forall>k \<in> set STEER_FIELDS. dget v k PNone = dget w k PNone"
  shows "render_parts ps v = render_parts ps w"
  using assms(1)
proof (induction ps)
  case Nil
  then show ?case by (simp add: render_parts_def)
next
  case (Cons p ps)
  then show ?case
    using assms(2) by (cases p) (auto simp: render_parts_def field_ok_def split: option.splits)
qed

text \<open>
  C35: A steer message that validation accepts always renders: for any values the result is a
  text of at most 4000 characters, it depends on the five documented values only, and the control
  and hidden characters before the cut are those of the template itself.
\<close>

theorem valid_template_renders:
  assumes "validate_steer_template t = Inr ()"
  shows "\<exists>ps. parse_template t = Inr ps \<and>
    (\<forall>vals. render_steer t vals = Inr (take 4000 (render_parts ps vals)) \<and>
       filter unprintable (render_parts ps vals) = filter unprintable (literals ps)) \<and>
    (\<forall>v w. (\<forall>k \<in> set STEER_FIELDS. dget v k PNone = dget w k PNone) \<longrightarrow>
       render_steer t v = render_steer t w)"
proof -
  from assms obtain ps where ps: "parse_template t = Inr ps" "list_all field_ok ps"
    by (auto simp: validate_steer_template_def split: sum.splits if_splits)
  then have render: "render_steer t vals = Inr (take 4000 (render_parts ps vals))" for vals
    by (simp add: render_steer_def MAX_RENDERED_STEER_def)
  show ?thesis
    using ps(1) render render_parts_unprintable by (metis render_parts_agree [OF ps(2)])
qed

lemma parse_template_simps:
  "parse_template [] = Inr []"
  "parse_template (c # s) =
     (let lit = takeWhile not_brace (c # s); rest = dropWhile not_brace (c # s)
      in case rest of
           [] \<Rightarrow> Inr [(lit, None)]
         | d # s1 \<Rightarrow>
             if d = rbrace \<and> (s1 = [] \<or> hd s1 \<noteq> rbrace) then
               Inl (''Single '' @ quoted [rbrace] @ '' encountered in format string'')
             else if s1 = [] then
               Inl (''Single '' @ quoted [lbrace] @ '' encountered in format string'')
             else if hd s1 = d then
               rbind (parse_template (tl s1)) (\<lambda>ps. Inr ((lit @ [d], None) # ps))
             else
               rbind (scan_field s1) (\<lambda>(f, s2).
               rbind (parse_template s2) (\<lambda>ps. Inr ((lit, Some f) # ps))))"
  by (simp_all add: parse_template.simps [of "[]"] parse_template.simps [of "c # s"])

theorem valid_template_renders_witness:
  "\<exists>ps. parse_template ''Use {tool}'' = Inr ps \<and> (\<forall>vals. render_steer ''Use {tool}'' vals =
     Inr (take 4000 (render_parts ps vals)))"
proof -
  have "validate_steer_template ''Use {tool}'' = Inr ()"
    by (simp add: validate_steer_template_def parse_template_simps scan_field_def not_brace_def
        lbrace_def rbrace_def MAX_STEER_MESSAGE_def field_ok_def STEER_FIELDS_def Let_def)
  from valid_template_renders [OF this] show ?thesis by blast
qed

section \<open>A rule's settings together\<close>

lemma validate_rule_action_Inr:
  "validate_rule_action av lv mv ev = Inr e \<longleftrightarrow>
     (\<exists>a bl msg. av = PStr (action_value a) \<and> lv = PStr (level_value bl) \<and> mv = PStr msg \<and>
        normalize_escalation ev a (Some bl) = Inr e \<and>
        (msg \<noteq> [] \<longrightarrow> validate_steer_template msg = Inr ()) \<and>
        (STEER \<in> set (ladder a e) \<longrightarrow> strip msg \<noteq> []))"
  unfolding validate_rule_action_def by (cases mv) (auto split: if_splits)

definition merged_field :: "pydict \<Rightarrow> pydict \<Rightarrow> string \<Rightarrow> pyval" where
  "merged_field given current n = dget given n (dget current n (dget ACTION_DEFAULTS n PNone))"

text \<open>
  A partial update is validated against what the rule will hold: when \<open>action_fields\<close> accepts
  it, it returns action fields only, each of them one the update sets, and the rule with these
  fields written over its current ones is valid, with a steer message wherever it can steer and
  with its escalation unchanged by another validation.
\<close>

lemma partial_update_valid:
  assumes "action_fields source current = Inr given"
  shows "set (map fst given) \<subseteq> set ACTION_FIELDS \<inter> fst ` set source \<and>
    (\<exists>a bl msg e. merged_field given current ''action'' = PStr (action_value a) \<and>
       merged_field given current ''block_level'' = PStr (level_value bl) \<and>
       merged_field given current ''steer_message'' = PStr msg \<and>
       validate_rule_action (PStr (action_value a)) (PStr (level_value bl)) (PStr msg)
         (merged_field given current ''escalation'') = Inr e \<and>
       (STEER \<in> set (ladder a e) \<longrightarrow> strip msg \<noteq> []))"
proof -
  let ?keys = "filter (\<lambda>n. n \<in> fst ` set source) ACTION_FIELDS"
  let ?g = "map (\<lambda>n. (n, dget source n PNone)) ?keys"
  from assms obtain e where
    v: "validate_rule_action (merged_field ?g current ''action'')
      (merged_field ?g current ''block_level'') (merged_field ?g current ''steer_message'')
      (merged_field ?g current ''escalation'') = Inr e"
    and given: "given = (if ''escalation'' \<in> fst ` set ?g
      then dput ''escalation'' (escalation_json e) ?g else ?g)"
    by (auto simp: action_fields_def merged_field_def Let_def)
  have keys: "fst ` set given = fst ` set ?g"
    by (auto simp: given dom_dput)
  have same: "merged_field given current n = merged_field ?g current n" if "n \<noteq> ''escalation''" for n
    using that by (simp add: given merged_field_def)
  from v obtain a bl msg where parts:
      "merged_field ?g current ''action'' = PStr (action_value a)"
      "merged_field ?g current ''block_level'' = PStr (level_value bl)"
      "merged_field ?g current ''steer_message'' = PStr msg"
      "normalize_escalation (merged_field ?g current ''escalation'') a (Some bl) = Inr e"
      "msg \<noteq> [] \<longrightarrow> validate_steer_template msg = Inr ()"
      "STEER \<in> set (ladder a e) \<longrightarrow> strip msg \<noteq> []"
    unfolding validate_rule_action_Inr by blast
  have "merged_field given current ''escalation'' \<in>
      {merged_field ?g current ''escalation'', escalation_json e}"
    by (simp add: given merged_field_def)
  with parts(4) normalize_escalation_json [OF normalize_escalation_wf [OF parts(4)]]
  have "normalize_escalation (merged_field given current ''escalation'') a (Some bl) = Inr e"
    by auto
  with parts have "validate_rule_action (PStr (action_value a)) (PStr (level_value bl)) (PStr msg)
      (merged_field given current ''escalation'') = Inr e"
    unfolding validate_rule_action_Inr by blast
  moreover have "set (map fst given) \<subseteq> set ACTION_FIELDS \<inter> fst ` set source"
    using keys by (simp add: image_image) blast
  ultimately show ?thesis using parts same by auto
qed

lemma partial_update_valid_witness:
  "\<exists>a bl msg e. merged_field [(''action'', PStr ''warn'')] [] ''action'' = PStr (action_value a) \<and>
     validate_rule_action (PStr (action_value a)) (PStr (level_value bl)) (PStr msg)
       (merged_field [(''action'', PStr ''warn'')] [] ''escalation'') = Inr e"
proof -
  have "action_fields [(''action'', PStr ''warn''), (''name'', PStr ''x'')] [] =
      Inr [(''action'', PStr ''warn'')]"
    by (simp add: action_fields_def ACTION_FIELDS_def dget_def ACTION_DEFAULTS_def
        validate_rule_action_def read_action_def action_of_def of_value_def ACTION_ORDER_def
        read_level_def level_of_def BLOCK_LEVEL_ORDER_def normalize_escalation_def ladder_def
        no_escalation_def Let_def)
  from partial_update_valid [OF this] show ?thesis by blast
qed

end
