(* ===== verification/Pricing.thy ===== *)
theory Pricing
  imports PyPrelude
begin

text \<open>
  Prices of model calls (\<open>services/usage_tracking.py\<close>): the one resolver that admission,
  reconciliation and metering share, the registry row it prefers, and the price of a number of
  tokens, long prompts included. Amounts are exact rationals. The registry is the list of its
  rows, None where the database raised; the shipped catalog is an argument, keyed by model id.
  Dates are ISO texts, which order as dates.
\<close>

section \<open>Decimals\<close>

text \<open>\<open>Decimal(str(v))\<close>: finite, infinite or not a number; anything else is InvalidOperation.\<close>

datatype decimal = DFin rat | DInf bool | DNaN

definition is_digit :: "char \<Rightarrow> bool" where
  "is_digit c \<longleftrightarrow> CHR ''0'' \<le> c \<and> c \<le> CHR ''9''"

definition nat_of_digits :: "string \<Rightarrow> nat" where
  "nat_of_digits s = fold (\<lambda>c n. 10 * n + (of_char c - 48)) s 0"

definition take_sign :: "string \<Rightarrow> bool \<times> string" where
  "take_sign s = (case s of c # r \<Rightarrow> if c = CHR ''-'' then (True, r) else if c = CHR ''+'' then (False, r)
                                    else (False, s) | [] \<Rightarrow> (False, []))"

definition parse_exponent :: "string \<Rightarrow> int option" where
  "parse_exponent s =
     (case s of
        [] \<Rightarrow> Some 0
      | c # r \<Rightarrow>
          if c \<in> {CHR ''e'', CHR ''E''} then
            (case take_sign r of (neg, ds) \<Rightarrow>
               if ds \<noteq> [] \<and> list_all is_digit ds
               then Some (if neg then - int (nat_of_digits ds) else int (nat_of_digits ds)) else None)
          else None)"

definition pow10 :: "int \<Rightarrow> rat" where
  "pow10 e = (if 0 \<le> e then 10 ^ nat e else 1 / 10 ^ nat (- e))"

definition parse_decimal :: "string \<Rightarrow> decimal option" where
  "parse_decimal s =
     (case take_sign (filter (\<lambda>c. c \<noteq> CHR ''_'') (strip s)) of (neg, u) \<Rightarrow>
        if lower u \<in> {''inf'', ''infinity''} then Some (DInf neg)
        else if (starts_with ''nan'' (lower u) \<and> list_all is_digit (drop 3 u)) \<or>
                (starts_with ''snan'' (lower u) \<and> list_all is_digit (drop 4 u)) then Some DNaN
        else
          (let ip = takeWhile is_digit u; r1 = dropWhile is_digit u;
               r2 = (case r1 of c # r \<Rightarrow> if c = CHR ''.'' then r else r1 | [] \<Rightarrow> []);
               dotted = (case r1 of c # r \<Rightarrow> c = CHR ''.'' | [] \<Rightarrow> False);
               fp = (if dotted then takeWhile is_digit r2 else []);
               r3 = (if dotted then dropWhile is_digit r2 else r1)
           in if ip @ fp = [] then None
              else map_option (\<lambda>e. DFin ((if neg then - 1 else 1) * of_nat (nat_of_digits (ip @ fp)) *
                     pow10 (e - int (length fp)))) (parse_exponent r3)))"

fun dec_of :: "pyval \<Rightarrow> pyexc + decimal" where
  "dec_of (PInt i) = Inr (DFin (of_int i))"
| "dec_of (PFloat q) = Inr (DFin q)"
| "dec_of (PStr s) = (case parse_decimal s of Some d \<Rightarrow> Inr d | None \<Rightarrow> Inl ArithmeticError)"
| "dec_of _ = Inl ArithmeticError"

text \<open>\<open>quantize(Decimal('0.00000001'), rounding=ROUND_UP)\<close>: away from zero to eight places.\<close>

definition quantize_up :: "rat \<Rightarrow> rat" where
  "quantize_up q = (if 0 \<le> q then of_int \<lceil>q * 10 ^ 8\<rceil> / 10 ^ 8 else - (of_int \<lceil>- q * 10 ^ 8\<rceil> / 10 ^ 8))"

lemma quantize_up_ge: "q \<le> quantize_up q" if "0 \<le> q"
proof -
  have "q * 10 ^ 8 \<le> of_int \<lceil>q * 10 ^ 8\<rceil>" by (rule le_of_int_ceiling)
  with that show ?thesis by (simp add: quantize_up_def field_simps)
qed

lemma quantize_up_nonneg: "0 \<le> q \<Longrightarrow> 0 \<le> quantize_up q"
  using quantize_up_ge order.trans by blast

lemma quantize_up_mono: "0 \<le> q \<Longrightarrow> q \<le> r \<Longrightarrow> quantize_up q \<le> quantize_up r"
  by (simp add: quantize_up_def divide_right_mono ceiling_mono)

section \<open>Prices\<close>

record tier =
  t_above :: int
  t_input :: rat
  t_output :: rat

record change =
  ch_from :: string
  ch_input :: rat
  ch_output :: rat

record price =
  pc_input :: rat
  pc_output :: rat
  pc_long :: "tier option"
  pc_schedule :: "change list"

record registry_row =
  rr_model :: string
  rr_provider :: string
  rr_input :: "rat option"
  rr_output :: "rat option"

type_synonym catalog = "(string \<times> price) list"

text \<open>\<open>max(rows, key=...)\<close> keeps the first of the greatest.\<close>

fun best_row :: "string \<Rightarrow> registry_row \<times> rat \<times> rat \<Rightarrow> (registry_row \<times> rat \<times> rat) list \<Rightarrow>
    registry_row \<times> rat \<times> rat" where
  "best_row prov b [] = b"
| "best_row prov (b, i, out) ((r, ri, ro) # rest) =
     (let better = (rr_provider r = prov \<and> rr_provider b \<noteq> prov) \<or>
            ((rr_provider r = prov \<longleftrightarrow> rr_provider b = prov) \<and> i + out < ri + ro)
      in best_row prov (if better then (r, ri, ro) else (b, i, out)) rest)"

definition priced_rows :: "registry_row list \<Rightarrow> string \<Rightarrow> (registry_row \<times> rat \<times> rat) list" where
  "priced_rows rows model =
     concat (map (\<lambda>r. case (rr_input r, rr_output r) of
        (Some i, Some out) \<Rightarrow> if rr_model r = model then [(r, i, out)] else [] | _ \<Rightarrow> []) rows)"

definition registry_pricing :: "catalog \<Rightarrow> registry_row list \<Rightarrow> string \<Rightarrow> string \<Rightarrow> price option" where
  "registry_pricing cat rows model prov =
     (let all = priced_rows rows model;
          own = filter (\<lambda>(r, _, _). rr_provider r = prov) all;
          cand = (if prov \<noteq> [] \<and> own \<noteq> [] then own else all)
      in case cand of
           [] \<Rightarrow> None
         | b # rest \<Rightarrow>
             (case best_row prov b rest of (r, i, out) \<Rightarrow>
                (case map_of cat model of
                   Some s \<Rightarrow>
                     if pc_input s = i \<and> pc_output s = out
                     then Some \<lparr>pc_input = i, pc_output = out, pc_long = pc_long s, pc_schedule = pc_schedule s\<rparr>
                     else Some \<lparr>pc_input = i, pc_output = out, pc_long = None, pc_schedule = []\<rparr>
                 | None \<Rightarrow> Some \<lparr>pc_input = i, pc_output = out, pc_long = None, pc_schedule = []\<rparr>)))"

definition apply_schedule :: "string \<Rightarrow> price \<Rightarrow> price" where
  "apply_schedule today pc =
     fold (\<lambda>ch p. if ch_from ch \<le> today
                  then p\<lparr>pc_input := ch_input ch, pc_output := ch_output ch, pc_long := None\<rparr> else p)
       (sort_key ch_from (pc_schedule pc)) (pc\<lparr>pc_schedule := []\<rparr>)"

text \<open>\<open>resolve_model_pricing\<close>.\<close>

definition resolve_model_pricing ::
  "catalog \<Rightarrow> registry_row list option \<Rightarrow> string \<Rightarrow> pyval \<Rightarrow> pyval \<Rightarrow> price option" where
  "resolve_model_pricing cat registry today model provider =
     (case model of
        PStr m \<Rightarrow>
          if m = [] then None
          else
            (let prov = (case provider of PStr s \<Rightarrow> lower (strip s) | _ \<Rightarrow> []);
                 found = (case registry of None \<Rightarrow> None | Some rows \<Rightarrow> registry_pricing cat rows m prov)
             in map_option (apply_schedule today)
                  (case found of Some pc \<Rightarrow> Some pc | None \<Rightarrow> map_of cat m))
      | _ \<Rightarrow> None)"

text \<open>\<open>price_tokens\<close>: the long-context rate prices the whole request.\<close>

definition rates :: "price \<Rightarrow> int \<Rightarrow> rat \<times> rat" where
  "rates pc n = (case pc_long pc of
     Some t \<Rightarrow> if t_above t < n then (t_input t, t_output t) else (pc_input pc, pc_output pc)
   | None \<Rightarrow> (pc_input pc, pc_output pc))"

definition price_tokens :: "price \<Rightarrow> int \<Rightarrow> int \<Rightarrow> rat \<times> rat" where
  "price_tokens pc inp outp =
     (of_int inp * fst (rates pc inp) / 1000000, of_int outp * snd (rates pc inp) / 1000000)"

definition calculate_cost ::
  "catalog \<Rightarrow> registry_row list option \<Rightarrow> string \<Rightarrow> pyval \<Rightarrow> int \<Rightarrow> int \<Rightarrow> pyval \<Rightarrow> (rat \<times> rat) option" where
  "calculate_cost cat registry today model inp outp provider =
     map_option (\<lambda>pc. price_tokens pc inp outp) (resolve_model_pricing cat registry today model provider)"

section \<open>Properties\<close>

text \<open>Prices that do not decrease past the long-context threshold, as every published one.\<close>

definition price_ok :: "price \<Rightarrow> bool" where
  "price_ok pc \<longleftrightarrow> 0 \<le> pc_input pc \<and> 0 \<le> pc_output pc \<and>
     (case pc_long pc of None \<Rightarrow> True
      | Some t \<Rightarrow> pc_input pc \<le> t_input t \<and> pc_output pc \<le> t_output t)"

lemma rates_mono: "price_ok pc \<Longrightarrow> m \<le> n \<Longrightarrow>
    0 \<le> fst (rates pc m) \<and> 0 \<le> snd (rates pc m) \<and>
    fst (rates pc m) \<le> fst (rates pc n) \<and> snd (rates pc m) \<le> snd (rates pc n)"
  by (auto simp: price_ok_def rates_def split: option.splits)

text \<open>
  Reserving for more tokens than are used reserves enough money: under a price whose
  long-context rates are not below its base rates, both parts of the price grow with the token
  counts, across the threshold included.
\<close>

lemma price_monotone:
  assumes "price_ok pc" "0 \<le> i" "i \<le> i'" "0 \<le> out" "out \<le> out'"
  shows "fst (price_tokens pc i out) \<le> fst (price_tokens pc i' out') \<and>
    snd (price_tokens pc i out) \<le> snd (price_tokens pc i' out')"
  using assms rates_mono [OF assms(1,3)] unfolding price_tokens_def fst_conv snd_conv
  by (intro conjI divide_right_mono mult_mono) simp_all

lemma price_monotone_witness:
  "fst (price_tokens \<lparr>pc_input = 1, pc_output = 2, pc_long = Some \<lparr>t_above = 100, t_input = 4, t_output = 8\<rparr>,
      pc_schedule = []\<rparr> 50 10) \<le>
   fst (price_tokens \<lparr>pc_input = 1, pc_output = 2, pc_long = Some \<lparr>t_above = 100, t_input = 4, t_output = 8\<rparr>,
      pc_schedule = []\<rparr> 500 10)"
  by (rule price_monotone [THEN conjunct1]) (simp_all add: price_ok_def)

lemma best_row_in: "best_row prov b rest \<in> insert b (set rest)"
  by (induction prov b rest rule: best_row.induct) (auto simp: Let_def)

definition row_total :: "registry_row \<times> rat \<times> rat \<Rightarrow> rat" where
  "row_total e = fst (snd e) + snd (snd e)"

lemma best_row_max:
  assumes "\<forall>e \<in> insert b (set rest). (rr_provider (fst e) = prov) = q" "e \<in> insert b (set rest)"
  shows "row_total e \<le> row_total (best_row prov b rest)"
  using assms
proof (induction prov b rest arbitrary: e rule: best_row.induct)
  case (1 prov b)
  then show ?case by simp
next
  case (2 prov b i out r ri ro rest)
  let ?w = "if i + out < ri + ro then (r, ri, ro) else (b, i, out)"
  have same: "(rr_provider r = prov) = (rr_provider b = prov)" using 2(2) by simp
  then have step: "best_row prov (b, i, out) ((r, ri, ro) # rest) = best_row prov ?w rest"
    by (auto simp: Let_def)
  have IH: "row_total x \<le> row_total (best_row prov ?w rest)" if "x \<in> insert ?w (set rest)" for x
    using 2(1) [OF refl, of x] 2(2) same that by (auto simp: Let_def split: if_splits)
  have "row_total (b, i, out) \<le> row_total ?w" "row_total (r, ri, ro) \<le> row_total ?w"
    by (simp_all add: row_total_def)
  moreover have "row_total ?w \<le> row_total (best_row prov ?w rest)" by (rule IH) (rule insertI1)
  moreover have "e \<in> set rest \<Longrightarrow> row_total e \<le> row_total (best_row prov ?w rest)"
    by (rule IH) (rule insertI2)
  moreover have "e = (b, i, out) \<or> e = (r, ri, ro) \<or> e \<in> set rest" using 2(3) by auto
  ultimately show ?case unfolding step by (meson order.trans)
qed

text \<open>
  A model id listed by several providers is never under-priced: without a provider, the
  registry's price is at least the total of every priced row for the id; an id with no priced
  row in the registry and none in the catalog has no price at all.
\<close>

lemma ambiguous_model_highest_price:
  shows "(\<forall>r i out. (r, i, out) \<in> set (priced_rows rows m) \<longrightarrow> (\<forall>x \<in> set rows. rr_provider x \<noteq> []) \<longrightarrow>
      (\<exists>pc. registry_pricing cat rows m [] = Some pc \<and> i + out \<le> pc_input pc + pc_output pc)) \<and>
    (priced_rows rows m = [] \<longrightarrow> map_of cat m = None \<longrightarrow>
      resolve_model_pricing cat (Some rows) today (PStr m) prov = None)"
proof (intro conjI allI impI)
  fix r i out
  assume e: "(r, i, out) \<in> set (priced_rows rows m)" and named: "\<forall>x \<in> set rows. rr_provider x \<noteq> []"
  then obtain b rest where all: "priced_rows rows m = b # rest" by (cases "priced_rows rows m") auto
  have "\<forall>e \<in> set (priced_rows rows m). (rr_provider (fst e) = []) = False"
    using named by (auto simp: priced_rows_def split: option.splits if_splits)
  then have "row_total (r, i, out) \<le> row_total (best_row [] b rest)"
    using best_row_max [of b rest "[]" False "(r, i, out)"] e all by simp
  then show "\<exists>pc. registry_pricing cat rows m [] = Some pc \<and> i + out \<le> pc_input pc + pc_output pc"
    by (auto simp: registry_pricing_def all row_total_def split: prod.splits option.splits)
next
  assume "priced_rows rows m = []" "map_of cat m = None"
  then show "resolve_model_pricing cat (Some rows) today (PStr m) prov = None"
    by (auto simp: resolve_model_pricing_def registry_pricing_def)
qed

lemma ambiguous_model_highest_price_witness:
  "resolve_model_pricing [] (Some []) ''2026-10-16'' (PStr ''m'') (PStr []) = None"
  using ambiguous_model_highest_price [of "[]" "''m''" "[]" "''2026-10-16''" "PStr []"]
  by (simp add: priced_rows_def)

end
