(* ===== verification/PolicyModel.thy ===== *)
theory PolicyModel
  imports SteerTemplate
begin

text \<open>
  The policy and endpoint rows (\<open>models/policy.py\<close>, \<open>models/endpoint.py\<close>), the validation and
  version rule of saving a policy, the result of one evaluator (\<open>evaluators/base.py\<close>) and the
  accessors the evaluators share. A policy row holds typed action settings: they are what
  \<open>Policy.clean\<close> lets into the database.
\<close>

section \<open>Rows\<close>

datatype scope_type = ORGANIZATION | SUB_ORGANIZATION | DEPLOYMENT | ENDPOINT | USER

record policy =
  p_id :: string
  p_tenant :: string
  p_name :: string
  p_type :: string
  p_version :: nat
  p_priority :: int
  p_enabled :: bool
  p_scope :: scope_type
  p_scope_sub_org :: string
  p_scope_deployment :: string
  p_scope_endpoint :: "string option"
  p_scope_user :: string
  p_enforcement :: mode
  p_action :: action
  p_block_level :: block_level
  p_steer :: string
  p_escalation :: escalation
  p_config :: pyval
  p_override_group :: string
  p_non_overridable :: bool

record endpoint =
  ep_id :: string
  ep_agent_id :: string
  ep_tenant :: string
  ep_sub_org :: string
  ep_deployment :: string
  ep_agent_type :: string
  ep_metadata :: pyval

section \<open>Results of evaluators\<close>

record presult =
  pr_passed :: bool
  pr_message :: "string option"
  pr_warnings :: "string list"
  pr_approval :: bool
  pr_advisory :: bool
  pr_error :: bool

definition pass_with :: "string list \<Rightarrow> presult" where
  "pass_with ws = \<lparr>pr_passed = True, pr_message = None, pr_warnings = ws, pr_approval = False,
     pr_advisory = False, pr_error = False\<rparr>"

abbreviation pass_r :: presult where
  "pass_r \<equiv> pass_with []"

definition fail_with :: "string \<Rightarrow> presult" where
  "fail_with msg = \<lparr>pr_passed = False, pr_message = Some msg, pr_warnings = [], pr_approval = False,
     pr_advisory = False, pr_error = False\<rparr>"

definition ask_with :: "string \<Rightarrow> presult" where
  "ask_with msg = (fail_with msg)\<lparr>pr_approval := True\<rparr>"

text \<open>What the engine makes of an evaluator that raised.\<close>

definition error_result :: "policy \<Rightarrow> presult" where
  "error_result p = (fail_with (''Policy evaluation error: '' @ p_name p))\<lparr>pr_error := True\<rparr>"

lemma presult_simps [simp]:
  "pr_passed (pass_with ws)" "pr_warnings (pass_with ws) = ws" "\<not> pr_approval (pass_with ws)"
  "\<not> pr_advisory (pass_with ws)" "\<not> pr_error (pass_with ws)" "pr_message (pass_with ws) = None"
  "\<not> pr_passed (fail_with m)" "\<not> pr_approval (fail_with m)" "\<not> pr_advisory (fail_with m)"
  "\<not> pr_error (fail_with m)" "pr_message (fail_with m) = Some m" "pr_warnings (fail_with m) = []"
  "\<not> pr_passed (ask_with m)" "pr_approval (ask_with m)" "\<not> pr_error (ask_with m)"
  "pr_message (ask_with m) = Some m" "\<not> pr_advisory (ask_with m)" "pr_warnings (ask_with m) = []"
  "\<not> pr_passed (error_result p)" "pr_error (error_result p)" "\<not> pr_approval (error_result p)"
  by (simp_all add: pass_with_def fail_with_def ask_with_def error_result_def)

lemma pass_with_inject [simp]: "pass_with ws = pass_with vs \<longleftrightarrow> ws = vs"
  by (simp add: pass_with_def)

lemma fail_with_inject [simp]: "fail_with m = fail_with n \<longleftrightarrow> m = n"
  by (simp add: fail_with_def)

lemma presult_distinct [simp]:
  "pass_with ws \<noteq> fail_with m" "fail_with m \<noteq> pass_with ws"
  "pass_with ws \<noteq> ask_with m" "ask_with m \<noteq> pass_with ws"
  "fail_with m \<noteq> ask_with n" "ask_with n \<noteq> fail_with m"
  by (simp_all add: pass_with_def fail_with_def ask_with_def)

subsection \<open>Accessors\<close>

text \<open>\<open>policy.config.get(k, d)\<close> raises when the stored configuration is no object.\<close>

definition cfg :: "policy \<Rightarrow> string \<Rightarrow> pyval \<Rightarrow> pyval option" where
  "cfg p k d = pget (p_config p) k d"

definition ctx_get :: "pydict \<Rightarrow> string \<Rightarrow> pyval" where
  "ctx_get c k = dget c k PNone"

lemma cfg_dict [simp]: "p_config p = PDict d \<Longrightarrow> cfg p k v = Some (dget d k v)"
  by (simp add: cfg_def)

text \<open>\<open>a >= b\<close>, \<open>a > b\<close>, and \<open>a != b\<close>'s building block, for values that may not compare.\<close>

definition py_ge :: "pyval \<Rightarrow> pyval \<Rightarrow> bool option" where
  "py_ge a b = py_le b a"

definition py_gt :: "pyval \<Rightarrow> pyval \<Rightarrow> bool option" where
  "py_gt a b = py_lt b a"

lemma py_gt_ge_int [simp]:
  "py_gt (PInt i) (PInt j) = Some (j < i)" "py_ge (PInt i) (PInt j) = Some (j \<le> i)"
  by (simp_all add: py_gt_def py_ge_def)

text \<open>An optional message in an f-string.\<close>

definition show_msg :: "string option \<Rightarrow> string" where
  "show_msg m = (case m of None \<Rightarrow> ''None'' | Some s \<Rightarrow> s)"

section \<open>Saving a policy\<close>

text \<open>\<open>selector.count(':') == 1\<close> with non-blank text on both sides.\<close>

definition selector_ok :: "string \<Rightarrow> bool" where
  "selector_ok s \<longleftrightarrow>
     length (filter (\<lambda>c. c = CHR '':'') s) = 1 \<and>
     strip (takeWhile (\<lambda>c. c \<noteq> CHR '':'') s) \<noteq> [] \<and>
     strip (tl (dropWhile (\<lambda>c. c \<noteq> CHR '':'') s)) \<noteq> []"

definition check_selectors :: "pyval \<Rightarrow> string + unit" where
  "check_selectors config =
     (let sel = (case config of PDict d \<Rightarrow> dget d ''taxonomy_selectors'' (PList []) | _ \<Rightarrow> PList [])
      in if \<not> truthy sel then Inr ()
         else
           (case sel of
              PList xs \<Rightarrow>
                if \<not> list_all is_str xs
                then Inl ''taxonomy_selectors must be a list of dimension:value strings.''
                else if \<not> list_all (\<lambda>x. case x of PStr s \<Rightarrow> selector_ok s | _ \<Rightarrow> False) xs
                then Inl ''Each taxonomy selector must use dimension:value syntax.''
                else Inr ()
            | _ \<Rightarrow> Inl ''taxonomy_selectors must be a list of dimension:value strings.''))"

definition check_scope :: "policy \<Rightarrow> string + unit" where
  "check_scope p =
     (let sub = p_scope_sub_org p \<noteq> []; dep = p_scope_deployment p \<noteq> [];
          endp = p_scope_endpoint p \<noteq> None; usr = p_scope_user p \<noteq> []
      in case p_scope p of
           ORGANIZATION \<Rightarrow>
             if sub \<or> dep \<or> endp \<or> usr
             then Inl ''Organization-scoped policies should not have sub_organization, deployment, endpoint, or user set.''
             else Inr ()
         | SUB_ORGANIZATION \<Rightarrow>
             if \<not> sub then Inl ''Sub-organization-scoped policies must have a sub_organization set.''
             else if dep \<or> endp \<or> usr
             then Inl ''Sub-organization-scoped policies should not have deployment, endpoint, or user set.''
             else Inr ()
         | DEPLOYMENT \<Rightarrow>
             if \<not> dep then Inl ''Deployment-scoped policies must have a deployment set.''
             else if endp \<or> usr
             then Inl ''Deployment-scoped policies should not have endpoint or user set.''
             else Inr ()
         | ENDPOINT \<Rightarrow>
             if \<not> endp then Inl ''Endpoint-scoped policies must have an endpoint set.''
             else if usr then Inl ''Endpoint-scoped policies should not have user set.''
             else Inr ()
         | USER \<Rightarrow>
             if \<not> usr then Inl ''User-scoped policies must have a user set.'' else Inr ())"

text \<open>
  \<open>Policy.clean\<close> on the values about to be stored; the action settings arrive untyped and the
  result is the row that is written.
\<close>

definition policy_clean ::
  "policy \<Rightarrow> pyval \<Rightarrow> pyval \<Rightarrow> pyval \<Rightarrow> pyval \<Rightarrow> string + policy" where
  "policy_clean p action block_level steer_message escalation =
     rbind (check_selectors (p_config p)) (\<lambda>_.
     rbind (validate_rule_action action block_level steer_message escalation) (\<lambda>e.
     rbind (check_scope p) (\<lambda>_.
     (case (action_of action, level_of block_level, steer_message) of
        (Some a, Some bl, PStr msg) \<Rightarrow>
          Inr (p\<lparr>p_action := a, p_block_level := bl, p_steer := msg, p_escalation := e\<rparr>)
      | _ \<Rightarrow> Inl ''action settings must be text''))))"

text \<open>\<open>Policy.save\<close>: an update takes the stored version plus one, whatever the instance carries.\<close>

lemma check_scope_update [simp]:
  "check_scope (p\<lparr>p_action := a, p_block_level := bl, p_steer := m, p_escalation := e\<rparr>) = check_scope p"
  "check_scope (p\<lparr>p_version := v\<rparr>) = check_scope p"
  unfolding check_scope_def by simp_all

definition policy_save ::
  "nat option \<Rightarrow> policy \<Rightarrow> pyval \<Rightarrow> pyval \<Rightarrow> pyval \<Rightarrow> pyval \<Rightarrow> string + policy" where
  "policy_save stored_version p av lv mv ev =
     rbind (policy_clean p av lv mv ev) (\<lambda>q.
     Inr (case stored_version of None \<Rightarrow> q | Some v \<Rightarrow> q\<lparr>p_version := v + 1\<rparr>))"

text \<open>A row in the database: its escalation is canonical, and a rule that can steer has a message.\<close>

definition policy_wf :: "policy \<Rightarrow> bool" where
  "policy_wf p \<longleftrightarrow>
     esc_wf (rank (p_action p) (level_for (p_action p) (Some (p_block_level p)))) (p_escalation p) \<and>
     (STEER \<in> set (ladder (p_action p) (p_escalation p)) \<longrightarrow> strip (p_steer p) \<noteq> []) \<and>
     (p_steer p \<noteq> [] \<longrightarrow> validate_steer_template (p_steer p) = Inr ())"

lemma validate_rule_action_typed:
  assumes "validate_rule_action av lv mv ev = Inr e"
  obtains a bl msg where "action_of av = Some a" "level_of lv = Some bl" "mv = PStr msg"
    "esc_wf (rank a (level_for a (Some bl))) e"
    "STEER \<in> set (ladder a e) \<longrightarrow> strip msg \<noteq> []" "msg \<noteq> [] \<longrightarrow> validate_steer_template msg = Inr ()"
  using assms normalize_escalation_wf unfolding validate_rule_action_Inr by (metis action_of_value level_of_value)

lemma policy_clean_wf: "policy_clean p av lv mv ev = Inr q \<Longrightarrow> policy_wf q"
  by (auto simp: policy_clean_def policy_wf_def elim!: validate_rule_action_typed)

text \<open>
  C36: Whatever saving accepts is well formed: the stored row has a canonical escalation above its
  own action, a template that renders wherever the rule can steer, scope fields that match its
  scope type, and on an update exactly the next version number.
\<close>

theorem saved_policy_wf:
  assumes "policy_save stored p av lv mv ev = Inr q"
  shows "policy_wf q \<and> check_scope q = Inr () \<and> check_selectors (p_config q) = Inr () \<and>
    (\<forall>v. stored = Some v \<longrightarrow> p_version q = Suc v)"
proof -
  from assms obtain r where r: "policy_clean p av lv mv ev = Inr r"
    and q: "q = (case stored of None \<Rightarrow> r | Some v \<Rightarrow> r\<lparr>p_version := v + 1\<rparr>)"
    by (auto simp: policy_save_def)
  have "policy_wf r" using r by (rule policy_clean_wf)
  moreover from r have "check_scope r = Inr ()" "check_selectors (p_config r) = Inr ()"
    by (auto simp: policy_clean_def elim!: validate_rule_action_typed)
  ultimately show ?thesis
    by (cases stored) (simp_all add: q policy_wf_def)
qed

definition demo_policy :: policy where
  "demo_policy = \<lparr>p_id = ''p1'', p_tenant = ''t'', p_name = ''demo'', p_type = ''tool_permission'',
     p_version = 1, p_priority = 0, p_enabled = True, p_scope = ORGANIZATION, p_scope_sub_org = [],
     p_scope_deployment = [], p_scope_endpoint = None, p_scope_user = [], p_enforcement = ENFORCE,
     p_action = BLOCK, p_block_level = TOOL_CALL, p_steer = [], p_escalation = no_escalation,
     p_config = PDict [], p_override_group = [], p_non_overridable = False\<rparr>"

theorem saved_policy_wf_witness:
  "\<exists>q. policy_save (Some 4) demo_policy (PStr ''warn'') (PStr ''tool_call'') (PStr []) (PDict []) =
     Inr q \<and> policy_wf q \<and> p_version q = 5"
proof -
  have "policy_save (Some 4) demo_policy (PStr ''warn'') (PStr ''tool_call'') (PStr []) (PDict []) =
      Inr (demo_policy\<lparr>p_action := WARN, p_version := 5\<rparr>)"
    by (simp add: policy_save_def policy_clean_def demo_policy_def check_selectors_def dget_def
        validate_rule_action_def read_action_def action_of_def of_value_def ACTION_ORDER_def
        read_level_def level_of_def BLOCK_LEVEL_ORDER_def normalize_escalation_def ladder_def
        no_escalation_def check_scope_def Let_def)
  with saved_policy_wf [OF this] show ?thesis by auto
qed

end
