(* ===== verification/Approvals.thy ===== *)
theory Approvals
  imports PolicyModel ActionTargets
begin

text \<open>
  Single-use approvals (\<open>services/approvals.py\<close>, \<open>models/approval.py\<close>): the digest an approval is
  bound to, granting, finding and validating one, consuming all those a call needs in one
  transaction, and the request an operator decides once. A database table is a list of rows;
  a transaction that raises leaves the tables as they were. Times are microseconds. Signing
  (\<open>django.core.signing\<close>) and the hash of the canonical JSON are parameters, as are fresh UUIDs.
\<close>

section \<open>Rows and the outside\<close>

record approval =
  ap_id :: string
  ap_tenant :: string
  ap_kind :: string
  ap_endpoint :: string
  ap_subject :: string
  ap_action :: string
  ap_digest :: string
  ap_versions :: "(string \<times> nat) list"
  ap_granted_by :: string
  ap_expires :: int
  ap_consumed :: "int option"
  ap_created :: int

datatype request_status = PENDING | APPROVED | DENIED

text \<open>A repeat counter to add to, as \<open>_count_key\<close> builds it.\<close>

record count_key =
  ck_tenant :: string
  ck_kind :: string
  ck_rule :: string
  ck_scope :: string
  ck_window :: int

record approval_request =
  ar_id :: string
  ar_tenant :: string
  ar_endpoint :: string
  ar_subject :: string
  ar_action :: string
  ar_digest :: string
  ar_context :: pydict
  ar_reason :: string
  ar_trace :: string
  ar_status :: request_status
  ar_expires :: int
  ar_decided_by :: string
  ar_decided_at :: "int option"
  ar_decision_reason :: string
  ar_counts :: "count_key list"
  ar_approval :: "string option"

text \<open>
  \<open>x_digest\<close> is the SHA-256 of the JSON text of a dictionary with sorted keys; \<open>x_unsign\<close> is
  \<open>signing.loads\<close> with the salt and the five-minute age limit, None where it raises.
\<close>

record approval_env =
  x_digest :: "pydict \<Rightarrow> string"
  x_sign :: "string \<Rightarrow> string"
  x_unsign :: "pyval \<Rightarrow> string option"
  x_now :: int

definition seconds :: "int \<Rightarrow> int" where
  "seconds n = n * 1000000"

definition transport_keys :: "string list" where
  "transport_keys = [''approval_token'', ''request_id'', ''trace_id'']"

definition canonical_context :: "pydict \<Rightarrow> pydict" where
  "canonical_context c =
     filter (\<lambda>(k, _). \<not> starts_with ''_'' k \<and> k \<notin> set transport_keys) c"

definition context_digest :: "approval_env \<Rightarrow> pydict \<Rightarrow> string" where
  "context_digest x c = x_digest x (sort_key fst (canonical_context c))"

section \<open>Granting and finding\<close>

definition grant_approval ::
  "approval_env \<Rightarrow> string \<Rightarrow> string \<Rightarrow> string \<Rightarrow> string \<Rightarrow> string \<Rightarrow> string \<Rightarrow> string \<Rightarrow>
   policy list \<Rightarrow> string \<Rightarrow> int \<Rightarrow> approval list \<Rightarrow> string + (approval \<times> approval list)" where
  "grant_approval x fresh tenant kind subject action digest endpoint policies granted_by timeout aps =
     (if tenant = [] \<or> kind \<notin> {''policy'', ''assistant''}
      then Inl ''A tenant and recognized approval kind are required''
      else if kind = ''policy'' \<and> (endpoint = [] \<or> granted_by = [])
      then Inl ''Policy approvals require a workload and human approver''
      else if \<exists>p \<in> set policies. p_tenant p \<noteq> tenant
      then Inl ''Approval policies must belong to the tenant''
      else
        (let a = \<lparr>ap_id = fresh, ap_tenant = tenant, ap_kind = kind, ap_endpoint = endpoint,
               ap_subject = subject, ap_action = action, ap_digest = digest,
               ap_versions = map (\<lambda>p. (p_id p, p_version p)) policies, ap_granted_by = granted_by,
               ap_expires = x_now x + seconds (max 1 (min timeout 300)), ap_consumed = None,
               ap_created = x_now x\<rparr>
         in Inr (a, aps @ [a])))"

definition sign_approval :: "approval_env \<Rightarrow> string \<Rightarrow> string" where
  "sign_approval x i = x_sign x i"

definition issue_approval ::
  "approval_env \<Rightarrow> string \<Rightarrow> string \<Rightarrow> string \<Rightarrow> string \<Rightarrow> string \<Rightarrow> pydict \<Rightarrow> string \<Rightarrow>
   policy list \<Rightarrow> string \<Rightarrow> int \<Rightarrow> approval list \<Rightarrow> string + (string \<times> approval list)" where
  "issue_approval x fresh tenant kind subject action context endpoint policies granted_by timeout aps =
     rbind (grant_approval x fresh tenant kind subject action (context_digest x context) endpoint
              policies granted_by timeout aps) (\<lambda>(a, aps').
     Inr (sign_approval x (ap_id a), aps'))"

text \<open>The filter of \<open>find_approval\<close>; trusted values come from the context, so they are values.\<close>

definition approval_matches ::
  "approval_env \<Rightarrow> string \<Rightarrow> pyval \<Rightarrow> string \<Rightarrow> string \<Rightarrow> string \<Rightarrow> pyval \<Rightarrow> pyval \<Rightarrow> approval \<Rightarrow> bool" where
  "approval_matches x pk tenant kind subject action digest endpoint a \<longleftrightarrow>
     ap_id a = pk \<and> PStr (ap_tenant a) = tenant \<and> ap_kind a = kind \<and> ap_subject a = subject \<and>
     ap_action a = action \<and> PStr (ap_digest a) = digest \<and> PStr (ap_endpoint a) = endpoint \<and>
     ap_consumed a = None \<and> x_now x < ap_expires a"

definition find_approval ::
  "approval_env \<Rightarrow> approval list \<Rightarrow> pyval \<Rightarrow> pyval \<Rightarrow> string \<Rightarrow> string \<Rightarrow> string \<Rightarrow> pyval \<Rightarrow> pyval \<Rightarrow>
   approval option" where
  "find_approval x aps token tenant kind subject action digest endpoint =
     (case x_unsign x token of
        None \<Rightarrow> None
      | Some pk \<Rightarrow> find (approval_matches x pk tenant kind subject action digest endpoint) aps)"

text \<open>
  \<open>validate_policy_approval\<close>: on success the approval's id joins the context's list of those to
  consume. None: a timeout that is no number, or a list of ids that is no list, raises.
\<close>

definition validate_policy_approval ::
  "approval_env \<Rightarrow> approval list \<Rightarrow> policy \<Rightarrow> string \<Rightarrow> string \<Rightarrow> pydict \<Rightarrow> (presult \<times> pydict) option" where
  "validate_policy_approval x aps p action user c =
     (let digest = py_or (ctx_get c ''_approval_digest'') (PStr (context_digest x c));
          found = find_approval x aps (ctx_get c ''approval_token'') (dget c ''_tenant_id'' (PStr []))
            ''policy'' user action digest (dget c ''_endpoint_id'' (PStr []))
      in case found of
           None \<Rightarrow> Some (fail_with ''A current approval for this identity and exact action is required'', c)
         | Some a \<Rightarrow>
             if map_of (ap_versions a) (p_id p) \<noteq> Some (p_version p) then
               Some (fail_with ''A current approval for this identity and exact action is required'', c)
             else do {
               limit \<leftarrow> cfg p ''approval_timeout_seconds'' (PInt 300);
               late \<leftarrow> py_gt (PFloat (of_int (x_now x - ap_created a) / 1000000)) limit;
               if late then Some (fail_with ''Approval has expired'', c)
               else
                 (case dget c ''_validated_approval_ids'' (PList []) of
                    PList ids \<Rightarrow>
                      Some (pass_r, dput ''_validated_approval_ids''
                        (PList (if PStr (ap_id a) \<in> set ids then ids else ids @ [PStr (ap_id a)])) c)
                  | _ \<Rightarrow> None) })"

section \<open>Consuming\<close>

definition approval_stale :: "int \<Rightarrow> approval \<Rightarrow> bool" where
  "approval_stale now a \<longleftrightarrow> ap_consumed a \<noteq> None \<or> ap_expires a \<le> now"

definition consume_approvals :: "int \<Rightarrow> string list \<Rightarrow> string \<Rightarrow> approval list \<Rightarrow> bool \<times> approval list" where
  "consume_approvals now ids tenant aps =
     (if ids = [] then (True, aps)
      else
        (let mine = (\<lambda>a. ap_tenant a = tenant \<and> ap_id a \<in> set ids);
             found = filter mine aps
         in if length found \<noteq> length ids \<or> list_ex (approval_stale now) found then (False, aps)
            else (True, map (\<lambda>a. if mine a then a\<lparr>ap_consumed := Some now\<rparr> else a) aps)))"

section \<open>Requests\<close>

definition current_status :: "int \<Rightarrow> approval_request \<Rightarrow> request_status option" where
  "current_status now r =
     (if ar_status r = PENDING \<and> ar_expires r \<le> now then None else Some (ar_status r))"

fun status_value :: "request_status option \<Rightarrow> string" where
  "status_value None = ''expired''"
| "status_value (Some PENDING) = ''pending''"
| "status_value (Some APPROVED) = ''approved''"
| "status_value (Some DENIED) = ''denied''"

text \<open>\<open>approval_timeout\<close>; None: a timeout \<open>int\<close> cannot read, or a configuration that is no object.\<close>

definition approval_timeout :: "policy list \<Rightarrow> int option" where
  "approval_timeout policies =
     do { ts \<leftarrow> map_m (\<lambda>p. do { t \<leftarrow> cfg p ''approval_timeout_seconds'' (PInt 300); res_option (py_int t) }) policies;
          Some (max 1 (fold min ts 300)) }"

definition open_approval_request ::
  "approval_env \<Rightarrow> string \<Rightarrow> endpoint \<Rightarrow> policy list \<Rightarrow> string \<Rightarrow> string \<Rightarrow> pydict \<Rightarrow> string \<Rightarrow>
   string \<Rightarrow> count_key list \<Rightarrow> approval_request list \<Rightarrow>
   (approval_request \<times> int \<times> approval_request list) option" where
  "open_approval_request x fresh ep policies action user c reason trace counts reqs =
     do { timeout \<leftarrow> approval_timeout policies;
          digest \<leftarrow> do { v \<leftarrow> map_of c ''_approval_digest''; str_of v };
          let r = \<lparr>ar_id = fresh, ar_tenant = ep_tenant ep, ar_endpoint = ep_id ep, ar_subject = user,
                   ar_action = action, ar_digest = digest, ar_context = c, ar_reason = reason,
                   ar_trace = trace, ar_status = PENDING, ar_expires = x_now x + seconds timeout,
                   ar_decided_by = [], ar_decided_at = None, ar_decision_reason = [],
                   ar_counts = counts, ar_approval = None\<rparr>;
          Some (r, timeout, reqs @ [r]) }"

text \<open>Adding the matches a denied call held back, \<open>count_match\<close> per key under the request's tenant.\<close>

definition count_held :: "'c cache_ops \<Rightarrow> string \<Rightarrow> count_key \<Rightarrow> 'c \<Rightarrow> 'c option" where
  "count_held ops tenant k c =
     map_option snd (count_match ops (escalation_key tenant (ck_kind k) (ck_rule k) (ck_scope k))
       (ck_window k) True c)"

fun count_all :: "'c cache_ops \<Rightarrow> string \<Rightarrow> count_key list \<Rightarrow> 'c \<Rightarrow> 'c option" where
  "count_all ops tenant [] c = Some c"
| "count_all ops tenant (k # ks) c = do { c' \<leftarrow> count_held ops tenant k c; count_all ops tenant ks c' }"

text \<open>What deciding needs of the engine: the endpoint's effective policies, None if it is gone.\<close>

type_synonym policy_lookup = "string \<Rightarrow> string \<Rightarrow> string \<Rightarrow> policy list option"

record 'c approval_state =
  s_approvals :: "approval list"
  s_requests :: "approval_request list"
  s_cache :: 'c

definition replace_request :: "approval_request \<Rightarrow> approval_request list \<Rightarrow> approval_request list" where
  "replace_request r = map (\<lambda>q. if ar_id q = ar_id r then r else q)"

definition decide_approval_request ::
  "approval_env \<Rightarrow> 'c cache_ops \<Rightarrow> policy_lookup \<Rightarrow> string \<Rightarrow> string \<Rightarrow> string \<Rightarrow> bool \<Rightarrow> string \<Rightarrow>
   string \<Rightarrow> 'c approval_state \<Rightarrow> pyexc + (approval_request \<times> 'c approval_state)" where
  "decide_approval_request x ops lookup fresh tenant request_id approve decided_by reason s =
     (case find (\<lambda>r. ar_tenant r = tenant \<and> ar_id r = request_id) (s_requests s) of
        None \<Rightarrow> Inl LookupError
      | Some held \<Rightarrow>
          if current_status (x_now x) held \<noteq> Some PENDING then
            Inl (ValueError (''Approval request is '' @ status_value (current_status (x_now x) held) @
              '', not pending''))
          else
            (let finish = (\<lambda>h s'. let h' = h\<lparr>ar_status := if approve then APPROVED else DENIED,
                     ar_decided_by := decided_by, ar_decided_at := Some (x_now x),
                     ar_decision_reason := reason\<rparr>
                   in Inr (h', s'\<lparr>s_requests := replace_request h' (s_requests s')\<rparr>))
             in if approve then
                  (case lookup tenant (ar_endpoint held) (ar_subject held) of
                     None \<Rightarrow> Inl (ValueError ''The requesting agent no longer exists'')
                   | Some policies \<Rightarrow>
                       (case approval_timeout policies of
                          None \<Rightarrow> Inl OtherError
                        | Some timeout \<Rightarrow>
                            (case grant_approval x fresh tenant ''policy'' (ar_subject held)
                                    (ar_action held) (ar_digest held) (ar_endpoint held) policies
                                    decided_by timeout (s_approvals s) of
                               Inl e \<Rightarrow> Inl (ValueError e)
                             | Inr (a, aps) \<Rightarrow>
                                 finish (held\<lparr>ar_approval := Some (ap_id a)\<rparr>) (s\<lparr>s_approvals := aps\<rparr>))))
                else
                  (case count_all ops (ar_tenant held) (ar_counts held) (s_cache s) of
                     None \<Rightarrow> Inl OtherError
                   | Some c \<Rightarrow> finish held (s\<lparr>s_cache := c\<rparr>))))"

section \<open>Consuming is atomic\<close>

definition consumed_ids :: "approval list \<Rightarrow> string set" where
  "consumed_ids aps = ap_id ` {a \<in> set aps. ap_consumed a \<noteq> None}"

lemma consume_fails_unchanged: "consume_approvals now ids tenant aps = (False, aps') \<Longrightarrow> aps' = aps"
  by (auto simp: consume_approvals_def Let_def split: if_splits)

text \<open>As many rows found as ids asked for means every id was found.\<close>

lemma all_ids_found:
  assumes "distinct (map ap_id aps)" "length (filter (\<lambda>a. P a \<and> ap_id a \<in> set ids) aps) = length ids"
    "i \<in> set ids"
  shows "\<exists>a \<in> set aps. P a \<and> ap_id a = i"
proof -
  let ?found = "filter (\<lambda>a. P a \<and> ap_id a \<in> set ids) aps"
  have "distinct (map ap_id ?found)"
    using assms(1) by (simp add: distinct_map_filter)
  then have "card (ap_id ` set ?found) = length ids"
    using assms(2) distinct_card [of "map ap_id ?found"] by simp
  moreover have "ap_id ` set ?found \<subseteq> set ids" by auto
  moreover from calculation have "card (ap_id ` set ?found) = card (set ids)"
    using card_length [of ids] card_mono [of "set ids" "ap_id ` set ?found"] by simp
  ultimately have "ap_id ` set ?found = set ids"
    by (intro card_subset_eq) simp_all
  with assms(3) have "i \<in> ap_id ` set ?found" by simp
  then show ?thesis by (auto simp del: set_filter simp: set_filter)
qed

lemma consume_True:
  assumes "consume_approvals now ids tenant aps = (True, aps')" "ids \<noteq> []"
  defines "mine \<equiv> \<lambda>a. ap_tenant a = tenant \<and> ap_id a \<in> set ids"
  shows "length (filter mine aps) = length ids" "\<forall>a \<in> set aps. mine a \<longrightarrow> ap_consumed a = None"
    "aps' = map (\<lambda>a. if mine a then a\<lparr>ap_consumed := Some now\<rparr> else a) aps"
proof -
  have "\<not> (length (filter mine aps) \<noteq> length ids \<or> list_ex (approval_stale now) (filter mine aps))"
    and aps': "aps' = map (\<lambda>a. if mine a then a\<lparr>ap_consumed := Some now\<rparr> else a) aps"
    using assms(1,2) unfolding consume_approvals_def mine_def Let_def
    by (simp_all split: if_splits)
  then show "length (filter mine aps) = length ids" "\<forall>a \<in> set aps. mine a \<longrightarrow> ap_consumed a = None"
    by (auto simp: list_ex_iff approval_stale_def)
  show "aps' = map (\<lambda>a. if mine a then a\<lparr>ap_consumed := Some now\<rparr> else a) aps"
    by (rule aps')
qed

lemma consume_succeeds:
  assumes "consume_approvals now ids tenant aps = (True, aps')" "distinct (map ap_id aps)" "i \<in> set ids"
  shows "i \<notin> consumed_ids aps" "i \<in> consumed_ids aps'"
proof -
  have "ids \<noteq> []" using assms(3) by auto
  note spent = consume_True [OF assms(1) this]
  obtain a where a: "a \<in> set aps" "ap_tenant a = tenant" "ap_id a = i"
    using all_ids_found [OF assms(2) spent(1) assms(3)] by blast
  show "i \<notin> consumed_ids aps"
  proof
    assume "i \<in> consumed_ids aps"
    then obtain b where b: "b \<in> set aps" "ap_id b = i" "ap_consumed b \<noteq> None"
      unfolding consumed_ids_def by blast
    have "inj_on ap_id (set aps)" using assms(2) by (simp add: distinct_map)
    from inj_onD [OF this _ b(1) a(1)] b(2) a(3) have "b = a" by simp
    moreover have "ap_consumed a = None" using spent(2) a assms(3) by simp
    ultimately show False using b(3) by simp
  qed
  let ?b = "a\<lparr>ap_consumed := Some now\<rparr>"
  have "?b \<in> set aps'"
    using imageI [OF a(1), of "\<lambda>a. if ap_tenant a = tenant \<and> ap_id a \<in> set ids
      then a\<lparr>ap_consumed := Some now\<rparr> else a"] a(2,3) assms(3) by (simp add: spent(3))
  then show "i \<in> consumed_ids aps'"
    unfolding consumed_ids_def using a(3) by (intro image_eqI [of _ _ ?b]) simp_all
qed

lemma consume_ids [simp]:
  "consume_approvals now ids tenant aps = (b, aps') \<Longrightarrow> map ap_id aps' = map ap_id aps"
  by (auto simp: consume_approvals_def Let_def split: if_splits)

lemma consume_keeps_consumed:
  assumes "consume_approvals now ids tenant aps = (b, aps')"
  shows "consumed_ids aps \<subseteq> consumed_ids aps'"
proof (cases "b \<and> ids \<noteq> []")
  case True
  then have "aps' = map (\<lambda>a. if ap_tenant a = tenant \<and> ap_id a \<in> set ids
      then a\<lparr>ap_consumed := Some now\<rparr> else a) aps"
    using consume_True(3) [of now ids tenant aps aps'] assms by simp
  then have map_id: "aps' = map (\<lambda>a. if ap_tenant a = tenant \<and> ap_id a \<in> set ids
      then a\<lparr>ap_consumed := Some now\<rparr> else a) aps" .
  show ?thesis
  proof
    fix i
    assume "i \<in> consumed_ids aps"
    then obtain a where a: "a \<in> set aps" "ap_id a = i" "ap_consumed a \<noteq> None"
      unfolding consumed_ids_def by blast
    let ?b = "if ap_tenant a = tenant \<and> ap_id a \<in> set ids then a\<lparr>ap_consumed := Some now\<rparr> else a"
    have "?b \<in> set aps'" unfolding map_id using a(1) by (simp only: set_map) (rule imageI)
    moreover have "ap_id ?b = i" "ap_consumed ?b \<noteq> None" using a by simp_all
    ultimately show "i \<in> consumed_ids aps'" unfolding consumed_ids_def by blast
  qed
next
  case False
  with assms consume_fails_unchanged [of now ids tenant aps aps'] show ?thesis
    by (cases b) (simp_all add: consume_approvals_def)
qed

section \<open>Runs of the approval table\<close>

datatype ap_event =
    Granted string
  | Consumed "string list" bool

inductive approval_run :: "approval list \<Rightarrow> ap_event list \<Rightarrow> approval list \<Rightarrow> bool" where
  run_start: "approval_run aps [] aps"
| run_grant:
    "approval_run aps evs aps1 \<Longrightarrow> fresh \<notin> ap_id ` set aps1 \<Longrightarrow>
     grant_approval x fresh tenant kind subject action digest ep ps by_whom timeout aps1 = Inr (a, aps2) \<Longrightarrow>
     approval_run aps (evs @ [Granted fresh]) aps2"
| run_consume:
    "approval_run aps evs aps1 \<Longrightarrow> consume_approvals now ids tenant aps1 = (ok, aps2) \<Longrightarrow>
     approval_run aps (evs @ [Consumed ids ok]) aps2"

definition claims :: "string \<Rightarrow> ap_event \<Rightarrow> bool" where
  "claims i ev = (case ev of Granted _ \<Rightarrow> False | Consumed ids ok \<Rightarrow> ok \<and> i \<in> set ids)"

lemma guarded_Inr: "(if b1 then Inl e1 else if b2 then Inl e2 else if b3 then Inl e3 else Inr v) = Inr w \<Longrightarrow> v = w"
  by (simp split: if_splits)

lemma grant_approval_Inr:
  "grant_approval x fresh tenant kind subject action digest ep ps by_whom timeout aps = Inr (a, aps') \<Longrightarrow>
   aps' = aps @ [a] \<and> ap_id a = fresh \<and> ap_consumed a = None \<and> ap_tenant a = tenant \<and> ap_kind a = kind \<and>
   ap_subject a = subject \<and> ap_action a = action \<and> ap_digest a = digest \<and> ap_endpoint a = ep \<and>
   ap_versions a = map (\<lambda>p. (p_id p, p_version p)) ps \<and> ap_granted_by a = by_whom \<and>
   x_now x + seconds 1 \<le> ap_expires a \<and> ap_expires a \<le> x_now x + seconds 300"
proof -
  assume "grant_approval x fresh tenant kind subject action digest ep ps by_whom timeout aps = Inr (a, aps')"
  then have "a = \<lparr>ap_id = fresh, ap_tenant = tenant, ap_kind = kind, ap_endpoint = ep, ap_subject = subject,
      ap_action = action, ap_digest = digest, ap_versions = map (\<lambda>p. (p_id p, p_version p)) ps, ap_granted_by = by_whom,
      ap_expires = x_now x + seconds (max 1 (min timeout 300)), ap_consumed = None, ap_created = x_now x\<rparr> \<and> aps' = aps @ [a]"
    unfolding grant_approval_def Let_def by - (drule guarded_Inr, auto)
  then show ?thesis by (simp add: seconds_def)
qed

lemma approval_run_claims:
  "approval_run aps evs aps' \<Longrightarrow> distinct (map ap_id aps) \<Longrightarrow>
   distinct (map ap_id aps') \<and>
   length (filter (claims i) evs) + (if i \<in> consumed_ids aps then 1 else 0)
     \<le> (if i \<in> consumed_ids aps' then 1 else (0 :: nat))"
proof (induction rule: approval_run.induct)
  case (run_start aps)
  then show ?case by simp
next
  case (run_grant aps evs aps1 fresh x tenant kind subject action digest ep ps by_whom timeout a aps2)
  from grant_approval_Inr [OF run_grant(3)] have "aps2 = aps1 @ [a]" "ap_id a = fresh" "ap_consumed a = None"
    by auto
  moreover from this have "consumed_ids aps2 = consumed_ids aps1" by (auto simp: consumed_ids_def)
  ultimately show ?case
    using run_grant.IH [OF run_grant.prems] run_grant(2) by (simp add: claims_def)
next
  case (run_consume aps evs aps1 now ids tenant ok aps2)
  note IH = run_consume.IH [OF run_consume.prems]
  have dist: "distinct (map ap_id aps2)" using IH consume_ids [OF run_consume(2)] by simp
  show ?case
  proof (cases "ok \<and> i \<in> set ids")
    case True
    then have "i \<notin> consumed_ids aps1" "i \<in> consumed_ids aps2"
      using consume_succeeds [of now ids tenant aps1 aps2 i] run_consume(2) IH by auto
    with IH True dist show ?thesis by (auto simp: claims_def split: if_splits)
  next
    case False
    with IH dist consume_keeps_consumed [OF run_consume(2)] show ?thesis
      by (auto simp: claims_def split: if_splits)
  qed
qed

text \<open>
  C28: An approval is spent once: in any run of grants and consumptions, in any order and for any
  tenants, at most one consumption that names the approval succeeds, and none does if the run
  starts with it already consumed.
\<close>

theorem approval_single_use:
  assumes "approval_run aps evs aps'" "distinct (map ap_id aps)"
  shows "length (filter (claims i) evs) \<le> 1 \<and>
    (i \<in> consumed_ids aps \<longrightarrow> filter (claims i) evs = [])"
  using approval_run_claims [OF assms, of i] by (auto split: if_splits)

definition demo_approval :: approval where
  "demo_approval = \<lparr>ap_id = ''a1'', ap_tenant = ''t'', ap_kind = ''policy'', ap_endpoint = ''e'',
     ap_subject = ''u'', ap_action = ''tool_call'', ap_digest = ''d'', ap_versions = [(''p1'', 1)],
     ap_granted_by = ''op'', ap_expires = 100, ap_consumed = None, ap_created = 0\<rparr>"

theorem approval_single_use_witness:
  "\<exists>aps. approval_run [demo_approval] [Consumed [''a1''] True, Consumed [''a1''] False] aps \<and>
     length (filter (claims ''a1'') [Consumed [''a1''] True, Consumed [''a1''] False]) \<le> 1"
proof -
  let ?used = "demo_approval\<lparr>ap_consumed := Some 10\<rparr>"
  have "consume_approvals 10 [''a1''] ''t'' [demo_approval] = (True, [?used])"
    by (simp add: consume_approvals_def demo_approval_def approval_stale_def)
  from run_consume [OF run_start this]
  have "approval_run [demo_approval] [Consumed [''a1''] True] [?used]" by simp
  moreover have "consume_approvals 20 [''a1''] ''t'' [?used] = (False, [?used])"
    by (simp add: consume_approvals_def demo_approval_def approval_stale_def)
  ultimately have "approval_run [demo_approval] ([Consumed [''a1''] True] @ [Consumed [''a1''] False]) [?used]"
    by (rule run_consume)
  then have run: "approval_run [demo_approval] [Consumed [''a1''] True, Consumed [''a1''] False] [?used]"
    by simp
  with approval_single_use [OF run] show ?thesis by auto
qed

section \<open>Binding\<close>

lemma find_approval_Some:
  assumes "find_approval x aps token tenant kind subject action digest endpoint = Some a"
  shows "a \<in> set aps \<and> (\<exists>pk. x_unsign x token = Some pk \<and>
    approval_matches x pk tenant kind subject action digest endpoint a)"
  using assms by (auto simp: find_approval_def find_Some_iff split: option.splits)

lemma dget_ctx [simp]: "ctx_get (dput k v c) k = v" "k' \<noteq> k \<Longrightarrow> ctx_get (dput k v c) k' = ctx_get c k'"
  by (simp_all add: ctx_get_def)

text \<open>
  C29: A call is released only by an approval for exactly this call: the validated approval names
  the authenticated tenant and endpoint, the user, the action, the digest of the call's context
  and the policy's current version, it is neither consumed nor expired, and its id is handed on
  to be consumed. A rejected token changes nothing in the context.
\<close>

theorem approval_bound_to_call:
  assumes "validate_policy_approval x aps p action user c = Some (r, c')"
  shows "(\<not> pr_passed r \<longrightarrow> c' = c) \<and>
    (pr_passed r \<longrightarrow>
      (\<exists>a \<in> set aps. x_unsign x (ctx_get c ''approval_token'') = Some (ap_id a) \<and> ap_kind a = ''policy'' \<and>
         PStr (ap_tenant a) = dget c ''_tenant_id'' (PStr []) \<and>
         PStr (ap_endpoint a) = dget c ''_endpoint_id'' (PStr []) \<and>
         ap_subject a = user \<and> ap_action a = action \<and>
         PStr (ap_digest a) = py_or (ctx_get c ''_approval_digest'') (PStr (context_digest x c)) \<and>
         map_of (ap_versions a) (p_id p) = Some (p_version p) \<and>
         ap_consumed a = None \<and> x_now x < ap_expires a \<and>
         (\<exists>ids. ctx_get c' ''_validated_approval_ids'' = PList ids \<and> PStr (ap_id a) \<in> set ids)))"
proof -
  let ?digest = "py_or (ctx_get c ''_approval_digest'') (PStr (context_digest x c))"
  let ?find = "find_approval x aps (ctx_get c ''approval_token'') (dget c ''_tenant_id'' (PStr []))
    ''policy'' user action ?digest (dget c ''_endpoint_id'' (PStr []))"
  show ?thesis
  proof (cases ?find)
    case None
    with assms show ?thesis by (auto simp: validate_policy_approval_def Let_def)
  next
    case (Some a)
    note found = find_approval_Some [OF this, unfolded approval_matches_def]
    show ?thesis
    proof (cases "map_of (ap_versions a) (p_id p) = Some (p_version p)")
      case False
      with Some assms show ?thesis by (auto simp: validate_policy_approval_def Let_def)
    next
      case True
      with Some assms found show ?thesis
        by (auto simp: validate_policy_approval_def Let_def split: Option.bind_splits if_splits pyval.splits
            intro!: bexI [of _ a])
    qed
  qed
qed

text \<open>
  The digest ignores what a retry adds and nothing else: two contexts that agree outside the
  token, the request id, the trace id and the engine's underscore keys have the same digest, so
  the retry that presents the token matches the approval of the original call.
\<close>

lemma digest_survives_retry:
  assumes "canonical_context c = canonical_context c'"
  shows "context_digest x c = context_digest x c' \<and>
    context_digest x (dput ''approval_token'' t c) = context_digest x c' \<and>
    context_digest x (dput ''request_id'' t c) = context_digest x c' \<and>
    context_digest x (dput ''_tenant_id'' t c) = context_digest x c'"
proof -
  have skip: "canonical_context (dput k v d) = canonical_context d"
    if "starts_with ''_'' k \<or> k \<in> set transport_keys" for k v d
    using that by (induction d) (auto simp: canonical_context_def split: if_splits)
  show ?thesis
    using assms by (simp add: context_digest_def skip transport_keys_def starts_with_def)
qed

lemma digest_survives_retry_witness:
  "context_digest \<lparr>x_digest = concat \<circ> map fst, x_sign = id, x_unsign = str_of, x_now = 0\<rparr>
     (dput ''approval_token'' (PStr ''s'') [(''tool'', PStr ''x'')]) =
   context_digest \<lparr>x_digest = concat \<circ> map fst, x_sign = id, x_unsign = str_of, x_now = 0\<rparr>
     [(''tool'', PStr ''x''), (''trace_id'', PStr ''z'')]"
  by (rule digest_survives_retry [THEN conjunct2, THEN conjunct1])
    (simp add: canonical_context_def transport_keys_def starts_with_def)

theorem approval_bound_to_call_witness:
  "\<exists>a. a \<in> set [demo_approval] \<and> ap_subject a = ''u'' \<and> ap_action a = ''tool_call'' \<and>
     map_of (ap_versions a) ''p1'' = Some 1"
proof -
  let ?x = "\<lparr>x_digest = (\<lambda>_. ''d''), x_sign = id, x_unsign = str_of, x_now = 10\<rparr>"
  let ?c = "[(''approval_token'', PStr ''a1''), (''_tenant_id'', PStr ''t''), (''_endpoint_id'', PStr ''e''),
    (''_approval_digest'', PStr ''d'')]"
  have "validate_policy_approval ?x [demo_approval] demo_policy ''tool_call'' ''u'' ?c =
      Some (pass_r, dput ''_validated_approval_ids'' (PList [PStr ''a1'']) ?c)"
    by (simp add: validate_policy_approval_def find_approval_def approval_matches_def demo_approval_def
        demo_policy_def dget_def ctx_get_def py_or_def py_gt_def cfg_def Let_def)
  from approval_bound_to_call [OF this, THEN conjunct2, THEN mp, OF presult_simps(1)]
  have "\<exists>a \<in> set [demo_approval]. ap_subject a = ''u'' \<and> ap_action a = ''tool_call'' \<and>
      map_of (ap_versions a) (p_id demo_policy) = Some (p_version demo_policy)"
    by (elim bexE conjE) (rule bexI, intro conjI, assumption+)
  then show ?thesis by (simp add: Bex_def demo_policy_def)
qed
section \<open>Deciding a request\<close>

lemma find_replace_request:
  assumes "find (\<lambda>r. ar_tenant r = t \<and> ar_id r = i) rs = Some held" "ar_tenant h = t" "ar_id h = i"
  shows "find (\<lambda>r. ar_tenant r = t \<and> ar_id r = i) (replace_request h rs) = Some h"
  using assms by (induction rs) (auto simp: replace_request_def split: if_splits)

text \<open>
  A held request takes one decision: deciding succeeds only on a pending, unexpired request
  of the caller's tenant; approving adds exactly one approval, unconsumed and bound to the held
  endpoint, subject, action and digest; denying adds none; and afterwards every further decision
  on the request is refused, at any time and by anyone.
\<close>

lemma request_decided_once:
  assumes "decide_approval_request x ops lookup fresh tenant i approve by_whom reason s = Inr (r, s')"
  shows "(\<exists>held \<in> set (s_requests s). ar_id held = i \<and> ar_tenant held = tenant \<and>
      ar_status held = PENDING \<and> x_now x < ar_expires held \<and>
      (if approve then \<exists>a. s_approvals s' = s_approvals s @ [a] \<and> ap_consumed a = None \<and>
           ap_endpoint a = ar_endpoint held \<and> ap_subject a = ar_subject held \<and>
           ap_action a = ar_action held \<and> ap_digest a = ar_digest held \<and> ap_tenant a = tenant
       else s_approvals s' = s_approvals s)) \<and>
    (\<forall>y ops' lookup' fresh' approve' by' reason'. \<exists>e.
       decide_approval_request y ops' lookup' fresh' tenant i approve' by' reason' s' = Inl e)"
proof -
  from assms obtain held where held: "find (\<lambda>r. ar_tenant r = tenant \<and> ar_id r = i) (s_requests s) = Some held"
    by (auto simp: decide_approval_request_def split: option.splits)
  then have in_db: "held \<in> set (s_requests s)" "ar_tenant held = tenant" "ar_id held = i"
    by (auto simp: find_Some_iff)
  from assms held have pending: "ar_status held = PENDING" "x_now x < ar_expires held"
    by (auto simp: decide_approval_request_def current_status_def split: if_splits)
  from assms held have after: "s_requests s' = replace_request r (s_requests s)"
    "ar_status r \<noteq> PENDING" "ar_tenant r = tenant" "ar_id r = i"
    using in_db by (auto simp: decide_approval_request_def Let_def split: option.splits if_splits sum.splits)
  have approvals: "if approve then \<exists>a. s_approvals s' = s_approvals s @ [a] \<and> ap_consumed a = None \<and>
           ap_endpoint a = ar_endpoint held \<and> ap_subject a = ar_subject held \<and>
           ap_action a = ar_action held \<and> ap_digest a = ar_digest held \<and> ap_tenant a = tenant
       else s_approvals s' = s_approvals s"
    using assms held
    by (auto simp: decide_approval_request_def Let_def split: option.splits if_splits sum.splits
        dest!: grant_approval_Inr)
  have "find (\<lambda>q. ar_tenant q = tenant \<and> ar_id q = i) (s_requests s') = Some r"
    unfolding after(1) by (rule find_replace_request [OF held after(3,4)])
  with after(2) have "\<exists>e. decide_approval_request y ops' lookup' fresh' tenant i approve' by' reason' s' = Inl e"
    for y ops' lookup' fresh' approve' by' reason'
    by (simp add: decide_approval_request_def current_status_def)
  with in_db pending approvals show ?thesis by blast
qed

definition demo_request :: approval_request where
  "demo_request = \<lparr>ar_id = ''r1'', ar_tenant = ''t'', ar_endpoint = ''e'', ar_subject = ''u'',
     ar_action = ''tool_call'', ar_digest = ''d'', ar_context = [], ar_reason = [], ar_trace = [],
     ar_status = PENDING, ar_expires = 100, ar_decided_by = [], ar_decided_at = None,
     ar_decision_reason = [], ar_counts = [], ar_approval = None\<rparr>"

lemma request_decided_once_witness:
  "\<exists>s e. s_approvals s = [] \<and> ar_status (hd (s_requests s)) = DENIED \<and>
     decide_approval_request \<lparr>x_digest = (\<lambda>_. []), x_sign = id, x_unsign = str_of, x_now = 20\<rparr> dict_cache
       (\<lambda>_ _ _. None) [] ''t'' ''r1'' True ''other'' [] s = Inl e"
proof -
  let ?x = "\<lparr>x_digest = (\<lambda>_. []), x_sign = id, x_unsign = str_of, x_now = 10\<rparr>"
  let ?s = "\<lparr>s_approvals = [], s_requests = [demo_request], s_cache = []\<rparr>"
  let ?r = "demo_request\<lparr>ar_status := DENIED, ar_decided_by := ''op'', ar_decided_at := Some 10\<rparr>"
  have "decide_approval_request ?x dict_cache (\<lambda>_ _ _. None) [] ''t'' ''r1'' False ''op'' [] ?s =
      Inr (?r, ?s\<lparr>s_requests := [?r]\<rparr>)"
    by (simp add: decide_approval_request_def demo_request_def current_status_def replace_request_def Let_def)
  from request_decided_once [OF this] have "\<exists>e. decide_approval_request
      \<lparr>x_digest = (\<lambda>_. []), x_sign = id, x_unsign = str_of, x_now = 20\<rparr> dict_cache
       (\<lambda>_ _ _. None) [] ''t'' ''r1'' True ''other'' [] (?s\<lparr>s_requests := [?r]\<rparr>) = Inl e" by blast
  then show ?thesis by (intro exI [of _ "?s\<lparr>s_requests := [?r]\<rparr>"]) simp
qed

end
