(* ===== verification/Budgets.thy ===== *)
theory Budgets
  imports Pricing Approvals
begin

text \<open>
  Hard budgets (\<open>services/budgets.py\<close>, \<open>models/budget.py\<close>): the limit and the spend a budget
  policy stands at, the upper bound a model call reserves, and the admission that reserves it on
  every hard budget and consumes the call's approvals, in one transaction. Decimals are exact
  rationals; a month is the microsecond it starts at, which also names its accounts.
\<close>

section \<open>Rows and the outside\<close>

record account =
  ba_id :: nat
  ba_tenant :: string
  ba_policy :: string
  ba_period :: int
  ba_committed :: rat

record charge =
  bc_id :: string
  bc_tenant :: string
  bc_endpoint :: string
  bc_dims :: "(string \<times> string) list"
  bc_request :: string
  bc_amount :: rat
  bc_accounts :: "nat list"
  bc_actual :: "rat option"
  bc_reconciled :: "int option"
  bc_source :: string
  bc_pricing_version :: string

text \<open>A logged interaction, as far as the spend queries read it.\<close>

record interaction =
  il_tenant :: string
  il_occurred :: int
  il_endpoint :: "string option"
  il_deployment :: string
  il_sub_org :: string
  il_user :: string
  il_cost :: "rat option"
  il_tokens :: int

record budget_env =
  b_catalog :: catalog
  b_registry :: "registry_row list option"
  b_today :: string
  b_month :: int
  b_now :: int
  b_json :: "string \<Rightarrow> pyexc + pyval"
  b_logs :: "interaction list"
  b_pricing_version :: string

record budget_state =
  bs_accounts :: "account list"
  bs_charges :: "charge list"
  bs_approvals :: "approval list"

section \<open>Limit and spend\<close>

definition cfg_r :: "policy \<Rightarrow> string \<Rightarrow> pyval \<Rightarrow> pyexc + pyval" where
  "cfg_r p k d = (case cfg p k d of Some v \<Rightarrow> Inr v | None \<Rightarrow> Inl OtherError)"

text \<open>\<open>Decimal(a) != Decimal(b)\<close>: not-a-number differs from everything.\<close>

fun dec_differ :: "decimal \<Rightarrow> decimal \<Rightarrow> bool" where
  "dec_differ (DFin a) (DFin b) = (a \<noteq> b)"
| "dec_differ (DInf a) (DInf b) = (a \<noteq> b)"
| "dec_differ _ _ = True"

definition monthly_limit :: "policy \<Rightarrow> pyexc + rat" where
  "monthly_limit p =
     rbind (cfg_r p ''monthly_budget_usd'' PNone) (\<lambda>canonical.
     rbind (cfg_r p ''monthly_limit_usd'' PNone) (\<lambda>legacy.
     rbind (if canonical \<noteq> PNone \<and> legacy \<noteq> PNone then
              rbind (dec_of canonical) (\<lambda>a. rbind (dec_of legacy) (\<lambda>b.
              guard_r (\<not> dec_differ a b) (ValueError ''Conflicting monthly budget settings'')))
            else Inr ()) (\<lambda>_.
     rbind (dec_of (if canonical \<noteq> PNone then canonical else legacy)) (\<lambda>d.
     case d of
       DFin v \<Rightarrow> if 0 \<le> v then Inr v
                 else Inl (ValueError ''Monthly budget must be a finite nonnegative amount'')
     | _ \<Rightarrow> Inl (ValueError ''Monthly budget must be a finite nonnegative amount''))))) "

definition MODEL_CALL_ACTIONS :: "string list" where
  "MODEL_CALL_ACTIONS = [''llm:invoke'', ''llm_call'', ''ai_request'', ''chain_input'']"

definition in_scope :: "policy \<Rightarrow> interaction \<Rightarrow> bool" where
  "in_scope p l \<longleftrightarrow>
     (case p_scope p of
        ORGANIZATION \<Rightarrow> True
      | ENDPOINT \<Rightarrow> il_endpoint l = p_scope_endpoint p
      | DEPLOYMENT \<Rightarrow> il_deployment l = p_scope_deployment p
      | SUB_ORGANIZATION \<Rightarrow> il_sub_org l = p_scope_sub_org p
      | USER \<Rightarrow> il_user l = p_scope_user p)"

definition scoped_interactions :: "budget_env \<Rightarrow> policy \<Rightarrow> interaction list" where
  "scoped_interactions e p =
     filter (\<lambda>l. il_tenant l = p_tenant p \<and> b_month e \<le> il_occurred l \<and> in_scope p l) (b_logs e)"

definition historical_spend :: "budget_env \<Rightarrow> policy \<Rightarrow> rat" where
  "historical_spend e p =
     max 0 (sum_list (map (\<lambda>l. case il_cost l of Some q \<Rightarrow> q | None \<Rightarrow> 0) (scoped_interactions e p)))"

definition unpriced_calls :: "budget_env \<Rightarrow> policy \<Rightarrow> nat" where
  "unpriced_calls e p =
     length (filter (\<lambda>l. il_cost l = None \<and> 0 < il_tokens l) (scoped_interactions e p))"

definition is_account :: "string \<Rightarrow> string \<Rightarrow> int \<Rightarrow> account \<Rightarrow> bool" where
  "is_account tenant pol period a \<longleftrightarrow> ba_tenant a = tenant \<and> ba_policy a = pol \<and> ba_period a = period"

definition current_spend :: "budget_env \<Rightarrow> account list \<Rightarrow> policy \<Rightarrow> rat" where
  "current_spend e accs p =
     (case find (is_account (p_tenant p) (p_id p) (b_month e)) accs of
        Some a \<Rightarrow> ba_committed a | None \<Rightarrow> historical_spend e p)"

datatype budget_level = UNDER | THRESHOLD | EXCEEDED

record status =
  st_limit :: rat
  st_spend :: rat
  st_remaining :: rat
  st_percent :: rat
  st_threshold :: rat
  st_level :: budget_level
  st_unpriced :: nat

definition budget_status :: "budget_env \<Rightarrow> account list \<Rightarrow> policy \<Rightarrow> pyexc + status" where
  "budget_status e accs p =
     rbind (monthly_limit p) (\<lambda>limit.
     rbind (cfg_r p ''alert_threshold_percent'' (PInt 80)) (\<lambda>raw.
     rbind (case raw of
              PBool _ \<Rightarrow> Inl (ValueError ''alert_threshold_percent must be a number from 0 to 100'')
            | _ \<Rightarrow> rbind (dec_of raw) (\<lambda>d.
                case d of
                  DFin t \<Rightarrow> if 0 \<le> t \<and> t \<le> 100 then Inr t
                            else Inl (ValueError ''alert_threshold_percent must be a number from 0 to 100'')
                | _ \<Rightarrow> Inl (ValueError ''alert_threshold_percent must be a number from 0 to 100''))) (\<lambda>threshold.
     (let spend = current_spend e accs p;
          percent = (if 0 < limit then spend / limit * 100 else if 0 < spend then 100 else 0)
      in Inr \<lparr>st_limit = limit, st_spend = spend, st_remaining = limit - spend, st_percent = percent,
              st_threshold = threshold,
              st_level = (if limit \<le> spend then EXCEEDED else if threshold \<le> percent then THRESHOLD else UNDER),
              st_unpriced = unpriced_calls e p\<rparr>))))"

section \<open>The upper bound of a call\<close>

text \<open>\<open>len(s.encode())\<close>: one byte below 128, else two for the code points of the model.\<close>

definition utf8_length :: "string \<Rightarrow> nat" where
  "utf8_length s = sum_list (map (\<lambda>c. if (of_char c :: nat) < 128 then 1 else 2) s)"

definition check_body :: "budget_env \<Rightarrow> pyval \<Rightarrow> pyexc + unit" where
  "check_body e body =
     (if \<not> truthy body then Inr ()
      else
        rbind (case body of PStr s \<Rightarrow> b_json e s | _ \<Rightarrow> Inr body) (\<lambda>b.
        case b of
          PDict d \<Rightarrow>
            (case dget d ''tools'' (PList []) of
               PList ts \<Rightarrow>
                 guard_r (\<not> list_ex (\<lambda>t. case t of PDict td \<Rightarrow> dget td ''type'' (PStr ''function'') \<noteq> PStr ''function''
                                                  | _ \<Rightarrow> True) ts)
                   (ValueError ''Hard budget does not support multiple candidates or provider-hosted tools'')
             | _ \<Rightarrow> Inl (ValueError ''Hard budget does not support multiple candidates or provider-hosted tools''))
        | _ \<Rightarrow> Inl (ValueError ''Hard budget request_body must be an object'')))"

definition request_upper_bound :: "budget_env \<Rightarrow> pydict \<Rightarrow> pyexc + rat" where
  "request_upper_bound e c =
     (let model = py_or (ctx_get c ''model'') (ctx_get c ''ai_model'');
          pricing = resolve_model_pricing (b_catalog e) (b_registry e) (b_today e) model
            (py_or (ctx_get c ''provider'') (PStr []))
      in case (pricing, ctx_get c ''max_output_tokens'') of
           (Some pc, PInt tokens) \<Rightarrow>
             if tokens \<le> 0 then
               Inl (ValueError ''Hard budget requires known model pricing and an explicit positive maximum output token count'')
             else
               (case (truthy (ctx_get c ''has_multimodal''), ctx_get c ''input_text'') of
                  (False, PStr text) \<Rightarrow>
                    (let inputs = int (utf8_length text) + 4096 in
                     rbind (check_body e (ctx_get c ''request_body'')) (\<lambda>_.
                     case price_tokens pc (inputs * 2) tokens of (ic, oc) \<Rightarrow> Inr (quantize_up (ic + oc))))
                | _ \<Rightarrow> Inl (ValueError ''Hard budget requires a bounded text request''))
         | _ \<Rightarrow>
             Inl (ValueError ''Hard budget requires known model pricing and an explicit positive maximum output token count''))"

text \<open>\<open>estimated_call_cost\<close>: None is an unknown cost; another exception would propagate.\<close>

definition estimated_call_cost :: "budget_env \<Rightarrow> string \<Rightarrow> pydict \<Rightarrow> pyexc + rat option" where
  "estimated_call_cost e action c =
     (if action \<notin> set MODEL_CALL_ACTIONS then Inr (Some 0)
      else
        (case request_upper_bound e c of
           Inr q \<Rightarrow> Inr (Some q)
         | Inl (ValueError _) \<Rightarrow> Inr None
         | Inl TypeError \<Rightarrow> Inr None
         | Inl ArithmeticError \<Rightarrow> Inr None
         | Inl x \<Rightarrow> Inl x))"

section \<open>Admission\<close>

definition is_hard_budget :: "policy \<Rightarrow> bool option" where
  "is_hard_budget p =
     (if p_type p = ''budget_limit'' \<and> p_enforcement p = ENFORCE
      then do { h \<leftarrow> cfg p ''hard_limit'' (PBool True); Some (truthy h \<and> can_refuse (p_action p) (p_escalation p)) }
      else Some False)"

definition hard_budgets :: "policy list \<Rightarrow> policy list option" where
  "hard_budgets ps =
     do { hs \<leftarrow> filter_m is_hard_budget ps; Some (sort_key p_id hs) }"

text \<open>\<open>get_or_create\<close>: a new account opens at the scope's spend so far.\<close>

definition open_account :: "budget_env \<Rightarrow> string \<Rightarrow> policy \<Rightarrow> account list \<Rightarrow> account list" where
  "open_account e tenant p accs =
     (case find (is_account tenant (p_id p) (b_month e)) accs of
        Some _ \<Rightarrow> accs
      | None \<Rightarrow> accs @ [\<lparr>ba_id = Suc (fold max (map ba_id accs) 0), ba_tenant = tenant, ba_policy = p_id p,
                       ba_period = b_month e, ba_committed = historical_spend e p\<rparr>])"

text \<open>One pass of the loop: the budget's account takes the amount if its limit has room.\<close>

definition charge_budget ::
  "budget_env \<Rightarrow> string \<Rightarrow> rat \<Rightarrow> policy \<Rightarrow> account list \<Rightarrow> pyexc + (nat \<times> account list)" where
  "charge_budget e tenant amount p accs =
     (let accs1 = open_account e tenant p accs in
      case find (is_account tenant (p_id p) (b_month e)) accs1 of
        None \<Rightarrow> Inl LookupError
      | Some a \<Rightarrow>
          rbind (monthly_limit p) (\<lambda>limit.
          if limit < ba_committed a + amount
          then Inl (ValueError (''Monthly budget cannot admit this request: '' @ p_name p))
          else Inr (ba_id a, map (\<lambda>b. if ba_id b = ba_id a
                      then b\<lparr>ba_committed := ba_committed b + amount\<rparr> else b) accs1)))"

fun charge_budgets ::
  "budget_env \<Rightarrow> string \<Rightarrow> rat \<Rightarrow> policy list \<Rightarrow> account list \<Rightarrow> pyexc + (nat list \<times> account list)" where
  "charge_budgets e tenant amount [] accs = Inr ([], accs)"
| "charge_budgets e tenant amount (p # ps) accs =
     rbind (charge_budget e tenant amount p accs) (\<lambda>(i, accs1).
     rbind (charge_budgets e tenant amount ps accs1) (\<lambda>(is, accs2).
     Inr (i # is, accs2)))"

definition charge_dims :: "pydict \<Rightarrow> (string \<times> string) list" where
  "charge_dims c = map (\<lambda>k. (k, take 255 (py_str (py_or (dget c k (PStr [])) (PStr [])))))
     [''team_id_ext'', ''app_id_ext'', ''session_id_ext'', ''task_id_ext'']"

definition reserve ::
  "budget_env \<Rightarrow> string \<Rightarrow> policy list \<Rightarrow> endpoint \<Rightarrow> pydict \<Rightarrow> budget_state \<Rightarrow>
   pyexc + (pydict \<times> budget_state)" where
  "reserve e fresh budgets ep c s =
     (case ctx_get c ''request_id'' of
        PStr rid \<Rightarrow>
          if rid = [] \<or> length rid > 255 then Inl (ValueError ''Hard budget requires a unique request_id'')
          else
            rbind (request_upper_bound e c) (\<lambda>amount.
            rbind (charge_budgets e (ep_tenant ep) amount budgets (bs_accounts s)) (\<lambda>(ids, accs).
            if \<exists>ch \<in> set (bs_charges s). bc_tenant ch = ep_tenant ep \<and> bc_endpoint ch = ep_id ep \<and> bc_request ch = rid
            then Inl IntegrityError
            else
              (let ch = \<lparr>bc_id = fresh, bc_tenant = ep_tenant ep, bc_endpoint = ep_id ep,
                     bc_dims = charge_dims c, bc_request = rid, bc_amount = amount, bc_accounts = ids,
                     bc_actual = None, bc_reconciled = None, bc_source = [],
                     bc_pricing_version = b_pricing_version e\<rparr>
               in Inr (dput ''budget_reservation''
                         (PDict [(''id'', PStr fresh), (''committed_usd'', PStr (fmt_fixed 8 amount)),
                                 (''basis'', PStr ''conservative_upper_bound''),
                                 (''refundable_by_telemetry'', PBool False)]) c,
                       s\<lparr>bs_accounts := accs, bs_charges := bs_charges s @ [ch]\<rparr>))))
      | _ \<Rightarrow> Inl (ValueError ''Hard budget requires a unique request_id''))"

definition validated_ids :: "pydict \<Rightarrow> string list" where
  "validated_ids c = (case dget c ''_validated_approval_ids'' (PList []) of
     PList ids \<Rightarrow> map py_str ids | _ \<Rightarrow> [])"

text \<open>
  \<open>admit\<close>: the message of a refusal, or None. A refusal rolls the tables back; the caller's
  context keeps what was put into it. The outer option is an exception the code does not catch.
\<close>

definition admit ::
  "budget_env \<Rightarrow> string \<Rightarrow> policy list \<Rightarrow> endpoint \<Rightarrow> string \<Rightarrow> pydict \<Rightarrow> budget_state \<Rightarrow>
   (string option \<times> pydict \<times> budget_state) option" where
  "admit e fresh policies ep action c s =
     do { hard \<leftarrow> hard_budgets policies;
          let budgets = (if action \<in> set MODEL_CALL_ACTIONS then hard else []);
          case (if budgets \<noteq> [] then reserve e fresh budgets ep c s else Inr (c, s)) of
            Inl (ValueError m) \<Rightarrow> Some (Some m, c, s)
          | Inl ArithmeticError \<Rightarrow> Some (Some ''[<class decimal.ConversionSyntax>]'', c, s)
          | Inl IntegrityError \<Rightarrow>
              Some (Some ''This request_id has already been admitted; use a new ID for a new execution'', c, s)
          | Inl _ \<Rightarrow> None
          | Inr (c1, s1) \<Rightarrow>
              (case consume_approvals (b_now e) (validated_ids c1) (ep_tenant ep) (bs_approvals s1) of
                 (True, aps) \<Rightarrow> Some (None, c1, s1\<lparr>bs_approvals := aps\<rparr>)
               | (False, _) \<Rightarrow> Some (Some ''Approval has already been used or expired'', c1, s)) }"

end
