(* ===== verification/Reconciliation.thy ===== *)
theory Reconciliation
  imports Budgets
begin

text \<open>
  Settling reservations (\<open>services/budget_reconciliation.py\<close>): authenticated provider usage,
  provider cancellations and reported usage, each under the lock of the charge's row. A verifier
  registered by an integration is a parameter; a transaction that raises changes nothing.
\<close>

section \<open>Commitments\<close>

definition actual_or_0 :: "charge \<Rightarrow> rat" where
  "actual_or_0 ch = (case bc_actual ch of Some q \<Rightarrow> q | None \<Rightarrow> 0)"

definition effective_commitment :: "charge \<Rightarrow> rat" where
  "effective_commitment ch =
     (if bc_reconciled ch \<noteq> None then actual_or_0 ch else max (bc_amount ch) (actual_or_0 ch))"

definition provider_settled :: "charge \<Rightarrow> bool" where
  "provider_settled ch \<longleftrightarrow> bc_reconciled ch \<noteq> None \<and> starts_with ''provider-api'' (bc_source ch)"

text \<open>\<open>_settle\<close>: every account of the charge moves by the change in commitment.\<close>

fun move_accounts :: "rat \<Rightarrow> nat list \<Rightarrow> string \<Rightarrow> account list \<Rightarrow> account list option" where
  "move_accounts delta [] tenant accs = Some accs"
| "move_accounts delta (i # is) tenant accs =
     (case find (\<lambda>a. ba_id a = i \<and> ba_tenant a = tenant) accs of
        None \<Rightarrow> None
      | Some _ \<Rightarrow>
          move_accounts delta is tenant
            (map (\<lambda>a. if ba_id a = i then a\<lparr>ba_committed := max 0 (ba_committed a + delta)\<rparr> else a) accs))"

definition update_charge :: "charge \<Rightarrow> charge list \<Rightarrow> charge list" where
  "update_charge ch = map (\<lambda>c. if bc_id c = bc_id ch then ch else c)"

definition settle ::
  "int \<Rightarrow> charge \<Rightarrow> rat \<Rightarrow> string \<Rightarrow> bool \<Rightarrow> budget_state \<Rightarrow> pyexc + (charge \<times> budget_state)" where
  "settle now ch actual source reconciled s =
     (let ch' = ch\<lparr>bc_actual := Some actual, bc_reconciled := (if reconciled then Some now else None),
            bc_source := take 64 source\<rparr>;
          delta = effective_commitment ch' - effective_commitment ch
      in case (if delta = 0 then Some (bs_accounts s)
               else move_accounts delta (bc_accounts ch) (bc_tenant ch) (bs_accounts s)) of
           None \<Rightarrow> Inl LookupError
         | Some accs \<Rightarrow> Inr (ch', s\<lparr>bs_accounts := accs, bs_charges := update_charge ch' (bs_charges s)\<rparr>))"

section \<open>Provider usage\<close>

type_synonym verifier = "pyval \<Rightarrow> string \<Rightarrow> string \<Rightarrow> bool"

definition provider_name :: "string \<Rightarrow> string" where
  "provider_name s = lower (strip s)"

definition nonblank :: "pyval \<Rightarrow> bool" where
  "nonblank v = (case v of PStr s \<Rightarrow> strip s \<noteq> [] | _ \<Rightarrow> False)"

text \<open>The registry of verifiers, by normalized provider name.\<close>

definition register_provider_usage_verifier ::
  "pyval \<Rightarrow> verifier \<Rightarrow> (string \<times> verifier) list \<Rightarrow> pyexc + (string \<times> verifier) list" where
  "register_provider_usage_verifier provider v vs =
     (case provider of
        PStr s \<Rightarrow> if strip s = [] then Inl (ValueError ''provider and callable verifier are required'')
                  else Inr (dput (provider_name s) v vs)
      | _ \<Rightarrow> Inl (ValueError ''provider and callable verifier are required''))"

text \<open>The actual cost a usage object states: the billed amount, or its tokens at today's price.\<close>

definition billed_amount :: "pyval \<Rightarrow> pyexc + rat" where
  "billed_amount v =
     (case dec_of v of
        Inr (DFin q) \<Rightarrow> if quantize_up q < 0 then Inl (ValueError ''Provider billed_usd cannot be negative'')
                        else Inr (quantize_up q)
      | Inr DNaN \<Rightarrow> Inl (ValueError ''Provider billed_usd cannot be negative'')
      | _ \<Rightarrow> Inl (ValueError ''Provider billed_usd must be a non-negative decimal''))"

definition token_amount :: "budget_env \<Rightarrow> string \<Rightarrow> pydict \<Rightarrow> pyexc + rat" where
  "token_amount e provider u =
     (case (dget u ''model'' PNone, dget u ''input_tokens'' PNone, dget u ''output_tokens'' PNone) of
        (PStr m, PInt i, PInt out) \<Rightarrow>
          if m = [] then Inl (ValueError ''Provider usage requires model and integer token counts, or billed_usd'')
          else if min i out < 0 then Inl (ValueError ''Provider token counts cannot be negative'')
          else if max i out > 10000000000 then Inl (ValueError ''Provider token counts exceed the supported bound'')
          else
            (case resolve_model_pricing (b_catalog e) (b_registry e) (b_today e) (PStr m)
                    (PStr (provider_name provider)) of
               None \<Rightarrow> Inl (ValueError ''No current pricing source for provider model'')
             | Some pc \<Rightarrow> (case price_tokens pc i out of (ic, oc) \<Rightarrow> Inr (quantize_up (ic + oc))))
      | _ \<Rightarrow> Inl (ValueError ''Provider usage requires model and integer token counts, or billed_usd''))"

definition find_charge :: "string \<Rightarrow> string \<Rightarrow> charge list \<Rightarrow> charge option" where
  "find_charge i tenant = find (\<lambda>c. bc_id c = i \<and> bc_tenant c = tenant)"

definition verified :: "(string \<times> verifier) list \<Rightarrow> string \<Rightarrow> pyval \<Rightarrow> string \<Rightarrow> string \<Rightarrow> bool" where
  "verified vs provider usage tenant rid =
     (case map_of vs (provider_name provider) of None \<Rightarrow> False | Some v \<Rightarrow> v usage tenant rid)"

definition reconcile_charge ::
  "budget_env \<Rightarrow> (string \<times> verifier) list \<Rightarrow> string \<Rightarrow> string \<Rightarrow> pyval \<Rightarrow> string \<Rightarrow> budget_state \<Rightarrow>
   pyexc + (charge \<times> budget_state)" where
  "reconcile_charge e vs charge_id tenant usage source s =
     (if source \<noteq> ''provider-api'' then Inl (ValueError ''Budget reconciliation requires authenticated provider usage'')
      else
        (case usage of
           PDict u \<Rightarrow>
             (case dget u ''provider'' PNone of
                PStr provider \<Rightarrow>
                  if strip provider = [] then Inl (ValueError ''Provider usage requires an authenticated provider name'')
                  else
                    rbind (if dget u ''billed_usd'' PNone \<noteq> PNone then billed_amount (dget u ''billed_usd'' PNone)
                           else token_amount e provider u) (\<lambda>actual.
                    (case find_charge charge_id tenant (bs_charges s) of
                       None \<Rightarrow> Inl LookupError
                     | Some ch \<Rightarrow>
                         if provider_settled ch then Inr (ch, s)
                         else if \<not> truthy (dget u ''request_id'' PNone) \<or>
                                 py_str (dget u ''request_id'' PNone) \<noteq> bc_request ch
                         then Inl (ValueError ''Provider usage request_id does not match the reserved charge'')
                         else if \<not> verified vs provider usage tenant (bc_request ch)
                         then Inl (ValueError ''Provider usage failed authenticated verification'')
                         else if bc_amount ch < actual
                         then Inl (ValueError ''Provider usage exceeds the reserved budget'')
                         else settle (b_now e) ch actual (source @ '':'' @ provider_name provider) True s))
              | _ \<Rightarrow> Inl (ValueError ''Provider usage requires an authenticated provider name''))
         | _ \<Rightarrow> Inl (ValueError ''provider_usage must be an object'')))"

definition cancel_charge ::
  "budget_env \<Rightarrow> (string \<times> verifier) list \<Rightarrow> string \<Rightarrow> string \<Rightarrow> pyval \<Rightarrow> pyval \<Rightarrow> pyval \<Rightarrow> string \<Rightarrow>
   budget_state \<Rightarrow> pyexc + (charge \<times> budget_state)" where
  "cancel_charge e vs charge_id tenant request_id provider attestation source s =
     (case provider of
        PStr name \<Rightarrow>
          if source \<noteq> ''provider-api'' \<or> \<not> truthy request_id \<or> strip name = []
          then Inl (ValueError ''Budget cancellation requires authenticated provider confirmation'')
          else
            (case find_charge charge_id tenant (bs_charges s) of
               None \<Rightarrow> Inl LookupError
             | Some ch \<Rightarrow>
                 if provider_settled ch then Inr (ch, s)
                 else if py_str request_id \<noteq> bc_request ch
                 then Inl (ValueError ''Provider request_id does not match the reserved charge'')
                 else if \<not> verified vs name (PDict [(''provider'', provider), (''request_id'', request_id),
                          (''attestation'', attestation), (''operation'', PStr ''cancellation'')]) tenant (bc_request ch)
                 then Inl (ValueError ''Provider cancellation failed authenticated verification'')
                 else settle (b_now e) ch 0 (''provider-api:cancellation:'' @ provider_name name) True s)
      | _ \<Rightarrow> Inl (ValueError ''Budget cancellation requires authenticated provider confirmation''))"

section \<open>Reported usage\<close>

text \<open>Whether every budget on the charge lets reported usage release the rest.\<close>

definition releases_on_reported_usage :: "policy list \<Rightarrow> account list \<Rightarrow> charge \<Rightarrow> bool option" where
  "releases_on_reported_usage policies accs ch =
     (let ids = map ba_policy (filter (\<lambda>a. ba_tenant a = bc_tenant ch \<and> ba_id a \<in> set (bc_accounts ch)) accs);
          found = filter (\<lambda>p. p_tenant p = bc_tenant ch \<and> p_id p \<in> set ids) policies
      in if ids = [] \<or> length found \<noteq> card (set ids) then Some False
         else not_m (any_m (\<lambda>p. do { v \<leftarrow> pget (py_or (p_config p) (PDict [])) ''reconcile_with_reported_usage'' PNone;
                                      Some (v \<noteq> PBool True) }) found))"

definition reconcile_reported_usage ::
  "budget_env \<Rightarrow> policy list \<Rightarrow> string \<Rightarrow> string option \<Rightarrow> string \<Rightarrow> rat option \<Rightarrow> budget_state \<Rightarrow>
   pyexc + (charge option \<times> budget_state)" where
  "reconcile_reported_usage e policies tenant endpoint rid cost s =
     (case (cost, endpoint) of
        (Some c, Some ep) \<Rightarrow>
          if rid = [] then Inr (None, s)
          else
            (let c8 = quantize_up c in
             case find (\<lambda>ch. bc_tenant ch = tenant \<and> bc_endpoint ch = ep \<and> bc_request ch = rid) (bs_charges s) of
               None \<Rightarrow> Inr (None, s)
             | Some ch \<Rightarrow>
                 if provider_settled ch then Inr (Some ch, s)
                 else
                   (let actual = max c8 (actual_or_0 ch) in
                    if bc_actual ch = Some actual then Inr (Some ch, s)
                    else
                      (case releases_on_reported_usage policies (bs_accounts s) ch of
                         None \<Rightarrow> Inl OtherError
                       | Some rel \<Rightarrow>
                           rbind (settle (b_now e) ch actual ''reported-usage'' rel s) (\<lambda>(ch', s').
                           Inr (Some ch', s')))))
      | _ \<Rightarrow> Inr (None, s))"

end
