(* ===== verification/BudgetLedger.thy ===== *)
theory BudgetLedger
  imports Reconciliation
begin

text \<open>
  The ledger of hard budgets: what an account has committed is its opening spend plus what every
  charge on it holds now. Admissions, provider settlements, cancellations and usage reports all
  keep it, so no path frees or creates budget.
\<close>

section \<open>The ledger\<close>

definition held :: "nat \<Rightarrow> charge list \<Rightarrow> rat" where
  "held i chs = sum_list (map effective_commitment (filter (\<lambda>c. i \<in> set (bc_accounts c)) chs))"

definition base_spend :: "charge list \<Rightarrow> account \<Rightarrow> rat" where
  "base_spend chs a = ba_committed a - held (ba_id a) chs"

definition charge_ok :: "account list \<Rightarrow> charge \<Rightarrow> bool" where
  "charge_ok accs c \<longleftrightarrow> distinct (bc_accounts c) \<and> set (bc_accounts c) \<subseteq> ba_id ` set accs \<and>
     0 \<le> bc_amount c \<and> 0 \<le> actual_or_0 c"

definition ledger :: "budget_state \<Rightarrow> bool" where
  "ledger s \<longleftrightarrow> distinct (map ba_id (bs_accounts s)) \<and> distinct (map bc_id (bs_charges s)) \<and>
     (\<forall>c \<in> set (bs_charges s). charge_ok (bs_accounts s) c) \<and>
     (\<forall>a \<in> set (bs_accounts s). 0 \<le> base_spend (bs_charges s) a)"

lemma effective_nonneg: "charge_ok accs c \<Longrightarrow> 0 \<le> effective_commitment c"
  by (auto simp: charge_ok_def effective_commitment_def)

lemma held_nonneg: "\<forall>c \<in> set chs. 0 \<le> effective_commitment c \<Longrightarrow> 0 \<le> held i chs"
  by (auto simp: held_def intro!: sum_list_nonneg)

lemma held_append [simp]: "held i (chs @ ds) = held i chs + held i ds"
  by (simp add: held_def)

lemma held_single [simp]: "held i [c] = (if i \<in> set (bc_accounts c) then effective_commitment c else 0)"
  by (simp add: held_def)

lemma held_Cons: "held i (c # chs) = (if i \<in> set (bc_accounts c) then effective_commitment c else 0) + held i chs"
  by (simp add: held_def)

lemma held_update:
  assumes "distinct (map bc_id chs)" "ch \<in> set chs" "bc_id ch' = bc_id ch" "bc_accounts ch' = bc_accounts ch"
  shows "held i (update_charge ch' chs) = held i chs +
    (if i \<in> set (bc_accounts ch) then effective_commitment ch' - effective_commitment ch else 0)"
  using assms
proof (induction chs)
  case Nil
  then show ?case by simp
next
  case (Cons c chs)
  show ?case
  proof (cases "c = ch")
    case True
    with Cons.prems have "x \<in> set chs \<Longrightarrow> bc_id x \<noteq> bc_id ch'" for x
      by (metis distinct.simps(2) image_eqI list.simps(9) list.set_map)
    then have "update_charge ch' chs = chs"
      by (simp add: update_charge_def map_idI)
    with True Cons.prems show ?thesis by (simp add: update_charge_def held_Cons)
  next
    case False
    with Cons.prems have "bc_id c \<noteq> bc_id ch" by (auto simp: image_iff)
    with False Cons show ?thesis by (simp add: update_charge_def held_Cons)
  qed
qed

subsection \<open>Settling keeps the ledger\<close>

definition move :: "rat \<Rightarrow> nat list \<Rightarrow> account \<Rightarrow> account" where
  "move delta is a = (if ba_id a \<in> set is then a\<lparr>ba_committed := max 0 (ba_committed a + delta)\<rparr> else a)"

lemma move_id [simp]: "ba_id (move delta is a) = ba_id a"
  by (simp add: move_def)

lemma move_accounts_map:
  "move_accounts delta is t accs = Some accs' \<Longrightarrow> distinct is \<Longrightarrow> accs' = map (move delta is) accs"
proof (induction "is" arbitrary: accs)
  case Nil
  then show ?case by (simp add: move_def map_idI)
next
  case (Cons i "is")
  let ?one = "\<lambda>a. if ba_id a = i then a\<lparr>ba_committed := max 0 (ba_committed a + delta)\<rparr> else a"
  from Cons.prems have "move_accounts delta is t (map ?one accs) = Some accs'"
    by (auto split: option.splits)
  from Cons.IH [OF this] Cons.prems(2) have "accs' = map (move delta is \<circ> ?one) accs" by simp
  moreover have "(move delta is \<circ> ?one) a = move delta (i # is) a" for a
    using Cons.prems(2) by (auto simp: move_def)
  ultimately show ?case by (simp add: comp_def)
qed

definition same_base :: "budget_state \<Rightarrow> budget_state \<Rightarrow> bool" where
  "same_base s s' \<longleftrightarrow>
     (\<forall>a \<in> set (bs_accounts s). \<exists>a' \<in> set (bs_accounts s'). ba_id a' = ba_id a \<and>
        ba_tenant a' = ba_tenant a \<and> ba_policy a' = ba_policy a \<and> ba_period a' = ba_period a \<and>
        base_spend (bs_charges s') a' = base_spend (bs_charges s) a)"

lemma same_base_refl [simp]: "same_base s s"
  by (auto simp: same_base_def)

lemma same_base_trans: "same_base s t \<Longrightarrow> same_base t u \<Longrightarrow> same_base s u"
  unfolding same_base_def by metis

lemma settle_ledger:
  assumes ledger: "ledger s" and ch: "ch \<in> set (bs_charges s)" and actual: "0 \<le> actual"
    and settle: "settle now ch actual src rec s = Inr (ch', s')"
  shows "ledger s' \<and> same_base s s' \<and> map bc_id (bs_charges s') = map bc_id (bs_charges s)"
proof -
  let ?delta = "effective_commitment ch' - effective_commitment ch"
  let ?is = "bc_accounts ch"
  from settle have ch': "ch' = ch\<lparr>bc_actual := Some actual,
      bc_reconciled := (if rec then Some now else None), bc_source := take 64 src\<rparr>"
    and charges: "bs_charges s' = update_charge ch' (bs_charges s)"
    and moved: "(if ?delta = 0 then Some (bs_accounts s)
      else move_accounts ?delta ?is (bc_tenant ch) (bs_accounts s)) = Some (bs_accounts s')"
    by (auto simp: settle_def Let_def split: option.splits)
  note L = ledger [unfolded ledger_def]
  have ok: "charge_ok (bs_accounts s) ch" using L ch by blast
  then have dist: "distinct ?is" by (simp add: charge_ok_def)
  have ok': "charge_ok (bs_accounts s) ch'" using ok actual by (simp add: ch' charge_ok_def actual_or_0_def)
  have held': "held i (bs_charges s') = held i (bs_charges s) + (if i \<in> set ?is then ?delta else 0)" for i
    unfolding charges using L ch by (intro held_update) (simp_all add: ch')
  have set': "c \<in> set (bs_charges s') \<Longrightarrow> c = ch' \<or> c \<in> set (bs_charges s)" for c
    by (auto simp: charges update_charge_def)
  have eff: "\<forall>c \<in> set (bs_charges s'). 0 \<le> effective_commitment c"
  proof
    fix c
    assume "c \<in> set (bs_charges s')"
    from set' [OF this] have "charge_ok (bs_accounts s) c" using L ok' by blast
    then show "0 \<le> effective_commitment c" by (rule effective_nonneg)
  qed
  have nonneg: "0 \<le> held i (bs_charges s')" for i using held_nonneg [OF eff] .
  have committed: "0 \<le> ba_committed a + (if ba_id a \<in> set ?is then ?delta else 0)"
    if "a \<in> set (bs_accounts s)" for a
  proof -
    have "0 \<le> base_spend (bs_charges s) a" using that L by blast
    with nonneg [of "ba_id a"] held' [of "ba_id a"] show ?thesis by (simp add: base_spend_def)
  qed
  have accounts: "bs_accounts s' = map (\<lambda>a. if ba_id a \<in> set ?is
      then a\<lparr>ba_committed := ba_committed a + ?delta\<rparr> else a) (bs_accounts s)"
  proof (cases "?delta = 0")
    case True
    with moved show ?thesis by (simp add: map_idI)
  next
    case False
    with moved dist have "bs_accounts s' = map (move ?delta ?is) (bs_accounts s)"
      by (simp add: move_accounts_map)
    also have "\<dots> = map (\<lambda>a. if ba_id a \<in> set ?is
        then a\<lparr>ba_committed := ba_committed a + ?delta\<rparr> else a) (bs_accounts s)"
    proof (rule map_cong [OF refl])
      fix a
      assume "a \<in> set (bs_accounts s)"
      from committed [OF this] show "move ?delta ?is a = (if ba_id a \<in> set ?is
          then a\<lparr>ba_committed := ba_committed a + ?delta\<rparr> else a)"
        by (simp add: move_def max_absorb2 split: if_splits)
    qed
    finally show ?thesis .
  qed
  let ?up = "\<lambda>a. if ba_id a \<in> set ?is then a\<lparr>ba_committed := ba_committed a + ?delta\<rparr> else a"
  have up: "ba_id (?up a) = ba_id a" "base_spend (bs_charges s') (?up a) = base_spend (bs_charges s) a"
    "ba_tenant (?up a) = ba_tenant a" "ba_policy (?up a) = ba_policy a" "ba_period (?up a) = ba_period a" for a
    using held' [of "ba_id a"] by (auto simp: base_spend_def)
  have ids: "map ba_id (bs_accounts s') = map ba_id (bs_accounts s)"
    unfolding accounts map_map comp_def up(1) ..
  have cids: "map bc_id (bs_charges s') = map bc_id (bs_charges s)"
    by (simp add: charges update_charge_def ch')
  have idset: "ba_id ` set (bs_accounts s') = ba_id ` set (bs_accounts s)"
    using arg_cong [OF ids, of set] by simp
  have "ledger s'"
    unfolding ledger_def
  proof (intro conjI ballI)
    show "distinct (map ba_id (bs_accounts s'))" "distinct (map bc_id (bs_charges s'))"
      using L by (simp_all only: ids cids)
    show "charge_ok (bs_accounts s') c" if "c \<in> set (bs_charges s')" for c
      using set' [OF that] ok' L by (auto simp: charge_ok_def idset)
    show "0 \<le> base_spend (bs_charges s') a'" if a': "a' \<in> set (bs_accounts s')" for a'
    proof -
      obtain a where "a \<in> set (bs_accounts s)" "a' = ?up a" using a' unfolding accounts by auto
      moreover from this have "0 \<le> base_spend (bs_charges s) a" using L by blast
      ultimately show ?thesis by (simp only: up(2))
    qed
  qed
  moreover have "same_base s s'"
    unfolding same_base_def
  proof
    fix a
    assume "a \<in> set (bs_accounts s)"
    then have "?up a \<in> set (bs_accounts s')" unfolding accounts by auto
    then show "\<exists>a' \<in> set (bs_accounts s'). ba_id a' = ba_id a \<and>
        ba_tenant a' = ba_tenant a \<and> ba_policy a' = ba_policy a \<and> ba_period a' = ba_period a \<and>
        base_spend (bs_charges s') a' = base_spend (bs_charges s) a"
      by (rule bexI [rotated]) (intro conjI up)
  qed
  ultimately show ?thesis using cids by simp
qed

subsection \<open>Accounts by id\<close>

definition acct :: "account list \<Rightarrow> nat \<Rightarrow> account option" where
  "acct accs = map_of (map (\<lambda>a. (ba_id a, a)) accs)"

lemma acct_set: "distinct (map ba_id accs) \<Longrightarrow> acct accs i = Some a \<longleftrightarrow> a \<in> set accs \<and> ba_id a = i"
proof -
  assume "distinct (map ba_id accs)"
  then have "distinct (map fst (map (\<lambda>a. (ba_id a, a)) accs))" by (simp add: comp_def)
  from map_of_eq_Some_iff [OF this] show ?thesis by (auto simp: acct_def)
qed

lemma acct_None: "acct accs i = None \<longleftrightarrow> i \<notin> ba_id ` set accs"
  by (auto simp: acct_def map_of_eq_None_iff image_iff)

lemma acct_update: "acct (map (\<lambda>b. if ba_id b = i then f b else b) accs) =
    (acct accs)(i := map_option f (acct accs i))" if "\<And>b. ba_id (f b) = ba_id b"
  by (induction accs) (auto simp: acct_def fun_eq_iff that)

lemma acct_append_new: "ba_id n \<notin> ba_id ` set accs \<Longrightarrow> acct (accs @ [n]) = (acct accs)(ba_id n \<mapsto> n)"
  by (induction accs) (auto simp: acct_def fun_eq_iff)

lemma fresh_id: "Suc (fold max (map ba_id accs) 0) \<notin> ba_id ` set accs"
proof -
  have "x \<le> fold max xs (y :: nat)" if "x \<in> insert y (set xs)" for x xs y
    using that
  proof (induction xs arbitrary: x y)
    case Nil
    then show ?case by simp
  next
    case (Cons z xs)
    have "max z y \<le> fold max xs (max z y)" by (rule Cons.IH) simp
    then show ?case using Cons.prems Cons.IH [of x "max z y"] by auto
  qed
  from this [of _ 0 "map ba_id accs"] show ?thesis by (fastforce simp: image_iff)
qed

definition bump :: "rat \<Rightarrow> account \<Rightarrow> account" where
  "bump amount a = a\<lparr>ba_committed := ba_committed a + amount\<rparr>"

lemma bump_simps [simp]: "ba_id (bump q a) = ba_id a" "ba_committed (bump q a) = ba_committed a + q"
  "ba_policy (bump q a) = ba_policy a" "ba_tenant (bump q a) = ba_tenant a" "ba_period (bump q a) = ba_period a"
  "is_account t pol m (bump q a) = is_account t pol m a"
  by (simp_all add: bump_def is_account_def)

text \<open>What charging one budget did: the account found or opened, and its new commitment.\<close>

definition charged ::
  "budget_env \<Rightarrow> string \<Rightarrow> rat \<Rightarrow> account list \<Rightarrow> account list \<Rightarrow> policy \<Rightarrow> nat \<Rightarrow> bool" where
  "charged e t amount accs accs' p i \<longleftrightarrow>
     (\<exists>a limit. is_account t (p_id p) (b_month e) a \<and> ba_id a = i \<and>
        (acct accs i = Some a \<or> acct accs i = None \<and> ba_committed a = historical_spend e p) \<and>
        monthly_limit p = Inr limit \<and> ba_committed a + amount \<le> limit \<and>
        acct accs' i = Some (bump amount a))"

lemma charge_budget_spec:
  assumes "charge_budget e t amount p accs = Inr (i, accs')" "distinct (map ba_id accs)"
  shows "distinct (map ba_id accs') \<and> charged e t amount accs accs' p i \<and>
    (\<forall>j. j \<noteq> i \<longrightarrow> acct accs' j = acct accs j)"
proof -
  let ?key = "is_account t (p_id p) (b_month e)"
  let ?n = "\<lparr>ba_id = Suc (fold max (map ba_id accs) 0), ba_tenant = t, ba_policy = p_id p,
    ba_period = b_month e, ba_committed = historical_spend e p\<rparr>"
  define accs1 where "accs1 = open_account e t p accs"
  note accs1_cases = accs1_def [unfolded open_account_def]
  from assms(1) obtain a limit where a: "find ?key accs1 = Some a"
    and limit: "monthly_limit p = Inr limit" "ba_committed a + amount \<le> limit" and i: "i = ba_id a"
    and accs': "accs' = map (\<lambda>b. if ba_id b = ba_id a then bump amount b else b) accs1"
    by (auto simp: charge_budget_def Let_def accs1_def [symmetric] bump_def [abs_def] split: option.splits if_splits)
  have new: "ba_id ?n \<notin> ba_id ` set accs" using fresh_id [of accs] by simp
  have dist1: "distinct (map ba_id accs1)"
    using assms(2) new by (auto simp: accs1_cases split: option.splits)
  have in1: "a \<in> set accs1" "?key a" using a by (auto simp: find_Some_iff)
  have acct1: "acct accs1 i = Some a" using dist1 in1 i by (simp add: acct_set)
  have old: "(acct accs i = Some a \<or> acct accs i = None \<and> ba_committed a = historical_spend e p) \<and>
      (\<forall>j. j \<noteq> i \<longrightarrow> acct accs1 j = acct accs j)"
  proof (cases "find ?key accs")
    case None
    then have *: "accs1 = accs @ [?n]" by (simp add: accs1_cases)
    from None in1 * have "a = ?n" by (auto simp: find_None_iff)
    moreover have "acct accs1 = (acct accs)(ba_id ?n \<mapsto> ?n)" unfolding * by (rule acct_append_new [OF new])
    ultimately show ?thesis using new i by (simp add: acct_None)
  next
    case (Some b)
    then have "accs1 = accs" by (simp add: accs1_cases)
    with acct1 show ?thesis by simp
  qed
  have "acct accs' = (acct accs1)(i := map_option (bump amount) (acct accs1 i))"
    unfolding accs' i by (rule acct_update) simp
  with acct1 have acct': "acct accs' = (acct accs1)(i \<mapsto> bump amount a)" by simp
  have "map ba_id accs' = map ba_id accs1" unfolding accs' by simp
  with dist1 old acct' in1 limit i show ?thesis
    unfolding charged_def by auto
qed

lemma charge_budgets_spec:
  "charge_budgets e t amount ps accs = Inr (is, accs') \<Longrightarrow> distinct (map ba_id accs) \<Longrightarrow>
   distinct (map p_id ps) \<Longrightarrow>
   distinct (map ba_id accs') \<and> distinct is \<and> list_all2 (charged e t amount accs accs') ps is \<and>
   (\<forall>j. j \<notin> set is \<longrightarrow> acct accs' j = acct accs j)"
proof (induction ps arbitrary: accs "is" accs')
  case Nil
  then show ?case by simp
next
  case (Cons p ps)
  from Cons.prems(1) obtain i accs1 js where one: "charge_budget e t amount p accs = Inr (i, accs1)"
    and rest: "charge_budgets e t amount ps accs1 = Inr (js, accs')" and is_js: "is = i # js"
    by auto
  note A = charge_budget_spec [OF one Cons.prems(2)]
  then have B: "distinct (map ba_id accs')" "distinct js" "list_all2 (charged e t amount accs1 accs') ps js"
    "\<forall>j. j \<notin> set js \<longrightarrow> acct accs' j = acct accs1 j"
    using Cons.IH [OF rest] Cons.prems(3) by auto
  from A obtain a where a: "acct accs1 i = Some (bump amount a)" "is_account t (p_id p) (b_month e) a"
    unfolding charged_def by blast
  have "i \<notin> set js"
  proof
    assume "i \<in> set js"
    then obtain q where "q \<in> set ps" "charged e t amount accs1 accs' q i"
      using B(3) by (metis in_set_conv_nth list_all2_conv_all_nth)
    moreover from this a have "p_id q = p_id p"
      unfolding charged_def by (auto simp: is_account_def)
    ultimately show False using Cons.prems(3) by (metis distinct.simps(2) image_eqI list.set_map list.simps(9))
  qed
  have "charged e t amount accs accs' q j" if "charged e t amount accs1 accs' q j" "j \<in> set js" for q j
  proof -
    have "acct accs1 j = acct accs j" using A that(2) \<open>i \<notin> set js\<close> by metis
    with that(1) show ?thesis by (simp add: charged_def)
  qed
  with B(3) have "list_all2 (charged e t amount accs accs') ps js"
    by (auto simp: list_all2_conv_all_nth)
  moreover have "charged e t amount accs accs' p i"
    using A B(4) \<open>i \<notin> set js\<close> by (simp add: charged_def)
  ultimately show ?case using A B \<open>i \<notin> set js\<close> by (simp add: is_js)
qed

section \<open>Admission\<close>

definition prices_ok :: "budget_env \<Rightarrow> bool" where
  "prices_ok e \<longleftrightarrow> (\<forall>m v pc. resolve_model_pricing (b_catalog e) (b_registry e) (b_today e) m v = Some pc \<longrightarrow> price_ok pc)"

lemma price_tokens_nonneg:
  assumes "price_ok pc" "0 \<le> i" "0 \<le> out"
  shows "0 \<le> fst (price_tokens pc i out) \<and> 0 \<le> snd (price_tokens pc i out)"
  using assms rates_mono [OF assms(1) order_refl, of i] unfolding price_tokens_def fst_conv snd_conv
  by (intro conjI divide_nonneg_nonneg mult_nonneg_nonneg) simp_all

lemma upper_bound_cases:
  assumes "request_upper_bound e c = Inr q"
  obtains pc n m v inp where
    "resolve_model_pricing (b_catalog e) (b_registry e) (b_today e) m v = Some pc" "0 < n" "0 \<le> inp"
    "q = quantize_up (fst (price_tokens pc inp n) + snd (price_tokens pc inp n))"
proof -
  from assms obtain pc n tx where
    "resolve_model_pricing (b_catalog e) (b_registry e) (b_today e)
       (py_or (ctx_get c ''model'') (ctx_get c ''ai_model'')) (py_or (ctx_get c ''provider'') (PStr [])) = Some pc"
    "0 < n" "q = quantize_up (fst (price_tokens pc ((int (utf8_length tx) + 4096) * 2) n) +
       snd (price_tokens pc ((int (utf8_length tx) + 4096) * 2) n))"
    by (auto simp: request_upper_bound_def Let_def case_prod_beta
        split: option.splits pyval.splits if_splits bool.splits) (metis not_le)
  then show thesis by (intro that [of _ _ pc n "(int (utf8_length tx) + 4096) * 2"]) simp_all
qed

lemma upper_bound_nonneg:
  assumes "request_upper_bound e c = Inr q" "prices_ok e"
  shows "0 \<le> q"
proof -
  obtain pc n m v inp where *: "resolve_model_pricing (b_catalog e) (b_registry e) (b_today e) m v = Some pc"
    "0 < n" "0 \<le> inp" "q = quantize_up (fst (price_tokens pc inp n) + snd (price_tokens pc inp n))"
    using upper_bound_cases [OF assms(1)] by metis
  then have "price_ok pc" using assms(2) unfolding prices_ok_def by blast
  with * price_tokens_nonneg [of pc inp n] show ?thesis by (simp add: quantize_up_nonneg)
qed

lemma hard_budgets_distinct:
  assumes "hard_budgets ps = Some hs" "distinct (map p_id ps)"
  shows "distinct (map p_id hs)"
proof -
  from assms(1) obtain fs where fs: "filter_m is_hard_budget ps = Some fs" "hs = sort_key p_id fs"
    by (auto simp: hard_budgets_def split: Option.bind_splits)
  from filter_m_Some [OF fs(1)] have "distinct (map p_id fs)"
    using assms(2) by (simp add: distinct_map_filter)
  then show ?thesis by (simp add: fs(2) distinct_map)
qed

lemma reserve_spec:
  assumes "reserve e fresh budgets ep c s = Inr (c', s')"
  obtains rid amount accs ch where "ctx_get c ''request_id'' = PStr rid" "request_upper_bound e c = Inr amount"
    "charge_budgets e (ep_tenant ep) amount budgets (bs_accounts s) = Inr (bc_accounts ch, accs)"
    "\<forall>k \<in> set (bs_charges s). \<not> (bc_tenant k = ep_tenant ep \<and> bc_endpoint k = ep_id ep \<and> bc_request k = rid)"
    "s' = s\<lparr>bs_accounts := accs, bs_charges := bs_charges s @ [ch]\<rparr>"
    "bc_id ch = fresh" "bc_tenant ch = ep_tenant ep" "bc_endpoint ch = ep_id ep" "bc_request ch = rid"
    "bc_amount ch = amount" "bc_actual ch = None" "bc_reconciled ch = None"
proof -
  from assms obtain rid amount ids accs where *: "ctx_get c ''request_id'' = PStr rid"
    "request_upper_bound e c = Inr amount"
    "charge_budgets e (ep_tenant ep) amount budgets (bs_accounts s) = Inr (ids, accs)"
    "\<forall>k \<in> set (bs_charges s). \<not> (bc_tenant k = ep_tenant ep \<and> bc_endpoint k = ep_id ep \<and> bc_request k = rid)"
    "s' = s\<lparr>bs_accounts := accs, bs_charges := bs_charges s @
       [\<lparr>bc_id = fresh, bc_tenant = ep_tenant ep, bc_endpoint = ep_id ep, bc_dims = charge_dims c,
         bc_request = rid, bc_amount = amount, bc_accounts = ids, bc_actual = None, bc_reconciled = None,
         bc_source = [], bc_pricing_version = b_pricing_version e\<rparr>]\<rparr>"
    by (auto simp: reserve_def Let_def split: pyval.splits if_splits)
  show thesis
    by (rule that [OF *(1,2) _ *(4,5)]) (simp_all add: *(3))
qed

lemma admit_success:
  assumes "admit e fresh policies ep action c s = Some (None, c', s')"
  obtains hard c1 s1 where "hard_budgets policies = Some hard"
    "(if (if action \<in> set MODEL_CALL_ACTIONS then hard else []) \<noteq> []
      then reserve e fresh hard ep c s else Inr (c, s)) = Inr (c1, s1)"
    "consume_approvals (b_now e) (validated_ids c1) (ep_tenant ep) (bs_approvals s1) = (True, bs_approvals s')"
    "s' = s1\<lparr>bs_approvals := bs_approvals s'\<rparr>" "c' = c1"
proof -
  from assms obtain hard where hard: "hard_budgets policies = Some hard"
    by (auto simp: admit_def split: Option.bind_splits)
  let ?r = "if (if action \<in> set MODEL_CALL_ACTIONS then hard else []) \<noteq> []
      then reserve e fresh hard ep c s else Inr (c, s)"
  have run: "admit e fresh policies ep action c s = (case ?r of
      Inl (ValueError m) \<Rightarrow> Some (Some m, c, s)
    | Inl ArithmeticError \<Rightarrow> Some (Some ''[<class decimal.ConversionSyntax>]'', c, s)
    | Inl IntegrityError \<Rightarrow>
        Some (Some ''This request_id has already been admitted; use a new ID for a new execution'', c, s)
    | Inl _ \<Rightarrow> None
    | Inr (c1, s1) \<Rightarrow>
        (case consume_approvals (b_now e) (validated_ids c1) (ep_tenant ep) (bs_approvals s1) of
           (True, aps) \<Rightarrow> Some (None, c1, s1\<lparr>bs_approvals := aps\<rparr>)
         | (False, _) \<Rightarrow> Some (Some ''Approval has already been used or expired'', c1, s)))"
    by (simp add: admit_def hard)
  from assms obtain c1 s1 where r: "?r = Inr (c1, s1)"
    unfolding run by (auto split: sum.splits pyexc.splits prod.splits)
  from assms have "consume_approvals (b_now e) (validated_ids c1) (ep_tenant ep) (bs_approvals s1) =
      (True, bs_approvals s')" "s' = s1\<lparr>bs_approvals := bs_approvals s'\<rparr>" "c' = c1"
    unfolding run r by (auto split: prod.splits bool.splits)
  with that hard r show thesis by blast
qed

lemma admission_refused:
  "admit e fresh policies ep action c s = Some (Some m, c', s') \<Longrightarrow> s' = s"
  by (auto simp: admit_def split: Option.bind_splits sum.splits pyexc.splits prod.splits bool.splits if_splits)


section \<open>Every path keeps the ledger\<close>

lemma acct_I: "distinct (map ba_id accs) \<Longrightarrow> a \<in> set accs \<Longrightarrow> acct accs (ba_id a) = Some a"
  by (simp add: acct_set)

lemma held_unknown: "\<forall>c \<in> set chs. charge_ok accs c \<Longrightarrow> i \<notin> ba_id ` set accs \<Longrightarrow> held i chs = 0"
  by (induction chs) (auto simp: held_def charge_ok_def)

lemma opened_nonneg:
  assumes "ledger s" "distinct (map ba_id accs)"
    and touched: "\<And>i. i \<in> is \<Longrightarrow> \<exists>p a. acct accs i = Some (bump q a) \<and> ba_id a = i \<and>
      (acct (bs_accounts s) i = Some a \<or> acct (bs_accounts s) i = None \<and> ba_committed a = historical_spend e p)"
    and same: "\<And>j. j \<notin> is \<Longrightarrow> acct accs j = acct (bs_accounts s) j"
    and base: "\<And>a. ba_id a \<in> is \<Longrightarrow> base_spend chs (bump q a) = base_spend (bs_charges s) a"
    and other: "\<And>a. ba_id a \<notin> is \<Longrightarrow> base_spend chs a = base_spend (bs_charges s) a"
    and a': "a' \<in> set accs"
  shows "0 \<le> base_spend chs a'"
proof -
  note L = assms(1) [unfolded ledger_def]
  have new: "acct accs (ba_id a') = Some a'" using assms(2) a' by (rule acct_I)
  show ?thesis
  proof (cases "ba_id a' \<in> is")
    case False
    with new same have "acct (bs_accounts s) (ba_id a') = Some a'" by simp
    then have "a' \<in> set (bs_accounts s)" using L by (simp add: acct_set)
    then show ?thesis using other [OF False] L by simp
  next
    case True
    from touched [OF this] obtain p a where t: "acct accs (ba_id a') = Some (bump q a)" "ba_id a = ba_id a'"
      "acct (bs_accounts s) (ba_id a') = Some a \<or>
       acct (bs_accounts s) (ba_id a') = None \<and> ba_committed a = historical_spend e p" by blast
    from t(1) new have "a' = bump q a" by simp
    with t(2,3) have a: "a' = bump q a" "ba_id a = ba_id a'" "acct (bs_accounts s) (ba_id a) = Some a \<or>
       acct (bs_accounts s) (ba_id a) = None \<and> ba_committed a = historical_spend e p" by (simp_all only:)
    have "0 \<le> base_spend (bs_charges s) a"
      using a(3)
    proof
      assume "acct (bs_accounts s) (ba_id a) = Some a"
      then have "a \<in> set (bs_accounts s)" using L by (simp add: acct_set)
      then show ?thesis using L by blast
    next
      assume "acct (bs_accounts s) (ba_id a) = None \<and> ba_committed a = historical_spend e p"
      moreover from this have "held (ba_id a) (bs_charges s) = 0"
        using L by (intro held_unknown [of _ "bs_accounts s"]) (simp_all add: acct_None)
      ultimately show ?thesis by (simp add: base_spend_def historical_spend_def)
    qed
    with base [of a] a(1,2) True show ?thesis by (simp only:)
  qed
qed

lemma reserve_ledger:
  assumes ledger: "ledger s" and res: "reserve e fresh budgets ep c s = Inr (c', s')"
    and dist: "distinct (map p_id budgets)" and fresh: "fresh \<notin> bc_id ` set (bs_charges s)" and prices: "prices_ok e"
  shows "ledger s' \<and> same_base s s'"
proof -
  obtain rid amount accs ch where up: "request_upper_bound e c = Inr amount"
    and cb: "charge_budgets e (ep_tenant ep) amount budgets (bs_accounts s) = Inr (bc_accounts ch, accs)"
    and s': "s' = s\<lparr>bs_accounts := accs, bs_charges := bs_charges s @ [ch]\<rparr>"
    and ch: "bc_id ch = fresh" "bc_amount ch = amount" "bc_actual ch = None" "bc_reconciled ch = None"
    using res by (rule reserve_spec)
  note L = ledger [unfolded ledger_def]
  have S: "distinct (map ba_id accs)" "distinct (bc_accounts ch)"
      "list_all2 (charged e (ep_tenant ep) amount (bs_accounts s) accs) budgets (bc_accounts ch)"
      "\<And>j. j \<notin> set (bc_accounts ch) \<Longrightarrow> acct accs j = acct (bs_accounts s) j"
    using charge_budgets_spec [OF cb _ dist] L by simp_all
  have nonneg: "0 \<le> amount" using upper_bound_nonneg [OF up prices] .
  have eff: "effective_commitment ch = amount" using ch nonneg by (simp add: effective_commitment_def actual_or_0_def)
  have touched: "\<exists>p a. acct accs i = Some (bump amount a) \<and> ba_id a = i \<and>
      (acct (bs_accounts s) i = Some a \<or> acct (bs_accounts s) i = None \<and> ba_committed a = historical_spend e p)"
    if "i \<in> set (bc_accounts ch)" for i
    using S(3) that unfolding list_all2_conv_all_nth in_set_conv_nth charged_def by metis
  have grows: "acct accs i \<noteq> None" if "acct (bs_accounts s) i \<noteq> None" for i
    using touched [of i] S(4) [of i] that by (cases "i \<in> set (bc_accounts ch)") auto
  have ids: "ba_id ` set (bs_accounts s) \<subseteq> ba_id ` set accs"
    using grows unfolding acct_None by blast
  have in_ids: "i \<in> ba_id ` set accs" if "i \<in> set (bc_accounts ch)" for i
    using touched [OF that] acct_None [of accs i] by force
  have base: "base_spend (bs_charges s') (bump amount a) = base_spend (bs_charges s) a" if "ba_id a \<in> set (bc_accounts ch)" for a
    using that eff by (simp add: s' base_spend_def)
  have base_other: "base_spend (bs_charges s') a = base_spend (bs_charges s) a" if "ba_id a \<notin> set (bc_accounts ch)" for a
    using that by (simp add: s' base_spend_def)
  have "ledger s'"
    unfolding ledger_def
  proof (intro conjI ballI)
    show "distinct (map ba_id (bs_accounts s'))" using S(1) by (simp add: s')
    show "distinct (map bc_id (bs_charges s'))" using L fresh by (auto simp: s' ch)
    show "charge_ok (bs_accounts s') k" if "k \<in> set (bs_charges s')" for k
    proof (cases "k = ch")
      case True
      then show ?thesis using S(2) in_ids nonneg ch by (auto simp: charge_ok_def s' actual_or_0_def)
    next
      case False
      with that L have "charge_ok (bs_accounts s) k" by (auto simp: s')
      with ids show ?thesis by (auto simp: charge_ok_def s')
    qed
    show "0 \<le> base_spend (bs_charges s') a'" if a': "a' \<in> set (bs_accounts s')" for a'
      using opened_nonneg [OF ledger S(1) touched S(4) base base_other] a' by (simp add: s')
  qed
  moreover have "same_base s s'"
    unfolding same_base_def
  proof
    fix a
    assume a: "a \<in> set (bs_accounts s)"
    then have old: "acct (bs_accounts s) (ba_id a) = Some a" using L by (simp add: acct_I)
    show "\<exists>a' \<in> set (bs_accounts s'). ba_id a' = ba_id a \<and>
        ba_tenant a' = ba_tenant a \<and> ba_policy a' = ba_policy a \<and> ba_period a' = ba_period a \<and>
        base_spend (bs_charges s') a' = base_spend (bs_charges s) a"
    proof (cases "ba_id a \<in> set (bc_accounts ch)")
      case True
      with touched [OF True] old have "acct accs (ba_id a) = Some (bump amount a)" by auto
      then have "bump amount a \<in> set (bs_accounts s')" using S(1) by (simp add: acct_set s')
      then show ?thesis by (rule bexI [rotated]) (simp add: base [OF True])
    next
      case False
      with S(4) old have "acct accs (ba_id a) = Some a" by simp
      then have "a \<in> set (bs_accounts s')" using S(1) by (simp add: acct_set s')
      then show ?thesis by (rule bexI [rotated]) (simp add: base_other [OF False])
    qed
  qed
  ultimately show ?thesis ..
qed

lemma ledger_approvals [simp]: "ledger (s\<lparr>bs_approvals := x\<rparr>) = ledger s"
  "same_base r (s\<lparr>bs_approvals := x\<rparr>) = same_base r s"
  by (simp_all add: ledger_def same_base_def)

lemma admit_ledger:
  assumes "admit e fresh policies ep action c s = Some (msg, c', s')" "ledger s" "prices_ok e"
    "distinct (map p_id policies)" "fresh \<notin> bc_id ` set (bs_charges s)"
  shows "ledger s' \<and> same_base s s'"
proof (cases msg)
  case (Some m)
  then have "s' = s" using assms admission_refused [of e fresh policies ep action c s m c' s'] by simp
  with assms(2) show ?thesis by simp
next
  case None
  from assms(1) have "admit e fresh policies ep action c s = Some (None, c', s')" by (simp only: None)
  then obtain hard c1 s1 where hard: "hard_budgets policies = Some hard"
    and r: "(if (if action \<in> set MODEL_CALL_ACTIONS then hard else []) \<noteq> []
      then reserve e fresh hard ep c s else Inr (c, s)) = Inr (c1, s1)"
    and s': "s' = s1\<lparr>bs_approvals := bs_approvals s'\<rparr>"
    by (rule admit_success)
  have "ledger s1 \<and> same_base s s1"
  proof (cases "(if action \<in> set MODEL_CALL_ACTIONS then hard else []) \<noteq> []")
    case True
    with r have "reserve e fresh hard ep c s = Inr (c1, s1)" by simp
    then show ?thesis
      by (rule reserve_ledger [OF assms(2) _ hard_budgets_distinct [OF hard assms(4)] assms(5,3)])
  next
    case False
    with r have "s1 = s" by (simp only: if_False sum.inject prod.inject)
    with assms(2) show ?thesis by simp
  qed
  then have "ledger (s1\<lparr>bs_approvals := bs_approvals s'\<rparr>) \<and> same_base s (s1\<lparr>bs_approvals := bs_approvals s'\<rparr>)"
    by (simp only: ledger_approvals)
  then show ?thesis by (simp only: s' [symmetric])
qed

lemma find_charge_in: "find_charge i t chs = Some ch \<Longrightarrow> ch \<in> set chs"
  by (auto simp: find_charge_def find_Some_iff)

lemma billed_nonneg: "billed_amount v = Inr q \<Longrightarrow> 0 \<le> q"
  by (auto simp: billed_amount_def split: sum.splits decimal.splits if_splits)

lemma token_nonneg: "token_amount e prov u = Inr q \<Longrightarrow> prices_ok e \<Longrightarrow> 0 \<le> q"
proof -
  assume t: "token_amount e prov u = Inr q" and ok: "prices_ok e"
  from t obtain m i out pc where pc: "resolve_model_pricing (b_catalog e) (b_registry e) (b_today e) m
      (PStr (provider_name prov)) = Some pc" "0 \<le> min i out"
    "q = quantize_up (fst (price_tokens pc i out) + snd (price_tokens pc i out))"
    by (auto simp: token_amount_def case_prod_beta not_less split: pyval.splits if_splits option.splits)
  then show "0 \<le> q"
    using ok price_tokens_nonneg [of pc i out] unfolding prices_ok_def
    by (auto intro!: quantize_up_nonneg add_nonneg_nonneg)
qed

inductive budget_step :: "budget_state \<Rightarrow> budget_state \<Rightarrow> bool" where
  admission: "admit e fresh policies ep action c s = Some (msg, c', s') \<Longrightarrow> prices_ok e \<Longrightarrow>
    distinct (map p_id policies) \<Longrightarrow> fresh \<notin> bc_id ` set (bs_charges s) \<Longrightarrow> budget_step s s'"
| provider_usage: "reconcile_charge e vs cid tenant usage source s = Inr (ch, s') \<Longrightarrow> prices_ok e \<Longrightarrow>
    budget_step s s'"
| cancellation: "cancel_charge e vs cid tenant rid provider attestation source s = Inr (ch, s') \<Longrightarrow>
    budget_step s s'"
| usage_report: "reconcile_reported_usage e policies tenant endpoint request cost s = Inr (result, s') \<Longrightarrow>
    budget_step s s'"

lemma if_inr: "(if x \<noteq> v then Inl a else r) = Inr b \<Longrightarrow> x = v"
  by (simp split: if_splits)

lemma if_inr': "(if c then Inl a else r) = Inr b \<Longrightarrow> \<not> c"
  by (simp split: if_splits)

lemma reconcile_cases:
  assumes "reconcile_charge e vs cid tenant usage source s = Inr (ch, s')" "prices_ok e"
  shows "s' = s \<or> (\<exists>old actual src. old \<in> set (bs_charges s) \<and> \<not> provider_settled old \<and> 0 \<le> actual \<and>
    actual \<le> bc_amount old \<and> settle (b_now e) old actual src True s = Inr (ch, s'))"
proof -
  note run = assms(1) [unfolded reconcile_charge_def]
  from run have "source = ''provider-api''" by (rule if_inr)
  note run = run [unfolded this, simplified]
  from run obtain u where "usage = PDict u" by (cases usage) simp_all
  note run = run [unfolded this, simplified]
  from run obtain provider where "dget u ''provider'' PNone = PStr provider"
    by (cases "dget u ''provider'' PNone") simp_all
  note run = run [unfolded this, simplified]
  from run have "strip provider \<noteq> []" by (rule if_inr')
  note run = run [unfolded if_not_P [OF this]]
  from run obtain actual where actual: "(if dget u ''billed_usd'' PNone \<noteq> PNone
      then billed_amount (dget u ''billed_usd'' PNone) else token_amount e provider u) = Inr actual"
    unfolding rbind_eq_Inr by blast
  note run = run [unfolded this rbind.simps]
  from run obtain old where old: "find_charge cid tenant (bs_charges s) = Some old"
    by (cases "find_charge cid tenant (bs_charges s)") simp_all
  note run = run [unfolded this option.case]
  have run: "provider_settled old \<and> s' = s \<or> \<not> provider_settled old \<and> actual \<le> bc_amount old \<and>
      settle (b_now e) old actual (''provider-api'' @ '':'' @ provider_name provider) True s = Inr (ch, s')"
    using run by (simp only: not_less prod.inject sum.inject sum.distinct simp_thms split: if_split_asm)
  have "0 \<le> actual" using actual billed_nonneg token_nonneg assms(2) by (auto split: if_splits)
  with old run show ?thesis using find_charge_in by blast
qed

lemma cancel_cases:
  assumes "cancel_charge e vs cid tenant rid provider attestation source s = Inr (ch, s')"
  shows "s' = s \<or> (\<exists>old src. old \<in> set (bs_charges s) \<and> \<not> provider_settled old \<and>
    settle (b_now e) old 0 src True s = Inr (ch, s'))"
  using assms find_charge_in
  unfolding cancel_charge_def
  by (auto split: if_splits pyval.splits option.splits) metis

lemma report_cases:
  assumes "reconcile_reported_usage e policies tenant endpoint request cost s = Inr (r, s')"
  shows "s' = s \<or> (\<exists>old actual rel ch. old \<in> set (bs_charges s) \<and> \<not> provider_settled old \<and>
    actual_or_0 old \<le> actual \<and> settle (b_now e) old actual ''reported-usage'' rel s = Inr (ch, s'))"
  using assms
  unfolding reconcile_reported_usage_def Let_def
  by (auto split: if_splits option.splits simp: find_Some_iff) (metis nth_mem max.cobounded2)

lemma step_ledger: "budget_step s s' \<Longrightarrow> ledger s \<Longrightarrow> ledger s' \<and> same_base s s'"
proof (induction rule: budget_step.induct)
  case (admission e fresh policies ep action c s msg c' s')
  then show ?case by (intro admit_ledger)
next
  case (provider_usage e vs cid tenant usage source s ch s')
  from reconcile_cases [OF provider_usage(1,2)] show ?case
    using settle_ledger [OF provider_usage(3)] provider_usage(3) same_base_refl by blast
next
  case (cancellation e vs cid tenant rid provider attestation source s ch s')
  from cancel_cases [OF cancellation(1)] show ?case
    using settle_ledger [OF cancellation(2), of _ 0] cancellation(2) same_base_refl by blast
next
  case (usage_report e policies tenant endpoint request cost s result s')
  have "0 \<le> actual_or_0 old" if "old \<in> set (bs_charges s)" for old
    using that usage_report(2) by (simp add: ledger_def charge_ok_def)
  with report_cases [OF usage_report(1)] show ?case
    using settle_ledger [OF usage_report(2)] usage_report(2) same_base_refl order.trans by blast
qed

lemma rtranclp_ledger: "budget_step\<^sup>*\<^sup>* s s' \<Longrightarrow> ledger s \<Longrightarrow> ledger s' \<and> same_base s s'"
proof (induction rule: rtranclp_induct)
  case base
  then show ?case by simp
next
  case (step t u)
  with step_ledger [of t u] show ?case using same_base_trans by blast
qed

text \<open>
  C26: The budget ledger balances for ever. Along any sequence of admissions, provider settlements,
  cancellations and usage reports, what an account has committed stays its opening spend plus
  what the charges on it hold: the opening spend of every account never moves, stays nonnegative,
  and no step frees budget a live reservation still holds.
\<close>

theorem ledger_balances:
  assumes "budget_step\<^sup>*\<^sup>* s s'" "ledger s"
  shows "ledger s' \<and> same_base s s'"
  using assms by (rule rtranclp_ledger)

definition demo_env :: budget_env where
  "demo_env = \<lparr>b_catalog = [(''m'', \<lparr>pc_input = 1, pc_output = 2, pc_long = None, pc_schedule = []\<rparr>)],
     b_registry = None, b_today = ''2026-10-16'', b_month = 0, b_now = 5, b_json = (\<lambda>_. Inl OtherError),
     b_logs = [], b_pricing_version = ''v1''\<rparr>"

definition demo_account :: "rat \<Rightarrow> account" where
  "demo_account q = \<lparr>ba_id = 1, ba_tenant = ''t'', ba_policy = ''p1'', ba_period = 0, ba_committed = q\<rparr>"

definition demo_charge :: "rat option \<Rightarrow> string \<Rightarrow> charge" where
  "demo_charge q src = \<lparr>bc_id = ''c'', bc_tenant = ''t'', bc_endpoint = ''e'', bc_dims = [], bc_request = ''r'',
     bc_amount = 5, bc_accounts = [1], bc_actual = q, bc_reconciled = None, bc_source = src,
     bc_pricing_version = ''v1''\<rparr>"

definition demo_state :: "rat \<Rightarrow> charge \<Rightarrow> budget_state" where
  "demo_state q ch = \<lparr>bs_accounts = [demo_account q], bs_charges = [ch], bs_approvals = []\<rparr>"

text \<open>Reported usage of 7 on a reservation of 5 raises the account from 9 to 11.\<close>

lemma demo_report:
  "reconcile_reported_usage demo_env [] ''t'' (Some ''e'') ''r'' (Some 7) (demo_state 9 (demo_charge None [])) =
     Inr (Some (demo_charge (Some 7) ''reported-usage''), demo_state 11 (demo_charge (Some 7) ''reported-usage''))"
  by (simp add: reconcile_reported_usage_def demo_state_def demo_charge_def demo_account_def demo_env_def Let_def
      quantize_up_def provider_settled_def actual_or_0_def releases_on_reported_usage_def settle_def
      effective_commitment_def update_charge_def)

theorem ledger_balances_witness:
  "ledger (demo_state 11 (demo_charge (Some 7) ''reported-usage'')) \<and>
   same_base (demo_state 9 (demo_charge None [])) (demo_state 11 (demo_charge (Some 7) ''reported-usage''))"
proof (rule ledger_balances)
  show "budget_step\<^sup>*\<^sup>* (demo_state 9 (demo_charge None [])) (demo_state 11 (demo_charge (Some 7) ''reported-usage''))"
    by (rule r_into_rtranclp, rule budget_step.usage_report, rule demo_report)
  show "ledger (demo_state 9 (demo_charge None []))"
    by (simp add: ledger_def demo_state_def demo_charge_def demo_account_def charge_ok_def base_spend_def
        held_def effective_commitment_def actual_or_0_def)
qed

subsection \<open>Settlement is final\<close>

lemma settle_keeps:
  assumes "settle now old actual src rec s = Inr (ch', s')" "old \<in> set (bs_charges s)"
    "distinct (map bc_id (bs_charges s))" "ch \<in> set (bs_charges s)" "ch \<noteq> old"
  shows "ch \<in> set (bs_charges s')"
proof -
  from assms(1) have "bs_charges s' = update_charge ch' (bs_charges s)" "bc_id ch' = bc_id old"
    by (auto simp: settle_def Let_def split: option.splits)
  moreover have "bc_id ch \<noteq> bc_id old" using assms(2-5) by (auto simp: distinct_map dest: inj_onD)
  ultimately show ?thesis using assms(4) by (force simp: update_charge_def)
qed

lemma admit_keeps:
  assumes "admit e fresh policies ep action c s = Some (msg, c', s')"
  shows "set (bs_charges s) \<subseteq> set (bs_charges s')"
proof (cases msg)
  case (Some m)
  then show ?thesis using assms admission_refused [of e fresh policies ep action c s m c' s'] by simp
next
  case None
  from assms have "admit e fresh policies ep action c s = Some (None, c', s')" by (simp only: None)
  then obtain hard c1 s1 where r: "(if (if action \<in> set MODEL_CALL_ACTIONS then hard else []) \<noteq> []
      then reserve e fresh hard ep c s else Inr (c, s)) = Inr (c1, s1)"
    and s': "s' = s1\<lparr>bs_approvals := bs_approvals s'\<rparr>"
    by (rule admit_success)
  have "set (bs_charges s) \<subseteq> set (bs_charges s1)"
    using r by (auto split: if_split_asm elim!: reserve_spec)
  moreover from arg_cong [OF s', of bs_charges] have "bs_charges s' = bs_charges s1" by simp
  ultimately show ?thesis by simp
qed

text \<open>
  C30: A provider's settlement is final. Once authenticated provider usage or a provider's
  cancellation settled a charge, no later admission, settlement, cancellation or usage report
  changes that charge.
\<close>

theorem provider_settlement_final:
  assumes "budget_step\<^sup>*\<^sup>* s s'" "ledger s" "ch \<in> set (bs_charges s)" "provider_settled ch"
  shows "ch \<in> set (bs_charges s')"
  using assms(1)
proof (induction rule: rtranclp_induct)
  case base
  show ?case by (rule assms(3))
next
  case (step t u)
  have dist: "distinct (map bc_id (bs_charges t))"
    using rtranclp_ledger [OF step(1) assms(2)] by (simp add: ledger_def)
  from step(2) show ?case
  proof (cases rule: budget_step.cases)
    case (admission e fresh policies ep action c msg c')
    then show ?thesis using admit_keeps step(3) by blast
  next
    case (provider_usage e vs cid tenant usage source new)
    from reconcile_cases [OF this] show ?thesis
      using settle_keeps [OF _ _ dist step(3)] step(3) assms(4) by blast
  next
    case (cancellation e vs cid tenant rid provider attestation source new)
    from cancel_cases [OF this] show ?thesis
      using settle_keeps [OF _ _ dist step(3)] step(3) assms(4) by blast
  next
    case (usage_report e policies tenant endpoint request cost result)
    from report_cases [OF this] show ?thesis
      using settle_keeps [OF _ _ dist step(3)] step(3) assms(4) by blast
  qed
qed

definition settled_charge :: charge where
  "settled_charge = (demo_charge (Some 4) ''provider-api:m'')\<lparr>bc_reconciled := Some 1\<rparr>"

theorem provider_settlement_final_witness:
  "settled_charge \<in> set (bs_charges (demo_state 4 settled_charge))"
proof (rule provider_settlement_final)
  have "reconcile_reported_usage demo_env [] ''t'' (Some ''e'') ''r'' (Some 7) (demo_state 4 settled_charge) =
      Inr (Some settled_charge, demo_state 4 settled_charge)"
    by (simp add: reconcile_reported_usage_def demo_state_def settled_charge_def demo_charge_def Let_def
        provider_settled_def starts_with_def)
  then show "budget_step\<^sup>*\<^sup>* (demo_state 4 settled_charge) (demo_state 4 settled_charge)"
    by (intro r_into_rtranclp budget_step.usage_report)
  show "ledger (demo_state 4 settled_charge)"
    by (simp add: ledger_def demo_state_def settled_charge_def demo_charge_def demo_account_def charge_ok_def
        base_spend_def held_def effective_commitment_def actual_or_0_def)
qed (simp_all add: demo_state_def settled_charge_def demo_charge_def provider_settled_def starts_with_def)

definition demo_budget :: policy where
  "demo_budget = demo_policy\<lparr>p_id := ''b'', p_type := ''budget_limit'',
     p_config := PDict [(''monthly_budget_usd'', PInt 10)]\<rparr>"

definition demo_call :: pydict where
  "demo_call = [(''request_id'', PStr ''r2''), (''model'', PStr ''m''), (''max_output_tokens'', PInt 100),
     (''input_text'', PStr ''hi'')]"

definition demo_endpoint :: endpoint where
  "demo_endpoint = \<lparr>ep_id = ''e'', ep_agent_id = ''a'', ep_tenant = ''t'', ep_sub_org = [], ep_deployment = [],
     ep_agent_type = ''custom'', ep_metadata = PDict []\<rparr>"

lemma demo_upper_bound: "request_upper_bound demo_env demo_call = Inr (2099 / 250000)"
  by (simp add: request_upper_bound_def demo_env_def demo_call_def ctx_get_def dget_def py_or_def Let_def
      resolve_model_pricing_def apply_schedule_def check_body_def utf8_length_def price_tokens_def rates_def
      quantize_up_def)

lemma demo_hard_flag: "is_hard_budget demo_budget = Some True"
  by (simp add: is_hard_budget_def demo_budget_def demo_policy_def cfg_def dget_def
      can_refuse_def ladder_def no_escalation_def REFUSING_ACTIONS_def)

lemma demo_hard: "hard_budgets [demo_budget] = Some [demo_budget]"
  by (simp add: hard_budgets_def demo_hard_flag)

lemma demo_limit: "monthly_limit demo_budget = Inr 10"
  by (simp add: monthly_limit_def cfg_r_def cfg_def demo_budget_def demo_policy_def dget_def)

lemma demo_charged: "charge_budgets demo_env ''t'' (2099 / 250000) [demo_budget] [demo_account 9] =
    Inr ([2], [demo_account 9, \<lparr>ba_id = 2, ba_tenant = ''t'', ba_policy = ''b'', ba_period = 0,
      ba_committed = 2099 / 250000\<rparr>])"
proof -
  have "p_id demo_budget = ''b''" by (simp add: demo_budget_def)
  then show ?thesis
    by (simp add: charge_budget_def demo_limit open_account_def demo_account_def is_account_def
        demo_env_def historical_spend_def scoped_interactions_def)
qed

lemma demo_reserve: "\<exists>c' s'. reserve demo_env ''f'' [demo_budget] demo_endpoint demo_call (demo_state 9 settled_charge) =
    Inr (c', s') \<and> validated_ids c' = []"
proof -
  have "ctx_get demo_call ''request_id'' = PStr ''r2''" by (simp add: demo_call_def ctx_get_def dget_def)
  moreover have "validated_ids (dput ''budget_reservation'' v demo_call) = []" for v
    by (simp add: validated_ids_def demo_call_def dget_def)
  moreover have "bs_accounts (demo_state 9 settled_charge) = [demo_account 9]"
    "bs_charges (demo_state 9 settled_charge) = [settled_charge]" "ep_tenant demo_endpoint = ''t''"
    by (simp_all add: demo_state_def demo_endpoint_def)
  moreover have "bc_request settled_charge = ''r''" by (simp add: settled_charge_def demo_charge_def)
  ultimately show ?thesis
    by (simp add: reserve_def demo_upper_bound demo_charged del: charge_budgets.simps)
qed


end
