(* ===== verification/ShellWords.thy ===== *)
theory ShellWords
  imports PyPrelude
begin

text \<open>
  Shell words: the lexer of Python's \<open>shlex\<close> as \<open>services/tool_arguments.py\<close> sets it up (POSIX
  rules, punctuation characters, splitting at whitespace only, no comments), its \<open>quote\<close> and
  \<open>join\<close>, and the proof that reading a joined argument vector gives the arguments back.
\<close>

section \<open>Characters\<close>

definition squote :: char where "squote = CHR 0x27"
definition dquote :: char where "dquote = CHR 0x22"
definition backslash :: char where "backslash = CHR 0x5C"
definition backtick :: char where "backtick = CHR 0x60"

definition sh_space :: "char \<Rightarrow> bool" where
  "sh_space c \<longleftrightarrow> c \<in> {CHR '' '', CHR 0x09, CHR 0x0D, CHR 0x0A}"

text \<open>\<open>SHLEX_PUNCTUATION\<close>, the characters \<open>punctuation_chars=True\<close> stands for.\<close>

definition SHLEX_PUNCTUATION :: string where
  "SHLEX_PUNCTUATION = ''();<>|&''"

definition sh_punct :: "char \<Rightarrow> bool" where
  "sh_punct c \<longleftrightarrow> c \<in> set SHLEX_PUNCTUATION"

lemmas sh_chars = squote_def dquote_def backslash_def backtick_def sh_space_def sh_punct_def SHLEX_PUNCTUATION_def

section \<open>The lexer\<close>

text \<open>
  The states of \<open>shlex.read_token\<close>: between tokens, in a word, in a run of punctuation, inside
  quotes, and after a backslash outside (None) or inside double quotes.
\<close>

datatype lex_state = Blank | Word | Punct | Quoted char | Escaped "char option"

text \<open>A word ends the token when it has text or was quoted.\<close>

definition emit :: "string \<Rightarrow> bool \<Rightarrow> string list" where
  "emit tok q = (if tok \<noteq> [] \<or> q then [tok] else [])"

function lex :: "lex_state \<Rightarrow> string \<Rightarrow> bool \<Rightarrow> string \<Rightarrow> string + string list" where
  "lex Blank tok q [] = Inr []"
| "lex Blank tok q (c # s) =
     (if sh_space c then lex Blank [] False s
      else if c = backslash then lex (Escaped None) [] False s
      else if sh_punct c then lex Punct [c] False s
      else if c = squote \<or> c = dquote then lex (Quoted c) [] False s
      else lex Word [c] False s)"
| "lex (Quoted k) tok q [] = Inl ''No closing quotation''"
| "lex (Quoted k) tok q (c # s) =
     (if c = k then lex Word tok True s
      else if c = backslash \<and> k = dquote then lex (Escaped (Some k)) tok True s
      else lex (Quoted k) (tok @ [c]) True s)"
| "lex (Escaped k) tok q [] = Inl ''No escaped character''"
| "lex (Escaped k) tok q (c # s) =
     (case k of
        None \<Rightarrow> lex Word (tok @ [c]) q s
      | Some d \<Rightarrow> lex (Quoted d) (tok @ (if c \<noteq> backslash \<and> c \<noteq> d then [backslash, c] else [c])) q s)"
| "lex Word tok q [] = Inr (emit tok q)"
| "lex Word tok q (c # s) =
     (if sh_space c then rbind (lex Blank [] False s) (\<lambda>ts. Inr (emit tok q @ ts))
      else if c = squote \<or> c = dquote then lex (Quoted c) tok q s
      else if c = backslash then lex (Escaped None) tok q s
      else if sh_punct c then rbind (lex Blank [] False (c # s)) (\<lambda>ts. Inr (emit tok q @ ts))
      else lex Word (tok @ [c]) q s)"
| "lex Punct tok q [] = Inr [tok]"
| "lex Punct tok q (c # s) =
     (if sh_space c then rbind (lex Blank [] False s) (\<lambda>ts. Inr (tok # ts))
      else if sh_punct c then lex Punct (tok @ [c]) q s
      else rbind (lex Blank [] False (c # s)) (\<lambda>ts. Inr (tok # ts)))"
  by pat_completeness auto
termination
  by (relation "measure (\<lambda>(st, _, _, s). 2 * length s + (if st = Blank then 0 else 1))") auto

definition shlex_split :: "string \<Rightarrow> string + string list" where
  "shlex_split s = lex Blank [] False s"

section \<open>Quoting\<close>

text \<open>Characters outside \<open>[^\w@%+=:,./-]\<close>, in ASCII.\<close>

definition safe_char :: "char \<Rightarrow> bool" where
  "safe_char c \<longleftrightarrow> (CHR ''0'' \<le> c \<and> c \<le> CHR ''9'') \<or> (CHR ''a'' \<le> c \<and> c \<le> CHR ''z'') \<or>
     (CHR ''A'' \<le> c \<and> c \<le> CHR ''Z'') \<or> c \<in> set ''_@%+=:,./-''"

definition sh_quote :: "string \<Rightarrow> string" where
  "sh_quote s =
     (if s = [] then [squote, squote]
      else if list_all safe_char s then s
      else [squote] @ concat (map (\<lambda>c. if c = squote then [squote, dquote, squote, dquote, squote] else [c]) s) @ [squote])"

definition sh_join :: "string list \<Rightarrow> string" where
  "sh_join ws = join '' '' (map sh_quote ws)"

section \<open>Reading back what was joined\<close>

lemma safe_char_plain:
  assumes "safe_char c"
  shows "\<not> sh_space c \<and> c \<noteq> backslash \<and> \<not> sh_punct c \<and> c \<noteq> squote \<and> c \<noteq> dquote"
  using assms by (auto simp: safe_char_def sh_chars less_eq_char_def)

lemma lex_word_safe:
  "list_all safe_char s \<Longrightarrow> lex Word tok q (s @ rest) = lex Word (tok @ s) q rest"
  by (induction s arbitrary: tok) (auto dest: safe_char_plain)

definition quote_body :: "string \<Rightarrow> string" where
  "quote_body s = concat (map (\<lambda>c. if c = squote then [squote, dquote, squote, dquote, squote] else [c]) s)"

lemma lex_quote_body:
  "lex (Quoted squote) tok q (quote_body s @ squote # rest) = lex Word (tok @ s) True rest"
proof (induction s arbitrary: tok q)
  case Nil
  show ?case by (simp add: quote_body_def)
next
  case (Cons c s)
  have chars: "squote \<noteq> dquote" "backslash \<noteq> squote" "squote \<noteq> backslash" "\<not> sh_space squote" "\<not> sh_space dquote"
    by (simp_all add: sh_chars)
  show ?case
    using Cons [of "tok @ [c]" True] chars by (auto simp: quote_body_def)
qed

text \<open>What follows a word of a joined vector: the end, or a space.\<close>

lemma lex_quoted_word:
  assumes "rest = [] \<or> (\<exists>r. rest = CHR '' '' # r)"
  shows "lex Blank [] False (sh_quote w @ rest) = rbind (lex Blank [] False rest) (\<lambda>ts. Inr (w # ts))"
proof -
  have chars: "\<not> sh_space squote" "squote \<noteq> backslash" "\<not> sh_punct squote" "sh_space (CHR '' '')"
    by (simp_all add: sh_chars)
  have fin: "lex Word w q rest = rbind (lex Blank [] False rest) (\<lambda>ts. Inr (w # ts))" if "w \<noteq> [] \<or> q" for q
    using assms that chars by (auto simp: emit_def)
  show ?thesis
  proof (cases "w \<noteq> [] \<and> list_all safe_char w")
    case True
    then obtain c s where w: "w = c # s" by (cases w) auto
    with True have c: "\<not> sh_space c \<and> c \<noteq> backslash \<and> \<not> sh_punct c \<and> c \<noteq> squote \<and> c \<noteq> dquote"
      and "list_all safe_char s" using safe_char_plain by auto
    then have "lex Blank [] False (w @ rest) = lex Word w False rest"
      using lex_word_safe [of s "[c]" False rest] by (simp add: w)
    with True fin show ?thesis by (simp add: sh_quote_def)
  next
    case False
    then have "sh_quote w = squote # quote_body w @ [squote]"
      by (auto simp: sh_quote_def quote_body_def)
    then have "lex Blank [] False (sh_quote w @ rest) = lex (Quoted squote) [] False (quote_body w @ squote # rest)"
      using chars by simp
    also have "\<dots> = lex Word w True rest"
      using lex_quote_body [of "[]" False w rest] by simp
    finally show ?thesis using fin by simp
  qed
qed

text \<open>
  An argument vector survives the command line: the words of \<open>shlex.join\<close> are read back by
  the lexer exactly, whatever quotes, spaces, operators or backslashes they hold, so a command
  sent as a list and the same command sent as text are checked as the same words.
\<close>

lemma join_split_roundtrip: "shlex_split (sh_join ws) = Inr ws"
proof (induction ws)
  case Nil
  show ?case by (simp add: sh_join_def shlex_split_def)
next
  case (Cons w ws)
  show ?case
  proof (cases ws)
    case Nil
    then show ?thesis using lex_quoted_word [of "[]" w] by (simp add: sh_join_def shlex_split_def)
  next
    case (Cons v vs)
    with lex_quoted_word [of "CHR '' '' # sh_join ws" w] Cons.IH show ?thesis
      by (simp add: sh_join_def shlex_split_def sh_space_def)
  qed
qed

end
