(* ===== verification/Fnmatch.thy ===== *)
theory Fnmatch
  imports PyPrelude
begin

text \<open>
  Python's \<open>fnmatch\<close>, which the policy evaluators and the tool argument rules use for their
  patterns: a pattern is read into items (\<open>*\<close>, \<open>?\<close>, a character class, a literal) and the
  items are matched against the whole text. The matcher is proved equal to the declarative
  reading: the text splits into one piece per item.
\<close>

section \<open>Patterns\<close>

datatype cls_item = CSingle char | CRange char char

datatype pat_item = Star | AnyChar | Lit char | Cls bool "cls_item list"

fun cls_items :: "string \<Rightarrow> cls_item list" where
  "cls_items (a # m # b # r) =
     (if m = CHR ''-'' then CRange a b # cls_items r else CSingle a # cls_items (m # b # r))"
| "cls_items (a # r) = CSingle a # cls_items r"
| "cls_items [] = []"

text \<open>
  The text after an opening bracket: an exclamation mark negates, a closing bracket that comes
  first belongs to the class. None: there is no closing bracket, so the bracket is a literal.
\<close>

definition split_class :: "string \<Rightarrow> (bool \<times> string \<times> string) option" where
  "split_class cs =
     (let (neg, cs1) = (case cs of c # r \<Rightarrow> if c = CHR ''!'' then (True, r) else (False, cs)
                                  | [] \<Rightarrow> (False, cs));
          (pre, cs2) = (case cs1 of c # r \<Rightarrow> if c = CHR '']'' then ([c], r) else ([], cs1)
                                   | [] \<Rightarrow> ([], cs1));
          rest = dropWhile (\<lambda>c. c \<noteq> CHR '']'') cs2
      in if rest = [] then None
         else Some (neg, pre @ takeWhile (\<lambda>c. c \<noteq> CHR '']'') cs2, tl rest))"

lemma split_class_shorter:
  assumes "split_class cs = Some (n, stuff, rest)"
  shows "length rest < length cs"
proof -
  have drop: "length (dropWhile P xs) - 1 \<le> length (xs :: string)" for P xs
    using length_dropWhile_le [of P xs] by simp
  have tl_drop: "dropWhile P (x # xs) \<noteq> [] \<Longrightarrow> length (tl (dropWhile P (x # xs))) \<le> length (xs :: string)"
    for P x xs
    using length_dropWhile_le [of P xs] by auto
  show ?thesis
    using assms drop tl_drop
    by (auto simp: split_class_def Let_def less_Suc_eq_le le_SucI split: list.splits if_splits prod.splits)
qed

function parse_pattern :: "string \<Rightarrow> pat_item list" where
  "parse_pattern [] = []"
| "parse_pattern (c # cs) =
     (if c = CHR ''*'' then Star # parse_pattern cs
      else if c = CHR ''?'' then AnyChar # parse_pattern cs
      else if c = CHR ''['' then
        (case split_class cs of
           None \<Rightarrow> Lit c # parse_pattern cs
         | Some (neg, stuff, rest) \<Rightarrow> Cls neg (cls_items stuff) # parse_pattern rest)
      else Lit c # parse_pattern cs)"
  by pat_completeness auto
termination
  by (relation "measure length") (auto dest: split_class_shorter)

section \<open>Matching\<close>

fun in_cls :: "char \<Rightarrow> cls_item \<Rightarrow> bool" where
  "in_cls c (CSingle a) = (c = a)"
| "in_cls c (CRange a b) = (a \<le> c \<and> c \<le> b)"

fun item_ok :: "pat_item \<Rightarrow> char \<Rightarrow> bool" where
  "item_ok Star c = False"
| "item_ok AnyChar c = True"
| "item_ok (Lit a) c = (c = a)"
| "item_ok (Cls neg items) c = (list_ex (in_cls c) items \<noteq> neg)"

fun match_items :: "pat_item list \<Rightarrow> string \<Rightarrow> bool" where
  "match_items [] s = (s = [])"
| "match_items (Star # ps) [] = match_items ps []"
| "match_items (Star # ps) (c # s) = (match_items ps (c # s) \<or> match_items (Star # ps) s)"
| "match_items (p # ps) [] = False"
| "match_items (p # ps) (c # s) = (item_ok p c \<and> match_items ps s)"

definition fnmatchcase :: "string \<Rightarrow> string \<Rightarrow> bool" where
  "fnmatchcase name pat = match_items (parse_pattern pat) name"

text \<open>On POSIX \<open>fnmatch\<close> is \<open>fnmatchcase\<close>; a name or a pattern that is no string raises.\<close>

fun py_fnmatch :: "pyval \<Rightarrow> pyval \<Rightarrow> bool option" where
  "py_fnmatch (PStr s) (PStr p) = Some (fnmatchcase s p)"
| "py_fnmatch _ _ = None"

section \<open>The declarative reading\<close>

fun item_lang :: "pat_item \<Rightarrow> string \<Rightarrow> bool" where
  "item_lang Star t = True"
| "item_lang p t = (\<exists>c. t = [c] \<and> item_ok p c)"

definition splits_as :: "pat_item list \<Rightarrow> string \<Rightarrow> bool" where
  "splits_as ps s \<longleftrightarrow> (\<exists>ts. s = concat ts \<and> list_all2 item_lang ps ts)"

lemma splits_as_Nil [simp]: "splits_as [] s \<longleftrightarrow> s = []"
  by (simp add: splits_as_def)

lemma splits_as_Cons:
  "splits_as (p # ps) s \<longleftrightarrow> (\<exists>t u. s = t @ u \<and> item_lang p t \<and> splits_as ps u)" (is "?l = ?r")
proof
  assume ?l
  then obtain ts where "s = concat ts" "list_all2 item_lang (p # ps) ts"
    by (auto simp: splits_as_def)
  then show ?r by (cases ts) (auto simp: splits_as_def)
next
  assume ?r
  then obtain t ts where "s = t @ concat ts" "item_lang p t" "list_all2 item_lang ps ts"
    by (auto simp: splits_as_def)
  then have "s = concat (t # ts) \<and> list_all2 item_lang (p # ps) (t # ts)" by simp
  then show ?l unfolding splits_as_def by blast
qed

lemma splits_as_Star: "splits_as (Star # ps) s \<longleftrightarrow> (\<exists>t u. s = t @ u \<and> splits_as ps u)"
  by (simp add: splits_as_Cons)

lemma splits_as_Star_Cons:
  "splits_as (Star # ps) (c # s) \<longleftrightarrow> splits_as ps (c # s) \<or> splits_as (Star # ps) s"
  by (auto simp: splits_as_Star Cons_eq_append_conv)

lemma item_lang_single: "p \<noteq> Star \<Longrightarrow> item_lang p t \<longleftrightarrow> (\<exists>c. t = [c] \<and> item_ok p c)"
  by (cases p) auto

lemma splits_as_single:
  "p \<noteq> Star \<Longrightarrow> splits_as (p # ps) (c # s) \<longleftrightarrow> item_ok p c \<and> splits_as ps s"
  by (simp add: splits_as_Cons item_lang_single) (metis append_Cons append_Nil list.inject)

lemma splits_as_single_Nil: "p \<noteq> Star \<Longrightarrow> \<not> splits_as (p # ps) []"
  by (auto simp: splits_as_Cons item_lang_single)

lemma match_items_iff_splits: "match_items ps s \<longleftrightarrow> splits_as ps s"
proof (induction ps s rule: match_items.induct)
  case (2 ps)
  then show ?case by (simp add: splits_as_Star)
next
  case (3 ps c s)
  then show ?case by (simp add: splits_as_Star_Cons)
qed (simp_all add: splits_as_single splits_as_single_Nil del: item_ok.simps)

lemma match_items_lits: "match_items (map Lit p @ ps) s \<longleftrightarrow> (\<exists>t. s = p @ t \<and> match_items ps t)"
proof (induction p arbitrary: s)
  case Nil
  then show ?case by simp
next
  case (Cons a p)
  then show ?case by (cases s) auto
qed

lemma match_items_Star_only [simp]: "match_items [Star] s"
  by (induction s) auto

definition plain :: "string \<Rightarrow> bool" where
  "plain p \<longleftrightarrow> (\<forall>c \<in> set p. c \<notin> {CHR ''*'', CHR ''?'', CHR ''[''})"

lemma parse_plain: "plain p \<Longrightarrow> parse_pattern (p @ q) = map Lit p @ parse_pattern q"
  by (induction p) (auto simp: plain_def)

text \<open>A pattern without wildcards matches itself only; with a final star, everything it prefixes.\<close>

lemma fnmatchcase_plain: "plain p \<Longrightarrow> fnmatchcase s p \<longleftrightarrow> s = p"
  using parse_plain [of p "[]"] match_items_lits [of p "[]" s] by (simp add: fnmatchcase_def)

lemma fnmatchcase_prefix: "plain p \<Longrightarrow> fnmatchcase s (p @ ''*'') \<longleftrightarrow> starts_with p s"
  using parse_plain [of p "''*''"] match_items_lits [of p "[Star]" s]
  by (simp add: fnmatchcase_def starts_with_iff)

lemma fnmatchcase_star [simp]: "fnmatchcase s ''*''"
  by (simp add: fnmatchcase_def)

end
