(* ===== verification/ToolArguments.thy ===== *)
theory ToolArguments
  imports ShellWords PolicyModel Fnmatch
begin

text \<open>
  Argument rules of tool calls (\<open>services/tool_arguments.py\<close>): the simple commands of a shell
  command line, the paths of a call, and the command and path rules over them. \<open>Unreadable\<close> is the
  left of a sum. Paths are read with \<open>posixpath\<close>, of which the model has \<open>normpath\<close>, \<open>join\<close> and
  \<open>basename\<close>.
\<close>

section \<open>Reading a command line\<close>

definition MAX_DEPTH :: nat where "MAX_DEPTH = 4"
definition MAX_COMMAND_LENGTH :: int where "MAX_COMMAND_LENGTH = 100000"
definition SHELLS :: "string list" where
  "SHELLS = [''sh'', ''bash'', ''zsh'', ''dash'', ''ksh'', ''ash'', ''mksh'']"
definition LEADING_WORDS :: "string list" where
  "LEADING_WORDS = [''{'', ''}'', ''!'', ''if'', ''then'', ''else'', ''elif'', ''fi'', ''do'', ''done'',
     ''while'', ''until'', ''time'', ''case'', ''esac'', ''select'']"

text \<open>\<open>_shell_text\<close>, by the open quote and the text left.\<close>

function shell_text :: "char option \<Rightarrow> string \<Rightarrow> string + string" where
  "shell_text q [] = Inr []"
| "shell_text q (c # s) =
     (let pair = c # take 1 s; keep = (\<lambda>q'. rbind (shell_text q' s) (\<lambda>t. Inr (c # t)))
      in if q = Some squote then keep (if c = squote then None else q)
         else if q = Some dquote then
           (if c = backtick \<or> pair = ''$('' then Inl ''command substitution inside double quotes cannot be checked''
            else if c = backslash \<and> take 1 s \<in> {''$'', [backtick], [CHR 0x0A], [CHR 0x0D]}
            then Inl ''escapes inside double quotes cannot be checked''
            else if c = backslash then rbind (shell_text q (drop 1 s)) (\<lambda>t. Inr (pair @ t))
            else keep (if c = dquote then None else q))
         else if c = backslash then rbind (shell_text q (drop 1 s)) (\<lambda>t. Inr (pair @ t))
         else if pair = [CHR ''$'', squote] then Inl (''$'' @ quoted ''...'' @ '' quoting cannot be checked'')
         else if c = squote \<or> c = dquote then keep (Some c)
         else if c \<in> {CHR 0x0D, CHR 0x0A, backtick} then rbind (shell_text q s) (\<lambda>t. Inr ('' ; '' @ t))
         else if pair = ''$('' then rbind (shell_text q (drop 1 s)) (\<lambda>t. Inr ('' ( '' @ t))
         else keep q)"
  by pat_completeness auto
termination
  by (relation "measure (length \<circ> snd)") auto

text \<open>The replacements of the reading for blocked patterns.\<close>

fun loose_text :: "string \<Rightarrow> string" where
  "loose_text [] = []"
| "loose_text (c # s) =
     (if c = CHR 0x0D \<or> c = CHR 0x0A \<or> c = backtick then '' ; '' @ loose_text s
      else if c = CHR ''$'' \<and> take 1 s = ''('' then '' ( '' @ loose_text (drop 1 s)
      else c # loose_text s)"

definition tokens :: "bool \<Rightarrow> string \<Rightarrow> string + string list" where
  "tokens strict command =
     rbind (if strict then shell_text None command else Inr (loose_text command)) (\<lambda>t.
     case shlex_split t of
       Inl e \<Rightarrow> Inl (''command cannot be parsed: '' @ e)
     | Inr ts \<Rightarrow>
         if strict \<and> list_ex (\<lambda>w. starts_with ''<<'' w \<and> \<not> starts_with ''<<<'' w) ts
         then Inl ''here-documents cannot be checked'' else Inr ts)"

definition is_separator :: "string \<Rightarrow> bool" where
  "is_separator w \<longleftrightarrow> w \<noteq> [] \<and> list_all sh_punct w \<and>
     (list_ex (\<lambda>c. c \<in> set '';|()'') w \<or> list_all (\<lambda>c. c = CHR ''&'') w)"

definition basename :: "string \<Rightarrow> string" where
  "basename p = rev (takeWhile (\<lambda>c. c \<noteq> CHR ''/'') (rev p))"

text \<open>The loop of \<open>_shell_script\<close> over the words after the shell's name.\<close>

fun shell_option :: "string \<Rightarrow> string list \<Rightarrow> string + string option" where
  "shell_option sh [] = Inr None"
| "shell_option sh (w # ws) =
     (if starts_with ''--'' w then shell_option sh ws
      else if \<not> starts_with ''-'' w then Inr None
      else if CHR ''c'' \<in> set (drop 1 w) then
        (case ws of [] \<Rightarrow> Inl (sh @ '' -c without a script'') | script # _ \<Rightarrow> Inr (Some script))
      else shell_option sh ws)"

definition shell_script :: "string list \<Rightarrow> string + string option" where
  "shell_script words =
     (case words of
        [] \<Rightarrow> Inr None
      | w # ws \<Rightarrow>
          if basename w = ''eval'' then Inr (Some (join '' '' ws))
          else if basename w \<notin> set SHELLS then Inr None
          else shell_option (basename w) ws)"

fun segments :: "string list \<Rightarrow> string list list" where
  "segments [] = [[]]"
| "segments (t # ts) =
     (if is_separator t then [] # segments ts
      else (case segments ts of s # rest \<Rightarrow> (t # s) # rest | [] \<Rightarrow> [[t]]))"

definition strip_leading :: "string list \<Rightarrow> string list" where
  "strip_leading = dropWhile (\<lambda>w. w \<in> set LEADING_WORDS)"

text \<open>A loop that extends a list by what each element gives, and stops at the first error.\<close>

fun concat_r :: "('a \<Rightarrow> 'e + 'b list) \<Rightarrow> 'a list \<Rightarrow> 'e + 'b list" where
  "concat_r f [] = Inr []"
| "concat_r f (x # xs) = rbind (f x) (\<lambda>ys. rbind (concat_r f xs) (\<lambda>zs. Inr (ys @ zs)))"

lemma concat_r_cong [fundef_cong]:
  "xs = ys \<Longrightarrow> (\<And>x. x \<in> set ys \<Longrightarrow> f x = g x) \<Longrightarrow> concat_r f xs = concat_r g ys"
proof (induction xs arbitrary: ys)
  case Nil
  then show ?case by simp
next
  case (Cons x xs)
  then have "concat_r f xs = concat_r g xs" by auto
  with Cons.prems show ?case by auto
qed

function simple_commands :: "nat \<Rightarrow> bool \<Rightarrow> string \<Rightarrow> string + string list" where
  "simple_commands depth strict command =
     (if MAX_DEPTH < depth then Inl ''commands nest too deeply to check''
      else if MAX_COMMAND_LENGTH < int (length command) then Inl ''command is too long to check''
      else
        rbind (tokens strict command) (\<lambda>ts.
        concat_r (\<lambda>seg.
          (let words = strip_leading seg in
           if words = [] then Inr []
           else
             rbind (shell_script words) (\<lambda>script.
             case script of
               Some inner \<Rightarrow> simple_commands (Suc depth) strict inner
             | None \<Rightarrow> Inr [join '' '' words]))) (segments ts)))"
  by pat_completeness auto
termination
  by (relation "measure (\<lambda>(d, _, _). Suc MAX_DEPTH - d)") auto

declare simple_commands.simps [simp del]

section \<open>Command rules\<close>

definition command_text :: "pyval \<Rightarrow> string list" where
  "command_text v =
     (case v of
        PStr s \<Rightarrow> [s]
      | PList ws \<Rightarrow> if ws \<noteq> [] \<and> list_all is_str ws then [sh_join (map py_str ws)] else []
      | _ \<Rightarrow> [])"

definition command_texts :: "pyval \<Rightarrow> string list" where
  "command_texts arguments =
     (case arguments of
        PStr s \<Rightarrow> [s]
      | PDict d \<Rightarrow> command_text (dget d ''command'' PNone) @ command_text (dget d ''cmd'' PNone)
      | _ \<Rightarrow> [])"

definition patterns :: "pydict \<Rightarrow> string \<Rightarrow> string + string list" where
  "patterns config key =
     (case py_or (dget config key PNone) (PList []) of
        PList xs \<Rightarrow> if list_all is_str xs then Inr (map py_str xs) else Inl (key @ '' must be a list of strings'')
      | _ \<Rightarrow> Inl (key @ '' must be a list of strings''))"

fun split_on :: "char \<Rightarrow> string \<Rightarrow> string list" where
  "split_on sep [] = [[]]"
| "split_on sep (c # s) =
     (if c = sep then [] # split_on sep s
      else (case split_on sep s of w # ws \<Rightarrow> (c # w) # ws | [] \<Rightarrow> [[c]]))"

definition tails :: "string \<Rightarrow> string list" where
  "tails command = (let words = split_on (CHR '' '') command in
     map (\<lambda>i. join '' '' (drop i words)) [0..<length words])"

text \<open>The first command, in order, with a tail a blocked pattern matches, and that pattern.\<close>

definition blocked_hit :: "string list \<Rightarrow> string list \<Rightarrow> (string \<times> string) option" where
  "blocked_hit blocked commands =
     find (\<lambda>(command, pat). list_ex (\<lambda>t. fnmatchcase t pat) (tails command)) (List.product commands blocked)"

definition no_command :: "string \<Rightarrow> string" where
  "no_command tool = ''Tool '' @ quoted tool @ '' has command rules but the call carries no command''"

definition check_command_text :: "string \<Rightarrow> string list \<Rightarrow> string list \<Rightarrow> string \<Rightarrow> string + string option" where
  "check_command_text tool blocked allowed txt =
     rbind (simple_commands 0 False txt) (\<lambda>commands.
     if commands = [] then Inr (Some (no_command tool))
     else
       (case blocked_hit blocked commands of
          Some (command, pat) \<Rightarrow>
            Inr (Some (''Tool '' @ quoted tool @ '' command '' @ quoted (take 200 command) @
              '' matches blocked pattern '' @ quoted pat))
        | None \<Rightarrow>
            if allowed = [] then Inr None
            else
              rbind (simple_commands 0 True txt) (\<lambda>strict.
              if strict = [] then Inr (Some (no_command tool))
              else
                (case find (\<lambda>command. \<not> list_ex (fnmatchcase command) allowed) strict of
                   Some command \<Rightarrow>
                     Inr (Some (''Tool '' @ quoted tool @ '' command '' @ quoted (take 200 command) @
                       '' is not in the allowed commands''))
                 | None \<Rightarrow> Inr None))))"

text \<open>A loop that returns the first reason found.\<close>

fun first_reason :: "('a \<Rightarrow> 'e + 'r option) \<Rightarrow> 'a list \<Rightarrow> 'e + 'r option" where
  "first_reason f [] = Inr None"
| "first_reason f (x # xs) =
     rbind (f x) (\<lambda>r. case r of Some w \<Rightarrow> Inr (Some w) | None \<Rightarrow> first_reason f xs)"

lemma first_reason_None: "first_reason f xs = Inr None \<longleftrightarrow> (\<forall>x \<in> set xs. f x = Inr None)"
  by (induction xs) (auto split: option.splits)

definition check_command :: "string \<Rightarrow> pydict \<Rightarrow> pyval \<Rightarrow> string + string option" where
  "check_command tool config arguments =
     rbind (patterns config ''blocked_commands'') (\<lambda>blocked.
     rbind (patterns config ''allowed_commands'') (\<lambda>allowed.
     if blocked = [] \<and> allowed = [] then Inr None
     else if command_texts arguments = [] then Inr (Some (no_command tool))
     else first_reason (check_command_text tool blocked allowed) (command_texts arguments)))"

section \<open>Paths\<close>

text \<open>One component of \<open>posixpath.normpath\<close>'s loop; the components so far are held last first.\<close>

definition norm_step :: "bool \<Rightarrow> string \<Rightarrow> string list \<Rightarrow> string list" where
  "norm_step rooted w acc =
     (if w = [] \<or> w = ''.'' then acc
      else if w \<noteq> ''..'' \<or> (\<not> rooted \<and> acc = []) \<or> (acc \<noteq> [] \<and> hd acc = ''..'') then w # acc
      else if acc \<noteq> [] then tl acc else acc)"

definition slashes :: "string \<Rightarrow> nat" where
  "slashes p = (if \<not> starts_with ''/'' p then 0
                else if starts_with ''//'' p \<and> \<not> starts_with ''///'' p then 2 else 1)"

definition norm_comps :: "string \<Rightarrow> string list" where
  "norm_comps p = rev (fold (norm_step (slashes p \<noteq> 0)) (split_on (CHR ''/'') p) [])"

definition normpath :: "string \<Rightarrow> string" where
  "normpath p =
     (let t = replicate (slashes p) (CHR ''/'') @ join ''/'' (norm_comps p)
      in if t = [] then ''.'' else t)"

definition path_join :: "string \<Rightarrow> string \<Rightarrow> string" where
  "path_join a b =
     (if starts_with ''/'' b then b
      else if a = [] \<or> last a = CHR ''/'' then a @ b else a @ ''/'' @ b)"

text \<open>\<open>_cwd\<close>.\<close>

definition absolute_str :: "pyval \<Rightarrow> bool" where
  "absolute_str v = (case v of PStr s \<Rightarrow> starts_with ''/'' s | _ \<Rightarrow> False)"

definition call_cwd :: "pyval \<Rightarrow> pydict \<Rightarrow> string option" where
  "call_cwd arguments c =
     map_option py_str (find absolute_str
       ((case arguments of PDict d \<Rightarrow> [dget d ''workdir'' PNone, dget d ''cwd'' PNone] | _ \<Rightarrow> []) @
        [ctx_get c ''cwd'']))"

text \<open>
  \<open>PATCH_HEADER.findall\<close>: a header names its file on one line, so the matches are those of the
  lines; the name is the shortest text that leaves only spaces.
\<close>

definition header_name :: "string \<Rightarrow> string list" where
  "header_name line =
     (let l = lstrip line in
      concat (map (\<lambda>kind.
        (let start = ''*** '' @ kind @ '': ''; r = drop (length start) l;
             t = rev (dropWhile is_space (rev r))
         in if starts_with start l \<and> r \<noteq> [] then [if t = [] then take 1 r else t] else []))
        [''Add File'', ''Update File'', ''Delete File'', ''Move to'']))"

definition patch_headers :: "string \<Rightarrow> string list" where
  "patch_headers txt = concat (map header_name (split_on (CHR 0x0A) txt))"

definition opt_str :: "pyval \<Rightarrow> string list" where
  "opt_str v = (case v of PStr s \<Rightarrow> [s] | _ \<Rightarrow> [])"

definition call_paths :: "pyval \<Rightarrow> string + string list" where
  "call_paths arguments =
     (let named = (case arguments of
            PDict d \<Rightarrow> concat (map (\<lambda>k. opt_str (dget d k PNone)) [''file_path'', ''path'', ''notebook_path'']) @
              (case dget d ''paths'' PNone of PList xs \<Rightarrow> concat (map opt_str xs) | _ \<Rightarrow> [])
          | _ \<Rightarrow> []);
          texts = (case arguments of
            PStr s \<Rightarrow> [s]
          | PDict d \<Rightarrow> concat (map (\<lambda>k. opt_str (dget d k PNone)) [''input'', ''patch''])
          | _ \<Rightarrow> [])
      in rbind (concat_r (\<lambda>t.
           if substring ''*** Begin Patch'' t then
             (if patch_headers t = [] then Inl ''the patch names no file this can read'' else Inr (patch_headers t))
           else Inr []) texts) (\<lambda>headers. Inr (named @ headers)))"

definition full_path :: "string \<Rightarrow> string option \<Rightarrow> string" where
  "full_path p cwd =
     (case cwd of
        Some d \<Rightarrow> if \<not> starts_with ''/'' p \<and> d \<noteq> [] then path_join d p else p
      | None \<Rightarrow> p)"

definition resolve_path :: "string \<Rightarrow> string option \<Rightarrow> string" where
  "resolve_path p cwd = normpath (full_path p cwd)"

definition inside :: "string \<Rightarrow> string \<Rightarrow> bool" where
  "inside path prefix =
     (let base = normpath prefix in
      if starts_with ''/'' path \<noteq> starts_with ''/'' base then False
      else if base = ''.'' then path \<noteq> ''..'' \<and> \<not> starts_with ''../'' path
      else path = base \<or> base = ''/'' \<or> starts_with (base @ ''/'') path)"

definition path_reason :: "string list \<Rightarrow> string list \<Rightarrow> string option \<Rightarrow> string \<Rightarrow> string option" where
  "path_reason blocked allowed cwd raw =
     (let path = resolve_path raw cwd in
      if \<not> starts_with ''/'' path \<and> list_ex (starts_with ''/'') blocked
      then Some (''File path '' @ quoted (take 500 raw) @ '' is relative and the call does not say where it runs'')
      else if list_ex (\<lambda>p. starts_with p raw \<or> inside path p) blocked
      then Some (''File path '' @ quoted (take 500 raw) @ '' is in blocked paths'')
      else if allowed \<noteq> [] \<and> \<not> list_ex (inside path) allowed
      then Some (''File path '' @ quoted (take 500 raw) @ '' is not in allowed paths'')
      else None)"

definition raw_paths :: "pyval \<Rightarrow> string option \<Rightarrow> string + string list" where
  "raw_paths arguments cwd =
     rbind (call_paths arguments) (\<lambda>found.
     Inr (if found \<noteq> [] then found else case cwd of Some d \<Rightarrow> [d] | None \<Rightarrow> []))"

definition check_paths :: "string \<Rightarrow> pydict \<Rightarrow> pyval \<Rightarrow> pydict \<Rightarrow> string + string option" where
  "check_paths tool config arguments c =
     rbind (patterns config ''blocked_paths'') (\<lambda>blocked.
     rbind (patterns config ''allowed_paths'') (\<lambda>allowed.
     if blocked = [] \<and> allowed = [] then Inr None
     else
       rbind (raw_paths arguments (call_cwd arguments c)) (\<lambda>raws.
       if raws = [] then Inr (Some (''Tool '' @ quoted tool @ '' has path rules but the call carries no path''))
       else first_reason (\<lambda>raw. Inr (path_reason blocked allowed (call_cwd arguments c) raw)) raws)))"

end
