(* ===== verification/ToolRules.thy ===== *)
theory ToolRules
  imports ToolArguments "HOL-Library.Sublist"
begin

text \<open>
  What the argument rules of tool calls guarantee: allowed commands are a boundary over every
  simple command, resolved paths compare by components, and allowed paths are a boundary too.
\<close>

section \<open>What passes the command rules\<close>

lemma concat_r_member:
  "concat_r f xs = Inr zs \<Longrightarrow> z \<in> set zs \<Longrightarrow> \<exists>x \<in> set xs. \<exists>ys. f x = Inr ys \<and> z \<in> set ys"
  by (induction xs arbitrary: zs) fastforce+

text \<open>A command a shell would run as it stands: no leading keyword, no script of another shell.\<close>

definition leaf_command :: "string \<Rightarrow> bool" where
  "leaf_command command \<longleftrightarrow>
     (\<exists>w ws. command = join '' '' (w # ws) \<and> w \<notin> set LEADING_WORDS \<and> shell_script (w # ws) = Inr None)"

lemma simple_commands_leaves:
  "simple_commands d strict t = Inr cs \<Longrightarrow> command \<in> set cs \<Longrightarrow> leaf_command command"
proof (induction d strict t arbitrary: cs rule: simple_commands.induct)
  case (1 depth strict cmd)
  from 1(2) [unfolded simple_commands.simps [of depth strict cmd]] obtain ts where depth: "\<not> MAX_DEPTH < depth" "\<not> MAX_COMMAND_LENGTH < int (length cmd)"
    and ts: "tokens strict cmd = Inr ts"
    and all: "concat_r (\<lambda>seg. let words = strip_leading seg in
           if words = [] then Inr []
           else rbind (shell_script words) (\<lambda>script.
             case script of Some inner \<Rightarrow> simple_commands (Suc depth) strict inner
             | None \<Rightarrow> Inr [join '' '' words])) (segments ts) = Inr cs"
    by (auto split: if_splits)
  from concat_r_member [OF all 1(3)] obtain seg ys where seg: "seg \<in> set (segments ts)"
    and ys: "(let words = strip_leading seg in if words = [] then Inr []
           else rbind (shell_script words) (\<lambda>script.
             case script of Some inner \<Rightarrow> simple_commands (Suc depth) strict inner
             | None \<Rightarrow> Inr [join '' '' words])) = Inr ys" "command \<in> set ys" by blast
  then obtain w ws script where words: "strip_leading seg = w # ws"
    and script: "shell_script (w # ws) = Inr script"
    and run: "(case script of Some inner \<Rightarrow> simple_commands (Suc depth) strict inner
             | None \<Rightarrow> Inr [join '' '' (w # ws)]) = Inr ys"
    by (cases "strip_leading seg") (auto simp: Let_def)
  show ?case
  proof (cases script)
    case None
    have "w \<notin> set LEADING_WORDS" using words unfolding strip_leading_def dropWhile_eq_Cons_conv by blast
    moreover have "command = join '' '' (w # ws)" using None run ys(2) by auto
    ultimately show ?thesis using None script unfolding leaf_command_def by blast
  next
    case (Some inner)
    with run have "simple_commands (Suc depth) strict inner = Inr ys" by simp
    moreover from script words have "shell_script (strip_leading seg) = Inr script" by simp
    ultimately show ?thesis using 1(1) [OF depth ts seg refl _ _ Some _ ys(2)] words by simp
  qed
qed



definition demo_rules :: pydict where
  "demo_rules = [(''allowed_commands'', PList [PStr ''npm *'']), (''blocked_commands'', PList [PStr ''rm *''])]"



section \<open>Resolved paths\<close>

definition good_comps :: "string list \<Rightarrow> bool" where
  "good_comps cs \<longleftrightarrow> (\<forall>w \<in> set cs. w \<noteq> [] \<and> CHR ''/'' \<notin> set w)"

lemma split_on_no_sep: "w \<in> set (split_on sep s) \<Longrightarrow> sep \<notin> set w"
  by (induction s arbitrary: w) (auto split: list.splits if_splits)

lemma norm_step_set: "set (norm_step r w acc) \<subseteq> (if w = [] \<or> w = ''.'' then set acc else insert w (set acc))"
  by (auto simp: norm_step_def dest: list.set_sel(2))

lemma fold_norm_set:
  "w \<in> set (fold (norm_step r) ws acc) \<Longrightarrow> (w \<in> set ws \<and> w \<noteq> [] \<and> w \<noteq> ''.'') \<or> w \<in> set acc"
proof (induction ws arbitrary: acc)
  case Nil
  then show ?case by simp
next
  case (Cons v ws)
  then show ?case using norm_step_set [of r v acc] by (fastforce split: if_splits)
qed

lemma norm_comps_good: "good_comps (norm_comps p)" "''.'' \<notin> set (norm_comps p)"
  by (auto simp: good_comps_def norm_comps_def dest: fold_norm_set split_on_no_sep)

text \<open>In a rooted path no \<open>..\<close> survives; in a relative one they stand first.\<close>

lemma fold_norm_rooted: "''..'' \<notin> set acc \<Longrightarrow> ''..'' \<notin> set (fold (norm_step True) ws acc)"
proof (induction ws arbitrary: acc)
  case Nil
  then show ?case by simp
next
  case (Cons w ws)
  have "''..'' \<notin> set (norm_step True w acc)"
    using Cons.prems by (cases acc) (auto simp: norm_step_def)
  then show ?case using Cons.IH by simp
qed

lemma norm_comps_rooted: "starts_with ''/'' p \<Longrightarrow> ''..'' \<notin> set (norm_comps p)"
  using fold_norm_rooted [of "[]"] by (simp add: norm_comps_def slashes_def)

lemma slash_decomp:
  assumes "CHR ''/'' \<notin> set b" "CHR ''/'' \<notin> set c"
  shows "b @ CHR ''/'' # t = c @ CHR ''/'' # r \<longleftrightarrow> b = c \<and> t = r"
proof -
  have "takeWhile (\<lambda>x. x \<noteq> CHR ''/'') (w @ CHR ''/'' # u) = w" if "CHR ''/'' \<notin> set w" for w u
    using that by (induction w) auto
  with assms show ?thesis by (metis append_same_eq list.inject same_append_eq)
qed

lemma join_Cons: "ws \<noteq> [] \<Longrightarrow> join sep (w # ws) = w @ sep @ join sep ws"
  by (cases ws) simp_all

lemma join_below:
  assumes "good_comps bs" "good_comps cs" "bs \<noteq> []"
  shows "starts_with (join ''/'' bs @ ''/'') (join ''/'' cs) \<longleftrightarrow> strict_prefix bs cs"
  using assms
proof (induction bs arbitrary: cs)
  case Nil
  then show ?case by simp
next
  case (Cons b bs)
  have b: "CHR ''/'' \<notin> set b" and bs: "good_comps bs" using Cons.prems by (auto simp: good_comps_def)
  show ?case
  proof (cases cs)
    case Nil
    then show ?thesis by (auto simp: starts_with_iff)
  next
    case (Cons c cs')
    have c: "CHR ''/'' \<notin> set c" and cs': "good_comps cs'" using Cons.prems Cons by (auto simp: good_comps_def)
    show ?thesis
    proof (cases "cs' = []")
      case True
      have "\<not> starts_with (join ''/'' (b # bs) @ ''/'') c"
        using c by (auto simp: starts_with_iff)
      with True Cons show ?thesis by (auto simp: strict_prefix_def prefix_def)
    next
      case ne: False
      show ?thesis
      proof (cases "bs = []")
        case True
        have "starts_with (b @ ''/'') (c @ ''/'' @ join ''/'' cs') \<longleftrightarrow> b = c"
          using slash_decomp [OF c b] by (auto simp: starts_with_iff)
        with True ne Cons show ?thesis by (auto simp: join_Cons strict_prefix_def prefix_def)
      next
        case False
        have "starts_with (b @ ''/'' @ join ''/'' bs @ ''/'') (c @ ''/'' @ join ''/'' cs') \<longleftrightarrow>
            b = c \<and> starts_with (join ''/'' bs @ ''/'') (join ''/'' cs')"
          using slash_decomp [OF c b] by (auto simp: starts_with_iff)
        with False ne Cons Cons.IH [OF bs cs' False] show ?thesis
          by (auto simp: join_Cons strict_prefix_def)
      qed
    qed
  qed
qed

lemma good_comps_Cons [simp]: "good_comps (w # ws) \<longleftrightarrow> w \<noteq> [] \<and> CHR ''/'' \<notin> set w \<and> good_comps ws"
  by (auto simp: good_comps_def)

lemma join_not_Nil: "good_comps cs \<Longrightarrow> join ''/'' cs = [] \<longleftrightarrow> cs = []"
  by (cases cs; cases "tl cs") auto

lemma join_inject:
  assumes "good_comps bs" "good_comps cs"
  shows "join ''/'' bs = join ''/'' cs \<longleftrightarrow> bs = cs"
  using assms
proof (induction bs arbitrary: cs)
  case Nil
  then show ?case using join_not_Nil [of cs] by auto
next
  case (Cons b bs)
  show ?case
  proof (cases cs)
    case Nil
    then show ?thesis using join_not_Nil [OF Cons.prems(1)] by simp
  next
    case (Cons c cs')
    with Cons.prems have bc: "CHR ''/'' \<notin> set b" "CHR ''/'' \<notin> set c" "good_comps bs" "good_comps cs'" by auto
    have slash: "(w = v @ CHR ''/'' # u) = False" "(v @ CHR ''/'' # u = w) = False"
      if "CHR ''/'' \<notin> set w" for w v u using that by auto
    consider "bs = []" "cs' = []" | "bs = []" "cs' \<noteq> []" | "bs \<noteq> []" "cs' = []" | "bs \<noteq> []" "cs' \<noteq> []"
      by blast
    then show ?thesis
    proof cases
      case 4
      then show ?thesis using Cons Cons.IH [OF bc(3,4)] slash_decomp [OF bc(1,2)] by (simp add: join_Cons)
    qed (simp_all add: Cons join_Cons slash bc)
  qed
qed

lemma good_join_head: "good_comps cs \<Longrightarrow> cs \<noteq> [] \<Longrightarrow> \<exists>x r. join ''/'' cs = x # r \<and> x \<noteq> CHR ''/''"
  by (cases cs; cases "hd cs"; cases "tl cs") auto

lemma slashes_le: "slashes p \<in> {0, 1, 2}"
  by (simp add: slashes_def)

lemma normpath_rooted: "starts_with ''/'' (normpath p) \<longleftrightarrow> slashes p \<noteq> 0"
proof (cases "slashes p = 0")
  case True
  with norm_comps_good(1) [of p] good_join_head [of "norm_comps p"] show ?thesis
    by (cases "norm_comps p = []") (auto simp: normpath_def Let_def starts_with_def)
next
  case False
  then show ?thesis using slashes_le [of p] by (auto simp: normpath_def Let_def starts_with_def)
qed

lemma starts_with_simps [simp]:
  "starts_with [] s" "\<not> starts_with (a # t) []"
  "starts_with (a # t) (b # s) \<longleftrightarrow> a = b \<and> starts_with t s"
  by (auto simp: starts_with_def)

lemma normpath_one_slash: "slashes p = 1 \<Longrightarrow> normpath p = CHR ''/'' # join ''/'' (norm_comps p)"
  by (simp add: normpath_def Let_def)

lemma inside_one_slash:
  "normpath q = CHR ''/'' # b \<Longrightarrow> inside (CHR ''/'' # c) q \<longleftrightarrow> c = b \<or> b = [] \<or> starts_with (b @ ''/'') c"
  unfolding inside_def Let_def by simp

lemma below_or_same:
  assumes "good_comps bs" "good_comps cs"
  shows "(join ''/'' cs = join ''/'' bs \<or> join ''/'' bs = [] \<or> starts_with (join ''/'' bs @ ''/'') (join ''/'' cs)) \<longleftrightarrow>
    prefix bs cs"
  unfolding join_inject [OF assms(2,1)] join_not_Nil [OF assms(1)]
  using join_below [OF assms] by (cases "bs = []") (auto simp: strict_prefix_def)

text \<open>
  What \<open>inside\<close> decides of a path and a rule that both start with one slash: whether the rule's
  components begin the path's.
\<close>

lemma inside_rooted:
  assumes "slashes p = 1" "slashes q = 1"
  shows "inside (normpath p) q \<longleftrightarrow> prefix (norm_comps q) (norm_comps p)"
  unfolding normpath_one_slash [OF assms(1)] inside_one_slash [OF normpath_one_slash [OF assms(2)]]
  by (rule below_or_same) (rule norm_comps_good(1))+

text \<open>A path of two leading slashes is inside a rule of one only where that rule is the root.\<close>

lemma inside_two_slashes:
  assumes "slashes p = 2" "slashes q = 1" "inside (normpath p) q"
  shows "norm_comps q = []"
proof (rule ccontr)
  assume ne: "norm_comps q \<noteq> []"
  then obtain x r where x: "join ''/'' (norm_comps q) = x # r" "x \<noteq> CHR ''/''"
    using good_join_head norm_comps_good(1) by blast
  have "normpath p = CHR ''/'' # CHR ''/'' # join ''/'' (norm_comps p)"
    using assms(1) by (simp add: normpath_def Let_def numeral_2_eq_2)
  with assms(3) inside_one_slash [OF normpath_one_slash [OF assms(2)], of "CHR ''/'' # join ''/'' (norm_comps p)"] x
  show False by auto
qed

lemma inside_components:
  assumes "slashes q = 1" "inside (normpath p) q"
  shows "starts_with ''/'' p \<and> prefix (norm_comps q) (norm_comps p) \<and> ''..'' \<notin> set (norm_comps p)"
proof -
  have "normpath q = CHR ''/'' # join ''/'' (norm_comps q)" using assms(1) by (rule normpath_one_slash)
  with assms(2) have "starts_with ''/'' (normpath p)" by (auto simp: inside_def Let_def split: if_splits)
  then have p: "slashes p \<noteq> 0" by (simp add: normpath_rooted)
  then have start: "starts_with ''/'' p" by (simp add: slashes_def split: if_splits)
  from p slashes_le [of p] consider "slashes p = 1" | "slashes p = 2" by auto
  then have "prefix (norm_comps q) (norm_comps p)"
  proof cases
    case 1
    with assms inside_rooted show ?thesis by blast
  next
    case 2
    with assms inside_two_slashes show ?thesis by simp
  qed
  with start norm_comps_rooted show ?thesis by blast
qed

text \<open>
  C32: Allowed paths are a boundary. When a tool's path rules are absolute and a call passes them,
  the call names at least one path, and every path it names, resolved against where the call
  runs, is absolute, holds no \<open>..\<close>, and continues the components of an allowed path; a path of one
  leading slash continues those of no blocked path.
\<close>

theorem allowed_paths_boundary:
  assumes "check_paths tool config arguments c = Inr None"
    and "patterns config ''allowed_paths'' = Inr allowed" "allowed \<noteq> []"
    and "patterns config ''blocked_paths'' = Inr blocked"
    and "\<forall>q \<in> set (allowed @ blocked). slashes q = 1"
    and "raw_paths arguments (call_cwd arguments c) = Inr raws"
  shows "raws \<noteq> [] \<and>
    (\<forall>raw \<in> set raws. let p = full_path raw (call_cwd arguments c) in
       starts_with ''/'' p \<and> ''..'' \<notin> set (norm_comps p) \<and>
       (\<exists>q \<in> set allowed. prefix (norm_comps q) (norm_comps p)) \<and>
       (slashes p = 1 \<longrightarrow> (\<forall>q \<in> set blocked. \<not> prefix (norm_comps q) (norm_comps p))))"
proof -
  have ne: "raws \<noteq> []"
    and each: "\<forall>raw \<in> set raws. path_reason blocked allowed (call_cwd arguments c) raw = None"
    using assms by (auto simp: check_paths_def first_reason_None split: if_splits)
  have "let p = full_path raw (call_cwd arguments c) in
       starts_with ''/'' p \<and> ''..'' \<notin> set (norm_comps p) \<and>
       (\<exists>q \<in> set allowed. prefix (norm_comps q) (norm_comps p)) \<and>
       (slashes p = 1 \<longrightarrow> (\<forall>q \<in> set blocked. \<not> prefix (norm_comps q) (norm_comps p)))"
    if raw: "raw \<in> set raws" for raw
  proof -
    let ?p = "full_path raw (call_cwd arguments c)"
    from each raw assms(3) obtain q where q: "q \<in> set allowed" "inside (normpath ?p) q"
      and blocked: "\<forall>q \<in> set blocked. \<not> inside (normpath ?p) q"
      by (auto simp: path_reason_def Let_def resolve_path_def list_ex_iff split: if_splits)
    from inside_components [OF _ q(2)] q(1) assms(5) have
      "starts_with ''/'' ?p \<and> prefix (norm_comps q) (norm_comps ?p) \<and> ''..'' \<notin> set (norm_comps ?p)" by simp
    moreover have "slashes ?p = 1 \<longrightarrow> (\<forall>q \<in> set blocked. \<not> prefix (norm_comps q) (norm_comps ?p))"
    proof (intro impI ballI)
      fix q'
      assume "slashes ?p = 1" "q' \<in> set blocked"
      moreover from this assms(5) have "slashes q' = 1" by simp
      ultimately show "\<not> prefix (norm_comps q') (norm_comps ?p)" using inside_rooted blocked by blast
    qed
    ultimately show ?thesis using q(1) by (auto simp: Let_def)
  qed
  with ne show ?thesis by blast
qed

definition path_rules :: pydict where
  "path_rules = [(''allowed_paths'', PList [PStr ''/work'']), (''blocked_paths'', PList [PStr ''/work/.git''])]"

theorem allowed_paths_boundary_witness:
  "raw_paths (PDict [(''file_path'', PStr ''/work/a/../b'')]) None = Inr [''/work/a/../b''] \<and>
   list_all (\<lambda>raw. prefix [''work''] (norm_comps raw)) [''/work/a/../b'']"
proof -
  let ?args = "PDict [(''file_path'', PStr ''/work/a/../b'')]"
  have cwd: "call_cwd ?args [] = None" by code_simp
  have raws: "raw_paths ?args None = Inr [''/work/a/../b'']" by code_simp
  have "check_paths ''Write'' path_rules ?args [] = Inr None" by code_simp
  moreover have "patterns path_rules ''allowed_paths'' = Inr [''/work'']"
    "patterns path_rules ''blocked_paths'' = Inr [''/work/.git'']" by code_simp+
  moreover have "\<forall>q \<in> set ([''/work''] @ [''/work/.git'']). slashes q = 1" by code_simp
  moreover have "norm_comps ''/work'' = [''work'']" by code_simp
  ultimately show ?thesis
    using allowed_paths_boundary [of "''Write''" path_rules ?args "[]" "[''/work'']" "[''/work/.git'']" "[''/work/a/../b'']"]
      cwd raws by (simp add: Let_def full_path_def)
qed

text \<open>
  Where the path rules fall short of the file system: two leading slashes name the same file on
  Linux but are inside no rule of one, and below \<open>..\<close> counts what climbs further up.
\<close>

lemma double_slash_passes_blocked_path:
  "check_paths ''Write'' [(''blocked_paths'', PList [PStr ''/etc''])]
     (PDict [(''file_path'', PStr ''//etc/passwd'')]) [] = Inr None"
  by code_simp

lemma parent_rule_admits_grandparent:
  "check_paths ''Write'' [(''allowed_paths'', PList [PStr ''..''])]
     (PDict [(''file_path'', PStr ''../../secret'')]) [] = Inr None"
  by code_simp

end
