(* ===== verification/EvalAccess.thy ===== *)
theory EvalAccess
  imports PolicyModel Fnmatch
begin

text \<open>
  The evaluators that decide from the policy's configuration and the request's context alone:
  secret access, multimodal content, audit fields, resource quotas, system prompts, context
  limits, model restrictions, safety settings, agent memory and data access
  (\<open>services/evaluators\<close>). None is an exception, which the engine turns into a closed failure.
\<close>

section \<open>Secret access\<close>

definition eval_secret_access :: "policy \<Rightarrow> string \<Rightarrow> pydict \<Rightarrow> presult option" where
  "eval_secret_access p action c =
     (if action \<noteq> ''secret_access'' then Some pass_r
      else
        (let bundle = ctx_get c ''bundle_slug''; provider = ctx_get c ''provider'' in
         if_m (and_m (Some (truthy bundle)) (do {
                 allowed \<leftarrow> cfg p ''allowed_bundles'' (PList []);
                 and_m (Some (truthy allowed)) (not_m (py_in bundle allowed)) }))
           (Some (fail_with (''Access to secret bundle '' @ quoted (py_str bundle) @ '' is not allowed'')))
           (if_m (and_m (Some (truthy provider)) (do {
                    denied \<leftarrow> cfg p ''denied_providers'' (PList []);
                    py_in provider denied }))
              (Some (fail_with (''Access to provider '' @ quoted (py_str provider) @ '' is denied'')))
              (Some pass_r))))"

section \<open>Multimodal content\<close>

definition media_forbidden :: "pyval \<Rightarrow> pyval \<Rightarrow> string \<Rightarrow> string \<Rightarrow> bool option" where
  "media_forbidden mm config kind allow =
     do { n \<leftarrow> pget mm kind (PInt 0);
          and_m (py_gt n (PInt 0)) (do { a \<leftarrow> pget config allow (PBool True); Some (\<not> truthy a) }) }"

definition eval_multimodal :: "policy \<Rightarrow> string \<Rightarrow> pydict \<Rightarrow> presult option" where
  "eval_multimodal p action c =
     (if action \<notin> {''llm:invoke'', ''model_request''} then Some pass_r
      else if \<not> truthy (ctx_get c ''has_multimodal'') then Some pass_r
      else
        (let config = py_or (p_config p) (PDict []); mm = dget c ''multimodal'' (PDict []) in
         if_m (media_forbidden mm config ''images'' ''allow_images'')
           (Some (fail_with ''Image content is not allowed by policy''))
         (if_m (media_forbidden mm config ''audio'' ''allow_audio'')
           (Some (fail_with ''Audio content is not allowed by policy''))
         (if_m (media_forbidden mm config ''video'' ''allow_video'')
           (Some (fail_with ''Video content is not allowed by policy''))
         (do {
           max_bytes \<leftarrow> pget config ''max_media_bytes'' (PInt 0);
           total \<leftarrow> pget mm ''total_media_bytes'' (PInt 0);
           if_m (and_m (Some (truthy max_bytes)) (py_gt total max_bytes))
             (do { shown \<leftarrow> pindex mm ''total_media_bytes'';
                   Some (fail_with (''Media size '' @ py_str shown @ '' bytes exceeds limit of '' @
                     py_str max_bytes @ '' bytes'')) })
             (do { has \<leftarrow> pget mm ''has_media'' PNone;
                   if truthy has
                   then do { i \<leftarrow> pget mm ''images'' (PInt 0); a \<leftarrow> pget mm ''audio'' (PInt 0);
                             v \<leftarrow> pget mm ''video'' (PInt 0);
                             Some (pass_with [''Multimodal content detected: '' @ py_str i @ '' images, '' @
                               py_str a @ '' audio, '' @ py_str v @ '' video'']) }
                   else Some pass_r }) })))))"

section \<open>Audit fields\<close>

text \<open>\<open>any(fnmatch(action, pattern) for pattern in patterns)\<close>.\<close>

definition any_fnmatch :: "pyval \<Rightarrow> pyval \<Rightarrow> bool option" where
  "any_fnmatch v patterns = do { ps \<leftarrow> py_iter patterns; any_m (py_fnmatch v) ps }"

definition field_missing :: "pydict \<Rightarrow> pyval \<Rightarrow> bool option" where
  "field_missing c field =
     if_m (not_m (py_in field (PDict c))) (Some True)
       (do { k \<leftarrow> str_of field; v \<leftarrow> map_of c k; Some (v = PNone \<or> v = PStr []) })"

definition eval_audit_policy :: "policy \<Rightarrow> string \<Rightarrow> pydict \<Rightarrow> presult option" where
  "eval_audit_policy p action c =
     do { required_fields \<leftarrow> cfg p ''required_fields'' (PList []);
          required_for \<leftarrow> cfg p ''required_for_actions'' (PList []);
          if_m (and_m (Some (truthy required_for)) (not_m (any_fnmatch (PStr action) required_for)))
            (Some pass_r)
            (do { fields \<leftarrow> py_iter required_fields;
                  missing \<leftarrow> filter_m (field_missing c) fields;
                  if missing \<noteq> [] then
                    do { names \<leftarrow> py_join '', '' (PList missing);
                         Some (fail_with (''Audit policy '' @ quoted (p_name p) @
                           '' requires the following context fields that are missing or empty: '' @
                           names @ ''.'')) }
                  else
                    do { masking \<leftarrow> cfg p ''pii_masking'' (PBool False);
                         days \<leftarrow> cfg p ''retention_days'' PNone;
                         Some (pass_with
                           ((if truthy masking \<and> truthy (ctx_get c ''pii_detected'')
                             then [''PII detected in context -- audit logging will apply PII masking.''] else []) @
                            (if truthy days
                             then [''Audit records for this action will be retained for '' @ py_str days @
                                   '' days.''] else []))) } }) }"

section \<open>Resource quotas\<close>

definition not_listed :: "pyval \<Rightarrow> pyval \<Rightarrow> bool option" where
  "not_listed allowed v =
     and_m (Some (truthy allowed)) (and_m (Some (truthy v)) (not_m (py_in v allowed)))"

definition quota_spawn :: "policy \<Rightarrow> pydict \<Rightarrow> (presult + string list) option" where
  "quota_spawn p c =
     do { max_servers \<leftarrow> cfg p ''max_concurrent_servers'' PNone;
          let current = dget c ''current_server_count'' (PInt 0);
          if_m (and_m (Some (max_servers \<noteq> PNone)) (py_ge current max_servers))
            (Some (Inl (fail_with (''Maximum concurrent servers ('' @ py_str max_servers @
               '') reached. Current: '' @ py_str current))))
            (do { near \<leftarrow> and_m (Some (max_servers \<noteq> PNone))
                    (do { m1 \<leftarrow> py_sub max_servers (PInt 1); py_ge current m1 });
                  ws \<leftarrow> (if near then do { n1 \<leftarrow> py_add current (PInt 1);
                           Some [''Approaching server limit ('' @ py_str n1 @ ''/'' @ py_str max_servers @ '')''] }
                        else Some []);
                  sizes \<leftarrow> cfg p ''allowed_instance_sizes'' (PList []);
                  let size = ctx_get c ''instance_size'';
                  if_m (not_listed sizes size)
                    (do { names \<leftarrow> py_join '', '' sizes;
                          Some (Inl (fail_with (''Instance size '' @ quoted (py_str size) @
                            '' not allowed. Allowed sizes: '' @ names))) })
                    (do { services \<leftarrow> cfg p ''allowed_services'' (PList []);
                          let service = ctx_get c ''service'';
                          if_m (not_listed services service)
                            (do { names \<leftarrow> py_join '', '' services;
                                  Some (Inl (fail_with (''Service '' @ quoted (py_str service) @
                                    '' not allowed. Allowed services: '' @ names))) })
                            (Some (Inr ws)) }) }) }"

definition eval_resource_quota :: "policy \<Rightarrow> string \<Rightarrow> pydict \<Rightarrow> presult option" where
  "eval_resource_quota p action c =
     do { first \<leftarrow> (if action = ''spawn'' then quota_spawn p c else Some (Inr []));
          case first of
            Inl r \<Rightarrow> Some r
          | Inr ws \<Rightarrow>
              if action \<in> {''spawn'', ''stop''} then
                do { max_hours \<leftarrow> cfg p ''max_server_hours_per_month'' PNone;
                     let hours = dget c ''server_hours_this_month'' (PInt 0);
                     if_m (and_m (Some (max_hours \<noteq> PNone)) (py_ge hours max_hours))
                       (Some (fail_with (''Monthly server hour limit ('' @ py_str max_hours @
                          ''h) reached. Used: '' @ py_str hours @ ''h'')))
                       (if_m (and_m (Some (max_hours \<noteq> PNone))
                               (do { t \<leftarrow> py_scale max_hours (8 / 10); py_ge hours t }))
                          (Some (pass_with (ws @ [''Approaching monthly server hour limit ('' @ py_str hours @
                             ''/'' @ py_str max_hours @ ''h)''])))
                          (Some (pass_with ws))) }
              else Some (pass_with ws) }"

section \<open>System prompts\<close>

text \<open>\<open>for x in xs: if test(x): return ...\<close>.\<close>

definition first_hit :: "('a \<Rightarrow> bool option) \<Rightarrow> 'a list \<Rightarrow> ('a \<Rightarrow> 'b option) \<Rightarrow> 'b option \<Rightarrow> 'b option" where
  "first_hit test xs found otherwise =
     (case find_m test xs of None \<Rightarrow> None | Some None \<Rightarrow> otherwise | Some (Some x) \<Rightarrow> found x)"

definition eval_system_prompt :: "policy \<Rightarrow> string \<Rightarrow> pydict \<Rightarrow> presult option" where
  "eval_system_prompt p action c =
     do { allow \<leftarrow> cfg p ''allow_user_override'' (PBool True);
          let override = ctx_get c ''system_prompt_override'';
          if \<not> truthy allow \<and> truthy override then
            Some (fail_with (''Policy '' @ quoted (p_name p) @
              '' does not allow user-supplied system prompt overrides.''))
          else
            (let active = py_or override (dget c ''system_prompt'' (PStr [])) in
             if \<not> truthy active then Some pass_r
             else
               do { max_length \<leftarrow> cfg p ''max_length'' PNone;
                    if_m (and_m (Some (truthy max_length))
                            (do { n \<leftarrow> py_len active; py_gt (PInt (int n)) max_length }))
                      (do { n \<leftarrow> py_len active;
                            Some (fail_with (''System prompt length '' @ show_nat n @
                              '' exceeds maximum allowed '' @ py_str max_length @ '' characters.'')) })
                      (do { required \<leftarrow> cfg p ''required_sections'' (PList []);
                            sections \<leftarrow> py_iter required;
                            first_hit (\<lambda>s. do { s' \<leftarrow> py_lower s; a \<leftarrow> py_lower active; Some (\<not> substring s' a) })
                              sections
                              (\<lambda>s. Some (fail_with (''System prompt is missing required section: '' @
                                 quoted (py_str s) @ ''.'')))
                              (do { wanted \<leftarrow> cfg p ''required_keywords'' (PList []);
                                    keywords \<leftarrow> py_iter wanted;
                                    absent \<leftarrow> filter_m (\<lambda>k. not_m (py_in k active)) keywords;
                                    Some (pass_with (map (\<lambda>k. ''System prompt is missing recommended keyword: '' @
                                      quoted (py_str k) @ ''.'') absent)) }) }) }) }"

section \<open>Context limits\<close>

text \<open>One limit of \<open>ContextLimitEvaluator\<close>: refused, or the warnings it adds.\<close>

definition token_check :: "string \<Rightarrow> string \<Rightarrow> pyval \<Rightarrow> pyval \<Rightarrow> (presult + string list) option" where
  "token_check what short count limit =
     if_m (py_gt count limit)
       (Some (Inl (fail_with (what @ '' token count ('' @ py_str count @ '') exceeds limit ('' @
          py_str limit @ '')''))))
       (if_m (do { t \<leftarrow> py_scale limit (9 / 10); py_ge count t })
          (Some (Inr [short @ '' tokens approaching limit: '' @ py_str count @ ''/'' @ py_str limit]))
          (Some (Inr [])))"

definition token_check_if :: "bool \<Rightarrow> string \<Rightarrow> pyval \<Rightarrow> pyval \<Rightarrow> (presult + string list) option" where
  "token_check_if b what count limit = (if b then token_check what what count limit else Some (Inr []))"

definition eval_context_limit :: "policy \<Rightarrow> string \<Rightarrow> pydict \<Rightarrow> presult option" where
  "eval_context_limit p action c =
     (let inp = ctx_get c ''input_tokens''; outp = ctx_get c ''output_tokens''; tot = ctx_get c ''total_tokens''
      in do {
        max_in \<leftarrow> cfg p ''max_input_tokens'' PNone;
        r1 \<leftarrow> token_check_if (max_in \<noteq> PNone \<and> inp \<noteq> PNone) ''Input'' inp max_in;
        case r1 of Inl r \<Rightarrow> Some r
        | Inr w1 \<Rightarrow> do {
            max_out \<leftarrow> cfg p ''max_output_tokens'' PNone;
            r2 \<leftarrow> token_check_if (max_out \<noteq> PNone \<and> outp \<noteq> PNone) ''Output'' outp max_out;
            case r2 of Inl r \<Rightarrow> Some r
            | Inr w2 \<Rightarrow> do {
                max_tot \<leftarrow> cfg p ''max_total_tokens'' PNone;
                if max_tot = PNone then Some (pass_with (w1 @ w2))
                else do {
                  checked \<leftarrow> (if tot \<noteq> PNone then Some tot
                               else if inp \<noteq> PNone then py_add inp (py_or outp (PInt 0)) else Some PNone);
                  r3 \<leftarrow> token_check_if (checked \<noteq> PNone) ''Total'' checked max_tot;
                  case r3 of Inl r \<Rightarrow> Some r | Inr w3 \<Rightarrow> Some (pass_with (w1 @ w2 @ w3)) } } } })"

section \<open>Model restrictions\<close>

text \<open>\<open>any(fnmatchcase(v, str(pattern)) for pattern in patterns)\<close>.\<close>

definition any_glob :: "pyval \<Rightarrow> pyval \<Rightarrow> bool option" where
  "any_glob v patterns =
     do { ps \<leftarrow> py_iter patterns; any_m (\<lambda>pat. py_fnmatch v (PStr (py_str pat))) ps }"

definition eval_model_restriction :: "policy \<Rightarrow> string \<Rightarrow> pydict \<Rightarrow> presult option" where
  "eval_model_restriction p action c =
     (let model = ctx_get c ''model''; provider = ctx_get c ''provider'' in
      if \<not> truthy model \<and> \<not> truthy provider then Some pass_r
      else do {
        blocked \<leftarrow> cfg p ''blocked_models'' (PList []);
        if_m (and_m (Some (truthy model)) (any_glob model blocked))
          (Some (fail_with (''Model '' @ quoted (py_str model) @ '' is explicitly blocked'')))
          (do {
             blockedp \<leftarrow> cfg p ''blocked_providers'' (PList []);
             if_m (and_m (Some (truthy provider)) (py_in provider blockedp))
               (Some (fail_with (''Provider '' @ quoted (py_str provider) @ '' is explicitly blocked'')))
               (do {
                  allowed \<leftarrow> cfg p ''allowed_models'' (PList []);
                  allowedp \<leftarrow> cfg p ''allowed_providers'' (PList []);
                  if \<not> truthy allowed \<and> \<not> truthy allowedp then Some pass_r
                  else do {
                    model_ok \<leftarrow> and_m (Some (truthy model)) (any_glob model allowed);
                    provider_ok \<leftarrow> and_m (Some (truthy provider)) (any_glob provider allowedp);
                    if model_ok \<or> provider_ok then Some pass_r
                    else do {
                      p1 \<leftarrow> (if truthy allowed
                             then map_option (\<lambda>s. [''allowed models: '' @ s]) (py_join '', '' allowed) else Some []);
                      p2 \<leftarrow> (if truthy allowedp
                             then map_option (\<lambda>s. [''allowed providers: '' @ s]) (py_join '', '' allowedp) else Some []);
                      Some (fail_with (''Model '' @ quoted (py_str model) @ '' / provider '' @
                        quoted (py_str provider) @ '' is not permitted. '' @ join ''; '' (p1 @ p2))) } } }) }) })"

section \<open>Safety settings\<close>

definition THRESHOLD_ORDER :: "string list" where
  "THRESHOLD_ORDER = [''BLOCK_NONE'', ''BLOCK_ONLY_HIGH'', ''BLOCK_MEDIUM_AND_ABOVE'', ''BLOCK_LOW_AND_ABOVE'']"

text \<open>\<open>THRESHOLD_RANK.get(t, 2)\<close>; an unhashable value raises.\<close>

definition hashable :: "pyval \<Rightarrow> bool" where
  "hashable v \<longleftrightarrow> \<not> is_list v \<and> \<not> is_dict v"

definition threshold_rank :: "pyval \<Rightarrow> nat option" where
  "threshold_rank t =
     (if \<not> hashable t then None
      else Some (case find (\<lambda>i. t = PStr (THRESHOLD_ORDER ! i)) [0..<4] of Some i \<Rightarrow> i | None \<Rightarrow> 2))"

text \<open>The dictionary from category to threshold that the request's settings make.\<close>

fun settings_map :: "(pyval \<times> pyval) list \<Rightarrow> pyval list \<Rightarrow> (pyval \<times> pyval) list option" where
  "settings_map m [] = Some m"
| "settings_map m (s # ss) =
     do { cat \<leftarrow> pget s ''category'' (PStr []);
          thresh \<leftarrow> pget s ''threshold'' (PStr []);
          if truthy cat \<and> truthy thresh
          then (if hashable cat
                then settings_map (if (\<exists>e \<in> set m. py_eq (fst e) cat)
                                   then map (\<lambda>(k, v). if py_eq k cat then (k, thresh) else (k, v)) m
                                   else m @ [(cat, thresh)]) ss
                else None)
          else settings_map m ss }"

fun check_minimums :: "(pyval \<times> pyval) list \<Rightarrow> pydict \<Rightarrow> (presult + string list) option" where
  "check_minimums m [] = Some (Inr [])"
| "check_minimums m ((cat, min_thresh) # rest) =
     (case find (\<lambda>(k, _). k = PStr cat) m of
        None \<Rightarrow> check_minimums m rest
      | Some (_, agent_thresh) \<Rightarrow>
          do { min_rank \<leftarrow> threshold_rank min_thresh;
               agent_rank \<leftarrow> threshold_rank agent_thresh;
               if agent_rank < min_rank then
                 Some (Inl (fail_with (''Safety threshold for '' @ cat @ '' is '' @ py_str agent_thresh @
                   '', minimum required is '' @ py_str min_thresh)))
               else do {
                 r \<leftarrow> check_minimums m rest;
                 case r of Inl f \<Rightarrow> Some (Inl f)
                 | Inr ws \<Rightarrow> Some (Inr ((if agent_rank = min_rank \<and> min_rank < length THRESHOLD_ORDER - 1
                     then [cat @ '' safety threshold is at the minimum allowed level ('' @
                           py_str agent_thresh @ '')''] else []) @ ws)) } })"

definition eval_safety_settings :: "policy \<Rightarrow> string \<Rightarrow> pydict \<Rightarrow> presult option" where
  "eval_safety_settings p action c =
     (if action \<notin> {''llm:invoke'', ''model_request''} then Some pass_r
      else
        if_m (and_m (Some (\<not> one_of (dget c ''provider'' (PStr [])) [''google'', ''vertex'', ''gemini'']))
                (do { m \<leftarrow> py_lower (dget c ''model'' (PStr []));
                      Some (\<not> substring ''gemini'' m \<and> \<not> substring ''palm'' m) }))
          (Some pass_r)
          (let config = py_or (p_config p) (PDict []) in do {
             minimums \<leftarrow> pget config ''min_thresholds'' (PDict []);
             none_disabled \<leftarrow> pget config ''block_none_disabled'' (PBool True);
             let requested = dget c ''safety_settings'' (PList []);
             if \<not> truthy requested \<and> \<not> truthy minimums then Some pass_r
             else do {
               settings \<leftarrow> py_iter requested;
               m \<leftarrow> settings_map [] settings;
               case (if truthy none_disabled then find (\<lambda>(_, t). t = PStr ''BLOCK_NONE'') m else None) of
                 Some (cat, _) \<Rightarrow>
                   Some (fail_with (''Safety setting BLOCK_NONE is not allowed for '' @ py_str cat))
               | None \<Rightarrow>
                   (case minimums of
                      PDict d \<Rightarrow> do {
                        r \<leftarrow> check_minimums m d;
                        case r of Inl f \<Rightarrow> Some f | Inr ws \<Rightarrow> Some (pass_with ws) }
                    | _ \<Rightarrow> None) } }))"

section \<open>Agent memory\<close>

definition eval_agent_memory :: "policy \<Rightarrow> string \<Rightarrow> pydict \<Rightarrow> presult option" where
  "eval_agent_memory p action c =
     (let op = dget c ''memory_operation'' (PStr []); key = dget c ''memory_key'' (PStr []);
          mtype = dget c ''memory_type'' (PStr [])
      in
      if_m (and_m (Some (op = PStr ''read''))
              (do { a \<leftarrow> cfg p ''allow_read'' (PBool True); Some (\<not> truthy a) }))
        (Some (fail_with (''Policy '' @ quoted (p_name p) @ '' does not allow memory read operations.'')))
      (if_m (and_m (Some (one_of op [''write'', ''delete'']))
              (do { a \<leftarrow> cfg p ''allow_write'' (PBool True); Some (\<not> truthy a) }))
        (Some (fail_with (''Policy '' @ quoted (p_name p) @ '' does not allow memory write/delete operations.'')))
      (do {
        patterns \<leftarrow> cfg p ''blocked_key_patterns'' (PList []);
        ps \<leftarrow> (if truthy key then py_iter patterns else Some []);
        first_hit (py_fnmatch key) ps
          (\<lambda>pat. Some (fail_with (''Memory key '' @ quoted (py_str key) @ '' matches blocked pattern '' @
             quoted (py_str pat) @ '' in policy '' @ quoted (p_name p) @ ''.'')))
          (do {
            types \<leftarrow> cfg p ''allowed_memory_types'' (PList []);
            if_m (not_listed types mtype)
              (do { names \<leftarrow> py_join '', '' types;
                    Some (fail_with (''Memory type '' @ quoted (py_str mtype) @ '' is not allowed by policy '' @
                      quoted (p_name p) @ ''. Allowed types: '' @ names)) })
              (if op \<noteq> PStr ''write'' then Some pass_r
               else do {
                 max_items \<leftarrow> cfg p ''max_memory_items'' PNone;
                 let current = dget c ''memory_item_count'' (PInt 0);
                 if_m (and_m (Some (truthy max_items)) (py_ge current max_items))
                   (Some (fail_with (''Memory item limit of '' @ py_str max_items @ '' reached (current: '' @
                      py_str current @ '') -- policy '' @ quoted (p_name p) @ ''.'')))
                   (do {
                      max_size \<leftarrow> cfg p ''max_value_size_bytes'' PNone;
                      let size = dget c ''value_size_bytes'' (PInt 0);
                      if_m (and_m (Some (truthy max_size)) (py_gt size max_size))
                        (Some (fail_with (''Memory value size '' @ py_str size @ '' bytes exceeds maximum '' @
                           py_str max_size @ '' bytes -- policy '' @ quoted (p_name p) @ ''.'')))
                        (if_m (and_m (Some (truthy max_items))
                                 (do { t \<leftarrow> py_scale max_items (9 / 10); py_ge current t }))
                           (Some (pass_with [''Approaching memory item limit: '' @ py_str current @ ''/'' @
                              py_str max_items @ '' items stored.'']))
                           (Some pass_r)) }) }) }) })))"

section \<open>Data access\<close>

definition eval_data_access :: "policy \<Rightarrow> string \<Rightarrow> pydict \<Rightarrow> presult option" where
  "eval_data_access p action c =
     (let ds = dget c ''datasource'' (PStr []); dtype = dget c ''data_type'' (PStr []) in do {
        blocked \<leftarrow> cfg p ''blocked_datasources'' (PList []);
        ps \<leftarrow> (if truthy ds then py_iter blocked else Some []);
        first_hit (py_fnmatch ds) ps
          (\<lambda>pat. Some (fail_with (''Access to datasource '' @ quoted (py_str ds) @ '' is blocked by pattern '' @
             quoted (py_str pat) @ '' in policy '' @ quoted (p_name p) @ ''.'')))
          (do {
            allowed \<leftarrow> cfg p ''allowed_datasources'' (PList []);
            if_m (and_m (Some (truthy allowed \<and> truthy ds)) (not_m (any_fnmatch ds allowed)))
              (do { names \<leftarrow> py_join '', '' allowed;
                    Some (fail_with (''Datasource '' @ quoted (py_str ds) @
                      '' is not in the allowed list for policy '' @ quoted (p_name p) @
                      ''. Allowed patterns: '' @ names)) })
              (do {
                blockedt \<leftarrow> cfg p ''blocked_data_types'' (PList []);
                if_m (and_m (Some (truthy dtype)) (py_in dtype blockedt))
                  (Some (fail_with (''Data type '' @ quoted (py_str dtype) @ '' is blocked by policy '' @
                     quoted (p_name p) @ ''.'')))
                  (do {
                    allowedt \<leftarrow> cfg p ''allowed_data_types'' (PList []);
                    if_m (not_listed allowedt dtype)
                      (do { names \<leftarrow> py_join '', '' allowedt;
                            Some (fail_with (''Data type '' @ quoted (py_str dtype) @
                              '' is not permitted by policy '' @ quoted (p_name p) @
                              ''. Allowed types: '' @ names)) })
                      (do {
                        pii_allowed \<leftarrow> cfg p ''pii_allowed'' (PBool True);
                        let pii = dget c ''data_contains_pii'' (PBool False);
                        if \<not> truthy pii_allowed \<and> truthy pii then
                          Some (fail_with (''Policy '' @ quoted (p_name p) @
                            '' does not permit access to PII-containing data.''))
                        else do {
                          enc \<leftarrow> cfg p ''require_encryption'' (PBool False);
                          if truthy enc \<and> ctx_get c ''data_encrypted'' = PBool False then
                            Some (fail_with (''Policy '' @ quoted (p_name p) @
                              '' requires encrypted data at rest, but the target datasource is not encrypted.''))
                          else Some (pass_with (if truthy pii \<and> truthy pii_allowed
                            then [''Accessing PII-containing data. Ensure compliance with applicable data regulations.'']
                            else [])) } }) }) }) }) })"

section \<open>What passing means\<close>

text \<open>A configuration value that is a list of strings, as the policy editor stores it.\<close>

definition strs :: "string list \<Rightarrow> pyval" where
  "strs xs = PList (map PStr xs)"

lemma strs_simps [simp]: "truthy (strs xs) \<longleftrightarrow> xs \<noteq> []" "py_iter (strs xs) = Some (map PStr xs)"
  by (simp_all add: strs_def)

lemma any_m_str: "any_m f (map PStr xs) = any_m (\<lambda>x. f (PStr x)) xs"
  by (induction xs) (auto split: option.splits bool.splits)

lemma find_m_str: "find_m f (map PStr xs) = map_option (map_option PStr) (find_m (\<lambda>x. f (PStr x)) xs)"
  by (induction xs) (auto split: option.splits bool.splits)

lemma find_m_total: "find_m (\<lambda>x. Some (q x)) xs = Some (find q xs)"
  by (induction xs) (auto split: bool.splits)

lemma any_fnmatch_strs [simp]:
  "any_fnmatch (PStr s) (strs pats) = Some (\<exists>pat \<in> set pats. fnmatchcase s pat)"
  by (simp add: any_fnmatch_def any_m_str any_m_total)

lemma any_glob_strs [simp]:
  "any_glob (PStr s) (strs pats) = Some (\<exists>pat \<in> set pats. fnmatchcase s pat)"
  by (simp add: any_glob_def any_m_str any_m_total)

lemma first_hit_fnmatch [simp]:
  "first_hit (py_fnmatch (PStr s)) (map PStr pats) found rest =
     (case find (\<lambda>pat. fnmatchcase s pat) pats of None \<Rightarrow> rest | Some pat \<Rightarrow> found (PStr pat))"
  by (simp add: first_hit_def find_m_str find_m_total split: option.splits)

lemma py_in_strs [simp]: "py_in (PStr s) (strs xs) = Some (s \<in> set xs)"
  by (auto simp: strs_def)

lemma not_listed_strs [simp]:
  "not_listed (strs xs) (PStr s) = Some (xs \<noteq> [] \<and> s \<noteq> [] \<and> s \<notin> set xs)"
  by (auto simp: not_listed_def)

lemma map_m_str_of [simp]: "map_m str_of (map PStr xs) = Some xs"
  by (induction xs) simp_all

lemma py_join_strs [simp]: "py_join sep (strs xs) = Some (join sep xs)"
  by (simp add: py_join_def)

text \<open>
  A model request passes a model restriction exactly when the rules say so: no blocked glob
  matches the model, the provider is not blocked, and where an allowlist is set the model or the
  provider matches one of its globs; the evaluator never raises on such a policy.
\<close>

lemma model_restriction_exact:
  assumes "p_config p = PDict d"
    and "dget d ''blocked_models'' (PList []) = strs bm"
    and "dget d ''blocked_providers'' (PList []) = strs bp"
    and "dget d ''allowed_models'' (PList []) = strs am"
    and "dget d ''allowed_providers'' (PList []) = strs ap"
    and "ctx_get c ''model'' = PStr m" and "m \<noteq> []"
    and "ctx_get c ''provider'' = PStr v" and "v \<noteq> []"
  shows "\<exists>r. eval_model_restriction p action c = Some r \<and>
    (pr_passed r \<longleftrightarrow>
       (\<forall>pat \<in> set bm. \<not> fnmatchcase m pat) \<and> v \<notin> set bp \<and>
       (am = [] \<and> ap = [] \<or>
        (\<exists>pat \<in> set am. fnmatchcase m pat) \<or> (\<exists>pat \<in> set ap. fnmatchcase v pat)))"
  using assms by (auto simp: eval_model_restriction_def Let_def)

lemma model_restriction_exact_witness:
  "\<exists>r. eval_model_restriction
     (demo_policy\<lparr>p_config := PDict [(''allowed_models'', strs [''claude-*''])]\<rparr>) ''llm:invoke''
     [(''model'', PStr ''gpt-4o''), (''provider'', PStr ''openai'')] = Some r \<and> \<not> pr_passed r"
proof -
  have "\<not> fnmatchcase ''gpt-4o'' (''claude-'' @ ''*'')"
    by (simp add: fnmatchcase_def)
  then show ?thesis
    using model_restriction_exact [of "demo_policy\<lparr>p_config := PDict [(''allowed_models'', strs [''claude-*''])]\<rparr>"
      "[(''allowed_models'', strs [''claude-*''])]" "[]" "[]" "[''claude-*'']" "[]"
      "[(''model'', PStr ''gpt-4o''), (''provider'', PStr ''openai'')]" "''gpt-4o''" "''openai''" "''llm:invoke''"]
    by (auto simp: dget_def ctx_get_def strs_def)
qed

text \<open>
  With all three limits configured, a request that states its input and output tokens passes
  the context limit exactly when the input, the output and their sum are within the limits.
\<close>

lemma context_limit_exact:
  assumes "p_config p = PDict d"
    and "dget d ''max_input_tokens'' PNone = PInt li"
    and "dget d ''max_output_tokens'' PNone = PInt lo"
    and "dget d ''max_total_tokens'' PNone = PInt lt"
    and "ctx_get c ''input_tokens'' = PInt i" and "ctx_get c ''output_tokens'' = PInt out"
    and "ctx_get c ''total_tokens'' = PNone"
  shows "\<exists>r. eval_context_limit p action c = Some r \<and>
    (pr_passed r \<longleftrightarrow> i \<le> li \<and> out \<le> lo \<and> i + out \<le> lt)"
proof -
  have check: "token_check_if True w (PInt n) (PInt l) =
      Some (if l < n then Inl (fail_with (w @ '' token count ('' @ py_str (PInt n) @
          '') exceeds limit ('' @ py_str (PInt l) @ '')''))
        else Inr (if of_int l * (9 / 10) \<le> (of_int n :: rat)
          then [w @ '' tokens approaching limit: '' @ py_str (PInt n) @ ''/'' @ py_str (PInt l)] else []))"
    for w n l
    by (simp add: token_check_if_def token_check_def py_ge_def)
  have add: "py_add (PInt i) (py_or (PInt out) (PInt 0)) = Some (PInt (i + out))"
    by (simp add: py_or_def)
  show ?thesis
    using assms by (auto simp: eval_context_limit_def Let_def check add)
qed

lemma context_limit_exact_witness:
  "\<exists>r. eval_context_limit (demo_policy\<lparr>p_config := PDict [(''max_input_tokens'', PInt 100),
       (''max_output_tokens'', PInt 50), (''max_total_tokens'', PInt 120)]\<rparr>) ''llm:invoke''
     [(''input_tokens'', PInt 90), (''output_tokens'', PInt 40)] = Some r \<and> \<not> pr_passed r"
  using context_limit_exact [of "demo_policy\<lparr>p_config := PDict [(''max_input_tokens'', PInt 100),
       (''max_output_tokens'', PInt 50), (''max_total_tokens'', PInt 120)]\<rparr>"
      "[(''max_input_tokens'', PInt 100), (''max_output_tokens'', PInt 50), (''max_total_tokens'', PInt 120)]"
      100 50 120 "[(''input_tokens'', PInt 90), (''output_tokens'', PInt 40)]" 90 40 "''llm:invoke''"]
  by (simp add: dget_def ctx_get_def)

text \<open>
  A passed data access is one the policy permits: the data source matches no blocked pattern
  and, where an allowlist is set, an allowed one; the data type is not blocked and is listed
  where types are listed; personal data only where the policy admits it, and never a source
  declared unencrypted where encryption is required.
\<close>

lemma data_access_sound:
  assumes "p_config p = PDict d"
    and "dget d ''blocked_datasources'' (PList []) = strs bd"
    and "dget d ''allowed_datasources'' (PList []) = strs ad"
    and "dget d ''blocked_data_types'' (PList []) = strs bt"
    and "dget d ''allowed_data_types'' (PList []) = strs alt"
    and "dget c ''datasource'' (PStr []) = PStr ds" and "ds \<noteq> []"
    and "dget c ''data_type'' (PStr []) = PStr dt" and "dt \<noteq> []"
  shows "\<exists>r. eval_data_access p action c = Some r \<and>
    (pr_passed r \<longleftrightarrow>
       (\<forall>pat \<in> set bd. \<not> fnmatchcase ds pat) \<and>
       (ad = [] \<or> (\<exists>pat \<in> set ad. fnmatchcase ds pat)) \<and>
       dt \<notin> set bt \<and> (alt = [] \<or> dt \<in> set alt) \<and>
       (truthy (dget c ''data_contains_pii'' (PBool False)) \<longrightarrow> truthy (dget d ''pii_allowed'' (PBool True))) \<and>
       \<not> (truthy (dget d ''require_encryption'' (PBool False)) \<and> ctx_get c ''data_encrypted'' = PBool False))"
proof (cases "find (fnmatchcase ds) bd")
  case None
  then have "\<forall>pat \<in> set bd. \<not> fnmatchcase ds pat" by (simp add: find_None_iff)
  with None assms show ?thesis by (auto simp: eval_data_access_def Let_def)
next
  case (Some pat)
  then have "\<not> (\<forall>pat \<in> set bd. \<not> fnmatchcase ds pat)" by (auto simp: find_Some_iff)
  with Some assms show ?thesis by (auto simp: eval_data_access_def Let_def)
qed

lemma data_access_sound_witness:
  "\<exists>r. eval_data_access (demo_policy\<lparr>p_config := PDict [(''blocked_data_types'', strs [''pii''])]\<rparr>)
     ''tool_call'' [(''datasource'', PStr ''s3:lake''), (''data_type'', PStr ''pii'')] = Some r \<and>
     \<not> pr_passed r"
  using data_access_sound [of "demo_policy\<lparr>p_config := PDict [(''blocked_data_types'', strs [''pii''])]\<rparr>"
      "[(''blocked_data_types'', strs [''pii''])]" "[]" "[]" "[''pii'']" "[]"
      "[(''datasource'', PStr ''s3:lake''), (''data_type'', PStr ''pii'')]" "''s3:lake''" "''pii''" "''tool_call''"]
  by (auto simp: dget_def ctx_get_def strs_def)

subsection \<open>Safety thresholds\<close>

lemma check_minimums_pass:
  "check_minimums m d = Some (Inr ws) \<Longrightarrow> (cat, lo) \<in> set d \<Longrightarrow>
   find (\<lambda>(k, _). k = PStr cat) m = Some (k, t) \<Longrightarrow>
   \<exists>i j. threshold_rank lo = Some i \<and> threshold_rank t = Some j \<and> i \<le> j"
  by (induction m d arbitrary: ws rule: check_minimums.induct)
    (auto split: option.splits Option.bind_splits sum.splits if_splits)

text \<open>
  A threshold the table does not list ranks as \<open>BLOCK_MEDIUM_AND_ABOVE\<close>, so a request that sets a
  category to \<open>OFF\<close> passes a policy that demands that minimum.
\<close>

lemma unknown_threshold_passes:
  "eval_safety_settings
     (demo_policy\<lparr>p_config := PDict [(''min_thresholds'', PDict [(''C'', PStr ''BLOCK_MEDIUM_AND_ABOVE'')])]\<rparr>)
     ''llm:invoke''
     [(''provider'', PStr ''google''),
      (''safety_settings'', PList [PDict [(''category'', PStr ''C''), (''threshold'', PStr ''OFF'')]])] =
   Some (pass_with [''C safety threshold is at the minimum allowed level (OFF)''])"
  by (simp add: eval_safety_settings_def dget_def one_of_def py_or_def threshold_rank_def hashable_def
      THRESHOLD_ORDER_def upt_rec)

text \<open>
  A Gemini request that passes the safety settings policy lowers no category below its
  minimum: for every category the policy and the request both name, the rank of the requested
  threshold is at least that of the minimum, and with \<open>block_none_disabled\<close> no category is
  \<open>BLOCK_NONE\<close>.
\<close>

lemma safety_minimums_hold:
  assumes "eval_safety_settings p action c = Some r" "pr_passed r"
    and "action = ''llm:invoke''" "dget c ''provider'' (PStr []) = PStr ''google''"
    and "p_config p = PDict d" "dget d ''min_thresholds'' (PDict []) = PDict mins" "mins \<noteq> []"
    and "py_iter (dget c ''safety_settings'' (PList [])) = Some sets" "settings_map [] sets = Some m"
  shows "(\<forall>cat lo k t. (cat, lo) \<in> set mins \<longrightarrow> find (\<lambda>(k, _). k = PStr cat) m = Some (k, t) \<longrightarrow>
       (\<exists>i j. threshold_rank lo = Some i \<and> threshold_rank t = Some j \<and> i \<le> j)) \<and>
    (truthy (dget d ''block_none_disabled'' (PBool True)) \<longrightarrow> (\<forall>(k, t) \<in> set m. t \<noteq> PStr ''BLOCK_NONE''))"
proof -
  have "d \<noteq> []" using assms(6,7) by (auto simp: dget_def)
  then have config: "py_or (PDict d) (PDict []) = PDict d" by (simp add: py_or_def)
  have run: "eval_safety_settings p action c =
      (case (if truthy (dget d ''block_none_disabled'' (PBool True))
             then find (\<lambda>(_, t). t = PStr ''BLOCK_NONE'') m else None) of
         Some (cat, _) \<Rightarrow> Some (fail_with (''Safety setting BLOCK_NONE is not allowed for '' @ py_str cat))
       | None \<Rightarrow> do { r \<leftarrow> check_minimums m mins;
                      case r of Inl f \<Rightarrow> Some f | Inr ws \<Rightarrow> Some (pass_with ws) })"
    using assms(3-)
    by (simp add: eval_safety_settings_def config one_of_def Let_def split: option.splits)
  have none: "(if truthy (dget d ''block_none_disabled'' (PBool True))
      then find (\<lambda>(_, t). t = PStr ''BLOCK_NONE'') m else None) = None"
    using assms(1,2) by (auto simp: run split: option.splits)
  have fails: "check_minimums m ds = Some (Inl f) \<Longrightarrow> \<not> pr_passed f" for ds f
    by (induction m ds arbitrary: f rule: check_minimums.induct)
      (auto split: option.splits Option.bind_splits sum.splits if_splits)
  obtain ws where "check_minimums m mins = Some (Inr ws)"
    using assms(1,2) fails by (auto simp: run none split: Option.bind_splits sum.splits)
  with none show ?thesis
    by (auto dest: check_minimums_pass simp: find_None_iff split: if_splits)
qed

lemma safety_minimums_hold_witness:
  "\<exists>i j. threshold_rank (PStr ''BLOCK_ONLY_HIGH'') = Some i \<and>
     threshold_rank (PStr ''BLOCK_LOW_AND_ABOVE'') = Some j \<and> i \<le> j"
proof -
  let ?d = "[(''min_thresholds'', PDict [(''C'', PStr ''BLOCK_ONLY_HIGH'')])]"
  let ?sets = "[PDict [(''category'', PStr ''C''), (''threshold'', PStr ''BLOCK_LOW_AND_ABOVE'')]]"
  let ?c = "[(''provider'', PStr ''google''), (''safety_settings'', PList ?sets)]"
  let ?p = "demo_policy\<lparr>p_config := PDict ?d\<rparr>"
  have "eval_safety_settings ?p ''llm:invoke'' ?c = Some pass_r"
    by (simp add: eval_safety_settings_def dget_def one_of_def py_or_def threshold_rank_def hashable_def
        THRESHOLD_ORDER_def upt_rec)
  from safety_minimums_hold [OF this, of ?d "[(''C'', PStr ''BLOCK_ONLY_HIGH'')]" ?sets
      "[(PStr ''C'', PStr ''BLOCK_LOW_AND_ABOVE'')]"]
  show ?thesis by (auto simp: dget_def hashable_def)
qed

end
