(* ===== verification/EvalApproval.thy ===== *)
theory EvalApproval
  imports EvalAccess Budgets ToolArguments
begin

text \<open>
  The evaluators that ask for approvals, delegation and the monthly budget
  (\<open>services/evaluators/\<close>: agent capability, tool permission, human oversight, agent delegation,
  budget limit). An evaluator that writes to the context returns it; the result None is an
  exception, and the context is the one at the raise.
\<close>

type_synonym ctx_result = "presult option \<times> pydict"

text \<open>A check that may raise, then the rest.\<close>

definition case_raise :: "'a option \<Rightarrow> pydict \<Rightarrow> ('a \<Rightarrow> ctx_result) \<Rightarrow> ctx_result" where
  "case_raise m c f = (case m of None \<Rightarrow> (None, c) | Some v \<Rightarrow> f v)"

lemma case_raise_Some: "case_raise m c f = (Some r, c') \<longleftrightarrow> (\<exists>v. m = Some v \<and> f v = (Some r, c'))"
  by (auto simp: case_raise_def split: option.splits)

section \<open>Agent capability\<close>

definition capability_allowlist :: "policy \<Rightarrow> string \<Rightarrow> presult option" where
  "capability_allowlist p action =
     do { allowed \<leftarrow> cfg p ''allowed_actions'' (PList []);
          if \<not> truthy allowed then Some pass_r
          else do {
            hit \<leftarrow> any_fnmatch (PStr action) allowed;
            if hit then Some pass_r
            else do {
              names \<leftarrow> py_join '', '' allowed;
              Some (fail_with (''Action '' @ quoted action @ '' is not in the allowed actions list. Allowed: '' @ names)) } } }"

definition eval_agent_capability ::
  "approval_env \<Rightarrow> approval list \<Rightarrow> policy \<Rightarrow> string \<Rightarrow> string \<Rightarrow> pydict \<Rightarrow> ctx_result" where
  "eval_agent_capability x aps p action user c =
     case_raise (do { v \<leftarrow> cfg p ''denied_actions'' (PList []); any_fnmatch (PStr action) v }) c (\<lambda>denied.
     if denied then
       (Some (fail_with (''Action '' @ quoted action @ '' is explicitly denied by policy '' @ quoted (p_name p))), c)
     else
       case_raise (do { v \<leftarrow> cfg p ''require_approval'' (PList []); any_fnmatch (PStr action) v }) c (\<lambda>ask.
       if \<not> ask then (capability_allowlist p action, c)
       else if \<not> truthy (ctx_get c ''approval_token'') then
         (Some (ask_with (''Action '' @ quoted action @
            '' requires human approval. Provide a valid approval_token to proceed.'')), c)
       else
         case_raise (validate_policy_approval x aps p action user c) c (\<lambda>(v, c1).
         if \<not> pr_passed v then (Some v, c1) else (capability_allowlist p action, c1))))"

section \<open>Tool permission\<close>

definition WRITE_KEYWORDS :: "string list" where
  "WRITE_KEYWORDS = [''INSERT'', ''UPDATE'', ''DELETE'', ''DROP'', ''CREATE'', ''ALTER'', ''TRUNCATE'']"

text \<open>\<open>_validate_sql\<close>: the verdict on one argument set.\<close>

definition check_sql :: "pydict \<Rightarrow> pydict \<Rightarrow> presult option" where
  "check_sql config args =
     do { query \<leftarrow> py_upper (dget args ''query'' (PStr []));
          let hit = (if truthy (dget config ''read_only'' (PBool False))
                     then find (\<lambda>k. substring k query) WRITE_KEYWORDS else None);
          Some (case hit of
             Some k \<Rightarrow> fail_with (''SQL query contains '' @ quoted k @ '' but database is read-only'')
           | None \<Rightarrow> pass_r) }"

definition dict_of :: "pyval \<Rightarrow> pydict" where
  "dict_of v = (case v of PDict d \<Rightarrow> d | _ \<Rightarrow> [])"

text \<open>\<open>args['_max_rows'] = max_rows\<close> lands in the caller's object, which the context holds.\<close>

definition put_max_rows :: "pydict \<Rightarrow> string \<Rightarrow> pydict \<Rightarrow> pydict" where
  "put_max_rows config key c =
     (case ctx_get c key of
        PDict d \<Rightarrow>
          if truthy (dget config ''max_rows'' PNone)
          then dput key (PDict (dput ''_max_rows'' (dget config ''max_rows'' PNone) d)) c else c
      | _ \<Rightarrow> c)"

fun sql_sets :: "pydict \<Rightarrow> string list \<Rightarrow> pydict \<Rightarrow> ctx_result" where
  "sql_sets config [] c = (Some pass_r, c)"
| "sql_sets config (k # ks) c =
     case_raise (check_sql config (dict_of (ctx_get c k))) c (\<lambda>r.
     if pr_passed r then sql_sets config ks (put_max_rows config k c) else (Some r, c))"

definition argument_keys :: "pydict \<Rightarrow> string list" where
  "argument_keys c = filter (\<lambda>k. ctx_get c k \<noteq> PNone) [''tool_input'', ''tool_args'']"

text \<open>\<open>check_command(...) or check_paths(...)\<close> on each argument set.\<close>

definition argument_reason :: "string \<Rightarrow> pydict \<Rightarrow> pydict \<Rightarrow> pyval \<Rightarrow> string + string option" where
  "argument_reason tool config c arguments =
     rbind (check_command tool config arguments) (\<lambda>r.
     case r of Some w \<Rightarrow> Inr (Some w) | None \<Rightarrow> check_paths tool config arguments c)"

definition validate_tool_args :: "string \<Rightarrow> pyval \<Rightarrow> pydict \<Rightarrow> ctx_result" where
  "validate_tool_args tool tool_config c =
     (case tool_config of
        PDict config \<Rightarrow>
          if tool = ''execute_sql'' then
            (if argument_keys c = [] then (check_sql config [], c) else sql_sets config (argument_keys c) c)
          else
            (case first_reason (argument_reason tool config c)
                    (if argument_keys c = [] then [PNone] else map (ctx_get c) (argument_keys c)) of
               Inr None \<Rightarrow> (Some pass_r, c)
             | Inr (Some w) \<Rightarrow> (Some (fail_with w), c)
             | Inl e \<Rightarrow> (Some (fail_with (''Tool '' @ quoted tool @ '' call refused: '' @ e)), c))
      | _ \<Rightarrow> (Some (fail_with (''Tool '' @ quoted tool @ '' rules must be an object'')), c))"

text \<open>\<open>tool_configs.get(tool_name)\<close> when it is an object; a list or an object as key raises.\<close>

definition tool_config_of :: "pyval \<Rightarrow> pyval \<Rightarrow> pyval option" where
  "tool_config_of configs tool =
     (case configs of
        PDict d \<Rightarrow>
          (case tool of
             PStr t \<Rightarrow> Some (dget d t PNone)
           | PList _ \<Rightarrow> None
           | PDict _ \<Rightarrow> None
           | _ \<Rightarrow> Some PNone)
      | _ \<Rightarrow> Some PNone)"

text \<open>The deny list, then the allowlist.\<close>

definition tool_listed :: "policy \<Rightarrow> pyval \<Rightarrow> presult option" where
  "tool_listed p tool =
     do { denied \<leftarrow> cfg p ''denied_tools'' (PList []);
          if_m (py_in tool denied)
            (Some (fail_with (''Tool '' @ quoted (py_str tool) @ '' is explicitly denied'')))
            (do {
              allowed \<leftarrow> cfg p ''allowed_tools'' (PList []);
              if_m (if truthy allowed then not_m (py_in tool allowed) else Some False)
                (do { names \<leftarrow> py_join '', '' allowed;
                      Some (fail_with (''Tool '' @ quoted (py_str tool) @ '' is not in allowed list. Allowed: '' @ names)) })
                (Some pass_r) }) }"

definition tool_approval ::
  "approval_env \<Rightarrow> approval list \<Rightarrow> policy \<Rightarrow> string \<Rightarrow> string \<Rightarrow> pyval \<Rightarrow> pydict \<Rightarrow> ctx_result" where
  "tool_approval x aps p action user tool c =
     case_raise (do { v \<leftarrow> cfg p ''requires_approval'' (PList []); py_in tool v }) c (\<lambda>ask.
     if \<not> ask then (Some pass_r, c)
     else if \<not> truthy (ctx_get c ''approval_token'') then
       (Some (ask_with (''Tool '' @ quoted (py_str tool) @
          '' requires approval. Request approval before proceeding.'')), c)
     else
       case_raise (validate_policy_approval x aps p action user c) c (\<lambda>(v, c1).
       (Some (if pr_passed v then pass_r else v), c1)))"

definition eval_tool_permission ::
  "approval_env \<Rightarrow> approval list \<Rightarrow> policy \<Rightarrow> string \<Rightarrow> string \<Rightarrow> pydict \<Rightarrow> ctx_result" where
  "eval_tool_permission x aps p action user c =
     (if action \<noteq> ''tool_call'' then (Some pass_r, c)
      else
        (let tool = py_or (ctx_get c ''tool_name'') (ctx_get c ''tool'') in
         if \<not> truthy tool then (Some (fail_with ''Tool name is required''), c)
         else
           case_raise (tool_listed p tool) c (\<lambda>listed.
           if \<not> pr_passed listed then (Some listed, c)
           else
             case_raise (do { v \<leftarrow> cfg p ''tool_configs'' PNone; tool_config_of (py_or v (PDict [])) tool }) c (\<lambda>rules.
             case (if truthy rules then validate_tool_args (py_str tool) rules c else (Some pass_r, c)) of
               (None, c1) \<Rightarrow> (None, c1)
             | (Some r, c1) \<Rightarrow> if \<not> pr_passed r then (Some r, c1) else tool_approval x aps p action user tool c1))))"

section \<open>Human oversight\<close>

definition declared_cost :: "pyval \<Rightarrow> rat option" where
  "declared_cost v =
     (case v of
        PBool _ \<Rightarrow> None
      | _ \<Rightarrow> (case dec_of v of Inr (DFin q) \<Rightarrow> if 0 \<le> q then Some q else None | _ \<Rightarrow> None))"

text \<open>The server's estimate, raised by a cost the caller declares; None is unknown.\<close>

definition oversight_cost :: "rat option \<Rightarrow> rat option \<Rightarrow> rat option" where
  "oversight_cost estimate declared =
     (case (estimate, declared) of (Some e, Some d) \<Rightarrow> Some (max e d) | _ \<Rightarrow> estimate)"

definition cost_condition :: "rat option \<Rightarrow> rat option \<Rightarrow> string list" where
  "cost_condition cost threshold =
     (case cost of
        None \<Rightarrow> [''unknown cost (unpriced model or unbounded request)'']
      | Some q \<Rightarrow>
          (case threshold of
             None \<Rightarrow> [''high_cost'']
           | Some t \<Rightarrow> if 0 < q \<and> t \<le> q then [''high_cost''] else []))"

definition oversight_conditions ::
  "budget_env \<Rightarrow> policy \<Rightarrow> string \<Rightarrow> pydict \<Rightarrow> string list option" where
  "oversight_conditions e p action c =
     do { estimate \<leftarrow> res_option (estimated_call_cost e action c);
          required \<leftarrow> cfg p ''require_approval_for'' (PList []);
          auto_below \<leftarrow> cfg p ''auto_approve_below_cost_usd'' PNone;
          high \<leftarrow> py_in (PStr ''high_cost'') required;
          sensitive \<leftarrow> py_in (PStr ''sensitive_data'') required;
          external \<leftarrow> py_in (PStr ''external_calls'') required;
          let cost = oversight_cost estimate (declared_cost (ctx_get c ''estimated_cost_usd''));
          Some ((if high then cost_condition cost
                   (declared_cost (if auto_below \<noteq> PNone then auto_below else PFloat 1)) else []) @
                (if sensitive \<and> truthy (dget c ''has_sensitive_data'' (PBool False)) then [''sensitive_data''] else []) @
                (if external \<and> truthy (dget c ''is_external_call'' (PBool False)) then [''external_calls''] else [])) }"

definition eval_human_oversight ::
  "budget_env \<Rightarrow> approval_env \<Rightarrow> approval list \<Rightarrow> policy \<Rightarrow> string \<Rightarrow> string \<Rightarrow> pydict \<Rightarrow> ctx_result" where
  "eval_human_oversight e x aps p action user c =
     case_raise (oversight_conditions e p action c) c (\<lambda>triggered.
     if triggered = [] then (Some pass_r, c)
     else if truthy (ctx_get c ''approval_token'') then
       case_raise (validate_policy_approval x aps p action user c) c (\<lambda>(v, c1). (Some v, c1))
     else
       (Some (ask_with (''Human approval required for: '' @ join '', '' triggered @
          ''. Surface this to a human approver and retry with a valid approval_token.'')), c))"

section \<open>Agent delegation\<close>

definition TRUST_LEVELS :: "string list" where
  "TRUST_LEVELS = [''restricted'', ''standard'', ''trusted'', ''root'']"

definition trust_index :: "pyval \<Rightarrow> nat option" where
  "trust_index v = (case v of PStr s \<Rightarrow> if s \<in> set TRUST_LEVELS
     then Some (length (takeWhile (\<lambda>t. t \<noteq> s) TRUST_LEVELS)) else None | _ \<Rightarrow> None)"

definition trust_or :: "nat \<Rightarrow> pyval \<Rightarrow> nat" where
  "trust_or d v = (case trust_index v of Some i \<Rightarrow> i | None \<Rightarrow> d)"

text \<open>
  What \<open>signing.loads\<close> does with a delegation token: it is the signed payload, or it raises that
  the token expired, that its signature is bad, or anything else.
\<close>

datatype unsigned = Payload pyval | SignatureExpired | BadSignature | LoadFailed

definition delegation_failed :: presult where
  "delegation_failed = fail_with ''Failed to validate delegation token.''"

definition check_delegation_payload :: "pyval \<Rightarrow> pyval \<Rightarrow> pyval \<Rightarrow> string \<Rightarrow> presult option" where
  "check_delegation_payload payload parent depth pol =
     do { issuer \<leftarrow> pget payload ''parent_agent_id'' PNone;
          if \<not> py_eq issuer parent then
            Some (fail_with (''Delegation token was issued by '' @ quoted (py_str issuer) @ '', not '' @
              quoted (py_str parent) @ ''.''))
          else do {
            limit \<leftarrow> pget payload ''max_depth'' PNone;
            deep \<leftarrow> (if limit = PNone then Some False else py_gt depth limit);
            if deep then
              Some (fail_with (''Delegation depth '' @ py_str depth @ '' exceeds the token'' @ sq @
                ''s authorized max depth of '' @ py_str limit @ ''.''))
            else do {
              there \<leftarrow> py_in (PStr ''policy'') payload;
              bound \<leftarrow> (if there then pindex payload ''policy'' else Some (PStr pol));
              Some (if bound \<noteq> PStr pol then fail_with ''Delegation token was issued for a different policy.''
                    else pass_r) } } }"

definition validate_delegation_token ::
  "(pyval \<Rightarrow> unsigned) \<Rightarrow> pyval \<Rightarrow> pyval \<Rightarrow> pyval \<Rightarrow> string \<Rightarrow> presult" where
  "validate_delegation_token unsign token parent depth pol =
     (case unsign token of
        SignatureExpired \<Rightarrow> fail_with ''Delegation token has expired. Parent must issue a new token.''
      | BadSignature \<Rightarrow> fail_with ''Delegation token signature is invalid.''
      | LoadFailed \<Rightarrow> delegation_failed
      | Payload v \<Rightarrow> (case check_delegation_payload v parent depth pol of Some r \<Rightarrow> r | None \<Rightarrow> delegation_failed))"

text \<open>\<open>max(0, parent - degradation)\<close> as an index of \<open>TRUST_LEVELS\<close>; a fraction or an index past the end raises.\<close>

definition degraded_index :: "nat \<Rightarrow> pyval \<Rightarrow> nat option" where
  "degraded_index parent degradation =
     do { v \<leftarrow> py_sub (PInt (int parent)) degradation;
          low \<leftarrow> py_le v (PInt 0);
          if low then Some 0
          else (case v of PInt i \<Rightarrow> if nat i < length TRUST_LEVELS then Some (nat i) else None | _ \<Rightarrow> None) }"

text \<open>Steps 5 and 6: the child's trust against its parent's, and the trust left after this hop.\<close>

definition trust_checks :: "policy \<Rightarrow> pydict \<Rightarrow> (presult + string list) option" where
  "trust_checks p c =
     do { let depth = dget c ''delegation_depth'' (PInt 0);
          let parent = dget c ''parent_trust_level'' (PStr ''standard'');
          let requested = dget c ''requested_trust_level'' (PStr ''standard'');
          bounded \<leftarrow> cfg p ''child_cannot_exceed_parent_trust'' (PBool True);
          if truthy bounded \<and> trust_or 1 parent < trust_or 1 requested then
            Some (Inl (fail_with (''Child agent cannot claim trust level '' @ quoted (py_str requested) @
              '' -- parent trust level is '' @ quoted (py_str parent) @
              ''. Trust cannot be elevated through delegation.'')))
          else do {
            degradation \<leftarrow> cfg p ''trust_level_degradation'' (PInt 0);
            case (truthy degradation, trust_index parent) of
              (True, Some lvl) \<Rightarrow>
                do { eff \<leftarrow> degraded_index lvl degradation;
                     min_trust \<leftarrow> cfg p ''min_trust_level'' (PStr ''restricted'');
                     if eff < trust_or 0 min_trust then
                       Some (Inl (fail_with (''Effective trust level after '' @ py_str depth @
                         '' delegation hop(s) is '' @ quoted (TRUST_LEVELS ! eff) @ '', below minimum required '' @
                         quoted (py_str min_trust) @ '' for policy '' @ quoted (p_name p) @ ''.'')))
                     else
                       Some (Inr (if requested \<noteq> PStr (TRUST_LEVELS ! eff)
                         then [''Effective trust level is '' @ quoted (TRUST_LEVELS ! eff) @
                               '' after degradation (requested '' @ quoted (py_str requested) @ '').'']
                         else [])) }
            | _ \<Rightarrow> Some (Inr []) } }"

text \<open>Steps 1 to 4: depth, blocked and allowed parents, circular chains.\<close>

definition parent_checks :: "policy \<Rightarrow> pydict \<Rightarrow> presult option" where
  "parent_checks p c =
     do { let parent = ctx_get c ''parent_agent_id'';
          let depth = dget c ''delegation_depth'' (PInt 0);
          max_depth \<leftarrow> cfg p ''max_delegation_depth'' (PInt 3);
          if_m (py_gt depth max_depth)
            (Some (fail_with (''Delegation depth '' @ py_str depth @ '' exceeds maximum of '' @ py_str max_depth @
               '' allowed by policy '' @ quoted (p_name p) @ ''. Agent spawn chain is too deep.'')))
            (do {
              blocked \<leftarrow> cfg p ''blocked_parent_agents'' (PList []);
              if_m (and_m (Some (truthy parent)) (py_in parent blocked))
                (Some (fail_with (''Parent agent '' @ quoted (py_str parent) @
                   '' is blocked from delegating under policy '' @ quoted (p_name p) @ ''.'')))
                (do {
                  allowed \<leftarrow> cfg p ''allowed_parent_agents'' (PList []);
                  if_m (and_m (Some (truthy allowed \<and> truthy parent)) (not_m (py_in parent allowed)))
                    (Some (fail_with (''Parent agent '' @ quoted (py_str parent) @
                       '' is not in the allowed delegator list for policy '' @ quoted (p_name p) @ ''.'')))
                    (if_m (and_m (Some (truthy parent)) (py_in parent (dget c ''delegation_chain'' (PList []))))
                      (Some (fail_with (''Circular delegation detected: agent '' @ quoted (py_str parent) @
                         '' already appears in the delegation chain.'')))
                      (Some pass_r)) }) }) }"

text \<open>Step 7.\<close>

definition token_check_delegation :: "(pyval \<Rightarrow> unsigned) \<Rightarrow> policy \<Rightarrow> pydict \<Rightarrow> presult option" where
  "token_check_delegation unsign p c =
     do { let parent = ctx_get c ''parent_agent_id'';
          let token = ctx_get c ''delegation_token'';
          signed \<leftarrow> cfg p ''require_signed_delegation_token'' (PBool False);
          Some (if truthy signed \<and> truthy parent then
                  (if \<not> truthy token then
                     fail_with (''Policy '' @ quoted (p_name p) @
                       '' requires a signed delegation token from the parent agent. No token provided.'')
                   else validate_delegation_token unsign token parent (dget c ''delegation_depth'' (PInt 0)) (p_id p))
                else pass_r) }"

definition eval_agent_delegation ::
  "(pyval \<Rightarrow> unsigned) \<Rightarrow> policy \<Rightarrow> string \<Rightarrow> pydict \<Rightarrow> presult option" where
  "eval_agent_delegation unsign p action c =
     do { parents \<leftarrow> parent_checks p c;
          if \<not> pr_passed parents then Some parents
          else do {
            trust \<leftarrow> trust_checks p c;
            case trust of
              Inl r \<Rightarrow> Some r
            | Inr ws \<Rightarrow>
                do { verdict \<leftarrow> token_check_delegation unsign p c;
                     if \<not> pr_passed verdict then Some verdict
                     else do {
                       hops \<leftarrow> py_gt (dget c ''delegation_depth'' (PInt 0)) (PInt 0);
                       if hops then do {
                         n \<leftarrow> py_len (dget c ''delegation_chain'' (PList []));
                         Some (pass_with (ws @ [''Delegated agent operating at depth '' @
                           py_str (dget c ''delegation_depth'' (PInt 0)) @
                           '' (chain length: '' @ show_nat n @ '').''])) }
                       else Some (pass_with ws) } } } }"

section \<open>Monthly budget\<close>

definition budget_message :: "status \<Rightarrow> string" where
  "budget_message st = ''Monthly budget exceeded. Budget: $'' @ fmt_fixed 2 (st_limit st) @ '', Spent: $'' @
     fmt_fixed 2 (st_spend st)"

definition approach_message :: "status \<Rightarrow> string" where
  "approach_message st = ''Approaching budget limit ('' @ fmt_fixed 1 (st_percent st) @ ''% used). Remaining: $'' @
     fmt_fixed 2 (st_remaining st)"

definition budget_info :: "status \<Rightarrow> pyval" where
  "budget_info st = PDict [(''monthly_budget_usd'', PFloat (st_limit st)), (''current_spend_usd'', PFloat (st_spend st)),
     (''remaining_usd'', PFloat (st_remaining st)), (''percent_used'', PFloat (st_percent st))]"

definition budget_verdict :: "bool \<Rightarrow> status \<Rightarrow> presult" where
  "budget_verdict hard st =
     (let ws = (if st_unpriced st \<noteq> 0
                then [show_nat (st_unpriced st) @ '' call(s) this month used a model with no price; '' @
                      ''their cost is unknown and not in the spend shown''] else [])
      in case st_level st of
           EXCEEDED \<Rightarrow>
             if hard then (fail_with (budget_message st))\<lparr>pr_warnings := ws\<rparr>
             else (fail_with (budget_message st @ '' (soft limit)''))\<lparr>pr_warnings := ws, pr_advisory := True\<rparr>
         | THRESHOLD \<Rightarrow>
             if hard then pass_with (ws @ [approach_message st])
             else (fail_with (approach_message st))\<lparr>pr_warnings := ws, pr_advisory := True\<rparr>
         | UNDER \<Rightarrow> pass_with ws)"

definition eval_budget_limit :: "budget_env \<Rightarrow> account list \<Rightarrow> policy \<Rightarrow> pydict \<Rightarrow> ctx_result" where
  "eval_budget_limit e accs p c =
     case_raise (cfg p ''hard_limit'' (PBool True)) c (\<lambda>hard.
     case budget_status e accs p of
       Inl (ValueError _) \<Rightarrow> (Some (fail_with ''Invalid monthly budget configuration''), c)
     | Inl ArithmeticError \<Rightarrow> (Some (fail_with ''Invalid monthly budget configuration''), c)
     | Inl _ \<Rightarrow> (None, c)
     | Inr st \<Rightarrow> (Some (budget_verdict (truthy hard) st), dput ''budget_info'' (budget_info st) c))"

end
