(* ===== verification/ApprovalRules.thy ===== *)
theory ApprovalRules
  imports EvalApproval
begin

text \<open>
  What a pass of the approval and delegation evaluators guarantees: tool permissions, delegation
  and the cost that human oversight compares.
\<close>

section \<open>What passing means\<close>

lemma fail_not_passed [simp]: "pr_passed (fail_with m) = False" "pr_passed (ask_with m) = False" "pr_passed (pass_with ws) = True"
  by simp_all

lemma if_m_passed:
  "pr_passed r \<Longrightarrow> if_m t (Some (fail_with m)) rest = Some r \<longleftrightarrow> t = Some False \<and> rest = Some r"
  by (auto simp: if_m_eq_Some)

lemma and_m_False: "and_m (Some b) x = Some False \<longleftrightarrow> (b \<longrightarrow> x = Some False)"
  by simp

text \<open>What a tool call that passed has behind it.\<close>

definition arguments_ok :: "string \<Rightarrow> pydict \<Rightarrow> pydict \<Rightarrow> bool" where
  "arguments_ok tool config c \<longleftrightarrow>
     (if tool = ''execute_sql'' then
        truthy (dget config ''read_only'' (PBool False)) \<longrightarrow>
          (\<forall>k \<in> set (argument_keys c). \<exists>query. py_upper (dget (dict_of (ctx_get c k)) ''query'' (PStr [])) = Some query \<and>
             (\<forall>w \<in> set WRITE_KEYWORDS. \<not> substring w query))
      else
        (\<forall>arguments \<in> set (if argument_keys c = [] then [PNone] else map (ctx_get c) (argument_keys c)).
           check_command tool config arguments = Inr None \<and> check_paths tool config arguments c = Inr None))"

lemma check_sql_passed:
  "check_sql config args = Some r \<Longrightarrow> pr_passed r \<Longrightarrow> truthy (dget config ''read_only'' (PBool False)) \<Longrightarrow>
   \<exists>query. py_upper (dget args ''query'' (PStr [])) = Some query \<and> (\<forall>w \<in> set WRITE_KEYWORDS. \<not> substring w query)"
  by (auto simp: check_sql_def find_None_iff split: Option.bind_splits option.splits)

lemma put_max_rows_other: "k' \<noteq> k \<Longrightarrow> ctx_get (put_max_rows config k c) k' = ctx_get c k'"
  by (auto simp: put_max_rows_def split: pyval.splits)

lemma sql_sets_passed:
  assumes "sql_sets config ks c = (Some r, c')" "pr_passed r" "distinct ks"
    "truthy (dget config ''read_only'' (PBool False))" "k \<in> set ks"
  shows "\<exists>query. py_upper (dget (dict_of (ctx_get c k)) ''query'' (PStr [])) = Some query \<and>
    (\<forall>w \<in> set WRITE_KEYWORDS. \<not> substring w query)"
  using assms
proof (induction ks arbitrary: c)
  case Nil
  then show ?case by simp
next
  case (Cons k' ks)
  from Cons.prems(1,2) obtain v where v: "check_sql config (dict_of (ctx_get c k')) = Some v" "pr_passed v"
    and rest: "sql_sets config ks (put_max_rows config k' c) = (Some r, c')"
    by (auto simp: case_raise_Some split: if_splits)
  show ?case
  proof (cases "k = k'")
    case True
    with check_sql_passed [OF v] Cons.prems(4) show ?thesis by simp
  next
    case False
    with Cons.IH [OF rest] Cons.prems show ?thesis by (simp add: put_max_rows_other)
  qed
qed

lemma argument_reason_None:
  "argument_reason tool config c arguments = Inr None \<longleftrightarrow>
   check_command tool config arguments = Inr None \<and> check_paths tool config arguments c = Inr None"
  by (cases "check_command tool config arguments") (simp_all add: argument_reason_def split: option.splits)

lemma validate_tool_args_passed:
  assumes "validate_tool_args tool (PDict config) c = (Some r, c')" "pr_passed r"
  shows "arguments_ok tool config c"
proof (cases "tool = ''execute_sql''")
  case True
  have "distinct (argument_keys c)" by (simp add: argument_keys_def)
  with True assms sql_sets_passed [of config "argument_keys c" c r c'] show ?thesis
    by (auto simp: validate_tool_args_def arguments_ok_def split: if_splits)
next
  case False
  have "first_reason (argument_reason tool config c)
      (if argument_keys c = [] then [PNone] else map (ctx_get c) (argument_keys c)) = Inr None"
    using assms False
    by (simp add: validate_tool_args_def split: sum.split_asm option.split_asm del: first_reason.simps) auto
  with False show ?thesis unfolding first_reason_None arguments_ok_def argument_reason_None by simp
qed

lemma tool_listed_passed:
  assumes "tool_listed p tool = Some r" "pr_passed r"
  shows "(\<exists>v. cfg p ''denied_tools'' (PList []) = Some v \<and> py_in tool v = Some False) \<and>
    (\<exists>v. cfg p ''allowed_tools'' (PList []) = Some v \<and> (truthy v \<longrightarrow> py_in tool v = Some True))"
  using assms unfolding tool_listed_def
  by (auto simp: bind_eq_Some_conv if_m_eq_Some not_m_def split: if_split_asm)

lemma tool_approval_passed:
  assumes "tool_approval x aps p action user tool c = (Some r, c')" "pr_passed r"
  shows "\<exists>v. cfg p ''requires_approval'' (PList []) = Some v \<and>
    (py_in tool v = Some True \<longrightarrow> (\<exists>ok. validate_policy_approval x aps p action user c = Some (ok, c') \<and> pr_passed ok))"
  using assms unfolding tool_approval_def
  by (auto simp: case_raise_Some bind_eq_Some_conv split: if_split_asm)


definition tool_policy :: policy where
  "tool_policy = demo_policy\<lparr>p_config := PDict [(''denied_tools'', strs [''shell'']), (''allowed_tools'', strs [''Read''])]\<rparr>"


lemma parent_checks_passed:
  assumes "parent_checks p c = Some r" "pr_passed r"
  shows "(\<exists>deepest. cfg p ''max_delegation_depth'' (PInt 3) = Some deepest \<and>
       py_gt (dget c ''delegation_depth'' (PInt 0)) deepest = Some False) \<and>
    (truthy (ctx_get c ''parent_agent_id'') \<longrightarrow>
      (\<exists>blocked. cfg p ''blocked_parent_agents'' (PList []) = Some blocked \<and>
         py_in (ctx_get c ''parent_agent_id'') blocked = Some False) \<and>
      py_in (ctx_get c ''parent_agent_id'') (dget c ''delegation_chain'' (PList [])) = Some False)"
  using assms
  unfolding parent_checks_def Let_def bind_eq_Some_conv if_m_passed [OF assms(2)]
  apply (elim exE conjE)
  by (intro conjI impI exI refl; simp only: and_m_Some if_True)

lemma delegation_payload_passed:
  assumes "check_delegation_payload payload parent depth pol = Some r" "pr_passed r"
  shows "\<exists>issuer. pget payload ''parent_agent_id'' PNone = Some issuer \<and> py_eq issuer parent"
proof -
  from assms(1) obtain issuer where issuer: "pget payload ''parent_agent_id'' PNone = Some issuer"
    unfolding check_delegation_payload_def bind_eq_Some_conv by blast
  with assms have "py_eq issuer parent" by (cases "py_eq issuer parent") (auto simp: check_delegation_payload_def)
  with issuer show ?thesis by blast
qed

lemma delegation_token_passed:
  assumes "pr_passed (validate_delegation_token unsign token parent depth pol)"
  shows "\<exists>payload issuer. unsign token = Payload payload \<and>
    pget payload ''parent_agent_id'' PNone = Some issuer \<and> py_eq issuer parent"
proof (cases "unsign token")
  case (Payload payload)
  with assms obtain r where "check_delegation_payload payload parent depth pol = Some r" "pr_passed r"
    by (cases "check_delegation_payload payload parent depth pol")
      (simp_all add: validate_delegation_token_def delegation_failed_def)
  with Payload delegation_payload_passed show ?thesis by blast
qed (use assms in \<open>simp_all add: validate_delegation_token_def delegation_failed_def\<close>)

lemma token_check_passed:
  assumes "token_check_delegation unsign p c = Some r" "pr_passed r" "truthy (ctx_get c ''parent_agent_id'')"
    and "cfg p ''require_signed_delegation_token'' (PBool False) = Some v" "truthy v"
  shows "\<exists>payload issuer. unsign (ctx_get c ''delegation_token'') = Payload payload \<and>
    pget payload ''parent_agent_id'' PNone = Some issuer \<and> py_eq issuer (ctx_get c ''parent_agent_id'')"
proof (rule delegation_token_passed)
  show "pr_passed (validate_delegation_token unsign (ctx_get c ''delegation_token'') (ctx_get c ''parent_agent_id'')
      (dget c ''delegation_depth'' (PInt 0)) (p_id p))"
    using assms by (auto simp: token_check_delegation_def Let_def split: if_split_asm)
qed

lemma trust_checks_passed:
  assumes "trust_checks p c = Some (Inr ws)"
    "cfg p ''child_cannot_exceed_parent_trust'' (PBool True) = Some bounded" "truthy bounded"
  shows "trust_or 1 (dget c ''requested_trust_level'' (PStr ''standard'')) \<le>
    trust_or 1 (dget c ''parent_trust_level'' (PStr ''standard''))"
  using assms by (auto simp: trust_checks_def Let_def split: if_split_asm)

lemma trust_checks_fail: "trust_checks p c = Some (Inl r) \<Longrightarrow> \<not> pr_passed r"
  by (auto simp: trust_checks_def Let_def bind_eq_Some_conv split: if_split_asm option.splits bool.splits prod.splits)

text \<open>
  Delegation cannot raise trust. A delegated call that passes the default checks is within the
  policy's depth, its parent is neither blocked nor already in the chain and is on the allowlist
  where there is one, the trust it asks for is at most its parent's, and where a signed token is
  required the token's own signer-attested parent is the parent it names.
\<close>

lemma delegation_never_elevates:
  assumes "eval_agent_delegation unsign p action c = Some r" "pr_passed r"
    and "cfg p ''child_cannot_exceed_parent_trust'' (PBool True) = Some bounded" "truthy bounded"
  shows "trust_or 1 (dget c ''requested_trust_level'' (PStr ''standard'')) \<le>
      trust_or 1 (dget c ''parent_trust_level'' (PStr ''standard'')) \<and>
    (\<exists>deepest. cfg p ''max_delegation_depth'' (PInt 3) = Some deepest \<and>
       py_gt (dget c ''delegation_depth'' (PInt 0)) deepest = Some False) \<and>
    (truthy (ctx_get c ''parent_agent_id'') \<longrightarrow>
      (\<exists>blocked. cfg p ''blocked_parent_agents'' (PList []) = Some blocked \<and>
         py_in (ctx_get c ''parent_agent_id'') blocked = Some False) \<and>
      py_in (ctx_get c ''parent_agent_id'') (dget c ''delegation_chain'' (PList [])) = Some False \<and>
      (\<forall>v. cfg p ''require_signed_delegation_token'' (PBool False) = Some v \<longrightarrow> truthy v \<longrightarrow>
         (\<exists>payload issuer. unsign (ctx_get c ''delegation_token'') = Payload payload \<and>
            pget payload ''parent_agent_id'' PNone = Some issuer \<and> py_eq issuer (ctx_get c ''parent_agent_id''))))"
proof -
  from assms(1) obtain parents where parents: "parent_checks p c = Some parents"
    unfolding eval_agent_delegation_def by (auto simp: bind_eq_Some_conv)
  with assms(1,2) have "pr_passed parents" unfolding eval_agent_delegation_def by (auto split: if_split_asm)
  with assms(1) parents obtain trust where trust: "trust_checks p c = Some trust"
    unfolding eval_agent_delegation_def by (auto simp: bind_eq_Some_conv)
  then obtain ws where ws: "trust = Inr ws"
    using assms(1,2) parents \<open>pr_passed parents\<close> trust_checks_fail
    by (cases trust) (auto simp: eval_agent_delegation_def)
  then obtain verdict where verdict: "token_check_delegation unsign p c = Some verdict" "pr_passed verdict"
    using assms(1,2) parents \<open>pr_passed parents\<close> trust
    by (auto simp: eval_agent_delegation_def bind_eq_Some_conv split: if_split_asm)
  show ?thesis
    using parent_checks_passed [OF parents \<open>pr_passed parents\<close>] trust_checks_passed [OF trust [unfolded ws] assms(3,4)]
      token_check_passed [OF verdict] by blast
qed

lemma delegation_never_elevates_witness:
  "trust_or 1 (PStr ''standard'') \<le> trust_or 1 (PStr ''trusted'')"
proof -
  let ?c = "[(''parent_agent_id'', PStr ''a''), (''parent_trust_level'', PStr ''trusted''), (''delegation_depth'', PInt 1)]"
  have "eval_agent_delegation (\<lambda>_. BadSignature) demo_policy ''tool_call'' ?c =
      Some (pass_with [''Delegated agent operating at depth 1 (chain length: 0).''])"
    by (simp add: eval_agent_delegation_def parent_checks_def trust_checks_def token_check_delegation_def
        demo_policy_def cfg_def dget_def ctx_get_def py_gt_def trust_or_def trust_index_def TRUST_LEVELS_def
        show_int_def show_nat.simps)
  from delegation_never_elevates [OF this] show ?thesis
    by (simp add: demo_policy_def cfg_def dget_def)
qed

section \<open>Oversight\<close>

definition demo_prices :: budget_env where
  "demo_prices = \<lparr>b_catalog = [], b_registry = None, b_today = ''2026-10-16'', b_month = 0, b_now = 5,
     b_json = (\<lambda>_. Inl OtherError), b_logs = [], b_pricing_version = ''v1''\<rparr>"

text \<open>
  A caller cannot talk the cost of a call down. Where high costs need a human and a call
  passes without an approval token, the server's own estimate is known, and the cost compared is
  at least that estimate and at least any cost the caller declared; it is zero or below the
  threshold.
\<close>

lemma oversight_cost_not_lowered:
  assumes "eval_human_oversight e x aps p action user c = (Some r, c')" "pr_passed r"
    and "\<not> truthy (ctx_get c ''approval_token'')"
    and "cfg p ''require_approval_for'' (PList []) = Some v" "py_in (PStr ''high_cost'') v = Some True"
  shows "c' = c \<and> (\<exists>estimate cost threshold. estimated_call_cost e action c = Inr (Some estimate) \<and>
    estimate \<le> cost \<and> (\<forall>d. declared_cost (ctx_get c ''estimated_cost_usd'') = Some d \<longrightarrow> d \<le> cost) \<and>
    cfg p ''auto_approve_below_cost_usd'' PNone = Some threshold \<and>
    (\<exists>t. declared_cost (if threshold \<noteq> PNone then threshold else PFloat 1) = Some t \<and> (cost \<le> 0 \<or> cost < t)))"
proof -
  from assms(1-3) have none: "oversight_conditions e p action c = Some []" and c': "c' = c"
    unfolding eval_human_oversight_def by (auto simp: case_raise_Some split: if_split_asm)
  from none assms(4,5) obtain est threshold where est: "estimated_call_cost e action c = Inr est"
    and threshold: "cfg p ''auto_approve_below_cost_usd'' PNone = Some threshold"
    and cost: "cost_condition (oversight_cost est (declared_cost (ctx_get c ''estimated_cost_usd'')))
      (declared_cost (if threshold \<noteq> PNone then threshold else PFloat 1)) = []"
    unfolding oversight_conditions_def by (auto simp: bind_eq_Some_conv Let_def split: if_split_asm)
      (cases "estimated_call_cost e action c"; auto)+
  then obtain cost t where "oversight_cost est (declared_cost (ctx_get c ''estimated_cost_usd'')) = Some cost"
    "declared_cost (if threshold \<noteq> PNone then threshold else PFloat 1) = Some t" "\<not> (0 < cost \<and> t \<le> cost)"
    by (auto simp: cost_condition_def split: option.splits if_split_asm)
  moreover from this obtain estimate where "est = Some estimate" "estimate \<le> cost"
    "\<forall>d. declared_cost (ctx_get c ''estimated_cost_usd'') = Some d \<longrightarrow> d \<le> cost"
    by (auto simp: oversight_cost_def split: option.splits)
  ultimately show ?thesis using c' est threshold not_less by blast
qed

definition oversight_policy :: policy where
  "oversight_policy = demo_policy\<lparr>p_config := PDict [(''require_approval_for'', strs [''high_cost''])]\<rparr>"

lemma oversight_cost_not_lowered_witness:
  "\<exists>estimate cost. estimated_call_cost demo_prices ''tool_call'' [(''estimated_cost_usd'', PFloat (1 / 2))] =
     Inr (Some estimate) \<and> estimate \<le> cost \<and> cost < 1"
proof -
  let ?x = "\<lparr>x_digest = (\<lambda>_. []), x_sign = id, x_unsign = (\<lambda>_. None), x_now = 0\<rparr>"
  let ?c = "[(''estimated_cost_usd'', PFloat (1 / 2))]"
  have "eval_human_oversight demo_prices ?x [] oversight_policy ''tool_call'' ''u'' ?c = (Some pass_r, ?c)"
    by (simp add: eval_human_oversight_def oversight_conditions_def estimated_call_cost_def MODEL_CALL_ACTIONS_def
        oversight_policy_def cfg_def dget_def ctx_get_def declared_cost_def oversight_cost_def cost_condition_def
        case_raise_def strs_def)
  moreover have "cfg oversight_policy ''require_approval_for'' (PList []) = Some (strs [''high_cost''])"
    by (simp add: oversight_policy_def cfg_def dget_def)
  ultimately obtain estimate cost t where "estimated_call_cost demo_prices ''tool_call'' ?c = Inr (Some estimate)"
    "estimate \<le> cost" "declared_cost (PFloat 1) = Some t" "cost \<le> 0 \<or> cost < t"
    using oversight_cost_not_lowered [of demo_prices ?x "[]" oversight_policy "''tool_call''" "''u''" ?c pass_r ?c "strs [''high_cost'']"]
    by (auto simp: ctx_get_def dget_def oversight_policy_def cfg_def)
  then show ?thesis by (intro exI [of _ estimate] exI [of _ cost]) (auto simp: declared_cost_def)
qed

end
