(* ===== verification/EvalSession.thy ===== *)
theory EvalSession
  imports PolicyModel Cache
begin

text \<open>
  The evaluators with memory or a clock (\<open>services/evaluators/\<close>: rate limit, session quota,
  session policy, data retention, behavioral baseline), with the session counters of
  \<open>services/session_state.py\<close> and the baselines of \<open>services/behavioral_baseline.py\<close>. They run
  over an abstract cache; a computation returns its value, None for an exception, and the cache.
  Times are microseconds since 1970 in UTC, and \<open>datetime.fromisoformat\<close> is an argument.
\<close>

section \<open>Computations over a cache\<close>

definition st_bind :: "('c \<Rightarrow> 'a option \<times> 'c) \<Rightarrow> ('a \<Rightarrow> 'c \<Rightarrow> 'b option \<times> 'c) \<Rightarrow> 'c \<Rightarrow> 'b option \<times> 'c" where
  "st_bind m f c = (case m c of (None, c1) \<Rightarrow> (None, c1) | (Some v, c1) \<Rightarrow> f v c1)"

definition st_opt :: "'a option \<Rightarrow> 'c \<Rightarrow> 'a option \<times> 'c" where
  "st_opt v c = (v, c)"

lemma st_bind_Some:
  "st_bind m f c = (Some r, c') \<longleftrightarrow> (\<exists>v c1. m c = (Some v, c1) \<and> f v c1 = (Some r, c'))"
  by (auto simp: st_bind_def split: prod.splits option.splits)

lemma st_opt_bind [simp]: "st_bind (st_opt (Some v)) f c = f v c" "st_bind (st_opt None) f c = (None, c)"
  by (simp_all add: st_bind_def st_opt_def)

section \<open>Rate limits\<close>

text \<open>\<open>add_to_counter\<close>: the second \<open>incr\<close> may raise too.\<close>

definition add_to_counter :: "'c cache_ops \<Rightarrow> string \<Rightarrow> int \<Rightarrow> int option \<Rightarrow> 'c \<Rightarrow> int option \<times> 'c" where
  "add_to_counter ops key amount window c =
     (let c1 = snd (c_add ops key (PInt 0) window c) in
      case c_incr ops key amount c1 of
        Some (n, c2) \<Rightarrow> (Some n, c2)
      | None \<Rightarrow>
          (let c2 = snd (c_add ops key (PInt 0) window c1) in
           case c_incr ops key amount c2 of
             Some (n, c3) \<Rightarrow> (Some n, c3)
           | None \<Rightarrow> (None, c2)))"

text \<open>The count a request is judged by: added first, or previewed in a dry run.\<close>

definition counted :: "'c cache_ops \<Rightarrow> string \<Rightarrow> int \<Rightarrow> int \<Rightarrow> bool \<Rightarrow> 'c \<Rightarrow> pyval option \<times> 'c" where
  "counted ops key amount window dry c =
     (if dry then (py_add (py_or (cache_get_default ops key PNone c) (PInt 0)) (PInt amount), c)
      else (case add_to_counter ops key amount (Some window) c of (n, c1) \<Rightarrow> (map_option PInt n, c1)))"

definition approach_warning :: "string \<Rightarrow> pyval \<Rightarrow> pyval \<Rightarrow> string \<Rightarrow> string list option" where
  "approach_warning what count limit name =
     do { mark \<leftarrow> py_scale limit (4 / 5);
          near \<leftarrow> py_ge count mark;
          Some (if near then [''Approaching '' @ what @ '': '' @ py_str count @ ''/'' @ py_str limit @ '' '' @ name] else []) }"

definition check_rate_limit ::
  "'c cache_ops \<Rightarrow> string \<Rightarrow> pyval \<Rightarrow> int \<Rightarrow> string \<Rightarrow> bool \<Rightarrow> 'c \<Rightarrow> presult option \<times> 'c" where
  "check_rate_limit ops key limit window name dry =
     st_bind (counted ops key 1 window dry) (\<lambda>count.
     st_bind (st_opt (py_gt count limit)) (\<lambda>over.
     if over then st_opt (Some (fail_with (''Rate limit exceeded: '' @ py_str limit @ '' '' @ name)))
     else st_opt (map_option pass_with (approach_warning ''rate limit'' count limit name))))"

text \<open>\<open>_check_token_limit\<close>: tokens that do not fit are given back.\<close>

definition give_back :: "'c cache_ops \<Rightarrow> string \<Rightarrow> int \<Rightarrow> bool \<Rightarrow> 'c \<Rightarrow> 'c" where
  "give_back ops key tokens dry c =
     (if \<not> dry \<and> tokens \<noteq> 0 then (case c_decr ops key tokens c of Some (_, c1) \<Rightarrow> c1 | None \<Rightarrow> c) else c)"

definition check_token_limit ::
  "'c cache_ops \<Rightarrow> string \<Rightarrow> pyval \<Rightarrow> int \<Rightarrow> string \<Rightarrow> bool \<Rightarrow> 'c \<Rightarrow> presult option \<times> 'c" where
  "check_token_limit ops key limit tokens name dry =
     st_bind (counted ops key tokens 86400 dry) (\<lambda>count.
     st_bind (st_opt (py_gt count limit)) (\<lambda>over c.
     if over then
       (map_option (\<lambda>before. fail_with (''Token limit exceeded: '' @ py_str limit @ '' '' @ name @ ''. Current: '' @
          py_str before @ '', Requested: '' @ show_int tokens)) (py_sub count (PInt tokens)),
        give_back ops key tokens dry c)
     else st_opt (map_option pass_with (approach_warning ''token limit'' count limit name)) c))"

text \<open>The engine's trusted identity; a claimed user splits the count only when it is verified.\<close>

definition rate_key :: "policy \<Rightarrow> string \<Rightarrow> pydict \<Rightarrow> string" where
  "rate_key p user c =
     ''zentinelle:ratelimit:'' @ py_str (dget c ''_tenant_id'' (PStr ''unknown'')) @ '':'' @
       py_str (dget c ''_endpoint_id'' (PStr ''unknown'')) @
       (if user \<noteq> [] \<and> (truthy (ctx_get c ''_user_verified'') \<or> p_scope p = USER) then '':'' @ user else [])"

definition limit_stage ::
  "policy \<Rightarrow> string \<Rightarrow> (pyval \<Rightarrow> 'c \<Rightarrow> presult option \<times> 'c) \<Rightarrow> string list \<Rightarrow>
   (string list \<Rightarrow> 'c \<Rightarrow> presult option \<times> 'c) \<Rightarrow> 'c \<Rightarrow> presult option \<times> 'c" where
  "limit_stage p key check ws rest =
     st_bind (st_opt (cfg p key PNone)) (\<lambda>limit.
     if limit = PNone then rest ws
     else st_bind (check limit) (\<lambda>r. if \<not> pr_passed r then st_opt (Some r) else rest (ws @ pr_warnings r)))"

definition eval_rate_limit ::
  "'c cache_ops \<Rightarrow> policy \<Rightarrow> string \<Rightarrow> string \<Rightarrow> bool \<Rightarrow> pydict \<Rightarrow> 'c \<Rightarrow> presult option \<times> 'c" where
  "eval_rate_limit ops p action user dry ctx =
     (let key = rate_key p user ctx in
      limit_stage p ''requests_per_minute''
        (\<lambda>limit. check_rate_limit ops (key @ '':rpm'') limit 60 ''requests per minute'' dry) [] (\<lambda>ws.
      limit_stage p ''requests_per_hour''
        (\<lambda>limit. check_rate_limit ops (key @ '':rph'') limit 3600 ''requests per hour'' dry) ws (\<lambda>ws.
      if action = ''ai_request'' then
        st_bind (st_opt (do { _ \<leftarrow> cfg p ''tokens_per_day'' PNone; res_option (py_int (dget ctx ''tokens'' (PInt 0))) })) (\<lambda>n.
        limit_stage p ''tokens_per_day''
          (\<lambda>limit. check_token_limit ops (key @ '':tokens_daily'') limit (max 0 n) ''tokens per day'' dry) ws (\<lambda>ws.
        st_opt (Some (pass_with ws))))
      else st_opt (Some (pass_with ws)))))"

section \<open>Session counters\<close>

definition COUNTERS :: "string list" where
  "COUNTERS = [''bytes_read'', ''bytes_written'', ''outbound_calls'', ''pii_accesses'', ''tool_calls'', ''session_tokens'']"

definition session_key :: "string \<Rightarrow> string \<Rightarrow> string \<Rightarrow> string" where
  "session_key session tenant counter = ''session_quota:'' @ tenant @ '':'' @ session @ '':'' @ counter"

definition increment :: "'c cache_ops \<Rightarrow> int option \<Rightarrow> string \<Rightarrow> string \<Rightarrow> string \<Rightarrow> int \<Rightarrow> 'c \<Rightarrow> int option \<times> 'c" where
  "increment ops ttl session tenant counter amount =
     st_bind (add_to_counter ops (session_key session tenant counter) amount ttl) (\<lambda>n c.
     (Some n, c_touch ops (session_key session tenant counter) ttl c))"

fun int_value :: "pyval \<Rightarrow> int option" where
  "int_value (PInt i) = Some i"
| "int_value (PBool b) = Some (if b then 1 else 0)"
| "int_value _ = None"

text \<open>\<open>get_all\<close>: the counters that are set to integers.\<close>

definition get_all :: "'c cache_ops \<Rightarrow> string \<Rightarrow> string \<Rightarrow> string list \<Rightarrow> 'c \<Rightarrow> (string \<times> int) list" where
  "get_all ops session tenant counters c =
     concat (map (\<lambda>k. case Option.bind (c_get ops (session_key session tenant k) c) int_value of
        Some i \<Rightarrow> [(k, i)] | None \<Rightarrow> []) counters)"

definition get_counter :: "'c cache_ops \<Rightarrow> string \<Rightarrow> string \<Rightarrow> string \<Rightarrow> 'c \<Rightarrow> int" where
  "get_counter ops session tenant k c =
     (case map_of (get_all ops session tenant [k] c) k of Some i \<Rightarrow> i | None \<Rightarrow> 0)"

definition reset_session :: "'c cache_ops \<Rightarrow> string \<Rightarrow> string \<Rightarrow> 'c \<Rightarrow> 'c" where
  "reset_session ops session tenant c = fold (\<lambda>k. c_delete ops (session_key session tenant k)) COUNTERS c"

section \<open>Session quota\<close>

definition DEFAULT_CONFIG :: pydict where
  "DEFAULT_CONFIG =
     [(''max_bytes_read'', PInt 52428800), (''max_bytes_written'', PInt 10485760), (''max_outbound_calls'', PInt 10),
      (''max_pii_accesses'', PInt 5), (''max_tool_calls'', PInt 200), (''max_session_tokens'', PInt 500000),
      (''warn_at_percent'', PInt 80), (''session_ttl_seconds'', PInt 86400)]"

definition quota_checks :: "(string \<times> string \<times> string) list" where
  "quota_checks =
     [(''bytes_read'', ''max_bytes_read'', ''bytes read''), (''bytes_written'', ''max_bytes_written'', ''bytes written''),
      (''outbound_calls'', ''max_outbound_calls'', ''outbound calls''), (''pii_accesses'', ''max_pii_accesses'', ''PII accesses''),
      (''tool_calls'', ''max_tool_calls'', ''tool calls''), (''session_tokens'', ''max_session_tokens'', ''session tokens'')]"

text \<open>What this request adds; a negative count adds nothing.\<close>

definition request_deltas :: "pydict \<Rightarrow> (string \<times> int) list option" where
  "request_deltas ctx =
     do { br \<leftarrow> res_option (py_int (dget ctx ''bytes_read'' (PInt 0)));
          bw \<leftarrow> res_option (py_int (dget ctx ''bytes_written'' (PInt 0)));
          tc \<leftarrow> res_option (py_int (dget ctx ''tool_call_count'' (PInt 0)));
          tk \<leftarrow> res_option (py_int (dget ctx ''tokens_used'' (PInt 0)));
          Some (filter (\<lambda>(_, n). 0 < n)
            [(''bytes_read'', br), (''bytes_written'', bw),
             (''outbound_calls'', if truthy (dget ctx ''is_outbound_call'' (PBool False)) then 1 else 0),
             (''pii_accesses'', if truthy (dget ctx ''is_pii_access'' (PBool False)) then 1 else 0),
             (''tool_calls'', tc), (''session_tokens'', tk)]) }"

definition lookup0 :: "string \<Rightarrow> (string \<times> int) list \<Rightarrow> int" where
  "lookup0 k d = (case map_of d k of Some i \<Rightarrow> i | None \<Rightarrow> 0)"

text \<open>The loop over the limits: the verdict of the first one exceeded, or the warnings.\<close>

fun quota_loop ::
  "pydict \<Rightarrow> rat \<Rightarrow> (string \<times> int) list \<Rightarrow> (string \<times> int) list \<Rightarrow> (string \<times> string \<times> string) list \<Rightarrow>
   string list \<Rightarrow> presult option" where
  "quota_loop config warn_at current deltas [] ws = Some (pass_with ws)"
| "quota_loop config warn_at current deltas ((counter, config_key, label) # rest) ws =
     (let limit = dget config config_key PNone; total = PInt (lookup0 counter current + lookup0 counter deltas) in
      if limit = PNone then quota_loop config warn_at current deltas rest ws
      else
        if_m (py_gt total limit)
          (Some (fail_with (''Session quota exceeded: '' @ label @ '' -- '' @ py_str total @ '' > '' @ py_str limit @ '' (limit)'')))
          (if_m (and_m (py_gt limit (PInt 0)) (do { mark \<leftarrow> py_scale limit warn_at; py_ge total mark }))
             (quota_loop config warn_at current deltas rest
                (ws @ [''[SessionQuota] Approaching '' @ label @ '' limit: '' @ py_str total @ ''/'' @ py_str limit]))
             (quota_loop config warn_at current deltas rest ws)))"

text \<open>The increments; a cache failure stops them and is not an error of the check.\<close>

fun increment_all :: "'c cache_ops \<Rightarrow> int option \<Rightarrow> string \<Rightarrow> string \<Rightarrow> (string \<times> int) list \<Rightarrow> 'c \<Rightarrow> 'c" where
  "increment_all ops ttl session tenant [] c = c"
| "increment_all ops ttl session tenant ((k, n) # ds) c =
     (case increment ops ttl session tenant k n c of
        (None, c1) \<Rightarrow> c1
      | (Some _, c1) \<Rightarrow> increment_all ops ttl session tenant ds c1)"

text \<open>A time to live the cache accepts: a number, or None for ever.\<close>

definition ttl_of :: "pyval \<Rightarrow> int option option" where
  "ttl_of v = (case v of PNone \<Rightarrow> Some None | _ \<Rightarrow> map_option (\<lambda>q. Some \<lfloor>q\<rfloor>) (num_of v))"

definition quota_config :: "pydict \<Rightarrow> pydict" where
  "quota_config pc = fold (\<lambda>(k, v). dput k v) pc DEFAULT_CONFIG"

definition quota_verdict :: "pydict \<Rightarrow> pydict \<Rightarrow> (string \<times> int) list \<Rightarrow> (presult \<times> (string \<times> int) list) option" where
  "quota_verdict config ctx current =
     do { percent \<leftarrow> num_of (dget config ''warn_at_percent'' (PInt 80));
          deltas \<leftarrow> request_deltas ctx;
          r \<leftarrow> quota_loop config (percent / 100) current deltas quota_checks [];
          Some (r, deltas) }"

definition eval_session_quota ::
  "'c cache_ops \<Rightarrow> policy \<Rightarrow> bool \<Rightarrow> pydict \<Rightarrow> 'c \<Rightarrow> presult option \<times> 'c" where
  "eval_session_quota ops p dry ctx c =
     (let sid = ctx_get ctx ''session_id''; session = py_str sid; tenant = py_str (dget ctx ''_tenant_id'' (PStr [])) in
      if \<not> truthy sid then (Some (pass_r\<lparr>pr_message := Some ''No session_id in context; quota not enforced''\<rparr>), c)
      else
        (case p_config p of
           PDict pc \<Rightarrow>
             (case quota_verdict (quota_config pc) ctx (get_all ops session tenant COUNTERS c) of
                None \<Rightarrow> (None, c)
              | Some (r, deltas) \<Rightarrow>
                  (Some r,
                   if \<not> pr_passed r \<or> dry then c
                   else
                     (case ttl_of (dget (quota_config pc) ''session_ttl_seconds'' (PInt 86400)) of
                        Some ttl \<Rightarrow> increment_all ops ttl session tenant deltas c
                      | None \<Rightarrow> c)))
         | _ \<Rightarrow> (None, c)))"

end
