(* ===== verification/SessionRules.thy ===== *)
theory SessionRules
  imports EvalSession ActionTargets
begin

text \<open>
  Rate limits and session quotas hold over a lawful cache: one contract for a counter every
  replica shares (\<open>shared_counter\<close>), given by the cache operations the code uses, and what the
  rate limit, the daily tokens and the session quota make of it.
\<close>

section \<open>A shared counter\<close>

definition count_at :: "'c cache_ops \<Rightarrow> string \<Rightarrow> int \<Rightarrow> 'c \<Rightarrow> bool" where
  "count_at ops key n c \<longleftrightarrow> c_get ops key c = Some (PInt n) \<or> (n = 0 \<and> c_get ops key c = None)"

lemma add_to_counter_law:
  assumes "cache_laws ops" "count_at ops key n c"
  obtains c' where "add_to_counter ops key d t c = (Some (n + d), c')" "c_get ops key c' = Some (PInt (n + d))"
    "\<And>k. k \<noteq> key \<Longrightarrow> c_get ops k c' = c_get ops k c"
proof -
  let ?c1 = "snd (c_add ops key (PInt 0) t c)"
  have "c_get ops key ?c1 = Some (PInt n)"
    using assms by (auto simp: count_at_def cache_simps)
  then obtain c' where c': "c_incr ops key d ?c1 = Some (n + d, c')" "c_get ops key c' = Some (PInt (n + d))"
    "\<And>k. k \<noteq> key \<Longrightarrow> c_get ops k c' = c_get ops k ?c1"
    using incr_present [OF assms(1), of key ?c1 n d] by metis
  show thesis
    by (rule that [of c']) (use c' assms(1) in \<open>simp_all add: add_to_counter_def Let_def cache_simps\<close>)
qed

lemma counted_law:
  assumes "cache_laws ops" "count_at ops key n c"
  obtains c' where "counted ops key d t False c = (Some (PInt (n + d)), c')"
    "c_get ops key c' = Some (PInt (n + d))" "\<And>k. k \<noteq> key \<Longrightarrow> c_get ops k c' = c_get ops k c"
proof -
  obtain c' where "add_to_counter ops key d (Some t) c = (Some (n + d), c')"
    "c_get ops key c' = Some (PInt (n + d))" "\<And>k. k \<noteq> key \<Longrightarrow> c_get ops k c' = c_get ops k c"
    using add_to_counter_law [OF assms] by metis
  then show thesis by (intro that [of c']) (simp_all add: counted_def)
qed

lemma counted_dry:
  "count_at ops key n c \<Longrightarrow> counted ops key d t True c = (Some (PInt (n + d)), c)"
  by (auto simp: counted_def count_at_def cache_get_default_def py_or_def)

lemma approach_warning_int: "\<exists>ws. approach_warning what (PInt n) (PInt l) name = Some ws"
  by (simp add: approach_warning_def py_ge_def)

lemma check_rate_limit_dry:
  assumes "count_at ops key n c"
  shows "\<exists>r. check_rate_limit ops key (PInt l) t name True c = (Some r, c) \<and> (pr_passed r \<longleftrightarrow> n + 1 \<le> l)"
proof -
  obtain ws where "approach_warning ''rate limit'' (PInt (n + 1)) (PInt l) name = Some ws"
    using approach_warning_int by blast
  with counted_dry [OF assms, of 1 t] show ?thesis
    by (auto simp: check_rate_limit_def st_bind_def [of "counted ops key 1 t True"]) (simp_all add: st_opt_def)
qed

lemma check_rate_limit_law:
  assumes "cache_laws ops" "count_at ops key n c"
  obtains r c' where "check_rate_limit ops key (PInt l) t name False c = (Some r, c')"
    "count_at ops key (n + 1) c'" "pr_passed r \<longleftrightarrow> n + 1 \<le> l" "\<And>k. k \<noteq> key \<Longrightarrow> c_get ops k c' = c_get ops k c"
proof -
  obtain c' where c': "counted ops key 1 t False c = (Some (PInt (n + 1)), c')"
    "c_get ops key c' = Some (PInt (n + 1))" "\<And>k. k \<noteq> key \<Longrightarrow> c_get ops k c' = c_get ops k c"
    using counted_law [OF assms, of 1 t] by metis
  obtain ws where ws: "approach_warning ''rate limit'' (PInt (n + 1)) (PInt l) name = Some ws"
    using approach_warning_int by blast
  let ?r = "if l < n + 1 then fail_with (''Rate limit exceeded: '' @ py_str (PInt l) @ '' '' @ name) else pass_with ws"
  have "check_rate_limit ops key (PInt l) t name False c = (Some ?r, c')"
    by (simp add: check_rate_limit_def st_bind_def [of "counted ops key 1 t False"] c'(1) ws) (simp add: st_opt_def)
  then show thesis by (rule that) (use c' in \<open>auto simp: count_at_def\<close>)
qed

text \<open>\<open>m\<close> requests one after the other, however they are spread over replicas.\<close>

fun attempts :: "'c cache_ops \<Rightarrow> string \<Rightarrow> int \<Rightarrow> int \<Rightarrow> nat \<Rightarrow> 'c \<Rightarrow> bool list \<times> 'c" where
  "attempts ops key l t 0 c = ([], c)"
| "attempts ops key l t (Suc m) c =
     (case check_rate_limit ops key (PInt l) t [] False c of
        (None, c1) \<Rightarrow> attempts ops key l t m c1
      | (Some r, c1) \<Rightarrow> (case attempts ops key l t m c1 of (bs, c2) \<Rightarrow> (pr_passed r # bs, c2)))"

text \<open>
  The rate limit is exact. Over a cache that keeps its entries for the window, of any number of
  requests counted under one key the first ones pass until the limit is reached and every later one
  is refused, the counter holds every request, refused ones included, and a dry run predicts the
  next verdict and leaves the cache alone.
\<close>

lemma rate_limit_exact:
  assumes "cache_laws ops" "count_at ops key n c" "0 \<le> n"
  shows "\<exists>c'. attempts ops key l t m c =
      (map (\<lambda>i. n + int i < l) [0..<m], c') \<and> count_at ops key (n + int m) c' \<and>
    (\<exists>r. check_rate_limit ops key (PInt l) t name True c' = (Some r, c') \<and> (pr_passed r \<longleftrightarrow> n + int m < l))"
  using assms(2,3)
proof (induction m arbitrary: n c)
  case 0
  from check_rate_limit_dry [OF 0(1), of l t name]
  obtain r where "check_rate_limit ops key (PInt l) t name True c = (Some r, c)" "pr_passed r \<longleftrightarrow> n < l"
    by auto
  with 0 show ?case by simp
next
  case (Suc m)
  obtain r c1 where r: "check_rate_limit ops key (PInt l) t [] False c = (Some r, c1)"
    "count_at ops key (n + 1) c1" "pr_passed r \<longleftrightarrow> n + 1 \<le> l"
    using check_rate_limit_law [OF assms(1) Suc.prems(1), of l t "[]"] by metis
  have verdicts: "map (\<lambda>i. n + int i < l) [0..<Suc m] = pr_passed r # map (\<lambda>i. n + 1 + int i < l) [0..<m]"
    using r(3) by (auto simp: map_upt_Suc ac_simps simp del: upt_Suc)
  have sum: "n + 1 + int m = n + int (Suc m)" by simp
  have "0 \<le> n + 1" using Suc.prems by simp
  from Suc.IH [OF r(2) this] show ?case
    unfolding sum verdicts attempts.simps r(1) by (elim exE conjE) (intro exI conjI, simp_all)
qed

lemma rate_limit_exact_witness:
  "\<exists>c'. attempts dict_cache ''k'' 3 60 5 [(''k'', PInt 1)] = ([True, True, False, False, False], c') \<and>
     c_get dict_cache ''k'' c' = Some (PInt 6)"
proof -
  have "count_at dict_cache ''k'' 1 [(''k'', PInt 1)]" by (simp add: count_at_def dict_cache_def)
  from rate_limit_exact [OF dict_cache_laws this, of 3 60 5] show ?thesis
    by (auto simp: count_at_def numeral_eq_Suc)
qed

section \<open>Daily tokens\<close>

lemma give_back_law:
  assumes "cache_laws ops" "c_get ops key c = Some (PInt (n + d))"
  shows "\<exists>c'. give_back ops key d False c = c' \<and> c_get ops key c' = Some (PInt n) \<and>
    (\<forall>k. k \<noteq> key \<longrightarrow> c_get ops k c' = c_get ops k c)"
proof (cases "d = 0")
  case True
  with assms show ?thesis by (simp add: give_back_def)
next
  case False
  obtain c' where "c_decr ops key d c = Some (n + d - d, c')" "c_get ops key c' = Some (PInt (n + d - d))"
    "\<And>k. k \<noteq> key \<Longrightarrow> c_get ops k c' = c_get ops k c"
    using decr_present [OF assms, of d] by metis
  with False show ?thesis by (simp add: give_back_def)
qed

lemma check_token_limit_law:
  assumes "cache_laws ops" "count_at ops key n c"
  obtains r c' where "check_token_limit ops key (PInt l) d name False c = (Some r, c')"
    "pr_passed r \<longleftrightarrow> n + d \<le> l" "count_at ops key (if n + d \<le> l then n + d else n) c'"
    "\<And>k. k \<noteq> key \<Longrightarrow> c_get ops k c' = c_get ops k c"
proof -
  obtain c1 where c1: "counted ops key d 86400 False c = (Some (PInt (n + d)), c1)"
    "c_get ops key c1 = Some (PInt (n + d))" "\<And>k. k \<noteq> key \<Longrightarrow> c_get ops k c1 = c_get ops k c"
    using counted_law [OF assms, of d 86400] by metis
  obtain c2 where c2: "give_back ops key d False c1 = c2" "c_get ops key c2 = Some (PInt n)"
    "\<forall>k. k \<noteq> key \<longrightarrow> c_get ops k c2 = c_get ops k c1"
    using give_back_law [OF assms(1) c1(2)] by blast
  obtain ws where ws: "approach_warning ''token limit'' (PInt (n + d)) (PInt l) name = Some ws"
    using approach_warning_int by blast
  let ?run = "check_token_limit ops key (PInt l) d name False c"
  note run = check_token_limit_def st_bind_def [of "counted ops key d 86400 False"] c1(1)
  show thesis
  proof (cases "l < n + d")
    case True
    then have "?run = (Some (fail_with (''Token limit exceeded: '' @ py_str (PInt l) @ '' '' @ name @
        ''. Current: '' @ py_str (PInt n) @ '', Requested: '' @ show_int d)), c2)"
      by (simp add: run c2(1))
    then show thesis by (rule that) (use True c1 c2 in \<open>auto simp: count_at_def\<close>)
  next
    case False
    then have "?run = (Some (pass_with ws), c1)" by (simp add: run ws) (simp add: st_opt_def)
    then show thesis by (rule that) (use False c1 in \<open>auto simp: count_at_def\<close>)
  qed
qed

fun token_run :: "'c cache_ops \<Rightarrow> string \<Rightarrow> int \<Rightarrow> int list \<Rightarrow> 'c \<Rightarrow> bool list \<times> 'c" where
  "token_run ops key l [] c = ([], c)"
| "token_run ops key l (d # ds) c =
     (case check_token_limit ops key (PInt l) d [] False c of
        (None, c1) \<Rightarrow> token_run ops key l ds c1
      | (Some r, c1) \<Rightarrow> (case token_run ops key l ds c1 of (bs, c2) \<Rightarrow> (pr_passed r # bs, c2)))"

text \<open>The reference: a request passes when it fits into what the admitted ones left.\<close>

fun greedy :: "int \<Rightarrow> int \<Rightarrow> int list \<Rightarrow> bool list" where
  "greedy l n [] = []"
| "greedy l n (d # ds) = (if n + d \<le> l then True # greedy l (n + d) ds else False # greedy l n ds)"

definition admitted :: "int list \<Rightarrow> bool list \<Rightarrow> int" where
  "admitted ds bs = sum_list (map fst (filter snd (zip ds bs)))"

lemma greedy_within: "n \<le> l \<Longrightarrow> n + admitted ds (greedy l n ds) \<le> l"
proof (induction ds arbitrary: n)
  case Nil
  then show ?case by (simp add: admitted_def)
next
  case (Cons d ds)
  show ?case
  proof (cases "n + d \<le> l")
    case True
    with Cons.IH [OF True] show ?thesis by (simp add: admitted_def)
  next
    case False
    with Cons.IH [OF Cons.prems] show ?thesis by (simp add: admitted_def)
  qed
qed

text \<open>
  C37: The daily token budget is kept, and only by the tokens that passed. Over a lawful cache any
  sequence of requests gets the verdicts of the greedy reference, each passing exactly when it fits
  into what is left; the counter ends at the tokens admitted, because a refused request gives its
  tokens back; and it is never above the limit.
\<close>

theorem token_budget_kept:
  assumes "cache_laws ops" "count_at ops key n c" "n \<le> l"
  shows "\<exists>c'. token_run ops key l ds c = (greedy l n ds, c') \<and>
    count_at ops key (n + admitted ds (greedy l n ds)) c' \<and> n + admitted ds (greedy l n ds) \<le> l"
  using assms(2,3)
proof (induction ds arbitrary: n c)
  case Nil
  then show ?case by (simp add: admitted_def)
next
  case (Cons d ds)
  let ?m = "if n + d \<le> l then n + d else n"
  obtain r c1 where r: "check_token_limit ops key (PInt l) d [] False c = (Some r, c1)"
    "pr_passed r \<longleftrightarrow> n + d \<le> l" "count_at ops key ?m c1"
    using check_token_limit_law [OF assms(1) Cons.prems(1), of l d "[]"] by metis
  from Cons.prems have "?m \<le> l" by simp
  from Cons.IH [OF r(3) this] obtain c' where c': "token_run ops key l ds c1 = (greedy l ?m ds, c')"
    "count_at ops key (?m + admitted ds (greedy l ?m ds)) c'" by blast
  have "greedy l n (d # ds) = pr_passed r # greedy l ?m ds" using r(2) by simp
  moreover have "n + admitted (d # ds) (pr_passed r # greedy l ?m ds) = ?m + admitted ds (greedy l ?m ds)"
    using r(2) by (simp add: admitted_def)
  moreover have "n + admitted (d # ds) (greedy l n (d # ds)) \<le> l"
    by (rule greedy_within [OF Cons.prems(2)])
  ultimately show ?case using c' by (simp add: r(1))
qed

theorem token_budget_kept_witness:
  "\<exists>c'. token_run dict_cache ''k'' 100 [60, 50, 40] [] = ([True, False, True], c') \<and>
     c_get dict_cache ''k'' c' = Some (PInt 100)"
proof -
  have "count_at dict_cache ''k'' 0 []" by (simp add: count_at_def dict_cache_def)
  from token_budget_kept [OF dict_cache_laws this, of 100 "[60, 50, 40]"] show ?thesis
    by (auto simp: count_at_def admitted_def)
qed

section \<open>Session quotas\<close>

lemma session_key_inject [simp]: "session_key session tenant k = session_key session tenant k' \<longleftrightarrow> k = k'"
  by (simp add: session_key_def)

definition counter_ok :: "'c cache_ops \<Rightarrow> string \<Rightarrow> string \<Rightarrow> 'c \<Rightarrow> string \<Rightarrow> bool" where
  "counter_ok ops session tenant c k \<longleftrightarrow>
     (case c_get ops (session_key session tenant k) c of None \<Rightarrow> True | Some v \<Rightarrow> is_int_nb v)"

lemma counter_ok_count: "counter_ok ops session tenant c k \<longleftrightarrow> (\<exists>n. count_at ops (session_key session tenant k) n c)"
  by (auto simp: counter_ok_def count_at_def split: option.splits elim: is_int_nb.elims)

lemma get_counter_count_at:
  "count_at ops (session_key session tenant k) n c \<Longrightarrow> get_counter ops session tenant k c = n"
  by (auto simp: get_counter_def get_all_def count_at_def)

lemma count_at_get_counter:
  "counter_ok ops session tenant c k \<Longrightarrow>
   count_at ops (session_key session tenant k) (get_counter ops session tenant k c) c"
  using get_counter_count_at unfolding counter_ok_count by metis

lemma map_of_concat_other: "k \<notin> set ks \<Longrightarrow> map_of (concat (map (\<lambda>k. case f k of Some i \<Rightarrow> [(k, i)] | None \<Rightarrow> []) ks)) k = None"
  by (induction ks) (auto split: option.splits)

lemma lookup0_get_all:
  "k \<in> set ks \<Longrightarrow> distinct ks \<Longrightarrow> lookup0 k (get_all ops session tenant ks c) = get_counter ops session tenant k c"
proof (induction ks)
  case Nil
  then show ?case by simp
next
  case (Cons a ks)
  have tail: "a \<notin> set ks \<Longrightarrow> map_of (get_all ops session tenant ks c) a = None"
    unfolding get_all_def by (rule map_of_concat_other)
  show ?case
  proof (cases "k = a")
    case True
    with Cons.prems tail show ?thesis
      by (auto simp: lookup0_def get_counter_def get_all_def split: option.splits)
  next
    case False
    with Cons show ?thesis
      by (auto simp: lookup0_def get_all_def split: option.splits)
  qed
qed

lemma increment_law:
  assumes "cache_laws ops" "count_at ops (session_key session tenant k) n c"
  obtains c' where "increment ops ttl session tenant k d c = (Some (n + d), c')"
    "count_at ops (session_key session tenant k) (n + d) c'"
    "\<And>key. key \<noteq> session_key session tenant k \<Longrightarrow> c_get ops key c' = c_get ops key c"
proof -
  obtain c1 where c1: "add_to_counter ops (session_key session tenant k) d ttl c = (Some (n + d), c1)"
    "c_get ops (session_key session tenant k) c1 = Some (PInt (n + d))"
    "\<And>key. key \<noteq> session_key session tenant k \<Longrightarrow> c_get ops key c1 = c_get ops key c"
    using add_to_counter_law [OF assms, of d ttl] by metis
  show thesis
    by (rule that [of "c_touch ops (session_key session tenant k) ttl c1"])
      (use c1 assms(1) in \<open>simp_all add: increment_def st_bind_def count_at_def cache_simps\<close>)
qed

lemma increment_all_law:
  assumes "cache_laws ops" "list_all (counter_ok ops session tenant c) ks" "distinct (map fst ds)"
    "fst ` set ds \<subseteq> set ks"
  shows "list_all (counter_ok ops session tenant (increment_all ops ttl session tenant ds c)) ks \<and>
    (\<forall>k \<in> set ks. get_counter ops session tenant k (increment_all ops ttl session tenant ds c) =
       get_counter ops session tenant k c + lookup0 k ds) \<and>
    (\<forall>key. (\<forall>k. key \<noteq> session_key session tenant k) \<longrightarrow>
       c_get ops key (increment_all ops ttl session tenant ds c) = c_get ops key c)"
  using assms(2-4)
proof (induction ds arbitrary: c)
  case Nil
  then show ?case by (simp add: lookup0_def)
next
  case (Cons e ds)
  obtain k d where e [simp]: "e = (k, d)" by (cases e)
  from Cons.prems have k: "k \<in> set ks" "k \<notin> fst ` set ds" by auto
  from Cons.prems(1) k have "counter_ok ops session tenant c k" by (simp add: list_all_iff)
  from increment_law [OF assms(1) count_at_get_counter [OF this], of ttl d]
  obtain c1 where c1: "increment ops ttl session tenant k d c = (Some (get_counter ops session tenant k c + d), c1)"
    "count_at ops (session_key session tenant k) (get_counter ops session tenant k c + d) c1"
    "\<And>key. key \<noteq> session_key session tenant k \<Longrightarrow> c_get ops key c1 = c_get ops key c" by metis
  have other: "k' \<noteq> k \<Longrightarrow> counter_ok ops session tenant c1 k' = counter_ok ops session tenant c k' \<and>
      get_counter ops session tenant k' c1 = get_counter ops session tenant k' c" for k'
    by (simp add: counter_ok_def get_counter_def get_all_def c1(3))
  have "counter_ok ops session tenant c1 k" using c1(2) by (auto simp: counter_ok_count)
  with other Cons.prems(1) have ok: "list_all (counter_ok ops session tenant c1) ks"
    by (auto simp: list_all_iff) metis
  have now: "get_counter ops session tenant k c1 = get_counter ops session tenant k c + d"
    by (rule get_counter_count_at [OF c1(2)])
  have "map_of ds k = None" using k(2) by (simp add: map_of_eq_None_iff)
  then have added: "get_counter ops session tenant k' c1 + lookup0 k' ds = get_counter ops session tenant k' c + lookup0 k' (e # ds)" for k'
    using now other [of k'] by (cases "k' = k") (simp_all add: lookup0_def)
  show ?case
    using Cons.IH [OF ok] Cons.prems(2,3) c1 added by simp
qed

lemma quota_loop_within:
  assumes "quota_loop config w cur ds checks ws = Some r" "pr_passed r"
    "(k, ck, label) \<in> set checks" "dget config ck PNone = PInt l"
  shows "lookup0 k cur + lookup0 k ds \<le> l"
  using assms
proof (induction checks arbitrary: ws)
  case Nil
  then show ?case by simp
next
  case (Cons a checks)
  obtain k' ck' lab' where a: "a = (k', ck', lab')" by (cases a)
  from Cons.prems(1) have rest: "\<exists>ws'. quota_loop config w cur ds checks ws' = Some r \<and>
     (dget config ck' PNone = PNone \<or> py_gt (PInt (lookup0 k' cur + lookup0 k' ds)) (dget config ck' PNone) = Some False)"
    using Cons.prems(2) by (auto simp: a Let_def if_m_eq_Some split: if_splits)
  with Cons show ?case by (auto simp: a)
qed

lemma request_deltas_keys:
  "request_deltas ctx = Some ds \<Longrightarrow> distinct (map fst ds) \<and> fst ` set ds \<subseteq> set COUNTERS"
  by (auto simp: request_deltas_def COUNTERS_def bind_eq_Some_conv split: if_splits)

lemma quota_checks_counters: "(k, ck, label) \<in> set quota_checks \<Longrightarrow> k \<in> set COUNTERS"
  by (auto simp: quota_checks_def COUNTERS_def)

lemma distinct_COUNTERS: "distinct COUNTERS"
  by (simp add: COUNTERS_def)

lemma eval_session_quota_run:
  assumes "p_config p = PDict pc" "ctx_get ctx ''session_id'' = PStr session" "session \<noteq> []"
    "dget ctx ''_tenant_id'' (PStr []) = PStr tenant"
    "dget (quota_config pc) ''session_ttl_seconds'' (PInt 86400) = PInt ttl"
    "eval_session_quota ops p dry ctx c = (Some r, c')"
  shows "\<exists>ds. quota_verdict (quota_config pc) ctx (get_all ops session tenant COUNTERS c) = Some (r, ds) \<and>
    c' = (if \<not> pr_passed r \<or> dry then c else increment_all ops (Some ttl) session tenant ds c)"
proof (cases "quota_verdict (quota_config pc) ctx (get_all ops session tenant COUNTERS c)")
  case None
  with assms show ?thesis by (simp add: eval_session_quota_def)
next
  case (Some v)
  with assms show ?thesis by (cases v) (auto simp: eval_session_quota_def ttl_of_def split: if_splits)
qed

lemma quota_verdict_within:
  assumes "quota_verdict config ctx cur = Some (r, ds)" "pr_passed r" "(k, ck, label) \<in> set quota_checks"
    "dget config ck PNone = PInt l"
  shows "lookup0 k cur + lookup0 k ds \<le> l"
  using assms quota_loop_within by (auto simp: quota_verdict_def bind_eq_Some_conv)

lemma quota_verdict_deltas: "quota_verdict config ctx cur = Some (r, ds) \<Longrightarrow> request_deltas ctx = Some ds"
  by (auto simp: quota_verdict_def bind_eq_Some_conv)

text \<open>
  C38: A session stays within its quota. Over a lawful cache that holds integers, a live call that
  passes adds exactly its own counts to the session's counters, each of which stays within its
  integer limit; a refused call and a dry run change nothing; and no call touches an entry that
  is no counter of its own session and tenant.
\<close>

theorem session_quota_kept:
  assumes "cache_laws ops" "list_all (counter_ok ops session tenant c) COUNTERS"
    "p_config p = PDict pc" "ctx_get ctx ''session_id'' = PStr session" "session \<noteq> []"
    "dget ctx ''_tenant_id'' (PStr []) = PStr tenant"
    "dget (quota_config pc) ''session_ttl_seconds'' (PInt 86400) = PInt ttl"
    "eval_session_quota ops p dry ctx c = (Some r, c')"
  shows "(pr_passed r \<and> \<not> dry \<longrightarrow> (\<exists>ds. request_deltas ctx = Some ds \<and>
      (\<forall>(k, ck, label) \<in> set quota_checks.
         get_counter ops session tenant k c' = get_counter ops session tenant k c + lookup0 k ds \<and>
         (\<forall>l. dget (quota_config pc) ck PNone = PInt l \<longrightarrow> get_counter ops session tenant k c' \<le> l)))) \<and>
    (\<not> pr_passed r \<or> dry \<longrightarrow> c' = c) \<and>
    (\<forall>key. (\<forall>k. key \<noteq> session_key session tenant k) \<longrightarrow> c_get ops key c' = c_get ops key c)"
proof -
  obtain ds where verdict: "quota_verdict (quota_config pc) ctx (get_all ops session tenant COUNTERS c) = Some (r, ds)"
    and run: "c' = (if \<not> pr_passed r \<or> dry then c else increment_all ops (Some ttl) session tenant ds c)"
    using eval_session_quota_run [OF assms(3-8)] by blast
  have ds: "request_deltas ctx = Some ds" by (rule quota_verdict_deltas [OF verdict])
  note incr = increment_all_law [OF assms(1,2), of ds "Some ttl"] request_deltas_keys [OF ds]
  show ?thesis
  proof (cases "\<not> pr_passed r \<or> dry")
    case True
    then show ?thesis using run by auto
  next
    case False
    then have c': "c' = increment_all ops (Some ttl) session tenant ds c" using run by simp
    have "get_counter ops session tenant k c' = get_counter ops session tenant k c + lookup0 k ds \<and>
        (\<forall>l. dget (quota_config pc) ck PNone = PInt l \<longrightarrow> get_counter ops session tenant k c' \<le> l)"
      if check: "(k, ck, label) \<in> set quota_checks" for k ck label
    proof -
      have k: "k \<in> set COUNTERS" by (rule quota_checks_counters [OF check])
      have new: "get_counter ops session tenant k c' = get_counter ops session tenant k c + lookup0 k ds"
        unfolding c' using incr k by blast
      moreover have "lookup0 k (get_all ops session tenant COUNTERS c) = get_counter ops session tenant k c"
        by (rule lookup0_get_all [OF k distinct_COUNTERS])
      ultimately show ?thesis using quota_verdict_within [OF verdict _ check] False by simp
    qed
    then have "\<forall>(k, ck, label) \<in> set quota_checks.
        get_counter ops session tenant k c' = get_counter ops session tenant k c + lookup0 k ds \<and>
        (\<forall>l. dget (quota_config pc) ck PNone = PInt l \<longrightarrow> get_counter ops session tenant k c' \<le> l)" by blast
    moreover have "\<forall>key. (\<forall>k. key \<noteq> session_key session tenant k) \<longrightarrow> c_get ops key c' = c_get ops key c"
      unfolding c' using incr by simp
    ultimately show ?thesis using False ds by simp
  qed
qed

definition demo_quota :: policy where
  "demo_quota = demo_policy\<lparr>p_type := ''session_quota'', p_config := PDict [(''max_tool_calls'', PInt 2)]\<rparr>"

definition demo_session :: pydict where
  "demo_session = [(''session_id'', PStr ''s''), (''_tenant_id'', PStr ''t''), (''tool_call_count'', PInt 1)]"

lemma demo_quota_run:
  "eval_session_quota dict_cache demo_quota False demo_session [] =
     (Some pass_r, [(''session_quota:t:s:tool_calls'', PInt 1)])"
proof -
  have deltas: "request_deltas demo_session = Some [(''tool_calls'', 1)]" by code_simp
  have "get_all dict_cache ''s'' ''t'' COUNTERS [] = []" by code_simp
  moreover have "quota_config [(''max_tool_calls'', PInt 2)] = dput ''max_tool_calls'' (PInt 2) DEFAULT_CONFIG"
    by (simp add: quota_config_def)
  then have "quota_verdict (quota_config [(''max_tool_calls'', PInt 2)]) demo_session [] = Some (pass_r, [(''tool_calls'', 1)])"
    by (simp add: quota_verdict_def deltas quota_checks_def DEFAULT_CONFIG_def dget_def lookup0_def py_gt_def py_ge_def Let_def)
  moreover have "increment_all dict_cache (Some 86400) ''s'' ''t'' [(''tool_calls'', 1)] [] = [(''session_quota:t:s:tool_calls'', PInt 1)]"
    by code_simp
  ultimately show ?thesis
    by (simp add: eval_session_quota_def demo_quota_def demo_session_def ctx_get_def dget_def quota_config_def DEFAULT_CONFIG_def ttl_of_def)
qed

theorem session_quota_kept_witness:
  "\<exists>c'. eval_session_quota dict_cache demo_quota False demo_session [] = (Some pass_r, c') \<and>
     get_counter dict_cache ''s'' ''t'' ''tool_calls'' c' = 1 \<and> c_get dict_cache ''k'' c' = None"
proof -
  have checks: "list_all (counter_ok dict_cache ''s'' ''t'' []) COUNTERS"
    "p_config demo_quota = PDict [(''max_tool_calls'', PInt 2)]" "ctx_get demo_session ''session_id'' = PStr ''s''"
    "''s'' \<noteq> []" "dget demo_session ''_tenant_id'' (PStr []) = PStr ''t''"
    "dget (quota_config [(''max_tool_calls'', PInt 2)]) ''session_ttl_seconds'' (PInt 86400) = PInt 86400"
    by code_simp+
  note kept = session_quota_kept [OF dict_cache_laws checks demo_quota_run]
  have "get_counter dict_cache ''s'' ''t'' ''tool_calls'' [] = 0" "map_option (lookup0 ''tool_calls'') (request_deltas demo_session) = Some 1"
    by code_simp+
  moreover have "(''tool_calls'', ''max_tool_calls'', ''tool calls'') \<in> set quota_checks" by (simp add: quota_checks_def)
  moreover have "\<forall>k. ''k'' \<noteq> session_key ''s'' ''t'' k" by (simp add: session_key_def)
  then have "c_get dict_cache ''k'' [(''session_quota:t:s:tool_calls'', PInt 1)] = c_get dict_cache ''k'' []"
    using kept by blast
  moreover have "c_get dict_cache ''k'' [] = None" by (simp add: dict_cache_def)
  ultimately show ?thesis using kept demo_quota_run by fastforce
qed

end
