(* ===== verification/EvalClock.thy ===== *)
theory EvalClock
  imports PolicyModel Cache
begin

text \<open>
  The evaluators that read the clock or a learned baseline (\<open>services/evaluators/\<close>: session policy,
  data retention, behavioral baseline; \<open>services/behavioral_baseline.py\<close>). The clock is a number of
  microseconds since 1970 in UTC. \<open>datetime.fromisoformat\<close> and \<open>json.loads\<close> are arguments, None where
  they raise ValueError; a text without an offset is read as UTC.
\<close>

section \<open>Time\<close>

definition minute_us :: int where "minute_us = 60000000"
definition day_us :: int where "day_us = 86400000000"

definition hour_of :: "int \<Rightarrow> int" where "hour_of now = now div (60 * minute_us) mod 24"
definition minute_of :: "int \<Rightarrow> int" where "minute_of now = now div minute_us mod 60"

text \<open>\<open>weekday()\<close>: Monday is 0, and the first of January 1970 was a Thursday.\<close>

definition weekday :: "int \<Rightarrow> int" where "weekday now = (now div day_us + 3) mod 7"

text \<open>\<open>_parse_timestamp\<close>: seconds are rounded to microseconds, half to even, in the years 1 to 9999.\<close>

definition from_timestamp :: "rat \<Rightarrow> int option" where
  "from_timestamp q =
     (let t = round_half_even (q * 1000000) in
      if -62135596800000000 \<le> t \<and> t < 253402300800000000 then Some t else None)"

definition zulu :: "string \<Rightarrow> string" where
  "zulu s = concat (map (\<lambda>ch. if ch = CHR ''Z'' then ''+00:00'' else [ch]) s)"

fun parse_timestamp :: "(string \<Rightarrow> int option) \<Rightarrow> pyval \<Rightarrow> int option" where
  "parse_timestamp fromiso (PStr s) = fromiso (zulu s)"
| "parse_timestamp fromiso v = Option.bind (num_of v) from_timestamp"

section \<open>Session policy\<close>

text \<open>\<open>f"{v:02d}"\<close>.\<close>

fun two_digits :: "pyval \<Rightarrow> string option" where
  "two_digits (PInt i) = Some (if i < 0 then ''-'' @ show_nat (nat (- i)) else pad_zeros 2 (show_nat (nat i)))"
| "two_digits (PBool b) = Some (if b then ''01'' else ''00'')"
| "two_digits _ = None"

definition DAY_NAMES :: "string list" where
  "DAY_NAMES = [''Mon'', ''Tue'', ''Wed'', ''Thu'', ''Fri'', ''Sat'', ''Sun'']"

text \<open>\<open>day_names[d]\<close>: negative indices count from the end, others raise.\<close>

definition index_day :: "int \<Rightarrow> string option" where
  "index_day i = (if 0 \<le> i \<and> i < 7 then Some (DAY_NAMES ! nat i)
     else if -7 \<le> i \<and> i < 0 then Some (DAY_NAMES ! nat (7 + i)) else None)"

fun day_name :: "pyval \<Rightarrow> string option" where
  "day_name (PInt i) = index_day i"
| "day_name (PBool b) = index_day (if b then 1 else 0)"
| "day_name _ = None"

text \<open>A check: None where it raises, \<open>Inl\<close> a refusal that ends the evaluation, \<open>Inr\<close> the warnings.\<close>

type_synonym check = "(presult + string list) option"

fun run_checks :: "check list \<Rightarrow> string list \<Rightarrow> presult option" where
  "run_checks [] ws = Some (pass_with ws)"
| "run_checks (ck # cks) ws =
     (case ck of None \<Rightarrow> None | Some (Inl r) \<Rightarrow> Some r | Some (Inr news) \<Rightarrow> run_checks cks (ws @ news))"

abbreviation refuse :: "string \<Rightarrow> check" where
  "refuse m \<equiv> Some (Inl (fail_with m))"

abbreviation silent :: check where
  "silent \<equiv> Some (Inr [])"

definition hours_check :: "int \<Rightarrow> policy \<Rightarrow> check" where
  "hours_check now p =
     do { allowed \<leftarrow> cfg p ''allowed_hours'' PNone;
          if \<not> truthy allowed then silent
          else do {
            start \<leftarrow> pget allowed ''start'' (PInt 0);
            stop \<leftarrow> pget allowed ''end'' (PInt 24);
            allowed_now \<leftarrow> and_m (py_le start (PInt (hour_of now))) (py_lt (PInt (hour_of now)) stop);
            if allowed_now then silent
            else do {
              a \<leftarrow> two_digits start; b \<leftarrow> two_digits stop;
              h \<leftarrow> two_digits (PInt (hour_of now)); m \<leftarrow> two_digits (PInt (minute_of now));
              refuse (''Policy '' @ quoted (p_name p) @ '' restricts access to hours '' @ a @ '':00-'' @ b @
                '':00 UTC. Current time: '' @ h @ '':'' @ m @ '' UTC.'') } } }"

definition days_check :: "int \<Rightarrow> policy \<Rightarrow> check" where
  "days_check now p =
     do { allowed \<leftarrow> cfg p ''allowed_days'' PNone;
          if allowed = PNone then silent
          else do {
            allowed_now \<leftarrow> py_in (PInt (weekday now)) allowed;
            if allowed_now then silent
            else do {
              ds \<leftarrow> py_iter allowed; names \<leftarrow> map_m day_name ds;
              refuse (''Policy '' @ quoted (p_name p) @ '' does not permit access on '' @
                DAY_NAMES ! nat (weekday now) @ ''. Allowed days: '' @ py_repr (PList (map PStr names)) @ ''.'') } } }"

definition minutes_since :: "int \<Rightarrow> int \<Rightarrow> rat" where
  "minutes_since now t = of_int (now - t) / of_int minute_us"

definition whole :: "rat \<Rightarrow> int" where
  "whole q = (if q < 0 then \<lceil>q\<rceil> else \<lfloor>q\<rfloor>)"

definition duration_check :: "(string \<Rightarrow> int option) \<Rightarrow> int \<Rightarrow> policy \<Rightarrow> pydict \<Rightarrow> check" where
  "duration_check fromiso now p ctx =
     do { limit \<leftarrow> cfg p ''max_session_duration_minutes'' PNone;
          let raw = ctx_get ctx ''session_started_at'';
          if truthy limit \<and> truthy raw then
            (case parse_timestamp fromiso raw of
               None \<Rightarrow> silent
             | Some t \<Rightarrow> do {
                 let elapsed = minutes_since now t;
                 over \<leftarrow> py_gt (PFloat elapsed) limit;
                 if over then refuse (''Session has exceeded the maximum duration of '' @ py_str limit @
                   '' minutes (elapsed: '' @ show_int (whole elapsed) @ '' min). Please start a new session.'')
                 else do {
                   mark \<leftarrow> py_scale limit (9 / 10); near \<leftarrow> py_gt (PFloat elapsed) mark;
                   Some (Inr (if near then [''Session approaching time limit: '' @ show_int (whole elapsed) @ ''/'' @
                     py_str limit @ '' minutes elapsed.''] else [])) } })
          else silent }"

definition messages_check :: "policy \<Rightarrow> pydict \<Rightarrow> check" where
  "messages_check p ctx =
     do { limit \<leftarrow> cfg p ''max_messages_per_session'' PNone;
          let count = dget ctx ''session_message_count'' (PInt 0);
          if \<not> truthy limit then silent
          else do {
            full \<leftarrow> py_ge count limit;
            if full then refuse (''Session message limit of '' @ py_str limit @ '' reached (count: '' @
              py_str count @ ''). Please start a new session.'')
            else do {
              mark \<leftarrow> py_scale limit (9 / 10); near \<leftarrow> py_ge count mark;
              Some (Inr (if near then [''Approaching session message limit: '' @ py_str count @ ''/'' @
                py_str limit @ '' messages.''] else [])) } } }"

definition idle_check :: "(string \<Rightarrow> int option) \<Rightarrow> int \<Rightarrow> policy \<Rightarrow> pydict \<Rightarrow> check" where
  "idle_check fromiso now p ctx =
     do { limit \<leftarrow> cfg p ''idle_timeout_minutes'' PNone;
          let raw = ctx_get ctx ''session_last_active_at'';
          if truthy limit \<and> truthy raw then
            (case parse_timestamp fromiso raw of
               None \<Rightarrow> silent
             | Some t \<Rightarrow> do {
                 let idle = minutes_since now t;
                 over \<leftarrow> py_gt (PFloat idle) limit;
                 if over then refuse (''Session has been idle for '' @ show_int (whole idle) @
                   '' minutes, exceeding the idle timeout of '' @ py_str limit @ '' minutes. Please start a new session.'')
                 else silent })
          else silent }"

definition eval_session_policy :: "(string \<Rightarrow> int option) \<Rightarrow> int \<Rightarrow> policy \<Rightarrow> pydict \<Rightarrow> presult option" where
  "eval_session_policy fromiso now p ctx =
     run_checks [hours_check now p, days_check now p, duration_check fromiso now p ctx, messages_check p ctx,
       idle_check fromiso now p ctx] []"

section \<open>Data retention\<close>

definition metadata_check :: "policy \<Rightarrow> pydict \<Rightarrow> check" where
  "metadata_check p ctx =
     do { required \<leftarrow> cfg p ''require_retention_metadata'' (PBool False);
          if truthy required \<and> \<not> truthy (ctx_get ctx ''retention_metadata'')
          then refuse (''Policy '' @ quoted (p_name p) @ '' requires retention metadata to be present in the request context.'')
          else silent }"

definition region_check :: "policy \<Rightarrow> pydict \<Rightarrow> check" where
  "region_check p ctx =
     do { allowed \<leftarrow> cfg p ''allowed_regions'' (PList []);
          let region = dget ctx ''data_region'' (PStr []);
          if truthy allowed \<and> truthy region then do {
            listed \<leftarrow> py_in region allowed;
            if listed then silent
            else do {
              names \<leftarrow> py_join '', '' allowed;
              refuse (''Data stored in region '' @ quoted (py_str region) @ '' is not permitted by policy '' @
                quoted (p_name p) @ ''. Allowed regions: '' @ names) } }
          else silent }"

text \<open>The age the context states, or that of the creation time; a \<open>timedelta\<close>'s days round down.\<close>

definition data_age :: "(string \<Rightarrow> int option) \<Rightarrow> int \<Rightarrow> pydict \<Rightarrow> pyval" where
  "data_age fromiso now ctx =
     (let age = ctx_get ctx ''data_age_days''; raw = ctx_get ctx ''data_created_at'' in
      if age \<noteq> PNone then age
      else if \<not> truthy raw then PNone
      else (case parse_timestamp fromiso raw of Some t \<Rightarrow> PInt ((now - t) div day_us) | None \<Rightarrow> PNone))"

definition retention_check :: "pyval \<Rightarrow> policy \<Rightarrow> check" where
  "retention_check age p =
     do { days \<leftarrow> cfg p ''retention_days'' PNone;
          if truthy days \<and> age \<noteq> PNone then do {
            over \<leftarrow> py_gt age days;
            if over then refuse (''Data is '' @ py_str age @ '' days old, exceeding the retention period of '' @
              py_str days @ '' days -- policy '' @ quoted (p_name p) @
              ''. Data must be deleted or anonymized before further processing.'')
            else do {
              mark \<leftarrow> py_scale days (9 / 10); near \<leftarrow> py_gt age mark;
              if near then do {
                days_left \<leftarrow> py_sub days age;
                Some (Inr [''Data retention period expires in '' @ py_str days_left @ '' day(s) (policy '' @
                  quoted (p_name p) @ ''). Schedule deletion or anonymization.'']) }
              else silent } }
          else silent }"

definition anonymize_check :: "pyval \<Rightarrow> policy \<Rightarrow> pydict \<Rightarrow> check" where
  "anonymize_check age p ctx =
     do { after \<leftarrow> cfg p ''anonymize_after_days'' PNone;
          if truthy after \<and> age \<noteq> PNone then do {
            late \<leftarrow> py_gt age after;
            Some (Inr (if late \<and> \<not> truthy (dget ctx ''data_anonymized'' (PBool False))
              then [''Data is '' @ py_str age @ '' days old and should have been anonymized after '' @ py_str after @
                    '' days per policy '' @ quoted (p_name p) @ ''.''] else [])) }
          else silent }"

definition eval_data_retention :: "(string \<Rightarrow> int option) \<Rightarrow> int \<Rightarrow> policy \<Rightarrow> pydict \<Rightarrow> presult option" where
  "eval_data_retention fromiso now p ctx =
     (let age = data_age fromiso now ctx in
      run_checks [metadata_check p ctx, region_check p ctx, retention_check age p, anonymize_check age p ctx] [])"

section \<open>Behavioral baseline\<close>

definition BASELINE_TTL :: int where "BASELINE_TTL = 172800"

definition baseline_key :: "string \<Rightarrow> string \<Rightarrow> string" where
  "baseline_key tenant agent = ''baseline:'' @ tenant @ '':'' @ agent"

text \<open>A text is parsed as JSON; what cannot be read is no baseline.\<close>

definition get_baseline :: "(string \<Rightarrow> pyval option) \<Rightarrow> 'c cache_ops \<Rightarrow> string \<Rightarrow> string \<Rightarrow> 'c \<Rightarrow> pyval" where
  "get_baseline json ops tenant agent c =
     (case cache_get_default ops (baseline_key tenant agent) PNone c of
        PDict d \<Rightarrow> PDict d
      | PStr s \<Rightarrow> (case json s of Some v \<Rightarrow> v | None \<Rightarrow> PNone)
      | _ \<Rightarrow> PNone)"

definition set_baseline :: "'c cache_ops \<Rightarrow> string \<Rightarrow> string \<Rightarrow> pydict \<Rightarrow> 'c \<Rightarrow> 'c" where
  "set_baseline ops tenant agent stats c = c_set ops (baseline_key tenant agent) (PDict stats) (Some BASELINE_TTL) c"

text \<open>\<open>compute_percentile\<close>: linear interpolation between the neighbours of the index.\<close>

definition percentile_at :: "rat list \<Rightarrow> rat \<Rightarrow> rat" where
  "percentile_at vs idx =
     (let lower = nat \<lfloor>idx\<rfloor>; upper = nat \<lceil>idx\<rceil> in
      if lower = upper then vs ! lower
      else (let frac = idx - of_int \<lfloor>idx\<rfloor> in vs ! lower * (1 - frac) + vs ! upper * frac))"

definition compute_percentile :: "rat list \<Rightarrow> rat \<Rightarrow> rat" where
  "compute_percentile vs percent =
     (if vs = [] then 0 else percentile_at (sort vs) (percent / 100 * of_nat (length vs - 1)))"

text \<open>One measure against its 95th percentile: the message of an anomaly, if any.\<close>

definition anomaly ::
  "pydict \<Rightarrow> pyval \<Rightarrow> policy \<Rightarrow> string \<Rightarrow> string \<Rightarrow> string \<Rightarrow> rat \<Rightarrow> (string \<Rightarrow> string \<Rightarrow> string) \<Rightarrow> string list option" where
  "anomaly ctx baseline p gauge stat threshold dflt message =
     do { let used = ctx_get ctx gauge;
          p95 \<leftarrow> pget baseline stat (PInt 0);
          limit \<leftarrow> cfg p threshold (PFloat dflt);
          above \<leftarrow> and_m (Some (truthy used)) (py_gt p95 (PInt 0));
          if \<not> above then Some []
          else do {
            u \<leftarrow> num_of used; b \<leftarrow> num_of p95;
            over \<leftarrow> py_gt (PFloat (u / b)) limit;
            Some (if over then [message (py_str used) (fmt_fixed 1 (u / b)) @ '' ('' @ fmt_fixed 0 b @ ''). Threshold: '' @
              py_str limit @ ''x.''] else []) } }"

definition anomalies :: "pydict \<Rightarrow> pyval \<Rightarrow> policy \<Rightarrow> string list option" where
  "anomalies ctx baseline p =
     do { a \<leftarrow> anomaly ctx baseline p ''tokens_used'' ''token_usage_p95'' ''token_usage_deviation_threshold'' 5
            (\<lambda>u r. ''Token usage '' @ u @ '' is '' @ r @ ''x above p95 baseline'');
          b \<leftarrow> anomaly ctx baseline p ''tool_calls_this_session'' ''tool_calls_per_session_p95'' ''tool_call_deviation_threshold'' 10
            (\<lambda>u r. ''Tool calls this session ('' @ u @ '') is '' @ r @ ''x above p95 baseline'');
          c \<leftarrow> anomaly ctx baseline p ''domains_today'' ''unique_domains_per_day_p95'' ''domain_deviation_threshold'' 5
            (\<lambda>u r. ''Unique domains contacted today ('' @ u @ '') is '' @ r @ ''x above p95 baseline'');
          d \<leftarrow> anomaly ctx baseline p ''requests_this_hour'' ''requests_per_hour_p95'' ''requests_per_hour_deviation_threshold'' 5
            (\<lambda>u r. ''Requests this hour ('' @ u @ '') is '' @ r @ ''x above p95 baseline'');
          Some (a @ b @ c @ d) }"

definition samples_of :: "pyval \<Rightarrow> pyval option" where
  "samples_of baseline = pget baseline ''sample_count'' (PInt 0)"

definition baseline_verdict :: "policy \<Rightarrow> string \<Rightarrow> bool \<Rightarrow> pydict \<Rightarrow> pyval \<Rightarrow> presult option" where
  "baseline_verdict p agent dry ctx baseline =
     do { mode \<leftarrow> cfg p ''action_on_anomaly'' (PStr ''warn'');
          found \<leftarrow> anomalies ctx baseline p;
          let summary = ''Behavioral anomaly detected for agent '' @ quoted agent @ '': '' @ join ''; '' found;
          Some (if found = [] then pass_r
                else if mode = PStr ''block'' \<and> \<not> dry then fail_with summary
                else pass_with [''[BehavioralAnomaly] '' @ summary]) }"

definition eval_behavioral_baseline ::
  "(string \<Rightarrow> pyval option) \<Rightarrow> 'c cache_ops \<Rightarrow> policy \<Rightarrow> bool \<Rightarrow> pydict \<Rightarrow> 'c \<Rightarrow> presult option" where
  "eval_behavioral_baseline json ops p dry ctx c =
     (let tenant = dget ctx ''_tenant_id'' (PStr []); agent = dget ctx ''_agent_id'' (PStr []) in
      if \<not> truthy tenant \<or> \<not> truthy agent
      then Some (pass_with [''BehavioralBaseline: no authenticated agent, skipping.''])
      else do {
        let baseline = get_baseline json ops (py_str tenant) (py_str agent) c;
        least \<leftarrow> cfg p ''min_samples_before_enforce'' (PInt 50);
        few \<leftarrow> (if baseline = PNone then Some True else do { n \<leftarrow> samples_of baseline; py_lt n least });
        if few then do {
          n \<leftarrow> (if truthy baseline then samples_of baseline else Some (PInt 0));
          Some (pass_with [''Behavioral baseline not yet established for agent '' @ quoted (py_str agent) @ '' ('' @
            py_str n @ ''/'' @ py_str least @ '' samples). Anomaly detection inactive.'']) }
        else baseline_verdict p (py_str agent) dry ctx baseline })"

end
