(* ===== verification/EvalContext.thy ===== *)
theory EvalContext
  imports PyPrelude
begin

text \<open>
  The context of an evaluation before any rule sees it: media found in a model request
  (\<open>services/multimodal_scanner.py\<close>), the canonical content contract
  (\<open>services/evaluation_context.py\<close>) and the authority a caller may claim
  (\<open>services/authority.py\<close>). Exceptions are kept apart, because the engine answers a ValueError or
  TypeError with a refusal and lets others through. \<open>json.loads\<close>, the sorted \<open>json.dumps\<close> and the
  decoding and hashing of base64 text are arguments; bytes are texts.
\<close>

record content_env =
  n_json :: "string \<Rightarrow> pyexc + pyval"
  n_dumps :: "pydict \<Rightarrow> string"
  n_media :: "string \<Rightarrow> (nat \<times> string) option"

text \<open>Accesses that raise: \<open>v.get(k, d)\<close> an AttributeError, iteration and subscripts a TypeError.\<close>

definition or_raise :: "pyexc \<Rightarrow> 'a option \<Rightarrow> pyexc + 'a" where
  "or_raise e m = (case m of None \<Rightarrow> Inl e | Some v \<Rightarrow> Inr v)"

lemma or_raise_Inr [simp]: "or_raise e m = Inr v \<longleftrightarrow> m = Some v"
  by (cases m) (simp_all add: or_raise_def)

definition get_r :: "pyval \<Rightarrow> string \<Rightarrow> pyval \<Rightarrow> pyexc + pyval" where
  "get_r v k d = or_raise OtherError (pget v k d)"

definition text_r :: "pyval \<Rightarrow> pyexc + string" where
  "text_r v = or_raise OtherError (str_of v)"

text \<open>A loop whose body may raise.\<close>

fun fold_r :: "('a \<Rightarrow> 's \<Rightarrow> pyexc + 's) \<Rightarrow> 'a list \<Rightarrow> 's \<Rightarrow> pyexc + 's" where
  "fold_r f [] s = Inr s"
| "fold_r f (x # xs) s = rbind (f x s) (fold_r f xs)"

section \<open>Media\<close>

record analysis =
  an_text :: "pyval list"
  an_images :: nat
  an_audio :: nat
  an_video :: nat
  an_bytes :: nat
  an_hashes :: "string list"

text \<open>The flags \<open>has_images\<close>, \<open>has_audio\<close> and \<open>has_video\<close> are set with the first of their kind.\<close>

definition no_media :: analysis where
  "no_media = \<lparr>an_text = [], an_images = 0, an_audio = 0, an_video = 0, an_bytes = 0, an_hashes = []\<rparr>"

definition has_media :: "analysis \<Rightarrow> bool" where
  "has_media a \<longleftrightarrow> 0 < an_images a \<or> 0 < an_audio a \<or> 0 < an_video a"

definition media_summary :: "analysis \<Rightarrow> pydict" where
  "media_summary a =
     [(''has_media'', PBool (has_media a)), (''images'', PInt (int (an_images a))), (''audio'', PInt (int (an_audio a))),
      (''video'', PInt (int (an_video a))), (''total_media_bytes'', PInt (int (an_bytes a)))]"

definition classify_media_type :: "string \<Rightarrow> analysis \<Rightarrow> analysis" where
  "classify_media_type mime a =
     (if starts_with ''image/'' mime then a\<lparr>an_images := an_images a + 1\<rparr>
      else if starts_with ''audio/'' mime then a\<lparr>an_audio := an_audio a + 1\<rparr>
      else if starts_with ''video/'' mime then a\<lparr>an_video := an_video a + 1\<rparr>
      else a)"

definition add_media :: "content_env \<Rightarrow> string \<Rightarrow> analysis \<Rightarrow> analysis" where
  "add_media env data a =
     (case n_media env data of
        None \<Rightarrow> a
      | Some (n, h) \<Rightarrow> a\<lparr>an_bytes := an_bytes a + n, an_hashes := an_hashes a @ [h]\<rparr>)"

definition classify_media :: "content_env \<Rightarrow> pyval \<Rightarrow> pyval \<Rightarrow> analysis \<Rightarrow> pyexc + analysis" where
  "classify_media env mime data a =
     rbind (text_r mime) (\<lambda>m.
     Inr (case data of PStr s \<Rightarrow> if s = [] then classify_media_type m a else add_media env s (classify_media_type m a)
        | _ \<Rightarrow> classify_media_type m a))"

definition in_r :: "string \<Rightarrow> pyval \<Rightarrow> pyexc + bool" where
  "in_r k v = or_raise TypeError (py_in (PStr k) v)"

definition index_r :: "pyval \<Rightarrow> string \<Rightarrow> pyexc + pyval" where
  "index_r v k = or_raise TypeError (pindex v k)"

definition iter_r :: "pyval \<Rightarrow> pyexc + pyval list" where
  "iter_r v = or_raise TypeError (py_iter v)"

definition gemini_part :: "content_env \<Rightarrow> pyval \<Rightarrow> analysis \<Rightarrow> pyexc + analysis" where
  "gemini_part env part a =
     rbind (in_r ''text'' part) (\<lambda>is_text.
     if is_text then rbind (index_r part ''text'') (\<lambda>t. Inr (a\<lparr>an_text := an_text a @ [t]\<rparr>))
     else rbind (in_r ''inlineData'' part) (\<lambda>is_inline.
     if is_inline then
       rbind (index_r part ''inlineData'') (\<lambda>inline.
       rbind (get_r inline ''mimeType'' (PStr [])) (\<lambda>mime.
       rbind (get_r inline ''data'' (PStr [])) (\<lambda>data. classify_media env mime data a)))
     else rbind (in_r ''fileData'' part) (\<lambda>is_file.
     if is_file then
       rbind (index_r part ''fileData'') (\<lambda>file.
       rbind (get_r file ''mimeType'' (PStr [])) (\<lambda>mime.
       rbind (text_r mime) (\<lambda>m. Inr (classify_media_type m a))))
     else Inr a)))"

definition analyze_gemini :: "content_env \<Rightarrow> pydict \<Rightarrow> pyexc + analysis" where
  "analyze_gemini env body =
     rbind (iter_r (dget body ''contents'' (PList []))) (\<lambda>contents.
     fold_r (\<lambda>content a.
       rbind (get_r content ''parts'' (PList [])) (\<lambda>parts.
       rbind (iter_r parts) (\<lambda>ps. fold_r (gemini_part env) ps a))) contents no_media)"

text \<open>\<open>_extract_data_uri_size\<close>: the text after the first comma; without one nothing is added.\<close>

definition data_uri_size :: "content_env \<Rightarrow> string \<Rightarrow> analysis \<Rightarrow> analysis" where
  "data_uri_size env uri a =
     (case dropWhile (\<lambda>ch. ch \<noteq> CHR '','') uri of [] \<Rightarrow> a | _ # data \<Rightarrow> add_media env data a)"

definition openai_part :: "content_env \<Rightarrow> pyval \<Rightarrow> analysis \<Rightarrow> pyexc + analysis" where
  "openai_part env part a =
     (case part of
        PDict d \<Rightarrow>
          if dget d ''type'' PNone = PStr ''text'' then Inr (a\<lparr>an_text := an_text a @ [dget d ''text'' (PStr [])]\<rparr>)
          else if dget d ''type'' PNone = PStr ''image_url'' then
            rbind (get_r (dget d ''image_url'' (PDict [])) ''url'' (PStr [])) (\<lambda>u.
            rbind (text_r u) (\<lambda>url.
            let b = a\<lparr>an_images := an_images a + 1\<rparr> in
            Inr (if starts_with ''data:'' url then data_uri_size env url b else b)))
          else Inr a
      | _ \<Rightarrow> Inr a)"

definition analyze_openai :: "content_env \<Rightarrow> pydict \<Rightarrow> pyexc + analysis" where
  "analyze_openai env body =
     rbind (iter_r (dget body ''messages'' (PList []))) (\<lambda>messages.
     fold_r (\<lambda>msg a.
       rbind (get_r msg ''content'' (PStr [])) (\<lambda>content.
       (case content of
          PStr s \<Rightarrow> Inr (a\<lparr>an_text := an_text a @ [PStr s]\<rparr>)
        | PList parts \<Rightarrow> fold_r (openai_part env) parts a
        | _ \<Rightarrow> Inr a))) messages no_media)"

definition GEMINI :: "string list" where "GEMINI = [''google'', ''vertex'']"

definition analyze_request_body :: "content_env \<Rightarrow> pydict \<Rightarrow> pyval \<Rightarrow> pyexc + analysis" where
  "analyze_request_body env body provider =
     (if one_of provider GEMINI then analyze_gemini env body else analyze_openai env body)"

section \<open>Output text\<close>

primrec strings :: "pyval \<Rightarrow> string list" where
  "strings (PStr s) = [s]"
| "strings (PDict kvs) = concat (map snd (map (map_prod id strings) kvs))"
| "strings (PList xs) = concat (map strings xs)"
| "strings PNone = []"
| "strings (PBool b) = []"
| "strings (PInt i) = []"
| "strings (PFloat q) = []"

definition CONTENT_KEYS :: "string list" where
  "CONTENT_KEYS = [''content'', ''text'', ''arguments'', ''partial_json'', ''output_text'']"

primrec fragments :: "pyval \<Rightarrow> string list" where
  "fragments (PDict kvs) =
     concat (map2 (\<lambda>(k, item) inner. if k \<in> set CONTENT_KEYS then strings item else inner) kvs
       (map snd (map (map_prod id fragments) kvs)))"
| "fragments (PList xs) = concat (map fragments xs)"
| "fragments (PStr s) = []"
| "fragments PNone = []"
| "fragments (PBool b) = []"
| "fragments (PInt i) = []"
| "fragments (PFloat q) = []"

text \<open>\<open>str.splitlines()\<close>: a final line break adds no line; carriage return and line feed are one break.\<close>

definition line_break :: "char \<Rightarrow> bool" where
  "line_break ch \<longleftrightarrow> ch \<in> {CHR 0x0A, CHR 0x0B, CHR 0x0C, CHR 0x0D, CHR 0x1C, CHR 0x1D, CHR 0x1E, CHR 0x85}"

fun split_lines :: "string \<Rightarrow> string \<Rightarrow> string list" where
  "split_lines acc [] = (if acc = [] then [] else [rev acc])"
| "split_lines acc (ch # s) =
     (if ch = CHR 0x0D \<and> s \<noteq> [] \<and> hd s = CHR 0x0A then rev acc # split_lines [] (tl s)
      else if line_break ch then rev acc # split_lines [] s
      else split_lines (ch # acc) s)"

text \<open>One line of a server-sent stream; only a ValueError is caught here.\<close>

definition decode_line :: "content_env \<Rightarrow> string \<Rightarrow> string list \<Rightarrow> pyexc + string list" where
  "decode_line env line decoded =
     (if starts_with ''data:'' line then
        (case n_json env (strip (drop 5 line)) of
           Inr v \<Rightarrow> Inr (decoded @ (if fragments v \<noteq> [] then fragments v else strings v))
         | Inl (ValueError _) \<Rightarrow> Inr (decoded @ [line])
         | Inl e \<Rightarrow> Inl e)
      else Inr decoded)"

definition normalize_output_text :: "content_env \<Rightarrow> string \<Rightarrow> pyexc + string" where
  "normalize_output_text env s =
     (case n_json env s of
        Inr v \<Rightarrow> Inr (join [CHR 0x0A] (strings v))
      | Inl e \<Rightarrow>
          if (case e of ValueError _ \<Rightarrow> True | TypeError \<Rightarrow> True | _ \<Rightarrow> False) then
            (if starts_with ''data:'' (lstrip s) \<or> starts_with ''event:'' (lstrip s) then
               rbind (fold_r (decode_line env) (split_lines [] s) []) (\<lambda>decoded.
               Inr (if decoded \<noteq> [] then concat decoded else s))
             else Inr s)
          else Inl e)"

section \<open>The content contract\<close>

text \<open>\<open>_gemini_max_output_tokens\<close>: the cap of every candidate together, None for no bound.\<close>

definition gemini_max_output_tokens :: "pydict \<Rightarrow> pyval" where
  "gemini_max_output_tokens body =
     (case dget body ''generationConfig'' (dget body ''generation_config'' PNone) of
        PDict config \<Rightarrow>
          (case (dget config ''maxOutputTokens'' (dget config ''max_output_tokens'' PNone),
                 dget config ''candidateCount'' (dget config ''candidate_count'' (PInt 1))) of
             (PInt tokens, PInt candidates) \<Rightarrow>
               if 0 < tokens \<and> 0 < candidates then PInt (tokens * candidates) else PNone
           | _ \<Rightarrow> PNone)
      | _ \<Rightarrow> PNone)"

fun first_text :: "pydict \<Rightarrow> string list \<Rightarrow> string option" where
  "first_text c [] = None"
| "first_text c (k # ks) = (case dget c k PNone of PStr s \<Rightarrow> Some s | _ \<Rightarrow> first_text c ks)"

definition fill_alias :: "string \<times> string list \<Rightarrow> pydict \<Rightarrow> pydict" where
  "fill_alias al c =
     (if fst al \<in> fst ` set c then c
      else case first_text c (snd al) of None \<Rightarrow> c | Some s \<Rightarrow> dput (fst al) (PStr s) c)"

definition ALIASES :: "(string \<times> string list) list" where
  "ALIASES = [(''input_text'', [''extracted_text'', ''input'']), (''output_text'', [''output''])]"

definition read_body :: "content_env \<Rightarrow> pyval \<Rightarrow> pyexc + pydict" where
  "read_body env v =
     rbind (case v of PStr s \<Rightarrow> n_json env s | _ \<Rightarrow> Inr v) (\<lambda>b.
     (case b of PDict d \<Rightarrow> Inr d | _ \<Rightarrow> Inl (ValueError ''Model request must be a JSON object'')))"

definition quarter_up :: "nat \<Rightarrow> int" where
  "quarter_up n = int ((n + 3) div 4)"

definition output_cap :: "pydict \<Rightarrow> pyval \<Rightarrow> pyval" where
  "output_cap body provider =
     (let cap = dget body ''max_output_tokens'' (dget body ''max_completion_tokens'' (dget body ''max_tokens'' PNone))
      in if cap = PNone \<and> one_of provider GEMINI then gemini_max_output_tokens body else cap)"

definition body_fields :: "content_env \<Rightarrow> pydict \<Rightarrow> pydict \<Rightarrow> pyexc + pydict" where
  "body_fields env body c =
     (let whole_text = n_dumps env body in
      rbind (py_int (py_or (dget c ''input_tokens'' PNone) (PInt 0))) (\<lambda>declared.
      rbind (analyze_request_body env body (dget c ''provider'' (PStr []))) (\<lambda>media.
      let c1 = dput ''max_output_tokens'' (output_cap body (dget c ''provider'' PNone))
                 (dput ''input_tokens'' (PInt (max declared (quarter_up (length whole_text))))
                 (dput ''input_text'' (PStr whole_text) (dput ''request_body'' (PStr whole_text) c)));
          c2 = (if has_media media then dput ''multimodal'' (PDict (media_summary media)) (dput ''has_multimodal'' (PBool True) c1)
                else c1);
          safety = dget body ''safetySettings'' (dget body ''safety_settings'' PNone)
      in Inr (if truthy safety then dput ''safety_settings'' safety c2 else c2))))"

definition content_texts :: "string \<Rightarrow> pydict \<Rightarrow> pyexc + pydict" where
  "content_texts key c =
     (case map_of c key of
        None \<Rightarrow> Inr c
      | Some (PStr s) \<Rightarrow> Inr (dput key (PList [PStr s]) c)
      | Some (PList items) \<Rightarrow>
          if list_all is_str items then Inr c else Inl (ValueError (key @ '' must be text or a list of texts''))
      | Some _ \<Rightarrow> Inl (ValueError (key @ '' must be text or a list of texts'')))"

definition content_text :: "string \<Rightarrow> pydict \<Rightarrow> pyexc + pydict" where
  "content_text key c =
     (case map_of c key of
        None \<Rightarrow> Inr c
      | Some v \<Rightarrow> if is_str v then Inr c else Inl (ValueError (key @ '' must be text'')))"

definition output_field :: "content_env \<Rightarrow> pydict \<Rightarrow> pyexc + pydict" where
  "output_field env c =
     (case map_of c ''output_text'' of
        Some (PStr s) \<Rightarrow> rbind (normalize_output_text env s) (\<lambda>t. Inr (dput ''output_text'' (PStr t) c))
      | _ \<Rightarrow> Inr c)"

definition normalize_context :: "content_env \<Rightarrow> pyval \<Rightarrow> pyexc + pydict" where
  "normalize_context env v =
     (case v of
        PDict c0 \<Rightarrow>
          if dget c0 ''schema_version'' (PInt 1) \<noteq> PInt 1
          then Inl (ValueError ''Unsupported evaluation context schema_version'')
          else
            (let c1 = fold fill_alias ALIASES c0; body = dget c1 ''request_body'' (dget c1 ''_body_bytes'' PNone) in
             rbind (if truthy body then rbind (read_body env body) (\<lambda>b. body_fields env b c1) else Inr c1) (\<lambda>c2.
             rbind (output_field env c2) (\<lambda>c3.
             rbind (content_text ''input_text'' c3) (\<lambda>c4.
             rbind (content_text ''output_text'' c4) (\<lambda>c5.
             rbind (content_texts ''tool_outputs'' c5) (content_texts ''rag_context''))))))
      | _ \<Rightarrow> Inl (ValueError ''Evaluation context must be an object''))"

section \<open>Authority\<close>

definition AUTHORITY_FIELDS :: "string list" where
  "AUTHORITY_FIELDS = [''tenant_id'', ''workload_id'', ''task_id'', ''user_id'', ''trace_id'', ''run_id'', ''policy_version'']"

definition authority_field :: "string \<times> pyval \<Rightarrow> pydict \<Rightarrow> pyexc + pydict" where
  "authority_field kv out =
     (case snd kv of
        PNone \<Rightarrow> Inr out
      | PStr s \<Rightarrow>
          if strip s = [] then Inl (ValueError (''authority.'' @ fst kv @ '' must be a non-empty string''))
          else if 255 < length s then Inl (ValueError (''authority.'' @ fst kv @ '' exceeds 255 characters''))
          else Inr (dput (fst kv) (PStr s) out)
      | _ \<Rightarrow> Inl (ValueError (''authority.'' @ fst kv @ '' must be a non-empty string'')))"

definition normalize_authority :: "pyval \<Rightarrow> pyexc + pydict" where
  "normalize_authority v =
     (case v of
        PNone \<Rightarrow> Inr []
      | PDict d \<Rightarrow>
          (let unknown = filter (\<lambda>k. k \<notin> set AUTHORITY_FIELDS) (map fst d) in
           if unknown \<noteq> []
           then Inl (ValueError (''authority contains unsupported fields: '' @ py_repr (PList (map PStr (sort unknown)))))
           else fold_r authority_field d [])
      | _ \<Rightarrow> Inl (ValueError ''authority must be an object''))"

end
