(* ===== verification/EvalContent.thy ===== *)
theory EvalContent
  imports EvalAccess EvalContext
begin

text \<open>
  The evaluators that look into content and network targets (\<open>services/evaluators/\<close>: AI guardrail,
  prompt injection, output filter, network policy). Regular expressions are an argument: for a
  pattern (its flags and source) and a text, None where the pattern does not compile, else the
  matched text, if any. The pattern lists of \<open>ContentScanner\<close> are data, another argument, as are
  \<open>urlparse\<close> and \<open>ipaddress\<close>.
\<close>

type_synonym pattern = "string list \<times> string"
type_synonym regex = "pattern \<Rightarrow> string \<Rightarrow> string option option"

record library =
  pl_injection :: "pattern list"
  pl_jailbreak :: "pattern list"
  pl_indirect :: "pattern list"
  pl_pii :: "pattern list"
  pl_secrets :: "(string \<times> pattern \<times> string) list"

definition ignore_case :: "string \<Rightarrow> pattern" where "ignore_case s = ([''IGNORECASE''], s)"

text \<open>A search in a value that must be a text; a pattern that does not compile is skipped.\<close>

definition search_in :: "regex \<Rightarrow> pattern \<Rightarrow> pyval \<Rightarrow> bool option" where
  "search_in rx pat v =
     (case rx pat [] of
        None \<Rightarrow> Some False
      | Some _ \<Rightarrow> (case v of PStr s \<Rightarrow> Some (rx pat s \<noteq> None \<and> rx pat s \<noteq> Some None) | _ \<Rightarrow> None))"

section \<open>AI guardrail\<close>

definition texts_to_scan :: "pydict \<Rightarrow> pyval list" where
  "texts_to_scan c = filter truthy (map (\<lambda>k. dget c k (PStr [])) [''input_text'', ''output_text'', ''topic''])"

definition pattern_blocked :: "regex \<Rightarrow> pyval list \<Rightarrow> pyval \<Rightarrow> bool option" where
  "pattern_blocked rx texts raw = do { s \<leftarrow> str_of raw; any_m (search_in rx (ignore_case s)) texts }"

definition mentions :: "pyval \<Rightarrow> pyval \<Rightarrow> bool option" where
  "mentions topic v = do { a \<leftarrow> py_lower topic; b \<leftarrow> py_lower v; Some (substring a b) }"

definition blocked_topic :: "pyval list \<Rightarrow> pyval list \<Rightarrow> (pyval \<times> pyval) option option" where
  "blocked_topic topics texts = find_m (\<lambda>(t, v). mentions t v) (List.product topics texts)"

definition topic_allowed :: "pyval \<Rightarrow> pyval \<Rightarrow> bool option" where
  "topic_allowed topic allowed = do { hit \<leftarrow> mentions allowed topic; if hit then Some True else mentions topic allowed }"

definition topic_allowlist :: "policy \<Rightarrow> pyval \<Rightarrow> presult option" where
  "topic_allowlist p topic =
     do { allowed \<leftarrow> cfg p ''allowed_topics'' (PList []);
          if \<not> (truthy allowed \<and> truthy topic) then Some pass_r
          else do {
            xs \<leftarrow> py_iter allowed;
            matched \<leftarrow> any_m (topic_allowed topic) xs;
            if matched then Some pass_r
            else do {
              strict \<leftarrow> cfg p ''block_on_topic_ambiguity'' (PBool False);
              if truthy strict then
                Some (fail_with (''Topic '' @ quoted (py_str topic) @ '' is not in the allowed topics list for policy '' @
                  quoted (p_name p) @ ''.''))
              else do {
                names \<leftarrow> py_join '', '' allowed;
                Some (pass_with [''Topic '' @ quoted (py_str topic) @ '' does not match any allowed topics. Allowed: '' @ names]) } } } }"

definition eval_ai_guardrail :: "regex \<Rightarrow> policy \<Rightarrow> pydict \<Rightarrow> presult option" where
  "eval_ai_guardrail rx p c =
     (let texts = texts_to_scan c in
      do { pats \<leftarrow> cfg p ''blocked_content_patterns'' (PList []);
           raws \<leftarrow> py_iter pats;
           hit \<leftarrow> any_m (pattern_blocked rx texts) raws;
           if hit then Some (fail_with (''Content matches blocked pattern in policy '' @ quoted (p_name p) @ ''.''))
           else do {
             blocked \<leftarrow> cfg p ''blocked_topics'' (PList []);
             level \<leftarrow> cfg p ''safety_level'' (PStr ''moderate'');
             topics \<leftarrow> py_iter blocked;
             found \<leftarrow> blocked_topic topics texts;
             case found of
               Some (t, _) \<Rightarrow>
                 Some (fail_with (''Content involves a blocked topic '' @ quoted (py_str t) @ '' under policy '' @
                   quoted (p_name p) @ '' (safety_level='' @ py_str level @ '').''))
             | None \<Rightarrow> topic_allowlist p (dget c ''topic'' (PStr [])) } })"

section \<open>Prompt injection\<close>

text \<open>\<open>_scan\<close>: the first match, cut at 120 characters; at low sensitivity short matches are skipped.\<close>

fun scan :: "regex \<Rightarrow> pyval \<Rightarrow> pattern list \<Rightarrow> string \<Rightarrow> string option" where
  "scan rx sensitivity [] s = None"
| "scan rx sensitivity (pat # pats) s =
     (case rx pat s of
        Some (Some m) \<Rightarrow>
          if sensitivity = PStr ''low'' \<and> length m < 10 then scan rx sensitivity pats s else Some (take 120 m)
      | _ \<Rightarrow> scan rx sensitivity pats s)"

definition DEFAULT_CATEGORIES :: pyval where
  "DEFAULT_CATEGORIES = PList [PStr ''jailbreak'', PStr ''override'', PStr ''delimiter'', PStr ''indirect'']"

fun hashable :: "pyval \<Rightarrow> bool" where
  "hashable (PList _) = False"
| "hashable (PDict _) = False"
| "hashable _ = True"

text \<open>\<open>set(v)\<close>; the members that are texts are all that is compared.\<close>

definition name_set :: "pyval \<Rightarrow> string list option" where
  "name_set v = do { xs \<leftarrow> py_iter v; if list_all hashable xs then Some (concat (map (\<lambda>x. case x of PStr s \<Rightarrow> [s] | _ \<Rightarrow> []) xs)) else None }"

definition custom_patterns :: "regex \<Rightarrow> pyval \<Rightarrow> pattern list option" where
  "custom_patterns rx v =
     do { xs \<leftarrow> py_iter v; ss \<leftarrow> map_m str_of xs;
          Some (filter (\<lambda>pat. rx pat [] \<noteq> None) (map ignore_case ss)) }"

definition direct_patterns :: "library \<Rightarrow> pyval \<Rightarrow> pyval \<Rightarrow> pattern list \<Rightarrow> pattern list option" where
  "direct_patterns lib categories sensitivity custom =
     do { ov \<leftarrow> py_in (PStr ''override'') categories;
          jb \<leftarrow> py_in (PStr ''jailbreak'') categories;
          de \<leftarrow> py_in (PStr ''delimiter'') categories;
          Some ((if ov \<or> jb then pl_injection lib else []) @ (if jb then pl_jailbreak lib else []) @
                (if de \<and> one_of sensitivity [''high'', ''paranoid''] then pl_indirect lib else []) @ custom) }"

text \<open>The findings on the texts of one surface: a refusal of the first, or a warning each.\<close>

fun surface :: "regex \<Rightarrow> pyval \<Rightarrow> pattern list \<Rightarrow> (nat \<Rightarrow> string \<Rightarrow> string) \<Rightarrow> string \<Rightarrow> bool \<Rightarrow> nat \<Rightarrow> string list \<Rightarrow>
    string + string list" where
  "surface rx sensitivity pats message tag block i [] = Inr []"
| "surface rx sensitivity pats message tag block i (s # ss) =
     (case scan rx sensitivity pats s of
        Some (h # hs) \<Rightarrow>
          if block then Inl (message i (h # hs))
          else rbind (surface rx sensitivity pats message tag block (Suc i) ss) (\<lambda>ws. Inr ((tag @ message i (h # hs)) # ws))
      | _ \<Rightarrow> surface rx sensitivity pats message tag block (Suc i) ss)"

definition hit_message :: "string \<Rightarrow> policy \<Rightarrow> string \<Rightarrow> string" where
  "hit_message what p hit = what @ '' (policy '' @ quoted (p_name p) @ ''): matched '' @ quoted hit"

definition text_list :: "pyval \<Rightarrow> string list" where
  "text_list v = (case v of PStr s \<Rightarrow> [s] | PList xs \<Rightarrow> concat (map (\<lambda>x. case x of PStr s \<Rightarrow> [s] | _ \<Rightarrow> []) xs) | _ \<Rightarrow> [])"

definition scan_surfaces ::
  "regex \<Rightarrow> policy \<Rightarrow> pyval \<Rightarrow> bool \<Rightarrow> pattern list \<Rightarrow> pattern list \<Rightarrow> bool \<times> bool \<times> bool \<Rightarrow> pydict \<Rightarrow> presult" where
  "scan_surfaces rx p sensitivity block direct indirect on c =
     (case on of (user, tools, rag) \<Rightarrow>
        (case rbind (if user \<and> truthy (dget c ''input_text'' (PStr []))
                then surface rx sensitivity direct (\<lambda>i. hit_message ''Prompt injection detected in user input'' p)
                       ''[PromptInjection] '' block 0 (text_list (dget c ''input_text'' (PStr [])))
                else Inr []) (\<lambda>w1.
              rbind (if tools
                then surface rx sensitivity (direct @ indirect)
                       (\<lambda>i. hit_message (''Indirect prompt injection detected in tool output #'' @ show_nat i) p)
                       ''[PromptInjection/indirect] '' block 0 (text_list (dget c ''tool_outputs'' (PList [])))
                else Inr []) (\<lambda>w2.
              rbind (if rag
                then surface rx sensitivity (direct @ indirect)
                       (\<lambda>i. hit_message (''Indirect prompt injection detected in RAG context chunk #'' @ show_nat i) p)
                       ''[PromptInjection/rag] '' block 0 (text_list (dget c ''rag_context'' (PList [])))
                else Inr []) (\<lambda>w3. Inr (w1 @ w2 @ w3)))) of
           Inl m \<Rightarrow> fail_with m
         | Inr ws \<Rightarrow> pass_with ws))"

text \<open>The evaluator normalizes the context again, on a copy, and reads only that.\<close>

definition eval_prompt_injection :: "content_env \<Rightarrow> regex \<Rightarrow> library \<Rightarrow> policy \<Rightarrow> string \<Rightarrow> pydict \<Rightarrow> presult option" where
  "eval_prompt_injection env rx lib p action c0 =
     do { c \<leftarrow> res_option (normalize_context env (PDict c0));
          user \<leftarrow> cfg p ''scan_user_input'' (PBool True);
          if action \<in> {''llm:invoke'', ''chain_input''} \<and> truthy user \<and> ''input_text'' \<notin> fst ` set c
          then Some (fail_with ''Input inspection requires input_text'')
          else do {
            sensitivity \<leftarrow> cfg p ''sensitivity'' (PStr ''medium'');
            act \<leftarrow> cfg p ''action_on_detect'' (PStr ''block'');
            cv \<leftarrow> cfg p ''custom_patterns'' (PList []);
            custom \<leftarrow> custom_patterns rx cv;
            dv \<leftarrow> cfg p ''disabled_patterns'' (PList []);
            disabled \<leftarrow> name_set dv;
            categories \<leftarrow> cfg p ''pattern_categories'' DEFAULT_CATEGORIES;
            direct \<leftarrow> direct_patterns lib categories sensitivity custom;
            ind \<leftarrow> py_in (PStr ''indirect'') categories;
            tools \<leftarrow> cfg p ''scan_tool_outputs'' (PBool True);
            rag \<leftarrow> cfg p ''scan_rag_context'' (PBool True);
            let active = (\<lambda>pats. filter (\<lambda>pat. snd pat \<notin> set disabled) pats);
            Some (scan_surfaces rx p sensitivity (act = PStr ''block'') (active direct)
              (active (if ind then pl_indirect lib else [])) (truthy user, truthy tools, truthy rag) c) } }"

section \<open>Output filter\<close>

definition FILTER_SEVERITY :: "(string \<times> int) list" where
  "FILTER_SEVERITY = [(''low'', 0), (''medium'', 1), (''high'', 2), (''critical'', 3)]"

text \<open>\<open>SEVERITY_ORDER.get(v, d)\<close>; a list or an object is unhashable.\<close>

definition severity_level :: "pyval \<Rightarrow> int \<Rightarrow> int option" where
  "severity_level v d =
     (case v of PStr s \<Rightarrow> Some (case map_of FILTER_SEVERITY s of Some n \<Rightarrow> n | None \<Rightarrow> d)
      | _ \<Rightarrow> if hashable v then Some d else None)"

definition with_detail :: "string \<Rightarrow> pyval \<Rightarrow> string" where
  "with_detail m detail = (if truthy detail then m @ '' ('' @ py_str detail @ '')'' else m)"

definition violation_verdict :: "pydict \<Rightarrow> int \<Rightarrow> pyval \<Rightarrow> (string + string list) option" where
  "violation_verdict config level viol =
     do { vtype \<leftarrow> pget viol ''type'' (PStr []); severity \<leftarrow> pget viol ''severity'' (PStr ''low'');
          detail \<leftarrow> pget viol ''detail'' (PStr []);
          let limit = dget config ''max_severity'' PNone;
          if truthy (dget config ''block_pii'' (PBool False)) \<and> vtype = PStr ''pii'' then
            Some (Inl (with_detail ''Output blocked: PII detected'' detail))
          else if truthy (dget config ''block_secrets'' (PBool False)) \<and> vtype = PStr ''secret'' then
            Some (Inl (with_detail ''Output blocked: secret/credential detected'' detail))
          else do {
            over \<leftarrow> (if limit = PNone then Some False else do { n \<leftarrow> severity_level severity 0; Some (level < n) });
            if over then Some (Inl (''Output blocked: violation severity '' @ quoted (py_str severity) @
              '' exceeds maximum allowed severity '' @ quoted (py_str limit)))
            else Some (Inr (if one_of severity [''medium'', ''high'', ''critical'']
              then [''[OutputFilter] '' @ upper (py_str severity) @ '' violation detected: '' @ py_str vtype @
                    (if truthy detail then '' -- '' @ py_str detail else [])] else [])) } }"

fun scan_violations :: "pydict \<Rightarrow> int \<Rightarrow> pyval list \<Rightarrow> string list \<Rightarrow> presult option" where
  "scan_violations config level [] ws = Some (pass_with ws)"
| "scan_violations config level (v # vs) ws =
     (case violation_verdict config level v of
        None \<Rightarrow> None
      | Some (Inl m) \<Rightarrow> Some (fail_with m)
      | Some (Inr news) \<Rightarrow> scan_violations config level vs (ws @ news))"

definition evaluate_scan_result :: "pydict \<Rightarrow> pyval \<Rightarrow> presult option" where
  "evaluate_scan_result config result =
     do { let limit = dget config ''max_severity'' PNone;
          level \<leftarrow> (if truthy limit then severity_level limit (-1) else Some (-1));
          vs \<leftarrow> pget result ''violations'' (PList []); xs \<leftarrow> py_iter vs; scan_violations config level xs [] }"

text \<open>A search that raises on a value that is no text is passed over here.\<close>

definition builtin_secret :: "regex \<Rightarrow> string list \<Rightarrow> pyval \<Rightarrow> string \<times> pattern \<times> string \<Rightarrow> bool" where
  "builtin_secret rx disabled out entry =
     (case entry of (name, pat, _) \<Rightarrow> name \<notin> set disabled \<and> search_in rx pat out = Some True)"

definition evaluate_builtin_secrets :: "regex \<Rightarrow> library \<Rightarrow> pydict \<Rightarrow> pyval \<Rightarrow> presult option" where
  "evaluate_builtin_secrets rx lib config out =
     do { disabled \<leftarrow> name_set (dget config ''disabled_secret_patterns'' (PList []));
          Some (case find (builtin_secret rx disabled out) (pl_secrets lib) of
                  None \<Rightarrow> pass_r
                | Some (name, _, description) \<Rightarrow>
                    fail_with (''Output blocked: '' @ description @ '' detected in agent output. Pattern category: '' @
                      quoted name @ ''.'')) }"

definition blocked_pattern :: "regex \<Rightarrow> pyval \<Rightarrow> pyval \<Rightarrow> bool option" where
  "blocked_pattern rx out raw = do { s \<leftarrow> str_of raw; search_in rx ([], s) out }"

definition evaluate_blocked_patterns :: "regex \<Rightarrow> pydict \<Rightarrow> pyval \<Rightarrow> presult option" where
  "evaluate_blocked_patterns rx config out =
     do { raws \<leftarrow> py_iter (dget config ''blocked_patterns'' (PList []));
          hit \<leftarrow> any_m (blocked_pattern rx out) raws;
          Some (if hit then fail_with ''Output blocked: matched restricted pattern'' else pass_r) }"

text \<open>One check after the other; the first refusal ends them, and warnings add up.\<close>

fun in_turn :: "presult option list \<Rightarrow> string list \<Rightarrow> presult option" where
  "in_turn [] ws = Some (pass_with ws)"
| "in_turn (m # ms) ws =
     (case m of None \<Rightarrow> None
      | Some r \<Rightarrow> if pr_passed r then in_turn ms (ws @ pr_warnings r) else Some r)"

definition pii_check :: "regex \<Rightarrow> library \<Rightarrow> pydict \<Rightarrow> pyval \<Rightarrow> presult option" where
  "pii_check rx lib config out =
     (if truthy (dget config ''block_pii'' (PBool False))
      then do { hit \<leftarrow> any_m (\<lambda>pat. search_in rx pat out) (pl_pii lib);
                Some (if hit then fail_with ''Output blocked: PII detected'' else pass_r) }
      else Some pass_r)"

definition eval_output_filter :: "regex \<Rightarrow> library \<Rightarrow> policy \<Rightarrow> string \<Rightarrow> pydict \<Rightarrow> presult option" where
  "eval_output_filter rx lib p action c =
     (let result = ctx_get c ''scan_result''; out = dget c ''output_text'' (dget c ''output'' PNone) in
      if action \<in> {''llm:response'', ''chain_output''} \<and> out = PNone \<and> result = PNone
      then Some (fail_with ''Output inspection requires output_text'')
      else
        (case p_config p of
           PDict config \<Rightarrow>
             in_turn
               [(if result \<noteq> PNone then evaluate_scan_result config result else Some pass_r),
                (if out \<noteq> PNone then pii_check rx lib config out else Some pass_r),
                (if out \<noteq> PNone \<and> truthy (dget config ''block_secrets'' (PBool False))
                 then evaluate_builtin_secrets rx lib config out else Some pass_r),
                (if out \<noteq> PNone \<and> result = PNone then evaluate_blocked_patterns rx config out else Some pass_r)] []
         | _ \<Rightarrow> if out = PNone \<and> result = PNone then Some pass_r else None))"

section \<open>Network policy\<close>

text \<open>\<open>i_host\<close> is the host of a URL; \<open>i_valid\<close>, \<open>i_within\<close> and \<open>i_same\<close> are ipaddress's readings.\<close>

record net_env =
  i_host :: "string \<Rightarrow> string option"
  i_valid :: "pyval \<Rightarrow> bool"
  i_within :: "pyval \<Rightarrow> string \<Rightarrow> bool"
  i_same :: "pyval \<Rightarrow> string \<Rightarrow> bool"

definition matches_domain :: "pyval \<Rightarrow> pyval \<Rightarrow> bool option" where
  "matches_domain domain pats =
     do { d \<leftarrow> py_lower domain; xs \<leftarrow> py_iter pats;
          any_m (\<lambda>x. map_option (fnmatchcase d) (py_lower x)) xs }"

definition matches_entry :: "net_env \<Rightarrow> pyval \<Rightarrow> pyval \<Rightarrow> bool option" where
  "matches_entry net addr x =
     do { cidr \<leftarrow> py_in (PStr ''/'') x;
          Some (case x of PStr s \<Rightarrow> if cidr then i_within net addr s else i_same net addr s | _ \<Rightarrow> False) }"

definition matches_ip :: "net_env \<Rightarrow> pyval \<Rightarrow> pyval \<Rightarrow> bool option" where
  "matches_ip net addr ranges =
     (if \<not> i_valid net addr then Some False
      else do { xs \<leftarrow> py_iter ranges; any_m (matches_entry net addr) xs })"

definition target_domain :: "net_env \<Rightarrow> pydict \<Rightarrow> pyval" where
  "target_domain net c =
     (let domain = ctx_get c ''domain'' in
      if truthy domain then domain
      else (case ctx_get c ''url'' of
              PStr u \<Rightarrow> (case i_host net u of Some h \<Rightarrow> if u = [] then domain else PStr h | None \<Rightarrow> PNone)
            | _ \<Rightarrow> domain))"

definition outbound_check :: "policy \<Rightarrow> presult option" where
  "outbound_check p =
     do { allow \<leftarrow> cfg p ''allow_outbound'' (PBool True);
          Some (if truthy allow then pass_r else fail_with ''Outbound network access is disabled by policy'') }"

definition list_check :: "policy \<Rightarrow> string \<Rightarrow> pyval \<Rightarrow> (pyval \<Rightarrow> pyval \<Rightarrow> bool option) \<Rightarrow> bool \<Rightarrow> string \<Rightarrow> presult option" where
  "list_check p key target hit allow message =
     do { xs \<leftarrow> cfg p key (PList []);
          if \<not> truthy target \<or> (allow \<and> \<not> truthy xs) then Some pass_r
          else do { m \<leftarrow> hit target xs; Some (if m = allow then pass_r else fail_with message) } }"

definition eval_network_policy :: "net_env \<Rightarrow> policy \<Rightarrow> pydict \<Rightarrow> presult option" where
  "eval_network_policy net p c =
     (let domain = target_domain net c; addr = ctx_get c ''ip'' in
      if \<not> truthy domain \<and> \<not> truthy addr then outbound_check p
      else
        in_turn
          [list_check p ''blocked_domains'' domain matches_domain False
             (''Domain '' @ quoted (py_str domain) @ '' is blocked by network policy''),
           list_check p ''blocked_ips'' addr (matches_ip net) False
             (''IP address '' @ quoted (py_str addr) @ '' is blocked by network policy''),
           list_check p ''allowed_domains'' domain matches_domain True
             (''Domain '' @ quoted (py_str domain) @ '' is not in the allowed domains list''),
           list_check p ''allowed_ips'' addr (matches_ip net) True
             (''IP address '' @ quoted (py_str addr) @ '' is not in the allowed IP ranges''),
           outbound_check p] [])"

end
