(* ===== verification/PolicyLookup.thy ===== *)
theory PolicyLookup
  imports PolicyModel "HOL-Library.Product_Lexorder"
begin

text \<open>
  Which policies are in force for an endpoint (\<open>get_effective_policies\<close>, \<open>_taxonomy_matches\<close>,
  \<open>_merge_policies\<close> and \<open>invalidate_cache\<close> of \<open>services/policy_engine.py\<close>): the scope query, the
  taxonomy filter, the merge of the five layers, and the cache of results under a versioned key.
  The table of policies is a list of rows with unique ids.
\<close>

section \<open>The query\<close>

definition nonempty :: "string option \<Rightarrow> bool" where
  "nonempty v \<longleftrightarrow> (case v of None \<Rightarrow> False | Some s \<Rightarrow> s \<noteq> [])"

definition in_scope_of :: "endpoint \<Rightarrow> string option \<Rightarrow> string \<Rightarrow> policy \<Rightarrow> bool" where
  "in_scope_of ep user sub p =
     (case p_scope p of
        ORGANIZATION \<Rightarrow> True
      | SUB_ORGANIZATION \<Rightarrow> sub \<noteq> [] \<and> p_scope_sub_org p = sub
      | DEPLOYMENT \<Rightarrow> ep_deployment ep \<noteq> [] \<and> p_scope_deployment p = ep_deployment ep
      | ENDPOINT \<Rightarrow> p_scope_endpoint p = Some (ep_id ep)
      | USER \<Rightarrow> nonempty user \<and> user = Some (p_scope_user p))"

definition of_types :: "string list \<Rightarrow> policy \<Rightarrow> bool" where
  "of_types types p \<longleftrightarrow> types = [] \<or> p_type p \<in> set types"

definition queried :: "endpoint \<Rightarrow> string option \<Rightarrow> string \<Rightarrow> string list \<Rightarrow> policy \<Rightarrow> bool" where
  "queried ep user sub types p \<longleftrightarrow>
     p_tenant p = ep_tenant ep \<and> p_enabled p \<and> in_scope_of ep user sub p \<and> of_types types p"

text \<open>The endpoint's canonical tags; None where the metadata are no such object.\<close>

definition supported_tags :: "endpoint \<Rightarrow> string list option" where
  "supported_tags ep =
     do { taxonomy \<leftarrow> pget (py_or (ep_metadata ep) (PDict [])) ''taxonomy'' (PDict []);
          supported \<leftarrow> pget taxonomy ''supported'' (PList []);
          tags \<leftarrow> py_iter supported;
          map_m str_of tags }"

definition selectors_of :: "policy \<Rightarrow> pyval" where
  "selectors_of p = (case p_config p of PDict d \<Rightarrow> dget d ''taxonomy_selectors'' (PList []) | _ \<Rightarrow> PList [])"

definition taxonomy_matches :: "policy \<Rightarrow> string list \<Rightarrow> bool" where
  "taxonomy_matches p tags =
     (let sel = selectors_of p in
      if \<not> truthy sel then True
      else (case sel of
              PList xs \<Rightarrow> if list_all is_str xs then set xs \<subseteq> PStr ` set tags else True
            | _ \<Rightarrow> True))"

definition applies :: "endpoint \<Rightarrow> string option \<Rightarrow> string \<Rightarrow> string list \<Rightarrow> string list \<Rightarrow> policy \<Rightarrow> bool" where
  "applies ep user sub types tags p \<longleftrightarrow> queried ep user sub types p \<and> taxonomy_matches p tags"

section \<open>The merge\<close>

definition standalone :: "policy \<Rightarrow> bool" where
  "standalone p \<longleftrightarrow> p_non_overridable p \<or> p_override_group p = []"

definition merge_key :: "policy \<Rightarrow> string \<times> string" where
  "merge_key p = (if standalone p then (''independent'', p_id p) else (p_type p, p_override_group p))"

definition priority_key :: "policy \<Rightarrow> int \<times> string" where
  "priority_key p = (p_priority p, p_id p)"

definition merge_layer :: "policy list \<Rightarrow> ((string \<times> string) \<times> policy) list \<Rightarrow> ((string \<times> string) \<times> policy) list" where
  "merge_layer layer merged = fold (\<lambda>p m. dput (merge_key p) p m) (sort_key priority_key layer) merged"

definition merge_policies :: "policy list list \<Rightarrow> policy list" where
  "merge_policies layers = map snd (fold merge_layer layers [])"

definition SCOPES :: "scope_type list" where
  "SCOPES = [ORGANIZATION, SUB_ORGANIZATION, DEPLOYMENT, ENDPOINT, USER]"

definition layers_of :: "policy list \<Rightarrow> policy list list" where
  "layers_of ps = map (\<lambda>s. filter (\<lambda>p. p_scope p = s) ps) SCOPES"

definition sub_org_of :: "endpoint \<Rightarrow> string \<Rightarrow> string" where
  "sub_org_of ep sub = (if ep_sub_org ep \<noteq> [] then ep_sub_org ep else sub)"

text \<open>What a lookup that misses the cache computes.\<close>

definition resolve :: "policy list \<Rightarrow> endpoint \<Rightarrow> string option \<Rightarrow> string list \<Rightarrow> string \<Rightarrow> string list \<Rightarrow> policy list" where
  "resolve rows ep user types sub tags =
     merge_policies (layers_of (filter (applies ep user (sub_org_of ep sub) types tags) rows))"

section \<open>The cache\<close>

record lookup_cache =
  lc_versions :: "(string \<times> int) list"
  lc_entries :: "(string \<times> policy list) list"

definition version_of :: "string \<Rightarrow> lookup_cache \<Rightarrow> int" where
  "version_of tenant c = (case map_of (lc_versions c) tenant of None \<Rightarrow> 0 | Some v \<Rightarrow> v)"

definition cache_key :: "int \<Rightarrow> endpoint \<Rightarrow> string option \<Rightarrow> string list \<Rightarrow> string \<Rightarrow> string list \<Rightarrow> string" where
  "cache_key version ep user types sub tags =
     ''policies:v'' @ show_int version @ '':'' @ ep_tenant ep @ '':'' @ ep_id ep @ '':'' @
       (case user of None \<Rightarrow> ''None'' | Some u \<Rightarrow> u) @ '':'' @ sub_org_of ep sub @ '':'' @ join '','' (sort tags) @
       (if types = [] then [] else '':'' @ join '','' (sort types))"

definition get_effective_policies ::
  "policy list \<Rightarrow> endpoint \<Rightarrow> string option \<Rightarrow> string list \<Rightarrow> string \<Rightarrow> bool \<Rightarrow> lookup_cache \<Rightarrow>
   (policy list \<times> lookup_cache) option" where
  "get_effective_policies rows ep user types sub use_cache c =
     do { tags \<leftarrow> supported_tags ep;
          let key = cache_key (version_of (ep_tenant ep) c) ep user types sub tags;
          case (if use_cache then map_of (lc_entries c) key else None) of
            Some ps \<Rightarrow> Some (ps, c)
          | None \<Rightarrow>
              (let ps = resolve rows ep user types sub tags in
               Some (ps, if use_cache then c\<lparr>lc_entries := dput key ps (lc_entries c)\<rparr> else c)) }"

text \<open>\<open>invalidate_cache\<close>: the first time the counter is missing and starts at 1.\<close>

definition invalidate_cache :: "string \<Rightarrow> lookup_cache \<Rightarrow> lookup_cache" where
  "invalidate_cache tenant c =
     c\<lparr>lc_versions := dput tenant (case map_of (lc_versions c) tenant of Some v \<Rightarrow> v + 1 | None \<Rightarrow> 1) (lc_versions c)\<rparr>"

section \<open>What the merge keeps\<close>

text \<open>The position of a policy in the order of the merge: its layer, then priority, then id.\<close>

primrec layer_index :: "scope_type \<Rightarrow> nat" where
  "layer_index ORGANIZATION = 0"
| "layer_index SUB_ORGANIZATION = 1"
| "layer_index DEPLOYMENT = 2"
| "layer_index ENDPOINT = 3"
| "layer_index USER = 4"

definition precedence :: "policy \<Rightarrow> nat \<times> int \<times> string" where
  "precedence p = (layer_index (p_scope p), p_priority p, p_id p)"

definition merge_order :: "policy list \<Rightarrow> policy list" where
  "merge_order ps = concat (map (sort_key priority_key) (layers_of ps))"

lemma merge_policies_order: "merge_policies (layers_of ps) = map snd (fold (\<lambda>p m. dput (merge_key p) p m) (merge_order ps) [])"
proof -
  have "fold merge_layer ls m = fold (\<lambda>p m. dput (merge_key p) p m) (concat (map (sort_key priority_key) ls)) m" for ls m
    by (induction ls arbitrary: m) (simp_all add: merge_layer_def)
  then show ?thesis by (simp add: merge_policies_def merge_order_def)
qed

lemma set_merge_order [simp]: "set (merge_order ps) = set ps"
proof -
  have "p \<in> set ps \<Longrightarrow> \<exists>s \<in> set SCOPES. p_scope p = s" for p :: policy
    by (cases "p_scope p") (simp_all add: SCOPES_def)
  then show ?thesis by (auto simp: merge_order_def layers_of_def)
qed

lemma sorted_priority: "sorted (map priority_key (sort_key priority_key l))"
  by simp

lemma sorted_merge_order: "sorted (map precedence (merge_order ps))"
proof -
  let ?layer = "\<lambda>s. sort_key priority_key (filter (\<lambda>p. p_scope p = s) ps)"
  have scope: "x \<in> set (?layer s) \<Longrightarrow> p_scope x = s" for x s by simp
  have layer: "sorted (map precedence (?layer s))" for s
  proof -
    have "map precedence (?layer s) = map (Pair (layer_index s)) (map priority_key (?layer s))"
      by (auto simp: precedence_def priority_key_def)
    moreover have "sorted xs \<Longrightarrow> sorted (map (Pair i) xs)" for xs :: "(int \<times> string) list" and i :: nat
      by (induction xs) (auto simp: less_eq_prod_def)
    ultimately show ?thesis using sorted_priority by metis
  qed
  have "sorted (concat (map (\<lambda>s. map precedence (?layer s)) ss))"
    if "sorted (map layer_index ss)" "distinct ss" "inj_on layer_index (set ss)" for ss
    using that
  proof (induction ss)
    case Nil
    then show ?case by simp
  next
    case (Cons s ss)
    have "fst x \<le> layer_index s \<and> layer_index s \<le> fst y \<and> layer_index s \<noteq> fst y"
      if "x \<in> precedence ` set (?layer s)" "y \<in> (\<Union>t \<in> set ss. precedence ` set (?layer t))" for x y
      using that Cons.prems by (auto simp: precedence_def)
    then have "\<forall>x \<in> set (map precedence (?layer s)). \<forall>y \<in> set (concat (map (\<lambda>s. map precedence (?layer s)) ss)). x \<le> y"
      by (fastforce simp: less_eq_prod_def)
    moreover have "sorted (concat (map (\<lambda>s. map precedence (?layer s)) ss))"
      using Cons by simp
    ultimately show ?case using layer by (simp add: sorted_append)
  qed
  from this [of SCOPES] have "sorted (concat (map (\<lambda>s. map precedence (?layer s)) SCOPES))"
    by (simp add: SCOPES_def inj_on_def)
  then show ?thesis by (simp add: merge_order_def layers_of_def map_concat o_def)
qed

text \<open>Writing a list of entries one after the other: the last one of each key stays.\<close>

abbreviation put_all :: "('a \<Rightarrow> 'k) \<Rightarrow> 'a list \<Rightarrow> ('k \<times> 'a) list" where
  "put_all key xs \<equiv> fold (\<lambda>x m. dput (key x) x m) xs []"

lemma map_of_put_all:
  "map_of (put_all key xs) k = (if \<exists>x \<in> set xs. key x = k then Some (last (filter (\<lambda>x. key x = k) xs)) else None)"
  by (induction xs rule: rev_induct) (auto simp: map_of_dput)

lemma distinct_put_all: "distinct (map fst (put_all key xs))"
  by (induction xs rule: rev_induct) (simp_all add: distinct_dput)

lemma snd_put_all: "x \<in> set (map snd (put_all key xs)) \<longleftrightarrow> x \<in> set xs \<and> last (filter (\<lambda>y. key y = key x) xs) = x"
proof -
  let ?m = "put_all key xs"
  have in_m: "(k, x) \<in> set ?m \<longleftrightarrow> map_of ?m k = Some x" for k
    using map_of_eq_Some_iff [OF distinct_put_all [of key xs]] by simp
  have "x \<in> set (map snd ?m) \<longleftrightarrow> (\<exists>k. map_of ?m k = Some x)"
    using in_m by force
  also have "\<dots> \<longleftrightarrow> x \<in> set xs \<and> last (filter (\<lambda>y. key y = key x) xs) = x"
  proof
    assume "\<exists>k. map_of ?m k = Some x"
    then obtain k where k: "\<exists>y \<in> set xs. key y = k" "x = last (filter (\<lambda>y. key y = k) xs)"
      by (auto simp: map_of_put_all split: if_splits)
    then have "x \<in> set (filter (\<lambda>y. key y = k) xs)"
      using last_in_set [of "filter (\<lambda>y. key y = k) xs"] by (auto simp: filter_empty_conv)
    with k(2) show "x \<in> set xs \<and> last (filter (\<lambda>y. key y = key x) xs) = x" by auto
  qed (auto simp: map_of_put_all)
  finally show ?thesis .
qed

lemma last_filter_sorted:
  assumes "sorted (map f xs)" "inj_on f (set xs)" "x \<in> set xs" "P x"
  shows "last (filter P xs) = x \<longleftrightarrow> (\<forall>y \<in> set xs. P y \<longrightarrow> f y \<le> f x)"
proof -
  let ?l = "last (filter P xs)"
  have ne: "filter P xs \<noteq> []" using assms(3,4) by (auto simp: filter_empty_conv)
  then have l: "?l \<in> set xs" "P ?l" using last_in_set [OF ne] by auto
  have "sorted (map f (filter P xs))" using assms(1) by (rule sorted_filter)
  moreover have "map f (filter P xs) = map f (butlast (filter P xs)) @ [f ?l]"
    using ne by (metis append_butlast_last_id list.simps(8) list.simps(9) map_append)
  ultimately have "\<forall>y \<in> set (butlast (filter P xs)). f y \<le> f ?l" by (simp add: sorted_append)
  then have top: "y \<in> set xs \<Longrightarrow> P y \<Longrightarrow> f y \<le> f ?l" for y
  proof -
    assume "y \<in> set xs" "P y"
    then have "y \<in> set (butlast (filter P xs) @ [?l])" using ne by simp
    then show ?thesis using \<open>\<forall>y \<in> set (butlast (filter P xs)). f y \<le> f ?l\<close> by auto
  qed
  show ?thesis
  proof
    assume "\<forall>y \<in> set xs. P y \<longrightarrow> f y \<le> f x"
    then have "f ?l \<le> f x" using l by blast
    with top [OF assms(3,4)] have "f ?l = f x" by (simp add: order.antisym)
    then show "?l = x" using assms(2,3) l(1) by (auto dest: inj_onD)
  qed (use top in blast)
qed

lemma distinct_map_snd: "distinct (map fst m) \<Longrightarrow> \<forall>(k, x) \<in> set m. key x = k \<Longrightarrow> distinct (map snd m)"
  by (induction m) force+

lemma set_dput: "set (dput k v m) \<subseteq> insert (k, v) (set m)"
  by (induction m) (auto split: if_splits)

lemma put_all_keys: "\<forall>(k, x) \<in> set (put_all key xs). key x = k"
proof (induction xs rule: rev_induct)
  case (snoc y xs)
  with set_dput [of "key y" y "put_all key xs"] show ?case by (auto dest: subsetD)
qed simp

lemma merge_key_eq:
  assumes "p_type p \<noteq> ''independent''" "p_type q \<noteq> ''independent''"
  shows "merge_key q = merge_key p \<longleftrightarrow>
    (if standalone p then standalone q \<and> p_id q = p_id p
     else \<not> standalone q \<and> p_type q = p_type p \<and> p_override_group q = p_override_group p)"
  using assms by (auto simp: merge_key_def)

definition rivals :: "policy \<Rightarrow> policy \<Rightarrow> bool" where
  "rivals p q \<longleftrightarrow> \<not> standalone p \<and> \<not> standalone q \<and> p_type q = p_type p \<and> p_override_group q = p_override_group p"

text \<open>
  C6: The policies in force are exactly the ones the hierarchy says. A lookup returns, without
  repetition, every enabled policy of the tenant whose scope covers the endpoint or user and whose
  taxonomy selectors the endpoint carries, except that of the policies of one type in one override
  group only the most specific one, then the one of highest priority, stays; a policy that is
  non-overridable or in no group is never displaced.
\<close>

theorem effective_policies_exact:
  assumes "distinct (map p_id rows)" "list_all (\<lambda>p. p_type p \<noteq> ''independent'') rows"
  shows "distinct (resolve rows ep user types sub tags) \<and>
    (\<forall>p. p \<in> set (resolve rows ep user types sub tags) \<longleftrightarrow>
      p \<in> set rows \<and> applies ep user (sub_org_of ep sub) types tags p \<and>
      (\<forall>q \<in> set rows. applies ep user (sub_org_of ep sub) types tags q \<and> rivals p q \<longrightarrow> precedence q \<le> precedence p))"
proof -
  let ?ps = "filter (applies ep user (sub_org_of ep sub) types tags) rows"
  let ?o = "merge_order ?ps"
  have res: "resolve rows ep user types sub tags = map snd (put_all merge_key ?o)"
    by (simp add: resolve_def merge_policies_order)
  have "inj_on p_id (set rows)" using assms(1) by (simp add: distinct_map)
  then have inj: "inj_on precedence (set ?o)"
    by (auto simp: inj_on_def precedence_def)
  have "(p \<in> set (map snd (put_all merge_key ?o))) \<longleftrightarrow> (p \<in> set rows \<and> applies ep user (sub_org_of ep sub) types tags p \<and>
      (\<forall>q \<in> set rows. applies ep user (sub_org_of ep sub) types tags q \<and> rivals p q \<longrightarrow> precedence q \<le> precedence p))" for p
  proof (cases "p \<in> set ?ps")
    case False
    then show ?thesis using snd_put_all [of p merge_key ?o] by auto
  next
    case True
    have same: "(merge_key q = merge_key p \<longrightarrow> precedence q \<le> precedence p) \<longleftrightarrow> (rivals p q \<longrightarrow> precedence q \<le> precedence p)"
      if "q \<in> set ?ps" for q
    proof -
      from that True assms(2) have "p_type p \<noteq> ''independent''" "p_type q \<noteq> ''independent''"
        by (auto simp: list_all_iff)
      moreover have "p_id q = p_id p \<Longrightarrow> q = p" using that True \<open>inj_on p_id (set rows)\<close> by (auto dest: inj_onD)
      ultimately show ?thesis by (auto simp: merge_key_eq rivals_def)
    qed
    have "last (filter (\<lambda>y. merge_key y = merge_key p) ?o) = p \<longleftrightarrow>
        (\<forall>q \<in> set ?ps. merge_key q = merge_key p \<longrightarrow> precedence q \<le> precedence p)"
      using last_filter_sorted [OF sorted_merge_order inj, of p "\<lambda>y. merge_key y = merge_key p"] True by simp
    also have "\<dots> \<longleftrightarrow> (\<forall>q \<in> set ?ps. rivals p q \<longrightarrow> precedence q \<le> precedence p)"
      using same by (intro ball_cong refl)
    finally have "last (filter (\<lambda>y. merge_key y = merge_key p) ?o) = p \<longleftrightarrow>
        (\<forall>q \<in> set ?ps. rivals p q \<longrightarrow> precedence q \<le> precedence p)" .
    moreover have "p \<in> set (map snd (put_all merge_key ?o)) \<longleftrightarrow> last (filter (\<lambda>y. merge_key y = merge_key p) ?o) = p"
      using True snd_put_all [of p merge_key ?o] by simp
    ultimately show ?thesis using True by (simp add: Ball_def imp_conjL)
  qed
  moreover have "distinct (map snd (put_all merge_key ?o))"
    by (rule distinct_map_snd [OF distinct_put_all put_all_keys])
  ultimately show ?thesis unfolding res by blast
qed

definition demo_endpoint :: endpoint where
  "demo_endpoint = \<lparr>ep_id = ''e1'', ep_agent_id = ''agent'', ep_tenant = ''t'', ep_sub_org = [], ep_deployment = [],
     ep_agent_type = ''custom'', ep_metadata = PDict []\<rparr>"

text \<open>A group of two, one of them narrower, and a mandatory organization policy.\<close>

definition demo_rows :: "policy list" where
  "demo_rows =
     [demo_policy\<lparr>p_override_group := ''g'', p_priority := 9\<rparr>,
      demo_policy\<lparr>p_id := ''p2'', p_override_group := ''g'', p_scope := ENDPOINT, p_scope_endpoint := Some ''e1''\<rparr>,
      demo_policy\<lparr>p_id := ''p3'', p_override_group := ''g'', p_non_overridable := True\<rparr>]"

theorem effective_policies_exact_witness:
  "map p_id (resolve demo_rows demo_endpoint None [] [] []) = [''p3'', ''p2''] \<and>
   demo_rows ! 2 \<in> set (resolve demo_rows demo_endpoint None [] [] []) \<and>
   demo_rows ! 0 \<notin> set (resolve demo_rows demo_endpoint None [] [] [])"
proof -
  have rows: "distinct (map p_id demo_rows)" "list_all (\<lambda>p. p_type p \<noteq> ''independent'') demo_rows"
    by (simp_all add: demo_rows_def demo_policy_def)
  have all: "\<forall>p \<in> set demo_rows. applies demo_endpoint None (sub_org_of demo_endpoint []) [] [] p"
    by (simp add: demo_rows_def demo_policy_def demo_endpoint_def applies_def queried_def in_scope_of_def of_types_def
        taxonomy_matches_def selectors_of_def dget_def)
  have "rivals (demo_rows ! 0) (demo_rows ! 1)" "\<not> precedence (demo_rows ! 1) \<le> precedence (demo_rows ! 0)"
    "\<not> rivals (demo_rows ! 2) q" for q
    by (simp_all add: rivals_def standalone_def precedence_def less_eq_prod_def demo_rows_def demo_policy_def)
  moreover have "demo_rows ! 0 \<in> set demo_rows" "demo_rows ! 1 \<in> set demo_rows" "demo_rows ! 2 \<in> set demo_rows"
    by (simp_all add: demo_rows_def)
  moreover have "map p_id (resolve demo_rows demo_endpoint None [] [] []) = [''p3'', ''p2'']"
    by code_simp
  ultimately show ?thesis
    using effective_policies_exact [OF rows, of demo_endpoint None "[]" "[]" "[]"] all by blast
qed

end
