(* ===== verification/LookupCache.thy ===== *)
theory LookupCache
  imports PolicyLookup
begin

text \<open>
  The cache of effective policies never serves what a change has replaced. A run interleaves
  lookups, changes of one tenant's policies, each followed by \<open>invalidate_cache\<close> as the signal
  handlers and mutations do, and entries that expire. Endpoints keep their rows during a run.
\<close>

type_synonym lookup_request = "endpoint \<times> string option \<times> string list \<times> string"

fun request_key :: "int \<Rightarrow> lookup_request \<Rightarrow> string option" where
  "request_key v (ep, user, types, sub) = map_option (cache_key v ep user types sub) (supported_tags ep)"

fun request_policies :: "policy list \<Rightarrow> lookup_request \<Rightarrow> policy list option" where
  "request_policies rows (ep, user, types, sub) = map_option (resolve rows ep user types sub) (supported_tags ep)"

fun request_tenant :: "lookup_request \<Rightarrow> string" where
  "request_tenant (ep, user, types, sub) = ep_tenant ep"

type_synonym lookup_state = "policy list \<times> lookup_cache"

inductive lookup_step :: "lookup_request set \<Rightarrow> lookup_state \<Rightarrow> lookup_state \<Rightarrow> bool" for R where
  lookup: "(ep, user, types, sub) \<in> R \<Longrightarrow>
    get_effective_policies rows ep user types sub use_cache c = Some (ps, c') \<Longrightarrow>
    lookup_step R (rows, c) (rows, c')"
| change: "filter (\<lambda>p. p_tenant p \<noteq> tenant) rows' = filter (\<lambda>p. p_tenant p \<noteq> tenant) rows \<Longrightarrow>
    lookup_step R (rows, c) (rows', invalidate_cache tenant c)"
| expire: "lookup_step R (rows, c) (rows, c\<lparr>lc_entries := filter keep (lc_entries c)\<rparr>)"

inductive lookup_run :: "lookup_request set \<Rightarrow> lookup_state \<Rightarrow> lookup_state \<Rightarrow> bool" for R where
  start: "lookup_run R s s"
| step: "lookup_run R s t \<Longrightarrow> lookup_step R t u \<Longrightarrow> lookup_run R s u"

inductive_cases lookup_stepE: "lookup_step R (rows, c) t"

text \<open>The key tells requests with different answers, and versions, apart.\<close>

definition keys_apart :: "lookup_request set \<Rightarrow> bool" where
  "keys_apart R \<longleftrightarrow> (\<forall>r \<in> R. \<forall>r' \<in> R. \<forall>v v' k. request_key v r = Some k \<and> request_key v' r' = Some k \<longrightarrow>
     v = v' \<and> request_tenant r = request_tenant r' \<and> (\<forall>rows. request_policies rows r = request_policies rows r'))"

section \<open>The invariant\<close>

definition entry_fresh :: "lookup_request set \<Rightarrow> lookup_state \<Rightarrow> string \<times> policy list \<Rightarrow> bool" where
  "entry_fresh R s e \<longleftrightarrow> (\<exists>r \<in> R. \<exists>v. request_key v r = Some (fst e) \<and> v \<le> version_of (request_tenant r) (snd s) \<and>
     (v = version_of (request_tenant r) (snd s) \<longrightarrow> request_policies (fst s) r = Some (snd e)))"

definition all_fresh :: "lookup_request set \<Rightarrow> lookup_state \<Rightarrow> bool" where
  "all_fresh R s \<longleftrightarrow> (\<forall>e \<in> set (lc_entries (snd s)). entry_fresh R s e)"

lemma version_invalidate:
  "version_of tenant' (invalidate_cache tenant c) = version_of tenant' c + (if tenant' = tenant then 1 else 0)"
  by (simp add: version_of_def invalidate_cache_def map_of_dput split: option.splits)

lemma resolve_other_tenant:
  assumes "filter (\<lambda>p. p_tenant p \<noteq> tenant) rows' = filter (\<lambda>p. p_tenant p \<noteq> tenant) rows" "ep_tenant ep \<noteq> tenant"
  shows "resolve rows' ep user types sub tags = resolve rows ep user types sub tags"
proof -
  have "filter (applies ep user s types tags) xs =
      filter (applies ep user s types tags) (filter (\<lambda>p. p_tenant p \<noteq> tenant) xs)" for xs s
    using assms(2) by (induction xs) (auto simp: applies_def queried_def)
  then show ?thesis using assms(1) by (metis resolve_def)
qed

lemma request_policies_other:
  assumes "filter (\<lambda>p. p_tenant p \<noteq> tenant) rows' = filter (\<lambda>p. p_tenant p \<noteq> tenant) rows" "request_tenant r \<noteq> tenant"
  shows "request_policies rows' r = request_policies rows r"
proof (cases r)
  case (fields ep user types sub)
  with assms(2) resolve_other_tenant [OF assms(1), of ep user types sub]
  have "resolve rows' ep user types sub = resolve rows ep user types sub" by (intro ext) simp
  with fields show ?thesis by simp
qed

lemma lookup_answer:
  assumes "keys_apart R" "all_fresh R (rows, c)" "(ep, user, types, sub) \<in> R"
    "get_effective_policies rows ep user types sub use_cache c = Some (ps, c')"
  shows "request_policies rows (ep, user, types, sub) = Some ps \<and>
    (c' = c \<or> (\<exists>k. request_key (version_of (ep_tenant ep) c) (ep, user, types, sub) = Some k \<and>
       c' = c\<lparr>lc_entries := dput k ps (lc_entries c)\<rparr>))"
proof -
  let ?r = "(ep, user, types, sub)" and ?v = "version_of (ep_tenant ep) c"
  from assms(4) obtain tags where tags: "supported_tags ep = Some tags"
    by (auto simp: get_effective_policies_def bind_eq_Some_conv)
  let ?k = "cache_key ?v ep user types sub tags"
  show ?thesis
  proof (cases "if use_cache then map_of (lc_entries c) ?k else None")
    case None
    with assms(4) tags show ?thesis by (auto simp: get_effective_policies_def Let_def split: if_splits)
  next
    case (Some qs)
    with assms(4) tags have "ps = qs" "c' = c" by (simp_all add: get_effective_policies_def Let_def)
    moreover from Some have "(?k, qs) \<in> set (lc_entries c)" by (auto dest: map_of_SomeD split: if_splits)
    then have "entry_fresh R (rows, c) (?k, qs)" using assms(2) by (simp add: all_fresh_def)
    then obtain r v where r: "r \<in> R" "request_key v r = Some ?k" "v = version_of (request_tenant r) c \<Longrightarrow> request_policies rows r = Some qs"
      by (auto simp: entry_fresh_def)
    have "request_key ?v ?r = Some ?k" by (simp add: tags)
    with assms(1,3) r(1,2) have "v = ?v" "request_tenant r = ep_tenant ep" "request_policies rows r = request_policies rows ?r"
      unfolding keys_apart_def by (metis request_tenant.simps)+
    ultimately show ?thesis using r(3) by simp
  qed
qed

lemma lookup_step_fresh:
  assumes "keys_apart R" "lookup_step R s t" "all_fresh R s"
  shows "all_fresh R t"
  using assms(2)
proof cases
  case (lookup ep user types sub rows use_cache c ps c')
  have fresh: "all_fresh R (rows, c)" using assms(3) lookup by simp
  note ans = lookup_answer [OF assms(1) fresh lookup(3,4)]
  show ?thesis
  proof (cases "c' = c")
    case True
    with fresh lookup show ?thesis by simp
  next
    case False
    then obtain k where k: "request_key (version_of (ep_tenant ep) c) (ep, user, types, sub) = Some k"
      "c' = c\<lparr>lc_entries := dput k ps (lc_entries c)\<rparr>" using ans by blast
    have "entry_fresh R (rows, c') (k, ps)"
      unfolding entry_fresh_def using lookup(3) k ans
      by (intro bexI [of _ "(ep, user, types, sub)"] exI [of _ "version_of (ep_tenant ep) c"]) (simp_all add: version_of_def)
    moreover have "entry_fresh R (rows, c') e \<longleftrightarrow> entry_fresh R (rows, c) e" for e
      by (simp add: entry_fresh_def k(2) version_of_def)
    ultimately show ?thesis
      using fresh lookup(2) k(2) set_dput [of k ps "lc_entries c"] by (auto simp: all_fresh_def)
  qed
next
  case (change tenant rows' rows c)
  have "entry_fresh R (rows', invalidate_cache tenant c) e" if "entry_fresh R (rows, c) e" for e
  proof -
    from that obtain r v where r: "r \<in> R" "request_key v r = Some (fst e)" "v \<le> version_of (request_tenant r) c"
      "v = version_of (request_tenant r) c \<longrightarrow> request_policies rows r = Some (snd e)"
      by (auto simp: entry_fresh_def)
    then show ?thesis
      unfolding entry_fresh_def using request_policies_other [OF change(3), of r]
      by (intro bexI [of _ r] exI [of _ v]) (auto simp: version_invalidate)
  qed
  with assms(3) change show ?thesis by (simp add: all_fresh_def invalidate_cache_def)
next
  case (expire rows c keep)
  have "entry_fresh R (rows, c\<lparr>lc_entries := filter keep (lc_entries c)\<rparr>) e \<longleftrightarrow> entry_fresh R (rows, c) e" for e
    by (simp add: entry_fresh_def version_of_def)
  with assms(3) expire show ?thesis by (simp add: all_fresh_def)
qed

lemma lookup_run_fresh:
  assumes "lookup_run R s t" "keys_apart R" "all_fresh R s"
  shows "all_fresh R t"
  using assms by (induction rule: lookup_run.induct) (blast intro: lookup_step_fresh)+


section \<open>A run\<close>

lemma digit_inject:
  assumes "i < 10" "j < 10" "''0123456789'' ! i = ''0123456789'' ! j"
  shows "i = j"
proof -
  have "distinct ''0123456789''" by simp
  then show ?thesis using nth_eq_iff_index_eq [of "''0123456789''" i j] assms by simp
qed

lemma show_nat_digits: "set (show_nat n) \<subseteq> set ''0123456789'' \<and> show_nat n \<noteq> []"
proof (induction n rule: less_induct)
  case (less n)
  have "''0123456789'' ! (n mod 10) \<in> set ''0123456789''" by (rule nth_mem) simp
  with less [of "n div 10"] show ?case by (subst (1 2) show_nat.simps) auto
qed

lemma show_nat_inject: "show_nat m = show_nat n \<longleftrightarrow> m = n"
proof (induction m arbitrary: n rule: less_induct)
  case (less m)
  have parts: "last (show_nat k) = ''0123456789'' ! (k mod 10)"
    "butlast (show_nat k) = (if k < 10 then [] else show_nat (k div 10))" for k
    by (subst show_nat.simps; simp)+
  show ?case
  proof
    assume eq: "show_nat m = show_nat n"
    then have ends: "(''0123456789'' :: string) ! (m mod 10) = ''0123456789'' ! (n mod 10)" by (metis parts(1))
    then have "m mod 10 = n mod 10" by (intro digit_inject) simp_all
    moreover from eq have "(if m < 10 then [] else show_nat (m div 10)) = (if n < 10 then [] else show_nat (n div 10))"
      by (metis parts(2))
    then have "m < 10 \<and> n < 10 \<or> 10 \<le> m \<and> 10 \<le> n \<and> m div 10 = n div 10"
      using less [of "m div 10" "n div 10"] show_nat_digits [of "m div 10"] show_nat_digits [of "n div 10"]
      by (auto split: if_splits)
    ultimately show "m = n" by (metis div_mult_mod_eq mod_less)
  qed simp
qed

lemma show_int_inject: "show_int i = show_int j \<longleftrightarrow> i = j"
proof -
  have "show_nat n \<noteq> ''-'' @ s" for n s using show_nat_digits [of n] by auto
  then show ?thesis
    by (auto simp: show_int_def show_nat_inject split: if_splits) (metis append_Cons append_Nil)+
qed

lemma demo_request_apart: "keys_apart {(demo_endpoint, None, [], [])}"
proof -
  have "cache_key v demo_endpoint None [] [] [] = cache_key v' demo_endpoint None [] [] [] \<Longrightarrow> v = v'" for v v'
    by (simp add: cache_key_def show_int_inject)
  moreover have "supported_tags demo_endpoint = Some []" by code_simp
  ultimately show ?thesis by (auto simp: keys_apart_def)
qed


end
