(* ===== verification/RiskScorer.thy ===== *)
theory RiskScorer
  imports PolicyModel
begin

text \<open>
  The risk score of an evaluation (\<open>services/risk_scorer.py\<close>) and the severity it stands for
  (\<open>services/incident_service.py\<close>). The score adds four capped parts; a factor explains each signal.
  \<open>entry\<close> is one element of the engine's list of evaluated policies.
\<close>

section \<open>Results and factors\<close>

datatype coverage = Enforced | ObservationOnly | Unsupported

record entry =
  en_id :: string
  en_version :: nat
  en_name :: string
  en_type :: string
  en_passed :: bool
  en_message :: "string option"
  en_selectors :: pyval
  en_coverage :: coverage
  en_action :: "action option"
  en_level :: "block_level option"
  en_approved :: bool

record factor =
  fa_name :: string
  fa_score :: int
  fa_detail :: string

definition factor_of :: "string \<Rightarrow> int \<Rightarrow> string \<Rightarrow> factor" where
  "factor_of name score detail = \<lparr>fa_name = name, fa_score = score, fa_detail = detail\<rparr>"

section \<open>The four parts\<close>

text \<open>No entry carries an enforcement key, so every failure counts as one of an enforcing policy.\<close>

definition score_policy_violations :: "entry list \<Rightarrow> int \<times> factor list" where
  "score_policy_violations rs =
     (let fs = map (\<lambda>r. factor_of ''policy_violation'' 7 (''Enforcing policy failed: '' @ en_name r))
                 (filter (\<lambda>r. \<not> en_passed r) rs)
      in (min (sum_list (map fa_score fs)) 35, fs))"

definition ACTION_RISK_MAP :: "(string \<times> int) list" where
  "ACTION_RISK_MAP =
     [(''tool:shell_execute'', 22), (''tool:code_execute'', 22), (''tool:file_write'', 18), (''tool:file_delete'', 18),
      (''tool:database_write'', 15), (''tool:network_request'', 12), (''tool:file_read'', 8), (''llm:invoke'', 5)]"

definition ACTION_RISK_DEFAULT :: int where "ACTION_RISK_DEFAULT = 3"
definition ACTION_RISK_MAX :: int where "ACTION_RISK_MAX = 25"

definition dq :: string where "dq = [CHR 0x22]"

definition score_action :: "string \<Rightarrow> int \<times> factor list" where
  "score_action action =
     (let score = min (case map_of ACTION_RISK_MAP action of Some n \<Rightarrow> n | None \<Rightarrow> ACTION_RISK_DEFAULT) ACTION_RISK_MAX
      in (score, [factor_of ''action_riskiness'' score (''Action '' @ dq @ action @ dq @ '' base risk score'')]))"

definition production :: "pyval \<Rightarrow> bool" where
  "production v = (case v of PStr s \<Rightarrow> substring ''prod'' (lower s) \<or> substring ''production'' (lower s) | _ \<Rightarrow> False)"

definition sensitivity_factors :: "pydict \<Rightarrow> factor list" where
  "sensitivity_factors c =
     (let data_type = dget c ''data_type'' (PStr []); datasource = dget c ''datasource'' (PStr []) in
      (if ctx_get c ''data_contains_pii'' = PBool True
       then [factor_of ''data_contains_pii'' 15 ''Context signals PII data present''] else []) @
      (if ctx_get c ''is_pii_access'' = PBool True
       then [factor_of ''is_pii_access'' 15 ''Action is a PII access operation''] else []) @
      (if data_type = PStr ''financial'' then [factor_of ''data_type_financial'' 12 ''Data type is financial'']
       else if data_type = PStr ''pii'' then [factor_of ''data_type_pii'' 15 ''Data type explicitly marked as PII'']
       else []) @
      (if production datasource
       then [factor_of ''production_datasource'' 10 (''Datasource '' @ dq @ py_str datasource @ dq @ '' appears to be production'')]
       else []) @
      (if ctx_get c ''require_encryption'' = PBool False \<and>
          (truthy (ctx_get c ''data_contains_pii'') \<or> truthy (ctx_get c ''is_pii_access'') \<or>
           one_of data_type [''pii'', ''financial''])
       then [factor_of ''no_encryption_sensitive'' 8 ''Encryption not required on sensitive data''] else []))"

definition score_data_sensitivity :: "pydict \<Rightarrow> int \<times> factor list" where
  "score_data_sensitivity c =
     (let fs = sensitivity_factors c in (min (sum_list (map fa_score fs)) 25, fs))"

definition audit_signal :: "int \<Rightarrow> string list \<Rightarrow> factor list" where
  "audit_signal score ws =
     (let n = int (length (filter (starts_with ''[Audit]'') ws)) in
      if score < 15 \<and> 0 < n
      then [factor_of ''audit_warnings'' (min (n * 3) (15 - score)) (show_int n @ '' audit warning(s) recorded'')] else [])"

definition denial_signal :: "int \<Rightarrow> string list \<Rightarrow> factor list" where
  "denial_signal score ws =
     (let n = int (length (filter (starts_with ''[Dry-run] Would be denied'') ws)) in
      if score < 15 \<and> 0 < n
      then [factor_of ''dry_run_denials'' (min (n * 5) (15 - score)) (show_int n @ '' action(s) would be denied'')] else [])"

definition score_behavioral_signals :: "string list \<Rightarrow> int \<times> factor list" where
  "score_behavioral_signals ws =
     (let f1 = (case find (starts_with ''[BehavioralAnomaly]'') ws of
                  None \<Rightarrow> [] | Some w \<Rightarrow> [factor_of ''behavioral_anomaly'' 15 w]);
          s1 = sum_list (map fa_score f1);
          f2 = audit_signal s1 ws; s2 = s1 + sum_list (map fa_score f2);
          f3 = denial_signal s2 ws; s3 = s2 + sum_list (map fa_score f3)
      in (min s3 15, f1 @ f2 @ f3))"

definition risk_compute :: "string \<Rightarrow> pydict \<Rightarrow> entry list \<Rightarrow> string list \<Rightarrow> int \<times> factor list" where
  "risk_compute action c rs ws =
     (case (score_policy_violations rs, score_action action, score_data_sensitivity c, score_behavioral_signals ws) of
        ((v, fv), (a, fa), (d, fd), (b, fb)) \<Rightarrow> (min (v + a + d + b) 100, fv @ fa @ fd @ fb))"

section \<open>Severity\<close>

definition risk_score_to_severity :: "int \<Rightarrow> severity" where
  "risk_score_to_severity score =
     (if 80 \<le> score then CRITICAL else if 60 \<le> score then HIGH else if 40 \<le> score then MEDIUM else LOW)"

lemma severity_mono: "s \<le> t \<Longrightarrow> risk_score_to_severity s \<le> risk_score_to_severity t"
  by (auto simp: risk_score_to_severity_def less_eq_severity_def)

section \<open>Bounds and monotonicity\<close>

lemma violations_sum: "sum_list (map fa_score (snd (score_policy_violations rs))) = 7 * int (length (filter (\<lambda>r. \<not> en_passed r) rs))"
  by (simp add: score_policy_violations_def Let_def factor_of_def o_def sum_list_triv)

lemma violations_score: "fst (score_policy_violations rs) = min (7 * int (length (filter (\<lambda>r. \<not> en_passed r) rs))) 35"
  using violations_sum [of rs] by (simp add: score_policy_violations_def Let_def)

lemma action_score_bounds: "3 \<le> fst (score_action a) \<and> fst (score_action a) \<le> 22"
  by (simp add: score_action_def Let_def ACTION_RISK_MAP_def ACTION_RISK_DEFAULT_def ACTION_RISK_MAX_def)

lemma sensitivity_bounds: "0 \<le> fst (score_data_sensitivity c) \<and> fst (score_data_sensitivity c) \<le> 25"
proof -
  have "\<forall>f \<in> set (sensitivity_factors c). 0 \<le> fa_score f"
    unfolding sensitivity_factors_def Let_def set_append ball_Un by (simp add: factor_of_def)
  then have "0 \<le> sum_list (map fa_score (sensitivity_factors c))" by (intro sum_list_nonneg) auto
  then show ?thesis by (simp add: score_data_sensitivity_def Let_def)
qed

lemma behavioral_score:
  "fst (score_behavioral_signals ws) =
     (if list_ex (starts_with ''[BehavioralAnomaly]'') ws then 15
      else min 15 (3 * int (length (filter (starts_with ''[Audit]'') ws)) +
                   5 * int (length (filter (starts_with ''[Dry-run] Would be denied'') ws))))"
proof (cases "find (starts_with ''[BehavioralAnomaly]'') ws")
  case None
  then have "\<not> list_ex (starts_with ''[BehavioralAnomaly]'') ws"
    by (auto simp: find_None_iff list_ex_iff)
  with None show ?thesis
    by (auto simp: score_behavioral_signals_def audit_signal_def denial_signal_def factor_of_def Let_def)
next
  case (Some w)
  then have "list_ex (starts_with ''[BehavioralAnomaly]'') ws"
    by (auto simp: find_Some_iff list_ex_iff)
  with Some show ?thesis
    by (simp add: score_behavioral_signals_def audit_signal_def denial_signal_def factor_of_def Let_def)
qed

text \<open>
  A risk score is a number from 3 to 97, so the cap at 100 never cuts; its severity follows it;
  and signals only add: a failed rule or a warning more never lowers the score or the severity, and
  the fifth failed rule is the last that raises it.
\<close>

lemma risk_score_bounds:
  "3 \<le> fst (risk_compute action c rs ws) \<and> fst (risk_compute action c rs ws) \<le> 97 \<and>
   fst (risk_compute action c rs ws) \<le> fst (risk_compute action c (rs @ rs') (ws @ ws')) \<and>
   risk_score_to_severity (fst (risk_compute action c rs ws)) \<le>
     risk_score_to_severity (fst (risk_compute action c (rs @ rs') (ws @ ws'))) \<and>
   fst (risk_compute action c rs ws) =
     min 5 (int (length (filter (\<lambda>r. \<not> en_passed r) rs))) * 7 + fst (score_action action) +
     fst (score_data_sensitivity c) + fst (score_behavioral_signals ws)"
proof -
  have total: "fst (risk_compute action c rs ws) = fst (score_policy_violations rs) + fst (score_action action) +
      fst (score_data_sensitivity c) + fst (score_behavioral_signals ws)" for rs ws
    using violations_score [of rs] action_score_bounds [of action] sensitivity_bounds [of c] behavioral_score [of ws]
    by (auto simp: risk_compute_def split: prod.splits if_splits)
  have "fst (score_policy_violations rs) \<le> fst (score_policy_violations (rs @ rs'))"
    by (simp add: violations_score)
  moreover have "fst (score_behavioral_signals ws) \<le> fst (score_behavioral_signals (ws @ ws'))"
    by (auto simp: behavioral_score)
  ultimately have "fst (risk_compute action c rs ws) \<le> fst (risk_compute action c (rs @ rs') (ws @ ws'))"
    by (simp add: total)
  moreover have "0 \<le> fst (score_policy_violations rs)" "fst (score_policy_violations rs) \<le> 35"
    "0 \<le> fst (score_behavioral_signals ws)" "fst (score_behavioral_signals ws) \<le> 15"
    by (simp_all add: violations_score behavioral_score)
  then have "3 \<le> fst (risk_compute action c rs ws)" "fst (risk_compute action c rs ws) \<le> 97"
    using action_score_bounds [of action] sensitivity_bounds [of c] by (simp_all add: total)
  moreover have "fst (score_policy_violations rs) = min 5 (int (length (filter (\<lambda>r. \<not> en_passed r) rs))) * 7"
    by (simp add: violations_score min_def)
  ultimately show ?thesis using severity_mono by (simp add: total [of rs ws])
qed

end
