(* ===== verification/Engine.thy ===== *)
theory Engine
  imports EvalApproval EvalContext RiskScorer PolicyLookup
begin

text \<open>
  The policy engine (\<open>PolicyEngine.evaluate\<close> of \<open>services/policy_engine.py\<close>) with the incidents and
  notifications it raises (\<open>services/incident_service.py\<close>, \<open>models/notification.py\<close>). An evaluation
  reads the policies in force, runs their evaluators, decides every match once all have run, admits
  the call against budgets and approvals, scores it and reports. The evaluators are a table, an
  argument here; \<open>Dispatch\<close> fills it with the modelled ones. The result None is an exception that
  leaves \<open>evaluate\<close>.
\<close>

section \<open>State and requests\<close>

datatype notice_type = POLICY_VIOLATION | BUDGET_WARNING | HIGH_RISK | INCIDENT_OPENED

record notice =
  nt_tenant :: string
  nt_type :: notice_type
  nt_subject :: string
  nt_message :: string
  nt_created :: int

record incident =
  ic_tenant :: string
  ic_title :: string
  ic_description :: string
  ic_severity :: severity
  ic_source_ref :: string

record 'c world =
  w_cache :: 'c
  w_lookup :: lookup_cache
  w_budget :: budget_state
  w_incidents :: "incident list"
  w_notices :: "notice list"

type_synonym 'c evaluator =
  "policy \<Rightarrow> string \<Rightarrow> string option \<Rightarrow> bool \<Rightarrow> pydict \<Rightarrow> 'c world \<Rightarrow> presult option \<times> pydict \<times> 'c world"

text \<open>What an evaluation reads and never writes; \<open>g_evaluator\<close> is the table of evaluators.\<close>

record 'c engine =
  g_ops :: "'c cache_ops"
  g_content :: content_env
  g_approval :: approval_env
  g_budget :: budget_env
  g_rows :: "policy list"
  g_fresh :: string
  g_now :: int
  g_evaluator :: "string \<Rightarrow> 'c evaluator option"

record request =
  q_endpoint :: endpoint
  q_action :: string
  q_user :: "string option"
  q_context :: pyval
  q_dry :: bool
  q_caps :: "capabilities option"
  q_verified :: bool
  q_hold :: bool

definition subject_of :: "request \<Rightarrow> string" where
  "subject_of q = (case q_user q of None \<Rightarrow> [] | Some u \<Rightarrow> u)"

record result =
  er_allowed :: bool
  er_reason :: "string option"
  er_policies :: "entry list"
  er_warnings :: "string list"
  er_context :: pydict
  er_dry_run :: bool
  er_risk :: int
  er_factors :: "factor list"
  er_coverage :: "coverage option \<times> (nat \<times> nat \<times> nat)"
  er_approval_required :: bool
  er_enforcement :: summary
  er_counts :: "count_key list"

text \<open>A refusal before any rule is read.\<close>

definition refused :: "request \<Rightarrow> string \<Rightarrow> pydict \<Rightarrow> result" where
  "refused q reason ctx =
     \<lparr>er_allowed = False, er_reason = Some reason, er_policies = [], er_warnings = [], er_context = ctx,
      er_dry_run = False, er_risk = 0, er_factors = [], er_coverage = (None, 0, 0, 0),
      er_approval_required = False, er_enforcement = refusal (q_caps q), er_counts = []\<rparr>"

section \<open>The trusted context\<close>

text \<open>The text of an exception that becomes a refusal; a TypeError's is CPython's own.\<close>

definition exc_text :: "pyexc \<Rightarrow> string" where
  "exc_text e = (case e of ValueError m \<Rightarrow> m | _ \<Rightarrow> ''TypeError'')"

fun refusable :: "pyexc \<Rightarrow> bool" where
  "refusable (ValueError m) = True"
| "refusable TypeError = True"
| "refusable _ = False"

definition strip_private :: "pydict \<Rightarrow> pydict" where
  "strip_private c = filter (\<lambda>(k, _). \<not> starts_with ''_'' k) c"

definition endpoint_taxonomy :: "endpoint \<Rightarrow> pyval option" where
  "endpoint_taxonomy ep =
     pget (py_or (ep_metadata ep) (PDict [])) ''taxonomy'' (PDict [(''supported'', PList []), (''unsupported'', PList [])])"

definition user_verified :: "request \<Rightarrow> bool" where
  "user_verified q \<longleftrightarrow> q_verified q \<and> nonempty (q_user q)"

definition trusted_context :: "approval_env \<Rightarrow> request \<Rightarrow> pyval \<Rightarrow> pydict \<Rightarrow> pydict" where
  "trusted_context x q taxonomy c0 =
     (let c = strip_private c0; ep = q_endpoint q in
      dput ''taxonomy'' taxonomy
       (dput ''_user_verified'' (PBool (user_verified q))
       (dput ''_agent_id'' (PStr (ep_agent_id ep))
       (dput ''_endpoint_id'' (PStr (ep_id ep))
       (dput ''_tenant_id'' (PStr (ep_tenant ep))
       (dput ''_approval_digest'' (PStr (context_digest x c)) c))))))"

definition bind_authority :: "request \<Rightarrow> pydict \<Rightarrow> pydict \<Rightarrow> pydict" where
  "bind_authority q authority c =
     (if ''authority'' \<in> fst ` set c
      then dput ''authority'' (PDict (dput ''endpoint_id'' (PStr (ep_id (q_endpoint q)))
             (dput ''tenant_id'' (PStr (ep_tenant (q_endpoint q))) authority))) c
      else c)"

text \<open>The context the rules see, or the refusal; None: another exception.\<close>

definition prepare :: "'c engine \<Rightarrow> request \<Rightarrow> (result + pydict) option" where
  "prepare g q =
     (case normalize_context (g_content g) (py_or (q_context q) (PDict [])) of
        Inl e \<Rightarrow> if refusable e then Some (Inl (refused q (exc_text e) [])) else None
      | Inr c \<Rightarrow>
          (case normalize_authority (dget c ''authority'' PNone) of
             Inl e \<Rightarrow> if refusable e then Some (Inl (refused q (exc_text e) [])) else None
           | Inr authority \<Rightarrow>
               (let claimed = dget authority ''tenant_id'' PNone in
                if claimed \<noteq> PNone \<and> claimed \<noteq> PStr (ep_tenant (q_endpoint q))
                then Some (Inl (refused q ''authority tenant_id does not match authenticated endpoint''
                       [(''authority'', PDict authority)]))
                else do {
                  taxonomy \<leftarrow> endpoint_taxonomy (q_endpoint q);
                  Some (Inr (trusted_context (g_approval g) q taxonomy (bind_authority q authority c))) })))"

section \<open>Running the evaluators\<close>

definition rule_ref :: "policy \<Rightarrow> pyval" where
  "rule_ref p = PDict [(''type'', PStr ''policy''), (''id'', PStr (p_id p)), (''name'', PStr (p_name p)),
     (''version'', PInt (int (p_version p)))]"

definition fail_closed :: "policy \<Rightarrow> decision" where
  "fail_closed p =
     (if p_enforcement p = ENFORCE
      then \<lparr>d_action = BLOCK, d_block_level = Some TOOL_CALL, d_mode = p_enforcement p, d_configured = Some (p_action p),
            d_rule = rule_ref p, d_escalation = None, d_capped_from = None, d_message = None\<rparr>
      else \<lparr>d_action = LOG, d_block_level = None, d_mode = p_enforcement p, d_configured = Some (p_action p),
            d_rule = rule_ref p, d_escalation = None, d_capped_from = Some BLOCK, d_message = None\<rparr>)"

text \<open>An evaluated policy: its entry and the evaluator's result, or why its selectors are malformed.\<close>

record outcome =
  oc_policy :: policy
  oc_entry :: entry
  oc_verdict :: "string + presult"

definition selector_list :: "policy \<Rightarrow> pyval" where
  "selector_list p = (case p_config p of PDict d \<Rightarrow> dget d ''taxonomy_selectors'' PNone | _ \<Rightarrow> PNone)"

definition selectors_malformed :: "policy \<Rightarrow> bool" where
  "selectors_malformed p \<longleftrightarrow>
     (case selector_list p of
        PNone \<Rightarrow> False
      | PList xs \<Rightarrow> \<not> list_all (\<lambda>x. case x of PStr s \<Rightarrow> CHR '':'' \<in> set s | _ \<Rightarrow> False) xs
      | _ \<Rightarrow> True)"

definition malformed_outcome :: "policy \<Rightarrow> outcome" where
  "malformed_outcome p =
     (let m = ''Policy '' @ p_name p @ '' has malformed taxonomy selectors'' in
      \<lparr>oc_policy = p,
       oc_entry = \<lparr>en_id = p_id p, en_version = p_version p, en_name = p_name p, en_type = p_type p, en_passed = False,
         en_message = Some m, en_selectors = (case selector_list p of PList xs \<Rightarrow> PList xs | _ \<Rightarrow> PList []),
         en_coverage = (if p_enforcement p = ENFORCE then Enforced else ObservationOnly),
         en_action = None, en_level = None, en_approved = False\<rparr>,
       oc_verdict = Inl m\<rparr>)"

definition coverage_of :: "'c engine \<Rightarrow> policy \<Rightarrow> coverage" where
  "coverage_of g p =
     (if g_evaluator g (p_type p) = None then Unsupported
      else if p_enforcement p = ENFORCE \<and> can_refuse (p_action p) (p_escalation p) then Enforced
      else ObservationOnly)"

definition run_evaluator ::
  "'c engine \<Rightarrow> request \<Rightarrow> policy \<Rightarrow> pydict \<Rightarrow> 'c world \<Rightarrow> presult \<times> pydict \<times> 'c world" where
  "run_evaluator g q p c w =
     (case g_evaluator g (p_type p) of
        None \<Rightarrow> (pass_r, c, w)
      | Some ev \<Rightarrow>
          (case ev p (q_action q) (q_user q) (q_dry q) c w of
             (Some r, c1, w1) \<Rightarrow> (r, c1, w1)
           | (None, c1, w1) \<Rightarrow> (error_result p, c1, w1)))"

definition evaluated_outcome :: "'c engine \<Rightarrow> policy \<Rightarrow> presult \<Rightarrow> outcome" where
  "evaluated_outcome g p r =
     \<lparr>oc_policy = p,
      oc_entry = \<lparr>en_id = p_id p, en_version = p_version p, en_name = p_name p, en_type = p_type p,
        en_passed = pr_passed r, en_message = pr_message r, en_selectors = selectors_of p,
        en_coverage = coverage_of g p, en_action = None, en_level = None, en_approved = False\<rparr>,
      oc_verdict = Inr r\<rparr>"

fun run_policies ::
  "'c engine \<Rightarrow> request \<Rightarrow> policy list \<Rightarrow> pydict \<Rightarrow> 'c world \<Rightarrow> outcome list \<times> pydict \<times> 'c world" where
  "run_policies g q [] c w = ([], c, w)"
| "run_policies g q (p # ps) c w =
     (if p_enforcement p = DISABLED then run_policies g q ps c w
      else if selectors_malformed p then
        (case run_policies g q ps c w of (os, c1, w1) \<Rightarrow> (malformed_outcome p # os, c1, w1))
      else
        (case run_evaluator g q p c w of (r, c1, w1) \<Rightarrow>
           (case run_policies g q ps c1 w1 of (os, c2, w2) \<Rightarrow> (evaluated_outcome g p r # os, c2, w2))))"

section \<open>Deciding\<close>

definition escalating :: "outcome \<Rightarrow> bool" where
  "escalating oc \<longleftrightarrow> (case oc_verdict oc of Inl _ \<Rightarrow> False
     | Inr r \<Rightarrow> \<not> pr_passed r \<and> esc_severity (p_escalation (oc_policy oc)) \<noteq> [])"

definition audit_warning :: "policy \<Rightarrow> presult \<Rightarrow> string" where
  "audit_warning p r = ''[Audit] '' @ p_name p @ '': '' @ show_msg (pr_message r)"

definition signals_of :: "outcome \<Rightarrow> string list" where
  "signals_of oc = (case oc_verdict oc of Inl _ \<Rightarrow> []
     | Inr r \<Rightarrow> (if \<not> pr_passed r \<and> p_enforcement (oc_policy oc) = AUDIT then [audit_warning (oc_policy oc) r] else []) @
         pr_warnings r)"

definition escalation_severity :: "string \<Rightarrow> pydict \<Rightarrow> outcome list \<Rightarrow> severity option" where
  "escalation_severity action c os =
     (if list_ex escalating os
      then Some (risk_score_to_severity (fst (risk_compute action c (map oc_entry os) (concat (map signals_of os)))))
      else None)"

definition escalation_scope :: "endpoint \<Rightarrow> pyval \<Rightarrow> string" where
  "escalation_scope ep session =
     (if ep_agent_type ep = ''agent_host'' \<and> truthy session
      then ep_id ep @ '':session:'' @ py_str session else ep_id ep)"

definition count_key_of :: "policy \<Rightarrow> endpoint \<Rightarrow> pydict \<Rightarrow> count_key option" where
  "count_key_of p ep c =
     (if esc_repeat (p_escalation p) = [] then None
      else Some \<lparr>ck_tenant = ep_tenant ep, ck_kind = ''policy'', ck_rule = p_id p,
                 ck_scope = escalation_scope ep (ctx_get c ''session_id''), ck_window = esc_window (p_escalation p)\<rparr>)"

definition count_by_key :: "'c cache_ops \<Rightarrow> count_key \<Rightarrow> bool \<Rightarrow> 'c \<Rightarrow> (int \<times> 'c) option" where
  "count_by_key ops k rec c =
     count_match ops (escalation_key (ck_tenant k) (ck_kind k) (ck_rule k) (ck_scope k)) (ck_window k) rec c"

definition steer_values :: "request \<Rightarrow> policy \<Rightarrow> presult \<Rightarrow> pydict \<Rightarrow> pydict" where
  "steer_values q p r c =
     [(''rule'', PStr (p_name p)), (''reason'', case pr_message r of None \<Rightarrow> PNone | Some m \<Rightarrow> PStr m),
      (''action'', PStr (q_action q)),
      (''tool'', py_or (py_or (ctx_get c ''tool_name'') (ctx_get c ''tool'')) (PStr [])),
      (''agent'', PStr (ep_agent_id (q_endpoint q)))]"

text \<open>A steer decision's message; the template of a stored rule always renders.\<close>

definition with_message :: "request \<Rightarrow> policy \<Rightarrow> presult \<Rightarrow> pydict \<Rightarrow> decision \<Rightarrow> decision option" where
  "with_message q p r c d =
     (if d_action d = STEER
      then (case render_steer (p_steer p) (steer_values q p r c) of
              Inr m \<Rightarrow> Some (d\<lparr>d_message := Some m\<rparr>) | Inl _ \<Rightarrow> None)
      else Some d)"

definition soften :: "presult \<Rightarrow> decision \<Rightarrow> decision" where
  "soften r d =
     (if pr_advisory r \<and> denies d
      then d\<lparr>d_capped_from := Some (d_action d), d_action := ALERT, d_block_level := None\<rparr> else d)"

definition decide_match ::
  "'c engine \<Rightarrow> request \<Rightarrow> policy \<Rightarrow> presult \<Rightarrow> pydict \<Rightarrow> severity option \<Rightarrow> bool \<Rightarrow> 'c \<Rightarrow> (decision \<times> 'c) option" where
  "decide_match g q p r c sev rec cache =
     do { (cnt, cache1) \<leftarrow> (case count_key_of p (q_endpoint q) c of
            None \<Rightarrow> Some (None, cache)
          | Some k \<Rightarrow> map_option (map_prod Some id) (count_by_key (g_ops g) k rec cache));
          d \<leftarrow> with_message q p r c
                 (decide (p_action p) (Some (p_block_level p)) (p_escalation p) (p_enforcement p) cnt sev
                    (pr_approval r) (rule_ref p));
          Some (soften r d, cache1) }"

definition released_by_approval ::
  "'c engine \<Rightarrow> request \<Rightarrow> approval list \<Rightarrow> decision \<Rightarrow> presult \<Rightarrow> policy \<Rightarrow> pydict \<Rightarrow> (bool \<times> pydict) option" where
  "released_by_approval g q aps d r p c =
     (if d_mode d \<noteq> ENFORCE \<or> d_action d \<noteq> REQUIRE_APPROVAL \<or> pr_approval r \<or> \<not> truthy (ctx_get c ''approval_token'')
      then Some (False, c)
      else do { (v, c1) \<leftarrow> validate_policy_approval (g_approval g) aps p (q_action q) (subject_of q) c;
                Some (pr_passed v, c1) })"

section \<open>Verdicts\<close>

text \<open>The state of the deciding loop.\<close>

record 'c verdicts =
  vs_allowed :: bool
  vs_reason :: "string option"
  vs_approval_only :: bool
  vs_warnings :: "string list"
  vs_decisions :: "decision list"
  vs_held :: "count_key list"
  vs_entries :: "entry list"
  vs_context :: pydict
  vs_cache :: 'c

definition judge_malformed :: "request \<Rightarrow> policy \<Rightarrow> entry \<Rightarrow> string \<Rightarrow> 'c verdicts \<Rightarrow> 'c verdicts" where
  "judge_malformed q p en m v =
     (let d = fail_closed p;
          v1 = v\<lparr>vs_decisions := vs_decisions v @ [d],
                 vs_entries := vs_entries v @ [en\<lparr>en_action := Some (d_action d), en_level := d_block_level d\<rparr>]\<rparr>
      in if p_enforcement p = ENFORCE \<and> \<not> q_dry q
         then v1\<lparr>vs_allowed := False, vs_reason := Some m, vs_approval_only := False\<rparr>
         else v1\<lparr>vs_warnings := vs_warnings v @ [m]\<rparr>)"

text \<open>What a decided match does to the evaluation, by mode and action.\<close>

definition warnings_of :: "request \<Rightarrow> policy \<Rightarrow> presult \<Rightarrow> decision \<Rightarrow> string list" where
  "warnings_of q p r d =
     (if p_enforcement p = ENFORCE then
        (if denies d then
           (if q_dry q then [''[Dry-run] Would be denied: '' @ p_name p @ '': '' @ show_msg (pr_message r)] else [])
         else if d_action d = WARN then [''[Warn] '' @ p_name p @ '': '' @ show_msg (pr_message r)]
         else if d_action d = STEER then [''[Steer] '' @ p_name p @ '': '' @ show_msg (d_message d)]
         else [])
      else [audit_warning p r])"

definition record_decision ::
  "request \<Rightarrow> policy \<Rightarrow> presult \<Rightarrow> entry \<Rightarrow> decision \<Rightarrow> 'c verdicts \<Rightarrow> 'c verdicts" where
  "record_decision q p r en d v =
     (let v1 = v\<lparr>vs_decisions := vs_decisions v @ [d],
                 vs_entries := vs_entries v @ [en\<lparr>en_action := Some (d_action d), en_level := d_block_level d\<rparr>],
                 vs_warnings := vs_warnings v @ warnings_of q p r d\<rparr>
      in if p_enforcement p = ENFORCE \<and> denies d \<and> \<not> q_dry q
         then v1\<lparr>vs_allowed := False, vs_reason := pr_message r,
                 vs_approval_only := vs_approval_only v \<and> d_action d = REQUIRE_APPROVAL\<rparr>
         else v1)"

text \<open>
  A match that no approval releases counts, unless the call is a dry run, the evaluator raised, or
  a host holds the call for an approval; counting decides again, with the count recorded.
\<close>

definition count_decision ::
  "'c engine \<Rightarrow> request \<Rightarrow> policy \<Rightarrow> presult \<Rightarrow> severity option \<Rightarrow> decision \<Rightarrow> 'c verdicts \<Rightarrow>
   (decision \<times> 'c verdicts) option" where
  "count_decision g q p r sev d v =
     (case (if q_dry q \<or> pr_error r then None else count_key_of p (q_endpoint q) (vs_context v)) of
        None \<Rightarrow> Some (d, v)
      | Some k \<Rightarrow>
          if q_hold q \<and> d_action d = REQUIRE_APPROVAL then Some (d, v\<lparr>vs_held := vs_held v @ [k]\<rparr>)
          else do { (d', cache) \<leftarrow> decide_match g q p r (vs_context v) sev True (vs_cache v);
                    Some (d', v\<lparr>vs_cache := cache\<rparr>) })"

definition first_decision ::
  "'c engine \<Rightarrow> request \<Rightarrow> policy \<Rightarrow> presult \<Rightarrow> severity option \<Rightarrow> 'c verdicts \<Rightarrow> decision option" where
  "first_decision g q p r sev v =
     (if pr_error r then Some (fail_closed p)
      else map_option fst (decide_match g q p r (vs_context v) sev False (vs_cache v)))"

definition judge_failed ::
  "'c engine \<Rightarrow> request \<Rightarrow> approval list \<Rightarrow> severity option \<Rightarrow> policy \<Rightarrow> entry \<Rightarrow> presult \<Rightarrow> 'c verdicts \<Rightarrow>
   'c verdicts option" where
  "judge_failed g q aps sev p en r v =
     do { d \<leftarrow> first_decision g q p r sev v;
          (released, c1) \<leftarrow> released_by_approval g q aps d r p (vs_context v);
          let v1 = v\<lparr>vs_context := c1\<rparr>;
          if released then Some (v1\<lparr>vs_entries := vs_entries v @ [en\<lparr>en_passed := True, en_approved := True\<rparr>]\<rparr>)
          else do { (d', v2) \<leftarrow> count_decision g q p r sev d v1;
                    Some (record_decision q p r en d' v2) } }"

definition judge ::
  "'c engine \<Rightarrow> request \<Rightarrow> approval list \<Rightarrow> severity option \<Rightarrow> outcome \<Rightarrow> 'c verdicts \<Rightarrow> 'c verdicts option" where
  "judge g q aps sev oc v =
     (case oc_verdict oc of
        Inl m \<Rightarrow> Some (judge_malformed q (oc_policy oc) (oc_entry oc) m v)
      | Inr r \<Rightarrow>
          do { v1 \<leftarrow> (if pr_passed r then Some (v\<lparr>vs_entries := vs_entries v @ [oc_entry oc]\<rparr>)
                      else judge_failed g q aps sev (oc_policy oc) (oc_entry oc) r v);
               Some (v1\<lparr>vs_warnings := vs_warnings v1 @ pr_warnings r\<rparr>) })"

fun judge_all ::
  "'c engine \<Rightarrow> request \<Rightarrow> approval list \<Rightarrow> severity option \<Rightarrow> outcome list \<Rightarrow> 'c verdicts \<Rightarrow> 'c verdicts option" where
  "judge_all g q aps sev [] v = Some v"
| "judge_all g q aps sev (oc # os) v = Option.bind (judge g q aps sev oc v) (judge_all g q aps sev os)"

definition start_verdicts :: "pydict \<Rightarrow> 'c \<Rightarrow> 'c verdicts" where
  "start_verdicts c cache =
     \<lparr>vs_allowed = True, vs_reason = None, vs_approval_only = True, vs_warnings = [], vs_decisions = [],
      vs_held = [], vs_entries = [], vs_context = c, vs_cache = cache\<rparr>"

text \<open>A call held for an approval that something else refused, or nothing did, counts after all.\<close>

fun count_all_held :: "'c cache_ops \<Rightarrow> count_key list \<Rightarrow> 'c \<Rightarrow> 'c option" where
  "count_all_held ops [] c = Some c"
| "count_all_held ops (k # ks) c = do { (_, c1) \<leftarrow> count_by_key ops k True c; count_all_held ops ks c1 }"

definition settle_held :: "'c engine \<Rightarrow> 'c verdicts \<Rightarrow> 'c verdicts option" where
  "settle_held g v =
     (if vs_held v \<noteq> [] \<and> (vs_allowed v \<or> \<not> vs_approval_only v)
      then do { cache \<leftarrow> count_all_held (g_ops g) (vs_held v) (vs_cache v); Some (v\<lparr>vs_cache := cache, vs_held := []\<rparr>) }
      else Some v)"

section \<open>Admission and result\<close>

definition budget_refusal :: decision where
  "budget_refusal = refusal_decision"

definition admission ::
  "'c engine \<Rightarrow> request \<Rightarrow> policy list \<Rightarrow> 'c verdicts \<Rightarrow> budget_state \<Rightarrow> ('c verdicts \<times> budget_state) option" where
  "admission g q ps v b =
     (if \<not> vs_allowed v \<or> q_dry q then Some (v, b)
      else do {
        (err, c, b1) \<leftarrow> admit (g_budget g) (g_fresh g) ps (q_endpoint q) (q_action q) (vs_context v) b;
        let v1 = v\<lparr>vs_context := c\<rparr>;
        Some (case err of
                None \<Rightarrow> (v1, b1)
              | Some m \<Rightarrow> (v1\<lparr>vs_allowed := False, vs_reason := Some m, vs_approval_only := False,
                              vs_decisions := vs_decisions v @ [budget_refusal]\<rparr>, b1)) })"

definition honourable :: "request \<Rightarrow> capabilities option" where
  "honourable q = map_option (\<lambda>caps. dput ''supports_redact'' False caps) (q_caps q)"

definition count_coverage :: "outcome list \<Rightarrow> coverage \<Rightarrow> nat" where
  "count_coverage os cv = length (filter (\<lambda>oc. en_coverage (oc_entry oc) = cv \<and> \<not> isl (oc_verdict oc)) os)"

definition coverage_summary :: "outcome list \<Rightarrow> coverage option \<times> (nat \<times> nat \<times> nat)" where
  "coverage_summary os =
     (let e = count_coverage os Enforced; o' = count_coverage os ObservationOnly; u = count_coverage os Unsupported
      in (if 0 < u then Some Unsupported else if 0 < e then Some Enforced else if 0 < o' then Some ObservationOnly else None,
          e, o', u))"

definition result_of :: "request \<Rightarrow> outcome list \<Rightarrow> 'c verdicts \<Rightarrow> result" where
  "result_of q os v =
     (case risk_compute (q_action q) (vs_context v) (vs_entries v) (vs_warnings v) of (score, factors) \<Rightarrow>
        \<lparr>er_allowed = q_dry q \<or> vs_allowed v, er_reason = (if q_dry q then None else vs_reason v),
         er_policies = vs_entries v, er_warnings = vs_warnings v, er_context = vs_context v, er_dry_run = q_dry q,
         er_risk = score, er_factors = factors, er_coverage = coverage_summary os,
         er_approval_required = (\<not> q_dry q \<and> \<not> vs_allowed v \<and> vs_approval_only v),
         er_enforcement = summarize (vs_decisions v) (honourable q), er_counts = vs_held v\<rparr>)"

section \<open>Incidents and notifications\<close>

text \<open>\<open>create_notification\<close>: a subject already sent within five minutes is not repeated.\<close>

definition create_notification :: "int \<Rightarrow> string \<Rightarrow> notice_type \<Rightarrow> string \<Rightarrow> string \<Rightarrow> notice list \<Rightarrow> notice list" where
  "create_notification now tenant ty subj msg ns =
     (if list_ex (\<lambda>n. nt_tenant n = tenant \<and> nt_type n = ty \<and> nt_subject n = subj \<and> now - seconds 300 \<le> nt_created n) ns
      then ns
      else ns @ [\<lparr>nt_tenant = tenant, nt_type = ty, nt_subject = subj, nt_message = msg, nt_created = now\<rparr>])"

definition show_msg_or :: "string option \<Rightarrow> string" where
  "show_msg_or m = (case m of None \<Rightarrow> [] | Some s \<Rightarrow> s)"

text \<open>\<open>_maybe_create_incident\<close>; a failed policy whose configuration is no object raises and ends the loop.\<close>

definition last_policy :: "policy list \<Rightarrow> string \<Rightarrow> policy option" where
  "last_policy ps i = (case filter (\<lambda>p. p_id p = i) ps of [] \<Rightarrow> None | qs \<Rightarrow> Some (last qs))"

fun create_incidents :: "int \<Rightarrow> string \<Rightarrow> severity \<Rightarrow> policy list \<Rightarrow> entry list \<Rightarrow> 'c world \<Rightarrow> 'c world" where
  "create_incidents now tenant sev ps [] w = w"
| "create_incidents now tenant sev ps (en # ens) w =
     (case (if en_passed en then None else last_policy ps (en_id en)) of
        None \<Rightarrow> create_incidents now tenant sev ps ens w
      | Some p \<Rightarrow>
          (case cfg p ''auto_incident'' (PBool False) of
             None \<Rightarrow> w
           | Some v \<Rightarrow>
               if \<not> truthy v then create_incidents now tenant sev ps ens w
               else
                 (let title = ''Policy violation: '' @ p_name p; message = show_msg_or (en_message en) in
                  create_incidents now tenant sev ps ens
                    (w\<lparr>w_incidents := w_incidents w @ [\<lparr>ic_tenant = tenant, ic_title = title, ic_description = message,
                          ic_severity = sev, ic_source_ref = en_id en\<rparr>],
                       w_notices := create_notification now tenant INCIDENT_OPENED (''Incident opened: '' @ title)
                          (strip (''Severity: '' @ severity_value sev @ ''. '' @ message)) (w_notices w)\<rparr>))))"

definition rule_field :: "decision \<Rightarrow> string \<Rightarrow> string" where
  "rule_field d k = (case d_rule d of PDict kvs \<Rightarrow> py_str (dget kvs k (PStr [])) | _ \<Rightarrow> [])"

definition alert_message :: "entry list \<Rightarrow> decision \<Rightarrow> string" where
  "alert_message ens d =
     (case find (\<lambda>en. en_id en = rule_field d ''id'') ens of None \<Rightarrow> [] | Some en \<Rightarrow> show_msg_or (en_message en))"

definition alert_notices :: "int \<Rightarrow> string \<Rightarrow> entry list \<Rightarrow> decision list \<Rightarrow> notice list \<Rightarrow> notice list" where
  "alert_notices now tenant ens ds ns =
     fold (\<lambda>d. create_notification now tenant POLICY_VIOLATION (''Policy alert: '' @ take 100 (rule_field d ''name''))
               (alert_message ens d)) (filter (\<lambda>d. d_action d = ALERT) ds) ns"

definition violation_notice :: "int \<Rightarrow> string \<Rightarrow> string option \<Rightarrow> notice list \<Rightarrow> notice list" where
  "violation_notice now tenant reason ns =
     (let r = (case reason of None \<Rightarrow> [] | Some m \<Rightarrow> m) in
      create_notification now tenant POLICY_VIOLATION
        (''Policy violation: '' @ (if r = [] then ''Request blocked'' else take 100 r))
        (if r = [] then ''A request was blocked by policy enforcement.'' else r) ns)"

definition risk_notice :: "int \<Rightarrow> request \<Rightarrow> int \<Rightarrow> notice list \<Rightarrow> notice list" where
  "risk_notice now q score ns =
     (if 75 \<le> score
      then create_notification now (ep_tenant (q_endpoint q)) HIGH_RISK
             (''High risk score: '' @ show_int score @ ''/100 for agent '' @ ep_agent_id (q_endpoint q))
             (''Action '' @ quoted (q_action q) @ '' produced a risk score of '' @ show_int score @ ''/100.'') ns
      else ns)"

definition report :: "'c engine \<Rightarrow> request \<Rightarrow> policy list \<Rightarrow> decision list \<Rightarrow> result \<Rightarrow> 'c world \<Rightarrow> 'c world" where
  "report g q ps ds res w =
     (if q_dry q then w
      else
        (let tenant = ep_tenant (q_endpoint q);
             w1 = (if er_allowed res then w
                   else (let wi = create_incidents (g_now g) tenant (risk_score_to_severity (er_risk res)) ps (er_policies res) w
                         in wi\<lparr>w_notices := violation_notice (g_now g) tenant (er_reason res) (w_notices wi)\<rparr>))
         in w1\<lparr>w_notices := risk_notice (g_now g) q (er_risk res)
                 (alert_notices (g_now g) tenant (er_policies res) ds (w_notices w1))\<rparr>))"

section \<open>Evaluate\<close>

definition evaluate_policies ::
  "'c engine \<Rightarrow> request \<Rightarrow> policy list \<Rightarrow> pydict \<Rightarrow> 'c world \<Rightarrow> (result \<times> 'c world) option" where
  "evaluate_policies g q ps c w =
     (case run_policies g q ps c w of (os, c1, w1) \<Rightarrow>
        do { let sev = escalation_severity (q_action q) c1 os;
             v1 \<leftarrow> judge_all g q (bs_approvals (w_budget w1)) sev os (start_verdicts c1 (w_cache w1));
             v2 \<leftarrow> settle_held g v1;
             (v3, b) \<leftarrow> admission g q ps v2 (w_budget w1);
             let res = result_of q os v3;
             Some (res, report g q ps (vs_decisions v3) res (w1\<lparr>w_cache := vs_cache v3, w_budget := b\<rparr>)) })"

definition policy_types :: "string \<Rightarrow> string list" where
  "policy_types action = (if action = ''llm:response'' then [''output_filter''] else [])"

definition evaluate :: "'c engine \<Rightarrow> request \<Rightarrow> 'c world \<Rightarrow> (result \<times> 'c world) option" where
  "evaluate g q w =
     do { start \<leftarrow> prepare g q;
          case start of
            Inl res \<Rightarrow> Some (res, w)
          | Inr c \<Rightarrow>
              do { (ps, lc) \<leftarrow> get_effective_policies (g_rows g) (q_endpoint q) (q_user q) (policy_types (q_action q)) [] True (w_lookup w);
                   evaluate_policies g q ps c (w\<lparr>w_lookup := lc\<rparr>) } }"

end
