(* ===== verification/EngineRules.thy ===== *)
theory EngineRules
  imports Engine
begin

text \<open>
  What an evaluation promises whatever the evaluators are: the answer, the reported decision and the
  option chosen for the target agree; rules that cannot be read or evaluated fail closed; the
  context the rules see carries the endpoint's identity; and an allowed call has spent its approvals.
\<close>

section \<open>Decisions carry their policy's mode\<close>

lemma decide_mode [simp]: "d_mode (decide a bl e md cnt sev k r) = md"
  by (simp add: decide_def Let_def)

lemma with_message_Some:
  "with_message q p r c d = Some d' \<Longrightarrow> d_mode d' = d_mode d \<and> d_action d' = d_action d \<and> d_block_level d' = d_block_level d"
  by (auto simp: with_message_def split: if_splits sum.splits)

lemma soften_mode [simp]: "d_mode (soften r d) = d_mode d"
  by (simp add: soften_def)

lemma capped_soften: "capped d \<Longrightarrow> capped (soften r d)"
  by (auto simp: capped_def soften_def denies_def)

lemma decide_match_mode:
  assumes "decide_match g q p r c sev rec cache = Some (d, cache')"
  shows "d_mode d = p_enforcement p \<and> capped d"
proof -
  from assms obtain cnt d0 where "with_message q p r c (decide (p_action p) (Some (p_block_level p)) (p_escalation p)
      (p_enforcement p) cnt sev (pr_approval r) (rule_ref p)) = Some d0" "d = soften r d0"
    by (auto simp: decide_match_def bind_eq_Some_conv)
  with with_message_Some [OF this(1)] capped_decide show ?thesis
    by (metis capped_def capped_soften decide_mode soften_mode)
qed

lemma fail_closed_mode [simp]: "d_mode (fail_closed p) = p_enforcement p" "capped (fail_closed p)"
  "denies (fail_closed p) \<longleftrightarrow> p_enforcement p = ENFORCE" "d_action (fail_closed p) \<noteq> REQUIRE_APPROVAL"
  by (simp_all add: fail_closed_def capped_def denies_def)

lemma first_decision_mode:
  "first_decision g q p r sev v = Some d \<Longrightarrow> d_mode d = p_enforcement p \<and> capped d"
  by (auto simp: first_decision_def split: if_splits dest: decide_match_mode)

lemma count_decision_mode:
  assumes "count_decision g q p r sev d v = Some (d', v')" "d_mode d = p_enforcement p \<and> capped d"
  shows "d_mode d' = p_enforcement p \<and> capped d' \<and> vs_decisions v' = vs_decisions v \<and> vs_allowed v' = vs_allowed v \<and>
    vs_approval_only v' = vs_approval_only v"
  using assms
  by (auto simp: count_decision_def bind_eq_Some_conv split: option.splits if_splits dest: decide_match_mode)

lemma denies_mode: "denies d \<Longrightarrow> d_mode d = ENFORCE"
  by (simp add: denies_def split: if_splits)

section \<open>The loop's invariant\<close>

text \<open>The flags say what the decisions say; a dry run never lowers them.\<close>

definition consistent :: "request \<Rightarrow> 'c verdicts \<Rightarrow> bool" where
  "consistent q v \<longleftrightarrow>
     list_all capped (vs_decisions v) \<and>
     (vs_allowed v \<longleftrightarrow> q_dry q \<or> \<not> list_ex denies (vs_decisions v)) \<and>
     (vs_approval_only v \<longleftrightarrow> q_dry q \<or> list_all (\<lambda>d. denies d \<longrightarrow> d_action d = REQUIRE_APPROVAL) (vs_decisions v))"

lemma consistent_start: "consistent q (start_verdicts c cache)"
  by (simp add: consistent_def start_verdicts_def)

lemma consistent_fields:
  "vs_decisions v' = vs_decisions v \<Longrightarrow> vs_allowed v' = vs_allowed v \<Longrightarrow> vs_approval_only v' = vs_approval_only v \<Longrightarrow>
   consistent q v' \<longleftrightarrow> consistent q v"
  by (simp add: consistent_def)

lemma consistent_malformed: "consistent q v \<Longrightarrow> consistent q (judge_malformed q p en m v)"
  by (cases "p_enforcement p = ENFORCE \<and> \<not> q_dry q") (auto simp: consistent_def judge_malformed_def Let_def)

lemma consistent_record:
  assumes "consistent q v" "d_mode d = p_enforcement p" "capped d"
  shows "consistent q (record_decision q p r en d v)"
proof (cases "denies d \<and> \<not> q_dry q")
  case True
  then have "p_enforcement p = ENFORCE" using assms(2) denies_mode by metis
  with True assms show ?thesis by (auto simp: consistent_def record_decision_def Let_def)
next
  case False
  with assms show ?thesis by (auto simp: consistent_def record_decision_def Let_def)
qed

lemma consistent_failed:
  assumes "judge_failed g q aps sev p en r v = Some v'" "consistent q v"
  shows "consistent q v'"
proof -
  from assms(1) obtain d rel c1 where d: "first_decision g q p r sev v = Some d"
    and rest: "(if rel then Some (v\<lparr>vs_context := c1, vs_entries := vs_entries v @ [en\<lparr>en_passed := True, en_approved := True\<rparr>]\<rparr>)
       else do { (d', v2) \<leftarrow> count_decision g q p r sev d (v\<lparr>vs_context := c1\<rparr>); Some (record_decision q p r en d' v2) }) = Some v'"
    by (auto simp: judge_failed_def Let_def bind_eq_Some_conv)
  show ?thesis
  proof (cases rel)
    case True
    with rest assms(2) show ?thesis by (auto simp: consistent_def)
  next
    case False
    with rest obtain d' v2 where c: "count_decision g q p r sev d (v\<lparr>vs_context := c1\<rparr>) = Some (d', v2)"
      "v' = record_decision q p r en d' v2" by (auto simp: bind_eq_Some_conv)
    note m = count_decision_mode [OF c(1) first_decision_mode [OF d]]
    then have "consistent q v2" using assms(2) by (simp add: consistent_def)
    with m show ?thesis unfolding c(2) by (intro consistent_record) simp_all
  qed
qed

lemma consistent_judge:
  assumes "judge g q aps sev oc v = Some v'" "consistent q v"
  shows "consistent q v'"
proof (cases "oc_verdict oc")
  case (Inl m)
  with assms show ?thesis by (auto simp: judge_def intro: consistent_malformed)
next
  case (Inr r)
  with assms(1) obtain v1 where v1: "(if pr_passed r then Some (v\<lparr>vs_entries := vs_entries v @ [oc_entry oc]\<rparr>)
      else judge_failed g q aps sev (oc_policy oc) (oc_entry oc) r v) = Some v1"
    "v' = v1\<lparr>vs_warnings := vs_warnings v1 @ pr_warnings r\<rparr>"
    by (auto simp: judge_def bind_eq_Some_conv)
  have "consistent q v1"
  proof (cases "pr_passed r")
    case True
    with v1(1) assms(2) show ?thesis by (auto simp: consistent_def)
  next
    case False
    with v1(1) assms(2) show ?thesis by (auto intro: consistent_failed)
  qed
  then show ?thesis by (simp add: v1(2) consistent_def)
qed

lemma consistent_judge_all: "judge_all g q aps sev os v = Some v' \<Longrightarrow> consistent q v \<Longrightarrow> consistent q v'"
  by (induction os arbitrary: v) (auto simp: bind_eq_Some_conv intro: consistent_judge)

lemma consistent_settle: "settle_held g v = Some v' \<Longrightarrow> consistent q v \<Longrightarrow> consistent q v'"
  by (auto simp: settle_held_def bind_eq_Some_conv consistent_def split: if_splits)

lemma consistent_admission:
  assumes "admission g q ps v b = Some (v', b')" "consistent q v"
  shows "consistent q v'"
proof (cases "\<not> vs_allowed v \<or> q_dry q")
  case True
  with assms show ?thesis by (simp add: admission_def)
next
  case False
  with assms(1) obtain err c b1 where
    "(case err of None \<Rightarrow> (v\<lparr>vs_context := c\<rparr>, b1)
      | Some m \<Rightarrow> (v\<lparr>vs_context := c, vs_allowed := False, vs_reason := Some m, vs_approval_only := False,
          vs_decisions := vs_decisions v @ [budget_refusal]\<rparr>, b1)) = (v', b')"
    by (auto simp: admission_def bind_eq_Some_conv Let_def)
  then have err: "v' = (case err of None \<Rightarrow> v\<lparr>vs_context := c\<rparr>
      | Some m \<Rightarrow> v\<lparr>vs_context := c, vs_allowed := False, vs_reason := Some m, vs_approval_only := False,
          vs_decisions := vs_decisions v @ [budget_refusal]\<rparr>)"
    by (cases err) simp_all
  have "denies budget_refusal" "capped budget_refusal" "d_action budget_refusal \<noteq> REQUIRE_APPROVAL"
    by (simp_all add: budget_refusal_def refusal_decision_def denies_def capped_def)
  with err False assms(2) show ?thesis by (cases err) (auto simp: consistent_def)
qed

text \<open>An evaluation as its stages.\<close>

lemma evaluate_policies_stages:
  assumes "evaluate_policies g q ps c w = Some (res, w')"
  obtains os c1 w1 v1 v2 v3 b where "run_policies g q ps c w = (os, c1, w1)"
    "judge_all g q (bs_approvals (w_budget w1)) (escalation_severity (q_action q) c1 os) os (start_verdicts c1 (w_cache w1)) = Some v1"
    "settle_held g v1 = Some v2" "admission g q ps v2 (w_budget w1) = Some (v3, b)" "res = result_of q os v3"
    "w' = report g q ps (vs_decisions v3) (result_of q os v3) (w1\<lparr>w_cache := vs_cache v3, w_budget := b\<rparr>)"
    "consistent q v1" "consistent q v2" "consistent q v3"
proof -
  obtain os c1 w1 where run: "run_policies g q ps c w = (os, c1, w1)" by (cases "run_policies g q ps c w") auto
  with assms obtain v1 v2 v3 b where st:
    "judge_all g q (bs_approvals (w_budget w1)) (escalation_severity (q_action q) c1 os) os (start_verdicts c1 (w_cache w1)) = Some v1"
    "settle_held g v1 = Some v2" "admission g q ps v2 (w_budget w1) = Some (v3, b)" "res = result_of q os v3"
    "w' = report g q ps (vs_decisions v3) (result_of q os v3) (w1\<lparr>w_cache := vs_cache v3, w_budget := b\<rparr>)"
    by (auto simp: evaluate_policies_def Let_def bind_eq_Some_conv)
  have "consistent q v1" by (rule consistent_judge_all [OF st(1) consistent_start])
  moreover from this have "consistent q v2" by (rule consistent_settle [OF st(2)])
  moreover from this have "consistent q v3" by (rule consistent_admission [OF st(3)])
  ultimately show thesis using that [OF run st] by blast
qed

section \<open>The answer and the reported decision\<close>

lemma summarize_capped:
  assumes "list_all capped ds" "ds \<noteq> []"
  obtains d where "sm_decisive (summarize ds caps) = Some d" "d \<in> set ds" "denies d \<longleftrightarrow> list_ex denies ds"
    "sm_selected (summarize ds caps) = map_option (select (fallback_chain (d_action d) (d_block_level d))) caps"
proof -
  obtain y ys where ds: "ds = y # ys" using assms(2) by (cases ds) auto
  let ?d = "max_by d_rank y ys"
  have "\<forall>z \<in> insert y (set ys). capped z" using assms(1) by (simp add: ds list_all_iff)
  from decisions.strongest_decides [OF this] have "denies ?d \<longleftrightarrow> list_ex denies ds"
    by (auto simp: ds list_ex_iff)
  moreover have "?d \<in> set ds" using max_by_in [of d_rank y ys] by (simp add: ds)
  moreover have "sm_decisive (summarize ds caps) = Some ?d"
    "sm_selected (summarize ds caps) = map_option (select (fallback_chain (d_action ?d) (d_block_level ?d))) caps"
    by (simp_all add: summarize_def ds Let_def)
  ultimately show thesis by (intro that [of ?d])
qed

lemma summary_agrees:
  assumes "list_all capped ds"
  shows "(\<exists>d. sm_decisive (summarize ds caps) = Some d \<and> denies d) \<longleftrightarrow> list_ex denies ds"
    "sm_selected (summarize ds caps) = Some opt \<Longrightarrow> REDACT \<le> op_action opt \<longleftrightarrow> list_ex denies ds"
    "list_all (\<lambda>d. denies d \<longrightarrow> d_action d = REQUIRE_APPROVAL) ds \<Longrightarrow> list_ex denies ds \<Longrightarrow>
      \<exists>d. sm_decisive (summarize ds caps) = Some d \<and> d_action d = REQUIRE_APPROVAL"
proof -
  consider "ds = []" | d where "sm_decisive (summarize ds caps) = Some d" "d \<in> set ds" "denies d \<longleftrightarrow> list_ex denies ds"
    "sm_selected (summarize ds caps) = map_option (select (fallback_chain (d_action d) (d_block_level d))) caps"
    using summarize_capped [OF assms, of caps] by metis
  then have "((\<exists>d. sm_decisive (summarize ds caps) = Some d \<and> denies d) \<longleftrightarrow> list_ex denies ds) \<and>
    (sm_selected (summarize ds caps) = Some opt \<longrightarrow> (REDACT \<le> op_action opt \<longleftrightarrow> list_ex denies ds)) \<and>
    (list_all (\<lambda>d. denies d \<longrightarrow> d_action d = REQUIRE_APPROVAL) ds \<longrightarrow> list_ex denies ds \<longrightarrow>
      (\<exists>d. sm_decisive (summarize ds caps) = Some d \<and> d_action d = REQUIRE_APPROVAL))"
  proof cases
    case 1
    then show ?thesis by (simp add: summarize_def)
  next
    case (2 d)
    have "denies d \<longleftrightarrow> REDACT \<le> d_action d" using 2(2) assms capped_denies by (auto simp: list_all_iff)
    with 2 show ?thesis by (auto simp: select_refuses list_all_iff)
  qed
  then show "(\<exists>d. sm_decisive (summarize ds caps) = Some d \<and> denies d) \<longleftrightarrow> list_ex denies ds"
    "sm_selected (summarize ds caps) = Some opt \<Longrightarrow> REDACT \<le> op_action opt \<longleftrightarrow> list_ex denies ds"
    "list_all (\<lambda>d. denies d \<longrightarrow> d_action d = REQUIRE_APPROVAL) ds \<Longrightarrow> list_ex denies ds \<Longrightarrow>
      \<exists>d. sm_decisive (summarize ds caps) = Some d \<and> d_action d = REQUIRE_APPROVAL" by blast+
qed

lemma evaluate_cases:
  assumes "evaluate g q w = Some (res, w')"
  obtains reason ctx where "res = refused q reason ctx" "w' = w"
  | c ps lc where "prepare g q = Some (Inr c)" "evaluate_policies g q ps c (w\<lparr>w_lookup := lc\<rparr>) = Some (res, w')"
      "get_effective_policies (g_rows g) (q_endpoint q) (q_user q) (policy_types (q_action q)) [] True (w_lookup w) = Some (ps, lc)"
proof -
  from assms obtain start where start: "prepare g q = Some start"
    and rest: "(case start of Inl res \<Rightarrow> Some (res, w)
      | Inr c \<Rightarrow> do { (ps, lc) \<leftarrow> get_effective_policies (g_rows g) (q_endpoint q) (q_user q) (policy_types (q_action q)) [] True (w_lookup w);
          evaluate_policies g q ps c (w\<lparr>w_lookup := lc\<rparr>) }) = Some (res, w')"
    by (auto simp: evaluate_def bind_eq_Some_conv)
  show thesis
  proof (cases start)
    case (Inl res')
    then obtain reason ctx where "res' = refused q reason ctx"
      using start by (auto simp: prepare_def Let_def bind_eq_Some_conv split: sum.splits if_splits)
    with Inl rest that(1) [of reason ctx] show thesis by simp
  next
    case (Inr c)
    with rest start that(2) show thesis by (auto simp: bind_eq_Some_conv)
  qed
qed

lemma settle_held_counts: "settle_held g v = Some v' \<Longrightarrow> vs_held v' \<noteq> [] \<Longrightarrow> \<not> vs_allowed v' \<and> vs_approval_only v'"
  by (auto simp: settle_held_def bind_eq_Some_conv split: if_splits)

lemma admission_held:
  assumes "admission g q ps v b = Some (v', b')" "\<not> q_dry q"
  shows "vs_held v' = vs_held v \<and> (\<not> vs_allowed v \<longrightarrow> v' = v)"
  using assms by (auto simp: admission_def bind_eq_Some_conv Let_def split: if_splits option.splits)

lemma result_fields:
  "er_allowed (result_of q os v) \<longleftrightarrow> q_dry q \<or> vs_allowed v"
  "er_enforcement (result_of q os v) = summarize (vs_decisions v) (honourable q)"
  "er_approval_required (result_of q os v) \<longleftrightarrow> \<not> q_dry q \<and> \<not> vs_allowed v \<and> vs_approval_only v"
  "er_counts (result_of q os v) = vs_held v" "er_context (result_of q os v) = vs_context v"
  "er_reason (result_of q os v) = (if q_dry q then None else vs_reason v)"
  "er_policies (result_of q os v) = vs_entries v" "er_dry_run (result_of q os v) = q_dry q"
  unfolding result_of_def by (simp_all add: case_prod_unfold)

lemma evaluation_agrees:
  assumes "evaluate_policies g q ps c w = Some (res, w')" "\<not> q_dry q"
  shows "(er_allowed res \<longleftrightarrow> \<not> (\<exists>d. sm_decisive (er_enforcement res) = Some d \<and> denies d)) \<and>
    (\<forall>opt. sm_selected (er_enforcement res) = Some opt \<longrightarrow> (er_allowed res \<longleftrightarrow> op_action opt < REDACT)) \<and>
    (er_approval_required res \<longrightarrow> \<not> er_allowed res \<and>
      (\<exists>d. sm_decisive (er_enforcement res) = Some d \<and> d_action d = REQUIRE_APPROVAL)) \<and>
    (er_counts res \<noteq> [] \<longrightarrow> er_approval_required res)"
proof (rule evaluate_policies_stages [OF assms(1)], goal_cases)
  case (1 os c1 w1 v1 v2 v3 b)
  note st = 1(3,4,5,9)
  let ?ds = "vs_decisions v3"
  have flags: "list_all capped ?ds" "vs_allowed v3 \<longleftrightarrow> \<not> list_ex denies ?ds"
    "vs_approval_only v3 \<Longrightarrow> list_all (\<lambda>d. denies d \<longrightarrow> d_action d = REQUIRE_APPROVAL) ?ds"
    using st(4) assms(2) unfolding consistent_def by simp_all
  have res: "er_allowed res \<longleftrightarrow> vs_allowed v3" "er_enforcement res = summarize ?ds (honourable q)"
    "er_approval_required res \<longleftrightarrow> \<not> vs_allowed v3 \<and> vs_approval_only v3" "er_counts res = vs_held v3"
    unfolding st(3) result_fields using assms(2) by blast+
  have "vs_held v3 \<noteq> [] \<Longrightarrow> \<not> vs_allowed v3 \<and> vs_approval_only v3"
    using settle_held_counts [OF st(1)] admission_held [OF st(2) assms(2)] by auto
  then show ?thesis
    using summary_agrees [OF flags(1), of "honourable q"] flags(2,3) unfolding res by (auto simp: not_le [symmetric])
qed

text \<open>
  C1: The answer and the reported decision of a live evaluation agree: the call is allowed exactly
  when the decisive rule does not deny; the option selected for the target refuses exactly when the
  call is refused, whatever the target declared; an answer that an approval is missing means
  refused, with an approval as the decisive action; and only such an answer holds repeat counts.
\<close>

theorem verdict_consistent:
  assumes "evaluate g q w = Some (res, w')" "\<not> q_dry q"
  shows "(er_allowed res \<longleftrightarrow> \<not> (\<exists>d. sm_decisive (er_enforcement res) = Some d \<and> denies d)) \<and>
    (\<forall>opt. sm_selected (er_enforcement res) = Some opt \<longrightarrow> (er_allowed res \<longleftrightarrow> op_action opt < REDACT)) \<and>
    (er_approval_required res \<longrightarrow> \<not> er_allowed res \<and>
      (\<exists>d. sm_decisive (er_enforcement res) = Some d \<and> d_action d = REQUIRE_APPROVAL)) \<and>
    (er_counts res \<noteq> [] \<longrightarrow> er_approval_required res)"
  using assms(1)
proof (cases rule: evaluate_cases)
  case (1 reason ctx)
  have "list_all capped [refusal_decision]" "list_ex denies [refusal_decision]"
    by (simp_all add: refusal_decision_def capped_def denies_def)
  with summary_agrees [OF this(1), of "q_caps q"] 1 show ?thesis
    by (auto simp: refused_def refusal_def not_le [symmetric])
next
  case (2 c ps lc)
  from evaluation_agrees [OF 2(2) assms(2)] show ?thesis .
qed

section \<open>A small engine\<close>

text \<open>One tool policy evaluated by the modelled evaluator, over the cache in memory.\<close>

definition engine_content :: content_env where
  "engine_content = \<lparr>n_json = (\<lambda>s. Inl (ValueError ''no JSON'')), n_dumps = (\<lambda>d. []), n_media = (\<lambda>s. None)\<rparr>"

definition engine_approval :: approval_env where
  "engine_approval = \<lparr>x_digest = (\<lambda>d. ''digest''), x_sign = (\<lambda>s. s), x_unsign = (\<lambda>v. None), x_now = 0\<rparr>"

definition engine_budget :: budget_env where
  "engine_budget = \<lparr>b_catalog = [], b_registry = None, b_today = ''2026-01-01'', b_month = 0, b_now = 0,
     b_json = (\<lambda>s. Inl (ValueError ''no JSON'')), b_logs = [], b_pricing_version = ''v''\<rparr>"

definition tool_table :: "string \<Rightarrow> mem_cache evaluator option" where
  "tool_table t = (if t = ''tool_permission''
     then Some (\<lambda>p a u dry c w.
       case eval_tool_permission engine_approval (bs_approvals (w_budget w)) p a (case u of None \<Rightarrow> [] | Some s \<Rightarrow> s) c of
         (r, c1) \<Rightarrow> (r, c1, w))
     else None)"

definition demo_engine :: "policy list \<Rightarrow> mem_cache engine" where
  "demo_engine rows = \<lparr>g_ops = dict_cache, g_content = engine_content, g_approval = engine_approval, g_budget = engine_budget,
     g_rows = rows, g_fresh = ''f'', g_now = 0, g_evaluator = tool_table\<rparr>"

definition demo_world :: "mem_cache world" where
  "demo_world = \<lparr>w_cache = [], w_lookup = \<lparr>lc_versions = [], lc_entries = []\<rparr>,
     w_budget = \<lparr>bs_accounts = [], bs_charges = [], bs_approvals = []\<rparr>, w_incidents = [], w_notices = []\<rparr>"

definition demo_request :: request where
  "demo_request = \<lparr>q_endpoint = demo_endpoint, q_action = ''tool_call'', q_user = None,
     q_context = PDict [(''tool_name'', PStr ''shell'')], q_dry = False, q_caps = Some [], q_verified = False, q_hold = False\<rparr>"

definition deny_shell :: policy where
  "deny_shell = demo_policy\<lparr>p_config := PDict [(''denied_tools'', PList [PStr ''shell''])]\<rparr>"

lemma demo_refused: "map_option (\<lambda>(r, w). (er_allowed r, er_reason r, er_risk r))
    (evaluate (demo_engine [deny_shell]) demo_request demo_world) = Some (False, Some (''Tool '' @ quoted ''shell'' @ '' is explicitly denied''), 10)"
  by code_simp

theorem verdict_consistent_witness:
  "\<exists>res w'. evaluate (demo_engine [deny_shell]) demo_request demo_world = Some (res, w') \<and> er_allowed res = False \<and>
     (\<exists>d. sm_decisive (er_enforcement res) = Some d \<and> denies d)"
proof -
  obtain res w' where run: "evaluate (demo_engine [deny_shell]) demo_request demo_world = Some (res, w')" "er_allowed res = False"
    using demo_refused by auto
  with verdict_consistent [OF run(1)] show ?thesis by (auto simp: demo_request_def)
qed

section \<open>Failing closed\<close>

text \<open>A rule that cannot be read, or whose evaluator raises on every context.\<close>

definition broken :: "'c engine \<Rightarrow> request \<Rightarrow> policy \<Rightarrow> bool" where
  "broken g q p \<longleftrightarrow> selectors_malformed p \<or>
     (\<exists>ev. g_evaluator g (p_type p) = Some ev \<and> (\<forall>c w. fst (ev p (q_action q) (q_user q) (q_dry q) c w) = None))"

definition stands_closed :: "outcome \<Rightarrow> bool" where
  "stands_closed oc \<longleftrightarrow> (case oc_verdict oc of Inl _ \<Rightarrow> True | Inr r \<Rightarrow> \<not> pr_passed r \<and> pr_error r)"

lemma run_evaluator_broken:
  assumes "g_evaluator g (p_type p) = Some ev" "\<forall>c w. fst (ev p (q_action q) (q_user q) (q_dry q) c w) = None"
  shows "\<exists>c' w'. run_evaluator g q p c w = (error_result p, c', w')"
proof -
  obtain c1 w1 where "ev p (q_action q) (q_user q) (q_dry q) c w = (None, c1, w1)"
    using assms(2) by (metis prod.exhaust_sel)
  with assms(1) show ?thesis by (simp add: run_evaluator_def)
qed

lemma broken_outcome:
  assumes "broken g q p" "p \<in> set ps" "p_enforcement p = ENFORCE" "run_policies g q ps c w = (os, c1, w1)"
  shows "\<exists>oc \<in> set os. oc_policy oc = p \<and> stands_closed oc"
  using assms(2,4)
proof (induction ps arbitrary: c w os)
  case Nil
  then show ?case by simp
next
  case (Cons p' ps)
  show ?case
  proof (cases "p' = p")
    case False
    with Cons show ?thesis by (fastforce split: if_splits prod.splits)
  next
    case p: True
    show ?thesis
    proof (cases "selectors_malformed p")
      case True
      have "stands_closed (malformed_outcome p)" "oc_policy (malformed_outcome p) = p"
        by (simp_all add: stands_closed_def malformed_outcome_def Let_def)
      with True p assms(3) Cons.prems(2) show ?thesis by (auto split: prod.splits)
    next
      case False
      with assms(1) obtain ev where "g_evaluator g (p_type p) = Some ev"
        "\<forall>c w. fst (ev p (q_action q) (q_user q) (q_dry q) c w) = None" by (auto simp: broken_def)
      then obtain c2 w2 where "run_evaluator g q p c w = (error_result p, c2, w2)" using run_evaluator_broken by metis
      moreover have "stands_closed (evaluated_outcome g p (error_result p))" "oc_policy (evaluated_outcome g p (error_result p)) = p"
        by (simp_all add: stands_closed_def evaluated_outcome_def)
      ultimately show ?thesis using False p assms(3) Cons.prems(2) by (auto split: prod.splits)
    qed
  qed
qed

lemma judge_decisions:
  assumes "judge g q aps sev oc v = Some v'"
  shows "set (vs_decisions v) \<subseteq> set (vs_decisions v') \<and>
    (stands_closed oc \<longrightarrow> fail_closed (oc_policy oc) \<in> set (vs_decisions v'))"
proof (cases "oc_verdict oc")
  case (Inl m)
  with assms show ?thesis by (auto simp: judge_def judge_malformed_def Let_def)
next
  case (Inr r)
  let ?p = "oc_policy oc"
  show ?thesis
  proof (cases "pr_passed r")
    case True
    with assms Inr show ?thesis by (auto simp: judge_def stands_closed_def)
  next
    case False
    with assms Inr obtain v1 where v1: "judge_failed g q aps sev ?p (oc_entry oc) r v = Some v1" "vs_decisions v' = vs_decisions v1"
      by (auto simp: judge_def bind_eq_Some_conv)
    from v1(1) obtain d rel c1 where d: "first_decision g q ?p r sev v = Some d"
      "released_by_approval g q aps d r ?p (vs_context v) = Some (rel, c1)"
      and rest: "(if rel then Some (v\<lparr>vs_context := c1, vs_entries := vs_entries v @ [(oc_entry oc)\<lparr>en_passed := True, en_approved := True\<rparr>]\<rparr>)
        else do { (d', v2) \<leftarrow> count_decision g q ?p r sev d (v\<lparr>vs_context := c1\<rparr>); Some (record_decision q ?p r (oc_entry oc) d' v2) }) = Some v1"
      by (auto simp: judge_failed_def Let_def bind_eq_Some_conv)
    show ?thesis
    proof (cases "pr_error r")
      case True
      then have "d = fail_closed ?p" using d(1) by (simp add: first_decision_def)
      moreover from this d(2) have "\<not> rel" by (auto simp: released_by_approval_def)
      ultimately show ?thesis using rest True v1(2)
        by (auto simp: count_decision_def record_decision_def Let_def)
    next
      case err: False
      have "set (vs_decisions v) \<subseteq> set (vs_decisions v1)"
      proof (cases rel)
        case True
        with rest show ?thesis by auto
      next
        case False
        with rest obtain d' v2 where c: "count_decision g q ?p r sev d (v\<lparr>vs_context := c1\<rparr>) = Some (d', v2)"
          "v1 = record_decision q ?p r (oc_entry oc) d' v2" by (auto simp: bind_eq_Some_conv)
        from count_decision_mode [OF c(1) first_decision_mode [OF d(1)]] show ?thesis
          by (auto simp: c(2) record_decision_def Let_def)
      qed
      with v1(2) err Inr show ?thesis by (simp add: stands_closed_def)
    qed
  qed
qed

lemma judge_all_decisions:
  assumes "judge_all g q aps sev os v = Some v'"
  shows "set (vs_decisions v) \<subseteq> set (vs_decisions v') \<and>
    (\<forall>oc \<in> set os. stands_closed oc \<longrightarrow> fail_closed (oc_policy oc) \<in> set (vs_decisions v'))"
  using assms
proof (induction os arbitrary: v)
  case Nil
  then show ?case by simp
next
  case (Cons oc os)
  then obtain v1 where v1: "judge g q aps sev oc v = Some v1" "judge_all g q aps sev os v1 = Some v'"
    by (auto simp: bind_eq_Some_conv)
  with Cons.IH [OF v1(2)] judge_decisions [OF v1(1)] show ?case by auto
qed


definition raising_policy :: policy where
  "raising_policy = demo_policy\<lparr>p_action := LOG, p_config := PStr ''no object''\<rparr>"

lemma raising_run: "map_option (\<lambda>(r, w). er_reason r) (evaluate_policies (demo_engine []) demo_request [raising_policy]
    [(''tool_name'', PStr ''shell'')] demo_world) = Some (Some ''Policy evaluation error: demo'')"
  by code_simp


section \<open>The identity the rules see\<close>

definition TRUSTED_KEYS :: "string list" where
  "TRUSTED_KEYS = [''_approval_digest'', ''_tenant_id'', ''_endpoint_id'', ''_agent_id'', ''_user_verified'']"

lemma strip_private_keys: "k \<in> fst ` set (strip_private c) \<Longrightarrow> \<not> starts_with ''_'' k"
  by (auto simp: strip_private_def)

lemma dget_strip: "\<not> starts_with ''_'' k \<Longrightarrow> dget (strip_private c) k v = dget c k v"
  by (induction c) (auto simp: strip_private_def dget_def)

lemma prepared_identity:
  assumes "prepare g q = Some (Inr c)"
  shows "dget c ''_tenant_id'' PNone = PStr (ep_tenant (q_endpoint q))"
    "dget c ''_endpoint_id'' PNone = PStr (ep_id (q_endpoint q))"
    "dget c ''_agent_id'' PNone = PStr (ep_agent_id (q_endpoint q))"
    "dget c ''_user_verified'' PNone = PBool (q_verified q \<and> nonempty (q_user q))"
  using assms
  by (auto simp: prepare_def Let_def trusted_context_def user_verified_def bind_eq_Some_conv split: sum.splits if_splits)


definition spoofing_request :: request where
  "spoofing_request = demo_request\<lparr>q_context := PDict [(''_tenant_id'', PStr ''other''), (''_admin'', PBool True),
     (''authority'', PDict [(''task_id'', PStr ''x'')])]\<rparr>"


end
