(* ===== verification/Dispatch.thy ===== *)
theory Dispatch
  imports EngineRules EvalSession EvalClock EvalContent
begin

text \<open>
  The table of evaluators (\<open>_get_evaluator\<close> of \<open>services/policy_engine.py\<close>) filled with the modelled
  ones, and the contract the engine has with any table: an evaluator writes no table of the
  database, a dry run leaves even the cache alone, and the trusted keys of the context stay.
\<close>

section \<open>The table\<close>

text \<open>The services outside the repository, and the counters and tables evaluators read.\<close>

record 'c services =
  s_ops :: "'c cache_ops"
  s_content :: content_env
  s_approval :: approval_env
  s_budget :: budget_env
  s_rows :: "policy list"
  s_fresh :: string
  s_now :: int
  s_regex :: regex
  s_library :: library
  s_net :: net_env
  s_iso :: "string \<Rightarrow> int option"
  s_json :: "string \<Rightarrow> pyval option"
  s_unsign :: "pyval \<Rightarrow> unsigned"

definition user_text :: "string option \<Rightarrow> string" where
  "user_text u = (case u of None \<Rightarrow> [] | Some s \<Rightarrow> s)"

text \<open>An evaluator that only reads, one that writes the context, one that uses the cache.\<close>

definition reading :: "(policy \<Rightarrow> string \<Rightarrow> pydict \<Rightarrow> presult option) \<Rightarrow> 'c evaluator" where
  "reading f p a u dry c w = (f p a c, c, w)"

definition writing :: "(policy \<Rightarrow> string \<Rightarrow> string \<Rightarrow> pydict \<Rightarrow> budget_state \<Rightarrow> ctx_result) \<Rightarrow> 'c evaluator" where
  "writing f p a u dry c w = (case f p a (user_text u) c (w_budget w) of (r, c1) \<Rightarrow> (r, c1, w))"

definition caching :: "(policy \<Rightarrow> string \<Rightarrow> string \<Rightarrow> bool \<Rightarrow> pydict \<Rightarrow> 'c \<Rightarrow> presult option \<times> 'c) \<Rightarrow> 'c evaluator" where
  "caching f p a u dry c w = (case f p a (user_text u) dry c (w_cache w) of (r, k) \<Rightarrow> (r, c, w\<lparr>w_cache := k\<rparr>))"

definition reading_table :: "'c services \<Rightarrow> (string \<times> (policy \<Rightarrow> string \<Rightarrow> pydict \<Rightarrow> presult option)) list" where
  "reading_table s =
     [(''resource_quota'', eval_resource_quota), (''secret_access'', eval_secret_access),
      (''model_restriction'', eval_model_restriction), (''context_limit'', eval_context_limit),
      (''network_policy'', \<lambda>p a. eval_network_policy (s_net s) p),
      (''output_filter'', eval_output_filter (s_regex s) (s_library s)),
      (''system_prompt'', eval_system_prompt), (''ai_guardrail'', \<lambda>p a. eval_ai_guardrail (s_regex s) p),
      (''agent_memory'', eval_agent_memory), (''audit_policy'', eval_audit_policy),
      (''session_policy'', \<lambda>p a. eval_session_policy (s_iso s) (s_now s) p), (''data_access'', eval_data_access),
      (''data_retention'', \<lambda>p a. eval_data_retention (s_iso s) (s_now s) p),
      (''prompt_injection'', eval_prompt_injection (s_content s) (s_regex s) (s_library s)),
      (''agent_delegation'', eval_agent_delegation (s_unsign s)), (''safety_settings'', eval_safety_settings),
      (''multimodal_policy'', eval_multimodal), (''_noop'', \<lambda>p a c. Some pass_r)]"

definition writing_table ::
  "'c services \<Rightarrow> (string \<times> (policy \<Rightarrow> string \<Rightarrow> string \<Rightarrow> pydict \<Rightarrow> budget_state \<Rightarrow> ctx_result)) list" where
  "writing_table s =
     [(''budget_limit'', \<lambda>p a u c b. eval_budget_limit (s_budget s) (bs_accounts b) p c),
      (''tool_permission'', \<lambda>p a u c b. eval_tool_permission (s_approval s) (bs_approvals b) p a u c),
      (''agent_capability'', \<lambda>p a u c b. eval_agent_capability (s_approval s) (bs_approvals b) p a u c),
      (''human_oversight'', \<lambda>p a u c b. eval_human_oversight (s_budget s) (s_approval s) (bs_approvals b) p a u c)]"

definition caching_table ::
  "'c services \<Rightarrow> (string \<times> (policy \<Rightarrow> string \<Rightarrow> string \<Rightarrow> bool \<Rightarrow> pydict \<Rightarrow> 'c \<Rightarrow> presult option \<times> 'c)) list" where
  "caching_table s =
     [(''rate_limit'', eval_rate_limit (s_ops s)),
      (''session_quota'', \<lambda>p a u. eval_session_quota (s_ops s) p),
      (''behavioral_baseline'', \<lambda>p a u dry c k. (eval_behavioral_baseline (s_json s) (s_ops s) p dry c k, k))]"

definition evaluators :: "'c services \<Rightarrow> string \<Rightarrow> 'c evaluator option" where
  "evaluators s t =
     (case map_of (reading_table s) t of
        Some f \<Rightarrow> Some (reading f)
      | None \<Rightarrow>
          (case map_of (writing_table s) t of
             Some f \<Rightarrow> Some (writing f)
           | None \<Rightarrow> map_option caching (map_of (caching_table s) t)))"

definition engine_of :: "'c services \<Rightarrow> 'c engine" where
  "engine_of s = \<lparr>g_ops = s_ops s, g_content = s_content s, g_approval = s_approval s, g_budget = s_budget s,
     g_rows = s_rows s, g_fresh = s_fresh s, g_now = s_now s, g_evaluator = evaluators s\<rparr>"

section \<open>The contract of an evaluator table\<close>

locale evaluator_table =
  fixes table :: "string \<Rightarrow> 'c evaluator option"
  assumes dry_keeps: "table t = Some ev \<Longrightarrow> ev p a u True c w = (r, c', w') \<Longrightarrow> w' = w"
    and only_cache: "table t = Some ev \<Longrightarrow> ev p a u dry c w = (r, c', w') \<Longrightarrow> \<exists>k. w' = w\<lparr>w_cache := k\<rparr>"
    and keeps_trusted: "table t = Some ev \<Longrightarrow> ev p a u dry c w = (r, c', w') \<Longrightarrow> k \<in> set TRUSTED_KEYS \<Longrightarrow>
      dget c' k v = dget c k v"
begin

lemma run_evaluator_law:
  assumes "g_evaluator g = table" "run_evaluator g q p c w = (r, c', w')"
  shows "(\<exists>k. w' = w\<lparr>w_cache := k\<rparr>) \<and> (q_dry q \<longrightarrow> w' = w) \<and> (k \<in> set TRUSTED_KEYS \<longrightarrow> dget c' k v = dget c k v)"
proof (cases "table (p_type p)")
  case None
  with assms show ?thesis by (auto simp: run_evaluator_def intro: exI [of _ "w_cache w"])
next
  case (Some ev)
  obtain r0 c1 w1 where ev: "ev p (q_action q) (q_user q) (q_dry q) c w = (r0, c1, w1)"
    by (cases "ev p (q_action q) (q_user q) (q_dry q) c w") auto
  with assms Some have "c' = c1" "w' = w1" by (auto simp: run_evaluator_def split: option.splits)
  with only_cache [OF Some ev] keeps_trusted [OF Some ev] dry_keeps [OF Some] ev show ?thesis by auto
qed

lemma run_policies_law:
  assumes "g_evaluator g = table" "run_policies g q ps c w = (os, c', w')"
  shows "(\<exists>k. w' = w\<lparr>w_cache := k\<rparr>) \<and> (q_dry q \<longrightarrow> w' = w) \<and> (k \<in> set TRUSTED_KEYS \<longrightarrow> dget c' k v = dget c k v)"
  using assms(2)
proof (induction ps arbitrary: c w os)
  case Nil
  then show ?case by (auto intro: exI [of _ "w_cache w"])
next
  case (Cons p ps)
  consider "p_enforcement p = DISABLED" | "p_enforcement p \<noteq> DISABLED" "selectors_malformed p"
    | "p_enforcement p \<noteq> DISABLED" "\<not> selectors_malformed p" by blast
  then show ?case
  proof cases
    case 1
    with Cons show ?thesis by simp
  next
    case 2
    with Cons.prems obtain os1 where "run_policies g q ps c w = (os1, c', w')" by (auto split: prod.splits)
    from Cons.IH [OF this] show ?thesis .
  next
    case 3
    obtain r c1 w1 where ev: "run_evaluator g q p c w = (r, c1, w1)" by (cases "run_evaluator g q p c w") auto
    with 3 Cons.prems obtain os1 where "run_policies g q ps c1 w1 = (os1, c', w')" by (auto split: prod.splits)
    note rest = Cons.IH [OF this] and first = run_evaluator_law [OF assms(1) ev]
    from rest obtain k2 where "w' = w1\<lparr>w_cache := k2\<rparr>" by blast
    moreover from first obtain k1 where "w1 = w\<lparr>w_cache := k1\<rparr>" by blast
    ultimately have "\<exists>k. w' = w\<lparr>w_cache := k\<rparr>" by auto
    with rest first show ?thesis by metis
  qed
qed

end

section \<open>The modelled table keeps the contract\<close>

text \<open>Keys an evaluator may write.\<close>

definition WRITTEN_KEYS :: "string list" where
  "WRITTEN_KEYS = [''_validated_approval_ids'', ''budget_info'', ''tool_input'', ''tool_args'']"

definition writes_only :: "pydict \<Rightarrow> pydict \<Rightarrow> bool" where
  "writes_only c c' \<longleftrightarrow> (\<forall>k v. k \<notin> set WRITTEN_KEYS \<longrightarrow> dget c' k v = dget c k v)"

lemma writes_only_refl [simp, intro]: "writes_only c c"
  by (simp add: writes_only_def)

lemma writes_only_trans: "writes_only c c1 \<Longrightarrow> writes_only c1 c2 \<Longrightarrow> writes_only c c2"
  by (simp add: writes_only_def)

lemma writes_only_dput: "k \<in> set WRITTEN_KEYS \<Longrightarrow> writes_only c (dput k v c)"
  by (auto simp: writes_only_def)

lemma trusted_not_written: "set TRUSTED_KEYS \<inter> set WRITTEN_KEYS = {}"
  by (simp add: WRITTEN_KEYS_def TRUSTED_KEYS_def)

lemma writes_only_trusted: "writes_only c c' \<Longrightarrow> k \<in> set TRUSTED_KEYS \<Longrightarrow> dget c' k v = dget c k v"
  using trusted_not_written by (auto simp: writes_only_def)

lemma writes_case_raise:
  assumes "\<And>v. m = Some v \<Longrightarrow> writes_only c (snd (f v))"
  shows "writes_only c (snd (case_raise m c f))"
  using assms by (cases m) (simp_all add: case_raise_def)

text \<open>The shape of \<open>validate_policy_approval\<close>, over any of its parts.\<close>

lemma validation_shape:
  assumes "(case found of
      None \<Rightarrow> Some (r1, c)
    | Some a \<Rightarrow> if stale a then Some (r2, c)
        else do { limit \<leftarrow> m; late \<leftarrow> age a limit;
             if late then Some (r3, c)
             else (case ids of PList xs \<Rightarrow> Some (r4, dput key (ids1 a xs) c) | _ \<Rightarrow> None) }) = Some (r, c')"
  shows "c' = c \<or> (\<exists>v. c' = dput key v c)"
  using assms by (auto simp: bind_eq_Some_conv split: option.splits if_splits pyval.splits)

lemma writes_validated:
  assumes "validate_policy_approval x aps p a u c = Some (r, c')"
  shows "writes_only c c'"
proof -
  have "c' = c \<or> (\<exists>v. c' = dput ''_validated_approval_ids'' v c)"
    using assms unfolding validate_policy_approval_def Let_def by (rule validation_shape)
  then show ?thesis by (auto intro: writes_only_dput simp: WRITTEN_KEYS_def)
qed

lemma writes_after_validation:
  assumes "\<And>v c1. writes_only c c1 \<Longrightarrow> writes_only c (snd (f v c1))"
  shows "writes_only c (snd (case_raise (validate_policy_approval x aps p a u c) c (\<lambda>(v, c1). f v c1)))"
  using assms writes_validated by (auto intro!: writes_case_raise)

lemma writes_if: "(b \<Longrightarrow> writes_only c (snd m)) \<Longrightarrow> (\<not> b \<Longrightarrow> writes_only c (snd n)) \<Longrightarrow> writes_only c (snd (if b then m else n))"
  by simp

lemma writes_only_snd: "writes_only c c1 \<Longrightarrow> writes_only c (snd (r, c1))"
  by simp

lemma writes_capability: "writes_only c (snd (eval_agent_capability x aps p a u c))"
  unfolding eval_agent_capability_def
  by (intro writes_case_raise writes_if writes_after_validation writes_only_snd) auto

lemma writes_put_max_rows: "k \<in> {''tool_input'', ''tool_args''} \<Longrightarrow> writes_only c (put_max_rows config k c)"
  by (auto simp: put_max_rows_def WRITTEN_KEYS_def intro: writes_only_dput split: pyval.splits)

lemma writes_sql_sets: "set ks \<subseteq> {''tool_input'', ''tool_args''} \<Longrightarrow> writes_only c (snd (sql_sets config ks c))"
proof (induction ks arbitrary: c)
  case Nil
  then show ?case by simp
next
  case (Cons k ks)
  then have "writes_only c (put_max_rows config k c)" "writes_only (put_max_rows config k c) (snd (sql_sets config ks (put_max_rows config k c)))"
    by (auto intro: writes_put_max_rows)
  then show ?case by (auto intro!: writes_case_raise intro: writes_only_trans)
qed

lemma writes_tool_args: "writes_only c (snd (validate_tool_args tool rules c))"
proof -
  have sql: "writes_only c (snd (sql_sets config (argument_keys c) c))" for config
    by (rule writes_sql_sets) (auto simp: argument_keys_def)
  have "snd (case m of Inr None \<Rightarrow> (Some pass_r, c) | Inr (Some w) \<Rightarrow> (Some (fail_with w), c) | Inl e \<Rightarrow> (Some (f e), c)) = c"
    for m :: "string + string option" and f
    by (simp split: sum.splits option.splits)
  with sql show ?thesis by (cases rules) (simp_all add: validate_tool_args_def)
qed

lemma writes_tool_approval: "writes_only c (snd (tool_approval x aps p a u tool c))"
  unfolding tool_approval_def
  by (intro writes_case_raise writes_if writes_after_validation writes_only_snd) auto

lemma writes_tool_permission: "writes_only c (snd (eval_tool_permission x aps p a u c))"
proof -
  have "writes_only c (snd (case (if truthy rules then validate_tool_args tool rules c else (Some pass_r, c)) of
      (None, c1) \<Rightarrow> (None, c1)
    | (Some r, c1) \<Rightarrow> if \<not> pr_passed r then (Some r, c1) else tool_approval x aps p a u t c1))" for rules tool t
    using writes_tool_args [of c tool rules] writes_tool_approval writes_only_trans
    by (auto split: prod.splits option.splits)
  then show ?thesis
    unfolding eval_tool_permission_def Let_def by (auto intro!: writes_case_raise)
qed

lemma writes_oversight: "writes_only c (snd (eval_human_oversight e x aps p a u c))"
  unfolding eval_human_oversight_def
  by (intro writes_case_raise writes_if writes_after_validation writes_only_snd) auto

lemma writes_budget: "writes_only c (snd (eval_budget_limit e accs p c))"
  unfolding eval_budget_limit_def
  by (auto intro!: writes_case_raise writes_only_dput simp: WRITTEN_KEYS_def split: sum.splits pyexc.splits)

lemma writing_table_writes: "map_of (writing_table s) t = Some f \<Longrightarrow> writes_only c (snd (f p a u c b))"
  by (auto simp: writing_table_def split: if_splits
      intro: writes_budget writes_tool_permission writes_capability writes_oversight)

text \<open>A computation over the cache that leaves it alone.\<close>

definition cache_kept :: "('c \<Rightarrow> 'a \<times> 'c) \<Rightarrow> bool" where
  "cache_kept m \<longleftrightarrow> (\<forall>c. snd (m c) = c)"

lemma kept_opt [intro]: "cache_kept (st_opt v)"
  by (simp add: cache_kept_def st_opt_def)

lemma kept_bind: "cache_kept m \<Longrightarrow> (\<And>v. cache_kept (f v)) \<Longrightarrow> cache_kept (st_bind m f)"
  by (auto simp: cache_kept_def st_bind_def split: prod.splits option.splits) (metis snd_conv)+

lemma kept_if: "cache_kept m \<Longrightarrow> cache_kept n \<Longrightarrow> cache_kept (if b then m else n)"
  by simp

lemma kept_counted: "cache_kept (counted ops key d t True)"
  by (simp add: cache_kept_def counted_def)

lemma kept_rate: "cache_kept (check_rate_limit ops key l t name True)"
  unfolding check_rate_limit_def by (intro kept_bind kept_counted kept_opt kept_if)

lemma kept_tokens: "cache_kept (check_token_limit ops key l d name True)"
proof -
  have "cache_kept (\<lambda>c. if over then (m, give_back ops key d True c) else st_opt v c)" for over m v
    by (simp add: cache_kept_def give_back_def st_opt_def)
  then show ?thesis unfolding check_token_limit_def by (intro kept_bind kept_counted kept_opt)
qed

lemma kept_stage:
  "(\<And>l. cache_kept (check l)) \<Longrightarrow> (\<And>ws. cache_kept (rest ws)) \<Longrightarrow> cache_kept (limit_stage p key check ws rest)"
  unfolding limit_stage_def by (intro kept_bind kept_opt kept_if) auto

lemma kept_rate_limit: "cache_kept (eval_rate_limit ops p a u True c)"
  unfolding eval_rate_limit_def Let_def
  by (intro kept_stage kept_rate kept_if kept_bind kept_opt kept_tokens)

lemma kept_session_quota: "cache_kept (eval_session_quota ops p True c)"
  by (auto simp: cache_kept_def eval_session_quota_def Let_def split: pyval.splits option.splits prod.splits)

lemma caching_table_dry: "map_of (caching_table s) t = Some f \<Longrightarrow> snd (f p a u True c k) = k"
  using kept_rate_limit [of "s_ops s" p a u c] kept_session_quota [of "s_ops s" p c]
  by (auto simp: caching_table_def cache_kept_def split: if_splits)

interpretation modelled: evaluator_table "evaluators s" for s :: "'c services"
proof
  fix t ev p a u w r c' w' and c :: pydict
  assume ev: "evaluators s t = Some ev" and run: "ev p a u True c w = (r, c', w')"
  have "snd (f p a (user_text u) True c (w_cache w)) = w_cache w" if "map_of (caching_table s) t = Some f" for f
    using that by (rule caching_table_dry)
  with ev run show "w' = w"
    by (fastforce simp: evaluators_def reading_def writing_def caching_def split: option.splits prod.splits)
next
  fix t ev p a u dry w r c' w' and c :: pydict
  assume "evaluators s t = Some ev" "ev p a u dry c w = (r, c', w')"
  then show "\<exists>k. w' = w\<lparr>w_cache := k\<rparr>"
    by (auto simp: evaluators_def reading_def writing_def caching_def intro: exI [of _ "w_cache w"] split: option.splits prod.splits)
next
  fix t ev p a u dry w r c' w' k v and c :: pydict
  assume ev: "evaluators s t = Some ev" "ev p a u dry c w = (r, c', w')" and k: "k \<in> set TRUSTED_KEYS"
  have "writes_only c c'"
    using ev by (auto simp: evaluators_def reading_def writing_def caching_def split: option.splits prod.splits)
      (metis snd_conv writing_table_writes)
  then show "dget c' k v = dget c k v" using k by (rule writes_only_trusted)
qed

end
