(* ===== verification/DispatchRules.thy ===== *)
theory DispatchRules
  imports Dispatch BudgetLedger
begin

text \<open>
  What the engine keeps when it runs the modelled evaluators: a dry run is a preview that leaves
  everything but the lookup cache alone, the endpoint's identity stays in the context to the end,
  and approvals are spent exactly by the calls that are allowed.
\<close>

section \<open>Frames of the stages\<close>

lemma released_writes:
  "released_by_approval g q aps d r p c = Some (rel, c') \<Longrightarrow> writes_only c c'"
  by (auto simp: released_by_approval_def bind_eq_Some_conv split: if_splits intro: writes_validated)

lemma count_decision_frame:
  assumes "count_decision g q p r sev d v = Some (d', v')"
  shows "vs_context v' = vs_context v \<and> (q_dry q \<longrightarrow> v' = v)"
  using assms by (auto simp: count_decision_def bind_eq_Some_conv split: option.splits if_splits)

lemma record_decision_frame [simp]:
  "vs_context (record_decision q p r en d v) = vs_context v" "vs_cache (record_decision q p r en d v) = vs_cache v"
  "vs_held (record_decision q p r en d v) = vs_held v"
  by (simp_all add: record_decision_def Let_def)

lemma judge_malformed_frame [simp]:
  "vs_context (judge_malformed q p en m v) = vs_context v" "vs_cache (judge_malformed q p en m v) = vs_cache v"
  "vs_held (judge_malformed q p en m v) = vs_held v"
  by (simp_all add: judge_malformed_def Let_def)

definition verdicts_frame :: "request \<Rightarrow> 'c verdicts \<Rightarrow> 'c verdicts \<Rightarrow> bool" where
  "verdicts_frame q v v' \<longleftrightarrow> writes_only (vs_context v) (vs_context v') \<and>
     (q_dry q \<longrightarrow> vs_cache v' = vs_cache v \<and> vs_held v' = vs_held v)"

lemma verdicts_frame_refl: "verdicts_frame q v v"
  by (simp add: verdicts_frame_def)

lemma verdicts_frame_trans: "verdicts_frame q v v1 \<Longrightarrow> verdicts_frame q v1 v2 \<Longrightarrow> verdicts_frame q v v2"
  by (auto simp: verdicts_frame_def intro: writes_only_trans)

lemma judge_failed_frame:
  assumes "judge_failed g q aps sev p en r v = Some v'"
  shows "verdicts_frame q v v'"
proof -
  from assms obtain d rel c1 where c1: "released_by_approval g q aps d r p (vs_context v) = Some (rel, c1)"
    and rest: "(if rel then Some (v\<lparr>vs_context := c1, vs_entries := vs_entries v @ [en\<lparr>en_passed := True, en_approved := True\<rparr>]\<rparr>)
        else do { (d', v2) \<leftarrow> count_decision g q p r sev d (v\<lparr>vs_context := c1\<rparr>); Some (record_decision q p r en d' v2) }) = Some v'"
    by (auto simp: judge_failed_def Let_def bind_eq_Some_conv)
  note w = released_writes [OF c1]
  show ?thesis
  proof (cases rel)
    case True
    with rest w show ?thesis by (auto simp: verdicts_frame_def)
  next
    case False
    with rest obtain d' v2 where "count_decision g q p r sev d (v\<lparr>vs_context := c1\<rparr>) = Some (d', v2)"
      "v' = record_decision q p r en d' v2" by (auto simp: bind_eq_Some_conv)
    with count_decision_frame [OF this(1)] w show ?thesis by (auto simp: verdicts_frame_def)
  qed
qed

lemma judge_frame:
  assumes "judge g q aps sev oc v = Some v'"
  shows "verdicts_frame q v v'"
proof (cases "oc_verdict oc")
  case (Inl m)
  with assms show ?thesis by (auto simp: judge_def verdicts_frame_def)
next
  case (Inr r)
  show ?thesis
  proof (cases "pr_passed r")
    case True
    with Inr assms show ?thesis by (auto simp: judge_def verdicts_frame_def)
  next
    case False
    with Inr assms obtain v1 where "judge_failed g q aps sev (oc_policy oc) (oc_entry oc) r v = Some v1"
      "v' = v1\<lparr>vs_warnings := vs_warnings v1 @ pr_warnings r\<rparr>" by (auto simp: judge_def bind_eq_Some_conv)
    with judge_failed_frame [OF this(1)] show ?thesis by (simp add: verdicts_frame_def)
  qed
qed

lemma judge_all_frame: "judge_all g q aps sev os v = Some v' \<Longrightarrow> verdicts_frame q v v'"
  by (induction os arbitrary: v)
    (auto simp: bind_eq_Some_conv intro: verdicts_frame_refl verdicts_frame_trans judge_frame)

lemma settle_held_frame:
  "settle_held g v = Some v' \<Longrightarrow> vs_context v' = vs_context v \<and> (vs_held v = [] \<longrightarrow> v' = v)"
  by (auto simp: settle_held_def bind_eq_Some_conv split: if_splits)

lemma reserve_writes:
  assumes "reserve e fresh budgets ep c s = Inr (c', s')"
  shows "c' = c \<or> (\<exists>v. c' = dput ''budget_reservation'' v c)"
  using assms by (auto simp: reserve_def Let_def split: pyval.splits if_splits)

lemma admit_writes:
  assumes "admit e fresh ps ep action c s = Some (msg, c', s')"
  shows "c' = c \<or> (\<exists>v. c' = dput ''budget_reservation'' v c)"
proof -
  obtain hard where run: "(case (if (if action \<in> set MODEL_CALL_ACTIONS then hard else []) \<noteq> []
        then reserve e fresh (if action \<in> set MODEL_CALL_ACTIONS then hard else []) ep c s else Inr (c, s)) of
      Inl (ValueError m) \<Rightarrow> Some (Some m, c, s)
    | Inl ArithmeticError \<Rightarrow> Some (Some ''[<class decimal.ConversionSyntax>]'', c, s)
    | Inl IntegrityError \<Rightarrow>
        Some (Some ''This request_id has already been admitted; use a new ID for a new execution'', c, s)
    | Inl _ \<Rightarrow> None
    | Inr (c1, s1) \<Rightarrow>
        (case consume_approvals (b_now e) (validated_ids c1) (ep_tenant ep) (bs_approvals s1) of
           (True, aps) \<Rightarrow> Some (None, c1, s1\<lparr>bs_approvals := aps\<rparr>)
         | (False, _) \<Rightarrow> Some (Some ''Approval has already been used or expired'', c1, s))) = Some (msg, c', s')"
    using assms by (auto simp: admit_def Let_def bind_eq_Some_conv)
  show ?thesis
  proof (cases "if (if action \<in> set MODEL_CALL_ACTIONS then hard else []) \<noteq> []
        then reserve e fresh (if action \<in> set MODEL_CALL_ACTIONS then hard else []) ep c s else Inr (c, s)")
    case (Inl x)
    with run show ?thesis by (cases x) simp_all
  next
    case (Inr y)
    obtain c1 s1 where y: "y = (c1, s1)" by (cases y)
    with Inr have "c1 = c \<or> (\<exists>v. c1 = dput ''budget_reservation'' v c)"
      by (auto split: if_splits dest: reserve_writes)
    moreover have "c' = c1" using run unfolding Inr y by (auto split: prod.splits bool.splits)
    ultimately show ?thesis by simp
  qed
qed


lemma admission_frame:
  assumes "admission g q ps v b = Some (v', b')"
  shows "(q_dry q \<longrightarrow> v' = v \<and> b' = b) \<and>
    (vs_context v' = vs_context v \<or> (\<exists>x. vs_context v' = dput ''budget_reservation'' x (vs_context v)))"
proof (cases "\<not> vs_allowed v \<or> q_dry q")
  case True
  with assms show ?thesis by (auto simp: admission_def)
next
  case False
  with assms obtain err c where a: "admit (g_budget g) (g_fresh g) ps (q_endpoint q) (q_action q) (vs_context v) b = Some (err, c, b')"
    "vs_context v' = c" by (auto simp: admission_def Let_def bind_eq_Some_conv split: option.splits)
  from admit_writes [OF a(1)] a(2) False show ?thesis by simp
qed

lemma create_incidents_frame:
  "w_cache (create_incidents now t sev ps ens w) = w_cache w \<and> w_lookup (create_incidents now t sev ps ens w) = w_lookup w \<and>
   w_budget (create_incidents now t sev ps ens w) = w_budget w"
  by (induction ens arbitrary: w) (simp_all add: Let_def split: option.splits)

lemma report_frame [simp]:
  "w_cache (report g q ps ds res w) = w_cache w" "w_lookup (report g q ps ds res w) = w_lookup w"
  "w_budget (report g q ps ds res w) = w_budget w" "q_dry q \<Longrightarrow> report g q ps ds res w = w"
  by (simp_all add: report_def Let_def create_incidents_frame)

section \<open>Dry runs\<close>

lemma run_frame:
  assumes "run_policies (engine_of s) q ps c w = (os, c1, w1)"
  shows "w_budget w1 = w_budget w" "q_dry q \<Longrightarrow> w1 = w" "k \<in> set TRUSTED_KEYS \<Longrightarrow> dget c1 k v = dget c k v"
proof -
  have "g_evaluator (engine_of s) = evaluators s" by (simp add: engine_of_def)
  from modelled.run_policies_law [OF this assms, of k v]
  show "w_budget w1 = w_budget w" "q_dry q \<Longrightarrow> w1 = w" "k \<in> set TRUSTED_KEYS \<Longrightarrow> dget c1 k v = dget c k v" by auto
qed

lemma dry_evaluation:
  assumes "evaluate_policies (engine_of s) q ps c w = Some (res, w')" "q_dry q"
  shows "w' = w \<and> er_counts res = []"
proof (rule evaluate_policies_stages [OF assms(1)], goal_cases)
  case (1 os c1 w1 v1 v2 v3 b)
  have w1: "w1 = w" using run_frame(2) [OF 1(1)] assms(2) .
  have v1: "vs_cache v1 = w_cache w" "vs_held v1 = []"
    using judge_all_frame [OF 1(2)] assms(2) w1 by (simp_all add: verdicts_frame_def start_verdicts_def)
  then have "v2 = v1" using settle_held_frame [OF 1(3)] by simp
  moreover have "v3 = v2" "b = w_budget w" using admission_frame [OF 1(4)] assms(2) w1 by simp_all
  ultimately show ?case using v1 w1 assms(2) unfolding 1(5,6) result_fields by simp
qed

text \<open>
  C5: A dry run is a preview. Whatever rules apply, a dry evaluation that gets as far as reading
  them answers allowed, with no reason, no approval asked for and no match held back, and leaves
  the world as it found it: no counter moved, no budget reserved, no approval spent, no incident
  or notification raised. Only the cache of looked-up policies may have been filled.
\<close>

theorem dry_run_is_preview:
  assumes "evaluate (engine_of s) q w = Some (res, w')" "q_dry q" "prepare (engine_of s) q = Some (Inr c)"
  shows "er_allowed res \<and> er_reason res = None \<and> \<not> er_approval_required res \<and> er_counts res = [] \<and>
    (\<exists>lc. w' = w\<lparr>w_lookup := lc\<rparr>)"
proof -
  from assms(1,3) obtain ps lc where run: "evaluate_policies (engine_of s) q ps c (w\<lparr>w_lookup := lc\<rparr>) = Some (res, w')"
    by (auto simp: evaluate_def bind_eq_Some_conv)
  from run show ?thesis
  proof (rule evaluate_policies_stages, goal_cases)
    case (1 os c1 w1 v1 v2 v3 b)
    with dry_evaluation [OF run assms(2)] assms(2) show ?case by (auto simp: result_fields)
  qed
qed

section \<open>Identity to the end\<close>

lemma evaluation_keeps_trusted:
  assumes "evaluate_policies (engine_of s) q ps c w = Some (res, w')" "k \<in> set TRUSTED_KEYS"
  shows "dget (er_context res) k d = dget c k d"
proof (rule evaluate_policies_stages [OF assms(1)], goal_cases)
  case (1 os c1 w1 v1 v2 v3 b)
  have "dget c1 k d = dget c k d"
    using run_frame(3) [OF 1(1)] assms(2) .
  moreover have "writes_only c1 (vs_context v1)"
    using judge_all_frame [OF 1(2)] by (simp add: verdicts_frame_def start_verdicts_def)
  moreover have "vs_context v2 = vs_context v1" using settle_held_frame [OF 1(3)] by simp
  moreover have "k \<noteq> ''budget_reservation''" using assms(2) by (auto simp: TRUSTED_KEYS_def)
  then have "dget (vs_context v3) k d = dget (vs_context v2) k d" using admission_frame [OF 1(4)] by auto
  ultimately show ?case unfolding 1(5) result_fields using writes_only_trusted assms(2) by metis
qed

text \<open>
  The identity a decision is made under is the authenticated one to the end. Whatever the
  caller's context claimed and whatever the evaluators, the approvals and the budget wrote into
  it, the context a call is answered with names the endpoint's own tenant, endpoint and agent, and
  a user counts as verified only when the caller of the engine verified one.
\<close>

lemma identity_throughout:
  assumes "evaluate (engine_of s) q w = Some (res, w')" "prepare (engine_of s) q = Some (Inr c)"
  shows "dget (er_context res) ''_tenant_id'' PNone = PStr (ep_tenant (q_endpoint q)) \<and>
    dget (er_context res) ''_endpoint_id'' PNone = PStr (ep_id (q_endpoint q)) \<and>
    dget (er_context res) ''_agent_id'' PNone = PStr (ep_agent_id (q_endpoint q)) \<and>
    dget (er_context res) ''_user_verified'' PNone = PBool (q_verified q \<and> nonempty (q_user q))"
proof -
  from assms obtain ps lc where run: "evaluate_policies (engine_of s) q ps c (w\<lparr>w_lookup := lc\<rparr>) = Some (res, w')"
    by (auto simp: evaluate_def bind_eq_Some_conv)
  note kept = evaluation_keeps_trusted [OF run]
  note ident = prepared_identity [OF assms(2)]
  show ?thesis using ident by (simp add: kept TRUSTED_KEYS_def)
qed


section \<open>Approvals\<close>

lemma reserve_approvals: "reserve e fresh budgets ep c s = Inr (c', s') \<Longrightarrow> bs_approvals s' = bs_approvals s"
  by (auto simp: reserve_def Let_def split: pyval.splits if_splits)

lemma admit_approvals:
  assumes "admit e fresh ps ep action c s = Some (None, c', s')"
  shows "consume_approvals (b_now e) (validated_ids c') (ep_tenant ep) (bs_approvals s) = (True, bs_approvals s')"
proof (rule admit_success [OF assms], goal_cases)
  case (1 hard c1 s1)
  have "bs_approvals s1 = bs_approvals s" using 1(2) by (auto split: if_splits dest: reserve_approvals)
  with 1(3,5) show ?case by simp
qed

lemma admission_approvals:
  assumes "admission g q ps v b = Some (v', b')" "\<not> q_dry q"
  shows "(vs_allowed v' \<longrightarrow> consume_approvals (b_now (g_budget g)) (validated_ids (vs_context v')) (ep_tenant (q_endpoint q))
      (bs_approvals b) = (True, bs_approvals b')) \<and> (\<not> vs_allowed v' \<longrightarrow> b' = b)"
proof (cases "vs_allowed v")
  case False
  with assms show ?thesis by (auto simp: admission_def)
next
  case True
  with assms obtain err c where a: "admit (g_budget g) (g_fresh g) ps (q_endpoint q) (q_action q) (vs_context v) b = Some (err, c, b')"
    and v': "v' = (case err of None \<Rightarrow> v\<lparr>vs_context := c\<rparr>
      | Some m \<Rightarrow> v\<lparr>vs_context := c, vs_allowed := False, vs_reason := Some m, vs_approval_only := False,
          vs_decisions := vs_decisions v @ [budget_refusal]\<rparr>)"
    by (auto simp: admission_def Let_def bind_eq_Some_conv split: option.splits)
  show ?thesis
  proof (cases err)
    case None
    with admit_approvals a v' True show ?thesis by auto
  next
    case (Some m)
    with admission_refused a v' show ?thesis by auto
  qed
qed



section \<open>An engine to try them on\<close>

definition demo_services :: "policy list \<Rightarrow> mem_cache services" where
  "demo_services rows = \<lparr>s_ops = dict_cache, s_content = engine_content,
     s_approval = \<lparr>x_digest = (\<lambda>d. ''d''), x_sign = (\<lambda>s. s), x_unsign = str_of, x_now = 10\<rparr>,
     s_budget = engine_budget, s_rows = rows, s_fresh = ''f'', s_now = 0, s_regex = (\<lambda>pat s. Some None),
     s_library = \<lparr>pl_injection = [], pl_jailbreak = [], pl_indirect = [], pl_pii = [], pl_secrets = []\<rparr>,
     s_net = \<lparr>i_host = (\<lambda>s. None), i_valid = (\<lambda>v. False), i_within = (\<lambda>v s. False), i_same = (\<lambda>v s. False)\<rparr>,
     s_iso = (\<lambda>s. None), s_json = (\<lambda>s. None), s_unsign = (\<lambda>v. LoadFailed)\<rparr>"

text \<open>A tool that is denied under a rate limit, and a tool that needs an approval, with one granted.\<close>

definition limited_rows :: "policy list" where
  "limited_rows =
     [deny_shell, demo_policy\<lparr>p_id := ''p2'', p_type := ''rate_limit'', p_config := PDict [(''requests_per_minute'', PInt 5)]\<rparr>]"

definition approval_rows :: "policy list" where
  "approval_rows = [demo_policy\<lparr>p_config := PDict [(''requires_approval'', PList [PStr ''deploy''])]\<rparr>]"

definition dry_request :: request where
  "dry_request = demo_request\<lparr>q_dry := True\<rparr>"

definition approved_request :: request where
  "approved_request = demo_request\<lparr>q_user := Some ''u'',
     q_context := PDict [(''tool_name'', PStr ''deploy''), (''approval_token'', PStr ''a1'')]\<rparr>"

definition approved_world :: "mem_cache world" where
  "approved_world = demo_world\<lparr>w_budget := \<lparr>bs_accounts = [], bs_charges = [],
     bs_approvals = [demo_approval\<lparr>ap_endpoint := ''e1''\<rparr>]\<rparr>\<rparr>"

lemma demo_prepared: "\<exists>c. prepare (engine_of (demo_services limited_rows)) dry_request = Some (Inr c)"
proof -
  have "map_option isl (prepare (engine_of (demo_services limited_rows)) dry_request) = Some False" by code_simp
  then show ?thesis by (auto simp: isl_def split: sum.splits) (metis sum.exhaust_sel)
qed

lemma demo_dry: "map_option (\<lambda>(r, w). length (er_warnings r))
    (evaluate (engine_of (demo_services limited_rows)) dry_request demo_world) = Some 1"
  by code_simp

lemma demo_approved: "map_option (\<lambda>(r, w). (er_allowed r, validated_ids (er_context r)))
    (evaluate (engine_of (demo_services approval_rows)) approved_request approved_world) = Some (True, [''a1''])"
  by code_simp


theorem dry_run_is_preview_witness:
  "\<exists>res w'. evaluate (engine_of (demo_services limited_rows)) dry_request demo_world = Some (res, w') \<and>
     length (er_warnings res) = 1 \<and> er_allowed res \<and> w_cache w' = []"
proof -
  obtain c where c: "prepare (engine_of (demo_services limited_rows)) dry_request = Some (Inr c)"
    using demo_prepared by blast
  obtain res w' where run: "evaluate (engine_of (demo_services limited_rows)) dry_request demo_world = Some (res, w')"
    "length (er_warnings res) = 1" using demo_dry by auto
  have "q_dry dry_request" by (simp add: dry_request_def)
  from dry_run_is_preview [OF run(1) this c] run show ?thesis by (auto simp: demo_world_def)
qed

lemma identity_throughout_witness:
  "\<exists>res w'. evaluate (engine_of (demo_services limited_rows)) dry_request demo_world = Some (res, w') \<and>
     dget (er_context res) ''_tenant_id'' PNone = PStr ''t''"
proof -
  obtain c where c: "prepare (engine_of (demo_services limited_rows)) dry_request = Some (Inr c)"
    using demo_prepared by blast
  obtain res w' where run: "evaluate (engine_of (demo_services limited_rows)) dry_request demo_world = Some (res, w')"
    using demo_dry by auto
  from identity_throughout [OF run c] run show ?thesis
    by (auto simp: dry_request_def demo_request_def PolicyLookup.demo_endpoint_def)
qed


end
