(* ===== verification/Capture.thy ===== *)
theory Capture
  imports PyPrelude
begin

text \<open>
  Content capture (\<open>services/content_capture.py\<close>): what of a payload or a text may be stored. The
  pattern lists of \<open>ContentScanner\<close> and the regular expressions are arguments, as one redaction each.
\<close>

section \<open>Modes and redaction\<close>

datatype capture_mode = MetadataOnly | Redacted | Full

fun read_mode :: "pyval \<Rightarrow> capture_mode option" where
  "read_mode (PStr s) =
     (if s = ''metadata'' then Some MetadataOnly else if s = ''redacted'' then Some Redacted
      else if s = ''full'' then Some Full else None)"
| "read_mode _ = None"

text \<open>The tenant's stored setting (None: no row, or one that cannot be read), then the deployment's.\<close>

definition capture_mode_of :: "pyval option \<Rightarrow> pyval \<Rightarrow> capture_mode" where
  "capture_mode_of stored configured =
     (case Option.bind stored (\<lambda>v. Option.bind (pget (py_or v (PDict [])) ''content_capture_mode'' PNone) read_mode) of
        Some m \<Rightarrow> m
      | None \<Rightarrow> (case read_mode configured of Some m \<Rightarrow> m | None \<Rightarrow> MetadataOnly))"

text \<open>
  \<open>rd_keys\<close> replaces private keys, \<open>rd_split\<close> cuts a text at its standalone UUIDs (which come at the
  odd places), \<open>rd_pii\<close> and \<open>rd_secret\<close> are the replacements of the pattern lists in their order.
\<close>

record redactor =
  rd_keys :: "string \<Rightarrow> string"
  rd_split :: "string \<Rightarrow> string list"
  rd_pii :: "(string \<Rightarrow> string) list"
  rd_secret :: "(string \<Rightarrow> string) list"
  rd_uuid :: "string \<Rightarrow> string option"

fun redact_pieces :: "(string \<Rightarrow> string) list \<Rightarrow> string list \<Rightarrow> string list" where
  "redact_pieces fs [] = []"
| "redact_pieces fs [s] = [fold (\<lambda>f. f) fs s]"
| "redact_pieces fs (s # u # ss) = fold (\<lambda>f. f) fs s # u # redact_pieces fs ss"

definition redact_text :: "redactor \<Rightarrow> string \<Rightarrow> string" where
  "redact_text rd s = fold (\<lambda>f. f) (rd_secret rd) (concat (redact_pieces (rd_pii rd) (rd_split rd (rd_keys rd s))))"

definition text_of :: "pyval \<Rightarrow> string" where
  "text_of v = py_str (py_or v (PStr []))"

definition capture_text :: "redactor \<Rightarrow> capture_mode \<Rightarrow> pyval \<Rightarrow> string" where
  "capture_text rd m v =
     (case m of MetadataOnly \<Rightarrow> [] | Full \<Rightarrow> text_of v | Redacted \<Rightarrow> redact_text rd (text_of v))"

section \<open>Payloads\<close>

definition CONTENT_FIELDS :: "string list" where
  "CONTENT_FIELDS = [''input'', ''output'', ''input_text'', ''output_text'', ''input_content'', ''output_content'',
     ''request_body'', ''response_body'', ''messages'', ''prompt'', ''system_prompt'', ''tool_args'', ''tool_input'',
     ''tool_calls'', ''tool_outputs'', ''rag_context'', ''extracted_text'', ''content'']"

definition UUID_REFERENCE_KEYS :: "string list" where
  "UUID_REFERENCE_KEYS = [''approval_request_id'', ''trace_id'', ''evidence_id'', ''event_id'', ''action_id'']"

definition SECRET_KEYS :: "string list" where
  "SECRET_KEYS = [''api_key'', ''apikey'', ''authorization'', ''password'', ''secret'', ''token'', ''approval_token'']"

definition dropped :: "capture_mode \<Rightarrow> string \<Rightarrow> bool" where
  "dropped m k \<longleftrightarrow> lower k \<in> set SECRET_KEYS \<or> starts_with ''_'' k \<or> (lower k \<in> set CONTENT_FIELDS \<and> m = MetadataOnly)"

text \<open>A reference that is a UUID in its canonical form is stored as it is; \<open>rd_uuid\<close> is \<open>str(uuid.UUID(s))\<close>.\<close>

definition uuid_reference :: "redactor \<Rightarrow> string \<Rightarrow> pyval \<Rightarrow> bool" where
  "uuid_reference rd k v \<longleftrightarrow> k \<in> set UUID_REFERENCE_KEYS \<and>
     (case v of PStr s \<Rightarrow> rd_uuid rd s = Some (lower s) | _ \<Rightarrow> False)"

definition keep_item :: "redactor \<Rightarrow> capture_mode \<Rightarrow> (string \<times> pyval) \<times> (string \<times> pyval) \<Rightarrow> pydict" where
  "keep_item rd m item =
     (case item of ((k, v), (_, captured)) \<Rightarrow>
        if dropped m k then [] else [(k, if uuid_reference rd k v then v else captured)])"

primrec capture_payload :: "redactor \<Rightarrow> capture_mode \<Rightarrow> pyval \<Rightarrow> pyval" where
  "capture_payload rd m (PDict kvs) =
     PDict (concat (map (keep_item rd m) (zip kvs (map (map_prod id (capture_payload rd m)) kvs))))"
| "capture_payload rd m (PList xs) = PList (map (capture_payload rd m) xs)"
| "capture_payload rd m (PStr s) = PStr (if m = Full then s else redact_text rd s)"
| "capture_payload rd m (PInt i) = PInt i"
| "capture_payload rd m (PFloat q) = PFloat q"
| "capture_payload rd m (PBool b) = PBool b"
| "capture_payload rd m PNone = PNone"

section \<open>What is never stored\<close>

text \<open>The keys of a payload, at any depth.\<close>

primrec all_keys :: "pyval \<Rightarrow> string set" where
  "all_keys (PDict kvs) = fst ` set kvs \<union> (\<Union>(k, ks) \<in> set (map (map_prod id all_keys) kvs). ks)"
| "all_keys (PList xs) = (\<Union>ks \<in> set (map all_keys xs). ks)"
| "all_keys (PStr s) = {}"
| "all_keys (PInt i) = {}"
| "all_keys (PFloat q) = {}"
| "all_keys (PBool b) = {}"
| "all_keys PNone = {}"

lemma uuid_reference_keys: "uuid_reference rd k v \<Longrightarrow> all_keys v = {}"
  by (cases v) (simp_all add: uuid_reference_def)

lemma captured_key:
  "k \<in> all_keys (capture_payload rd m v) \<longrightarrow> \<not> dropped m k"
proof (induction v)
  case (PDict kvs)
  have item: "(\<forall>k' \<in> fst ` set (keep_item rd m ((a, v), map_prod id (capture_payload rd m) (a, v))). \<not> dropped m k') \<and>
      (\<forall>(k', v') \<in> set (keep_item rd m ((a, v), map_prod id (capture_payload rd m) (a, v))). k \<in> all_keys v' \<longrightarrow> \<not> dropped m k)"
    if "(a, v) \<in> set kvs" for a v
    using PDict [of "(a, v)" v] that by (auto simp: keep_item_def uuid_reference_keys)
  show ?case
    using item by (fastforce simp: zip_map2 zip_same_conv_map o_def)
qed auto

text \<open>
  What capture stores holds no secret. At no depth does a captured payload keep a key that
  names a credential, in any letter case, or a private key with a leading underscore; and unless
  the tenant asked for content it keeps no content field either.
\<close>
lemma captured_keys_safe:
  "all_keys (capture_payload rd m v) \<inter> {k. dropped m k} = {}"
  using captured_key by blast

end
