(* ===== verification/AuditChain.thy ===== *)
theory AuditChain
  imports Capture
begin

text \<open>
  The audit log and its hash chain (\<open>models/audit.py\<close>, \<open>services/audit_chain.py\<close>): one chain per
  tenant, its head, and how an entry is hashed and appended; \<open>AuditVerify\<close> has the readers. SHA-256,
  JSON, signing and the form \<open>a_inet\<close> in which the database keeps an address are arguments; a
  transaction that raises leaves the database as it was.
\<close>

section \<open>Records\<close>

record audit_env =
  a_sha :: "string \<Rightarrow> string"
  a_json :: "pyval \<Rightarrow> string"
  a_json1 :: "pyval \<Rightarrow> string"
  a_dumps :: "pyval \<Rightarrow> string"
  a_loads :: "string \<Rightarrow> pyval option"
  a_iso :: "int \<Rightarrow> string"
  a_sign :: "string \<Rightarrow> pyval \<Rightarrow> string"
  a_unsign :: "string \<Rightarrow> string \<Rightarrow> pyval option"
  a_capture :: "string \<Rightarrow> pyval \<Rightarrow> pyval"
  a_inet :: "string \<Rightarrow> string"

record audit_log =
  al_id :: string
  al_tenant :: string
  al_user :: string
  al_key :: string
  al_ip :: "string option"
  al_agent :: string
  al_action :: string
  al_rtype :: string
  al_rid :: string
  al_rname :: string
  al_changes :: pyval
  al_metadata :: pyval
  al_time :: int
  al_version :: int
  al_entry :: string
  al_chain :: string
  al_sequence :: int

record chain_head =
  ch_tenant :: string
  ch_archived :: int
  ch_archived_hash :: string
  ch_checkpoint :: string
  ch_last :: int
  ch_hash :: string

record retention_proof =
  rp_tenant :: string
  rp_first :: int
  rp_last :: int
  rp_proof :: string

record audit_db =
  db_logs :: "audit_log list"
  db_heads :: "chain_head list"
  db_proofs :: "retention_proof list"

section \<open>Hashes\<close>

definition GENESIS :: string where "GENESIS = ''genesis''"

text \<open>\<open>serialize_record\<close>; hashing reads a stored record through it, an exported one as it is.\<close>

definition serialize_record :: "audit_env \<Rightarrow> audit_log \<Rightarrow> pydict" where
  "serialize_record env r =
     [(''id'', PStr (al_id r)), (''tenant_id'', PStr (al_tenant r)), (''ext_user_id'', PStr (al_user r)),
      (''api_key_prefix'', PStr (al_key r)), (''ip_address'', case al_ip r of None \<Rightarrow> PNone | Some s \<Rightarrow> PStr s),
      (''user_agent'', PStr (al_agent r)), (''action'', PStr (al_action r)), (''resource_type'', PStr (al_rtype r)),
      (''resource_id'', PStr (al_rid r)), (''resource_name'', PStr (al_rname r)), (''changes'', al_changes r),
      (''metadata'', al_metadata r), (''timestamp'', PStr (a_iso env (al_time r))), (''entry_hash'', PStr (al_entry r)),
      (''chain_hash'', PStr (al_chain r)), (''chain_sequence'', PInt (al_sequence r)), (''hash_version'', PInt (al_version r))]"

definition attr :: "pydict \<Rightarrow> string \<Rightarrow> pyval \<Rightarrow> pyval" where
  "attr d k dflt = (case dget d k dflt of PNone \<Rightarrow> dflt | v \<Rightarrow> v)"

definition attr_text :: "pydict \<Rightarrow> string \<Rightarrow> string" where
  "attr_text d k = py_str (attr d k (PStr []))"

definition timestamp_text :: "pydict \<Rightarrow> string" where
  "timestamp_text d = (let t = attr d ''timestamp'' (PStr []) in if truthy t then py_str t else [])"

definition HASHED_FIELDS :: "string list" where
  "HASHED_FIELDS = [''id'', ''tenant_id'', ''action'', ''ext_user_id'', ''api_key_prefix'', ''ip_address'', ''user_agent'',
     ''resource_type'', ''resource_id'', ''resource_name'']"

definition entry_content :: "int \<Rightarrow> pydict \<Rightarrow> pydict" where
  "entry_content n d =
     map (\<lambda>k. (k, PStr (attr_text d k))) HASHED_FIELDS @
     [(''timestamp'', PStr (timestamp_text d)), (''hash_version'', PInt 2), (''chain_sequence'', PInt n),
      (''changes'', py_or (attr d ''changes'' (PDict [])) (PDict [])),
      (''metadata'', py_or (attr d ''metadata'' (PDict [])) (PDict []))]"

definition entry_text_v1 :: "audit_env \<Rightarrow> pydict \<Rightarrow> string" where
  "entry_text_v1 env d = join ''|''
     [attr_text d ''tenant_id'', attr_text d ''action'', timestamp_text d, attr_text d ''ext_user_id'',
      attr_text d ''resource_type'', attr_text d ''resource_id'', attr_text d ''resource_name'',
      a_json1 env (py_or (attr d ''metadata'' (PDict [])) (PDict []))]"

text \<open>The text an entry hash covers, by the record's hash version.\<close>

definition entry_text :: "audit_env \<Rightarrow> pydict \<Rightarrow> pyexc + string" where
  "entry_text env d =
     rbind (py_int (attr d ''hash_version'' (PInt 1))) (\<lambda>v.
     if v = 2 then
       rbind (py_int (attr d ''chain_sequence'' (PInt 0))) (\<lambda>n. Inr (a_json env (PDict (entry_content n d))))
     else if v \<noteq> 1 then Inl (ValueError ''Unsupported audit hash version'')
     else Inr (entry_text_v1 env d))"

definition compute_entry_hash :: "audit_env \<Rightarrow> pydict \<Rightarrow> pyexc + string" where
  "compute_entry_hash env d = rbind (entry_text env d) (\<lambda>s. Inr (a_sha env s))"

definition record_hash :: "audit_env \<Rightarrow> audit_log \<Rightarrow> pyexc + string" where
  "record_hash env r = compute_entry_hash env (serialize_record env r)"

definition link_text :: "string \<Rightarrow> string \<Rightarrow> string" where
  "link_text prev entry = (if prev = [] then GENESIS else prev) @ entry"

definition compute_chain_hash :: "audit_env \<Rightarrow> string \<Rightarrow> string \<Rightarrow> string" where
  "compute_chain_hash env prev entry = a_sha env (link_text prev entry)"

section \<open>Appending\<close>

definition head_of :: "string \<Rightarrow> audit_db \<Rightarrow> chain_head option" where
  "head_of t db = find (\<lambda>h. ch_tenant h = t) (db_heads db)"

definition new_head :: "string \<Rightarrow> chain_head" where
  "new_head t = \<lparr>ch_tenant = t, ch_archived = 0, ch_archived_hash = [], ch_checkpoint = [], ch_last = 0, ch_hash = []\<rparr>"

definition locked_head :: "string \<Rightarrow> audit_db \<Rightarrow> chain_head \<times> audit_db" where
  "locked_head t db =
     (case head_of t db of
        Some h \<Rightarrow> (h, db)
      | None \<Rightarrow> (new_head t, db\<lparr>db_heads := db_heads db @ [new_head t]\<rparr>))"

definition put_head :: "chain_head \<Rightarrow> audit_db \<Rightarrow> audit_db" where
  "put_head h db = db\<lparr>db_heads := map (\<lambda>g. if ch_tenant g = ch_tenant h then h else g) (db_heads db)\<rparr>"

definition tenant_logs :: "string \<Rightarrow> audit_db \<Rightarrow> audit_log list" where
  "tenant_logs t db = filter (\<lambda>r. al_tenant r = t) (db_logs db)"

text \<open>The primary key and the unique sequence of a tenant's chain.\<close>

definition clashes :: "audit_log \<Rightarrow> audit_log \<Rightarrow> bool" where
  "clashes r q \<longleftrightarrow> al_id q = al_id r \<or>
     (al_tenant q = al_tenant r \<and> 0 < al_sequence r \<and> al_sequence q = al_sequence r)"

definition captured :: "audit_env \<Rightarrow> audit_log \<Rightarrow> audit_log" where
  "captured env r = r\<lparr>al_changes := a_capture env (al_tenant r) (al_changes r),
     al_metadata := a_capture env (al_tenant r) (al_metadata r)\<rparr>"

definition compute_hashes :: "audit_env \<Rightarrow> audit_log \<Rightarrow> audit_db \<Rightarrow> pyexc + (audit_log \<times> chain_head \<times> audit_db)" where
  "compute_hashes env r db =
     (case locked_head (al_tenant r) db of
        (head, db1) \<Rightarrow>
          (let r1 = r\<lparr>al_sequence := ch_last head + 1\<rparr> in
           rbind (record_hash env r1) (\<lambda>h.
           Inr (r1\<lparr>al_entry := h, al_chain := compute_chain_hash env (ch_hash head) h\<rparr>, head, db1))))"

text \<open>A row as it is read back; the column of addresses keeps them in its own form.\<close>

definition stored :: "audit_env \<Rightarrow> audit_log \<Rightarrow> audit_log" where
  "stored env r = r\<lparr>al_ip := map_option (a_inet env) (al_ip r)\<rparr>"

text \<open>\<open>AuditLog.save\<close>: a stored record is never written again.\<close>

definition save_audit :: "audit_env \<Rightarrow> bool \<Rightarrow> audit_log \<Rightarrow> audit_db \<Rightarrow> pyexc + (audit_log \<times> audit_db)" where
  "save_audit env adding r db =
     (if \<not> adding then Inl (ValueError ''Audit entries are immutable; append a correction instead'')
      else
        rbind (compute_hashes env (captured env r) db) (\<lambda>(r1, head, db1).
        if list_ex (clashes r1) (db_logs db1) then Inl IntegrityError
        else Inr (r1, put_head (head\<lparr>ch_last := al_sequence r1, ch_hash := al_chain r1\<rparr>)
                        (db1\<lparr>db_logs := db_logs db1 @ [stored env r1]\<rparr>))))"

text \<open>\<open>AuditLog.log\<close> and \<open>log_from_request\<close>: what a request adds to an entry.\<close>

definition new_audit :: "string \<Rightarrow> int \<Rightarrow> string \<Rightarrow> string \<Rightarrow> string \<Rightarrow> string \<Rightarrow> string \<Rightarrow> string \<Rightarrow> string \<Rightarrow>
    string option \<Rightarrow> string \<Rightarrow> pyval \<Rightarrow> pyval \<Rightarrow> audit_log" where
  "new_audit fresh now tenant action rtype rid rname user key ip agent changes metadata =
     \<lparr>al_id = fresh, al_tenant = tenant, al_user = user, al_key = key, al_ip = ip, al_agent = agent, al_action = action,
      al_rtype = rtype, al_rid = rid, al_rname = rname, al_changes = py_or changes (PDict []),
      al_metadata = py_or metadata (PDict []), al_time = now, al_version = 2, al_entry = [], al_chain = [], al_sequence = 0\<rparr>"

definition audit_log_entry :: "audit_env \<Rightarrow> audit_log \<Rightarrow> audit_db \<Rightarrow> pyexc + (audit_log \<times> audit_db)" where
  "audit_log_entry env r db = save_audit env True r db"

text \<open>The client address: the first of the forwarded ones, else the peer's.\<close>

definition client_address :: "(string \<Rightarrow> string option) \<Rightarrow> string option" where
  "client_address meta =
     (case meta ''HTTP_X_FORWARDED_FOR'' of
        Some (c # s) \<Rightarrow> Some (strip (takeWhile (\<lambda>x. x \<noteq> CHR '','') (c # s)))
      | _ \<Rightarrow> meta ''REMOTE_ADDR'')"

definition header_text :: "(string \<Rightarrow> string option) \<Rightarrow> string \<Rightarrow> string" where
  "header_text meta k = (case meta k of None \<Rightarrow> [] | Some s \<Rightarrow> s)"

definition audit_from_request :: "(string \<Rightarrow> string option) \<Rightarrow> audit_log \<Rightarrow> audit_log" where
  "audit_from_request meta r =
     r\<lparr>al_ip := client_address meta, al_key := take 12 (header_text meta ''HTTP_X_ZENTINELLE_KEY''),
       al_agent := take 500 (header_text meta ''HTTP_USER_AGENT'')\<rparr>"

end
