(* ===== verification/AuditVerify.thy ===== *)
theory AuditVerify
  imports AuditChain
begin

text \<open>
  Reading the audit chain (\<open>services/audit_chain.py\<close>): verification against the head and against a
  signed checkpoint, pruning of an expired prefix, and evidence bundles.
\<close>

section \<open>Checkpoints\<close>

definition CHECKPOINT_SALT :: string where "CHECKPOINT_SALT = ''audit-checkpoint-v1''"
definition BOUNDARY_SALT :: string where "BOUNDARY_SALT = ''audit-retention-v1''"
definition PROOF_SALT :: string where "PROOF_SALT = ''audit-retention-proof-v1''"
definition EXPORT_SALT :: string where "EXPORT_SALT = ''audit-export-v1''"

definition checkpoint_payload :: "string \<Rightarrow> chain_head option \<Rightarrow> pydict" where
  "checkpoint_payload t h =
     [(''tenant_id'', PStr t), (''sequence'', PInt (case h of None \<Rightarrow> 0 | Some g \<Rightarrow> ch_last g)),
      (''chain_hash'', PStr (case h of None \<Rightarrow> [] | Some g \<Rightarrow> ch_hash g)),
      (''archived_sequence'', PInt (case h of None \<Rightarrow> 0 | Some g \<Rightarrow> ch_archived g)),
      (''archived_chain_hash'', PStr (case h of None \<Rightarrow> [] | Some g \<Rightarrow> ch_archived_hash g))]"

definition checkpoint :: "audit_env \<Rightarrow> string \<Rightarrow> audit_db \<Rightarrow> string" where
  "checkpoint env t db = a_sign env CHECKPOINT_SALT (PDict (checkpoint_payload t (head_of t db)))"

definition boundary_payload :: "string \<Rightarrow> int \<Rightarrow> string \<Rightarrow> pydict" where
  "boundary_payload t n h = [(''tenant_id'', PStr t), (''sequence'', PInt n), (''chain_hash'', PStr h)]"

definition proof_payload :: "string \<Rightarrow> int \<Rightarrow> string list \<Rightarrow> pydict" where
  "proof_payload t n hs = [(''tenant_id'', PStr t), (''first_sequence'', PInt n), (''chain_hashes'', PList (map PStr hs))]"

section \<open>Verifying\<close>

record verification =
  vr_valid :: bool
  vr_checked :: nat
  vr_unverifiable :: nat
  vr_broken :: "int option"
  vr_root :: string
  vr_archived :: int

definition broken_at :: "verification \<Rightarrow> int \<Rightarrow> verification" where
  "broken_at v n = v\<lparr>vr_valid := False, vr_broken := Some n\<rparr>"

definition boundary_holds :: "audit_env \<Rightarrow> string \<Rightarrow> chain_head \<Rightarrow> bool" where
  "boundary_holds env t h \<longleftrightarrow>
     ch_archived h = 0 \<or>
     (ch_checkpoint h \<noteq> [] \<and>
      (case a_unsign env BOUNDARY_SALT (ch_checkpoint h) of
         None \<Rightarrow> False
       | Some v \<Rightarrow> py_eq v (PDict (boundary_payload t (ch_archived h) (ch_archived_hash h)))))"

text \<open>The loop over the records: where it ended, or the sequence it broke at, and how many were seen.\<close>

record walk =
  wk_broken :: "int option"
  wk_prev :: string
  wk_next :: int
  wk_checked :: nat
  wk_root :: string

definition link_ok :: "audit_env \<Rightarrow> string \<Rightarrow> audit_log \<Rightarrow> bool" where
  "link_ok env prev r \<longleftrightarrow> record_hash env r = Inr (al_entry r) \<and> compute_chain_hash env prev (al_entry r) = al_chain r"

fun walk_records :: "audit_env \<Rightarrow> audit_log list \<Rightarrow> walk \<Rightarrow> walk" where
  "walk_records env [] w = w"
| "walk_records env (r # rs) w =
     (let w1 = w\<lparr>wk_checked := wk_checked w + 1\<rparr> in
      if al_sequence r \<noteq> wk_next w then w1\<lparr>wk_broken := Some (wk_next w)\<rparr>
      else if \<not> link_ok env (wk_prev w) r then w1\<lparr>wk_broken := Some (al_sequence r)\<rparr>
      else walk_records env rs (w1\<lparr>wk_prev := al_chain r, wk_root := al_chain r, wk_next := wk_next w + 1\<rparr>))"

definition chain_record :: "string \<Rightarrow> int \<Rightarrow> audit_db \<Rightarrow> audit_log option" where
  "chain_record t n db = find (\<lambda>r. al_sequence r = n) (tenant_logs t db)"

definition chain_slice :: "string \<Rightarrow> int \<Rightarrow> int option \<Rightarrow> audit_db \<Rightarrow> audit_log list" where
  "chain_slice t lo hi db =
     sort_key al_sequence (filter (\<lambda>r. lo \<le> al_sequence r \<and> (case hi of None \<Rightarrow> True | Some n \<Rightarrow> al_sequence r \<le> n)) (tenant_logs t db))"

text \<open>
  What an expected checkpoint refutes. A signed payload is one \<open>checkpoint\<close> made, so its sequence
  is an integer; every other shape is the KeyError or TypeError of the code.
\<close>

definition int_field :: "pyval \<Rightarrow> string \<Rightarrow> int option" where
  "int_field p k = (case pindex p k of Some (PInt n) \<Rightarrow> Some n | _ \<Rightarrow> None)"

definition proof_for :: "string \<Rightarrow> int \<Rightarrow> audit_db \<Rightarrow> retention_proof option" where
  "proof_for t n db = find (\<lambda>q. rp_tenant q = t \<and> rp_first q \<le> n \<and> n \<le> rp_last q) (db_proofs db)"

text \<open>A Python list index: a negative one counts from the end.\<close>

definition list_index :: "'a list \<Rightarrow> int \<Rightarrow> 'a option" where
  "list_index xs i =
     (if 0 \<le> i \<and> nat i < length xs then Some (xs ! nat i)
      else if i < 0 \<and> nat (- i) \<le> length xs then Some (xs ! (length xs - nat (- i))) else None)"

text \<open>\<open>Some None\<close>: the proof agrees; \<open>Some (Some n)\<close>: broken at \<open>n\<close>; None: an exception.\<close>

definition proof_break :: "audit_env \<Rightarrow> string \<Rightarrow> retention_proof \<Rightarrow> int \<Rightarrow> pyval \<Rightarrow> int option option" where
  "proof_break env t q n hash =
     do { w \<leftarrow> a_unsign env PROOF_SALT (rp_proof q);
          start \<leftarrow> int_field w ''first_sequence'';
          owner \<leftarrow> pindex w ''tenant_id'';
          if \<not> py_eq owner (PStr t) then Some (Some n)
          else do {
            hashes \<leftarrow> pindex w ''chain_hashes'';
            h \<leftarrow> (case hashes of PList hs \<Rightarrow> list_index hs (n - start) | _ \<Rightarrow> None);
            Some (if py_eq h hash then None else Some n) } }"

definition pinned_break :: "audit_env \<Rightarrow> string \<Rightarrow> audit_db \<Rightarrow> string \<Rightarrow> int option" where
  "pinned_break env t db token =
     (case do { p \<leftarrow> a_unsign env CHECKPOINT_SALT token;
                owner \<leftarrow> pindex p ''tenant_id''; n \<leftarrow> int_field p ''sequence'';
                (case head_of t db of
                   None \<Rightarrow> Some (Some n)
                 | Some h \<Rightarrow>
                     if \<not> py_eq owner (PStr t) \<or> ch_last h < n then Some (Some n)
                     else do {
                       hash \<leftarrow> pindex p ''chain_hash'';
                       if ch_archived h < n then
                         Some (case chain_record t n db of
                                 None \<Rightarrow> Some n
                               | Some r \<Rightarrow> if py_eq (PStr (al_chain r)) hash then None else Some n)
                       else if n < ch_archived h then
                         (case proof_for t n db of None \<Rightarrow> Some (Some n) | Some q \<Rightarrow> proof_break env t q n hash)
                       else Some (if py_eq hash (PStr (ch_archived_hash h)) then None else Some n) }) } of
        None \<Rightarrow> Some 0
      | Some b \<Rightarrow> b)"

definition start_of :: "int \<Rightarrow> chain_head option \<Rightarrow> int" where
  "start_of from_seq h = max (max from_seq ((case h of None \<Rightarrow> 0 | Some g \<Rightarrow> ch_archived g) + 1)) 1"

text \<open>The hash before the first record looked at, or the sequence of a missing predecessor.\<close>

definition previous_hash :: "string \<Rightarrow> int \<Rightarrow> chain_head option \<Rightarrow> audit_db \<Rightarrow> int + string" where
  "previous_hash t start h db =
     (let archived = (case h of None \<Rightarrow> 0 | Some g \<Rightarrow> ch_archived g) in
      if start = archived + 1
      then Inr (if archived \<noteq> 0 then (case h of None \<Rightarrow> [] | Some g \<Rightarrow> ch_archived_hash g) else GENESIS)
      else (case chain_record t (start - 1) db of None \<Rightarrow> Inl (start - 1) | Some r \<Rightarrow> Inr (al_chain r)))"

text \<open>The checks after the loop, in their order; None: nothing is broken.\<close>

definition end_break :: "audit_env \<Rightarrow> string \<Rightarrow> audit_db \<Rightarrow> int \<Rightarrow> int option \<Rightarrow> string option \<Rightarrow> walk \<Rightarrow> int option" where
  "end_break env t db start hi expected w =
     (let h = head_of t db;
          last_seq = (case h of None \<Rightarrow> 0 | Some g \<Rightarrow> ch_last g);
          end_seq = (case hi of None \<Rightarrow> last_seq | Some n \<Rightarrow> n)
      in if wk_next w \<noteq> end_seq + 1 \<and> start \<le> end_seq then Some (wk_next w)
         else if h = None \<and> wk_checked w \<noteq> 0 then Some 0
         else if hi = None \<and> (case h of None \<Rightarrow> False | Some g \<Rightarrow>
                 wk_next w - 1 \<noteq> ch_last g \<or> (if wk_prev w = GENESIS then [] else wk_prev w) \<noteq> ch_hash g)
           then Some (wk_next w)
         else (case expected of None \<Rightarrow> None | Some token \<Rightarrow> if token = [] then None else pinned_break env t db token))"

definition unverifiable :: "string \<Rightarrow> audit_db \<Rightarrow> nat" where
  "unverifiable t db = length (filter (\<lambda>r. al_entry r = [] \<and> al_chain r = []) (tenant_logs t db))"

definition verify_chain :: "audit_env \<Rightarrow> string \<Rightarrow> int \<Rightarrow> int option \<Rightarrow> string option \<Rightarrow> audit_db \<Rightarrow> verification" where
  "verify_chain env t from_seq hi expected db =
     (let h = head_of t db;
          archived = (case h of None \<Rightarrow> 0 | Some g \<Rightarrow> ch_archived g);
          start = start_of from_seq h;
          v = \<lparr>vr_valid = True, vr_checked = 0, vr_unverifiable = unverifiable t db, vr_broken = None, vr_root = [],
               vr_archived = archived\<rparr>
      in if \<not> (case h of None \<Rightarrow> True | Some g \<Rightarrow> boundary_holds env t g) then broken_at v archived
         else
           (case previous_hash t start h db of
              Inl n \<Rightarrow> broken_at v n
            | Inr prev \<Rightarrow>
                (let w = walk_records env (chain_slice t start hi db)
                           \<lparr>wk_broken = None, wk_prev = prev, wk_next = start, wk_checked = 0, wk_root = []\<rparr>;
                     v1 = v\<lparr>vr_checked := wk_checked w, vr_root := wk_root w\<rparr>
                 in case wk_broken w of
                      Some n \<Rightarrow> broken_at v1 n
                    | None \<Rightarrow> (case end_break env t db start hi expected w of None \<Rightarrow> v1 | Some n \<Rightarrow> broken_at v1 n))))"

definition verify_recent :: "audit_env \<Rightarrow> string \<Rightarrow> int \<Rightarrow> audit_db \<Rightarrow> verification" where
  "verify_recent env t limit db =
     verify_chain env t (max 1 ((case head_of t db of None \<Rightarrow> 0 | Some h \<Rightarrow> ch_last h) - max 1 (min limit 10000) + 1)) None None db"

section \<open>Pruning an expired prefix\<close>

definition expired_prefix :: "string \<Rightarrow> int \<Rightarrow> chain_head \<Rightarrow> audit_db \<Rightarrow> audit_log list" where
  "expired_prefix t cutoff h db = takeWhile (\<lambda>r. al_time r < cutoff) (chain_slice t (ch_archived h + 1) None db)"

fun chunks :: "nat \<Rightarrow> 'a list \<Rightarrow> 'a list list" where
  "chunks n [] = []"
| "chunks n (x # xs) = (if n = 0 then [x # xs] else take n (x # xs) # chunks n (drop n (x # xs)))"

fun proofs_of :: "audit_env \<Rightarrow> string \<Rightarrow> int \<Rightarrow> string list list \<Rightarrow> retention_proof list" where
  "proofs_of env t n [] = []"
| "proofs_of env t n (hs # hss) =
     \<lparr>rp_tenant = t, rp_first = n, rp_last = n + int (length hs) - 1,
      rp_proof = a_sign env PROOF_SALT (PDict (proof_payload t n hs))\<rparr> # proofs_of env t (n + int (length hs)) hss"

definition archive_head :: "audit_env \<Rightarrow> string \<Rightarrow> audit_log \<Rightarrow> chain_head \<Rightarrow> chain_head" where
  "archive_head env t r h =
     h\<lparr>ch_archived := al_sequence r, ch_archived_hash := al_chain r,
       ch_checkpoint := a_sign env BOUNDARY_SALT (PDict (boundary_payload t (al_sequence r) (al_chain r)))\<rparr>"

definition prefix_proofs :: "audit_env \<Rightarrow> string \<Rightarrow> chain_head \<Rightarrow> audit_log list \<Rightarrow> retention_proof list" where
  "prefix_proofs env t h rs = proofs_of env t (ch_archived h + 1) (chunks 1000 (map al_chain rs))"

definition expired_row :: "string \<Rightarrow> audit_log \<Rightarrow> audit_log \<Rightarrow> bool" where
  "expired_row t boundary r \<longleftrightarrow> al_tenant r = t \<and> 0 < al_sequence r \<and> al_sequence r \<le> al_sequence boundary"

definition archive_prefix :: "audit_env \<Rightarrow> string \<Rightarrow> chain_head \<Rightarrow> audit_log list \<Rightarrow> audit_db \<Rightarrow> audit_db" where
  "archive_prefix env t h rs db =
     put_head (archive_head env t (last rs) h)
       (db\<lparr>db_logs := filter (\<lambda>r. \<not> expired_row t (last rs) r) (db_logs db),
           db_proofs := db_proofs db @ prefix_proofs env t h rs\<rparr>)"

definition prune_audit_prefix :: "audit_env \<Rightarrow> bool \<Rightarrow> string \<Rightarrow> int \<Rightarrow> audit_db \<Rightarrow> pyexc + (nat \<times> audit_db)" where
  "prune_audit_prefix env on_hold t cutoff db =
     (if on_hold then Inr (0, db)
      else
        (case head_of t db of
           None \<Rightarrow> Inr (0, db)
         | Some h \<Rightarrow>
             if \<not> vr_valid (verify_chain env t 1 None None db) then Inl (ValueError ''Refusing retention on a broken audit chain'')
             else
               (let rs = expired_prefix t cutoff h db in
                if rs = [] then Inr (0, db)
                else if list_ex (\<lambda>q. list_ex (\<lambda>q'. rp_tenant q' = t \<and> rp_first q' = rp_first q) (db_proofs db)) (prefix_proofs env t h rs)
                then Inl IntegrityError
                else Inr (length (filter (expired_row t (last rs)) (db_logs db)), archive_prefix env t h rs db))))"

section \<open>Evidence bundles\<close>

definition bundle_line :: "audit_env \<Rightarrow> pydict \<Rightarrow> string" where
  "bundle_line env d = a_json env (PDict d) @ [CHR 0x0A]"

definition bundle_record :: "audit_env \<Rightarrow> audit_log \<Rightarrow> pyexc + string" where
  "bundle_record env r =
     (let d = serialize_record env r in
      if al_entry r = [] then Inr (bundle_line env d)
      else rbind (compute_entry_hash env d) (\<lambda>h.
        if h \<noteq> al_entry r then Inl (ValueError ''Refusing to export an invalid audit record'')
        else Inr (bundle_line env d)))"

fun bundle_records :: "audit_env \<Rightarrow> audit_log list \<Rightarrow> pyexc + string list" where
  "bundle_records env [] = Inr []"
| "bundle_records env (r # rs) = rbind (bundle_record env r) (\<lambda>l. rbind (bundle_records env rs) (\<lambda>ls. Inr (l # ls)))"

definition manifest_payload :: "audit_env \<Rightarrow> string \<Rightarrow> pyval \<Rightarrow> string list \<Rightarrow> audit_db \<Rightarrow> pydict" where
  "manifest_payload env t selection ls db =
     [(''tenant_id'', PStr t), (''count'', PInt (int (length ls))), (''sha256'', PStr (a_sha env (concat ls))),
      (''selection'', selection), (''checkpoint'', PStr (checkpoint env t db))]"

definition manifest_line :: "audit_env \<Rightarrow> string \<Rightarrow> pyval \<Rightarrow> string list \<Rightarrow> audit_db \<Rightarrow> string" where
  "manifest_line env t selection ls db =
     a_dumps env (PDict [(''_manifest'', PStr (a_sign env EXPORT_SALT (PDict (manifest_payload env t selection ls db))))]) @ [CHR 0x0A]"

definition stream_evidence_bundle :: "audit_env \<Rightarrow> audit_log list \<Rightarrow> string \<Rightarrow> pyval \<Rightarrow> audit_db \<Rightarrow> pyexc + string list" where
  "stream_evidence_bundle env rs t selection db =
     rbind (bundle_records env rs) (\<lambda>ls. Inr (ls @ [manifest_line env t selection ls db]))"

text \<open>Reading a bundle: None is any of the exceptions the reader turns into an invalid bundle.\<close>

datatype bundle_result =
    Refused string
  | Checked bool nat "pyval option"

record bundle_state =
  bu_texts :: "string list"
  bu_manifest :: "pyval option"

definition read_manifest :: "audit_env \<Rightarrow> pyval \<Rightarrow> pyval option" where
  "read_manifest env token = (case token of PStr s \<Rightarrow> a_unsign env EXPORT_SALT s | _ \<Rightarrow> None)"

text \<open>One line; \<open>Inl\<close> is an answer given at once. A list would be searched for the key, so it is an exception.\<close>

definition bundle_step :: "audit_env \<Rightarrow> string \<Rightarrow> string \<Rightarrow> bundle_state \<Rightarrow> (bundle_result + bundle_state) option" where
  "bundle_step env t line s =
     do { v \<leftarrow> a_loads env line;
          if bu_manifest s \<noteq> None then Some (Inl (Refused ''Data follows manifest''))
          else (case v of
            PDict d \<Rightarrow>
              if ''_manifest'' \<in> fst ` set d then
                do { m \<leftarrow> read_manifest env (dget d ''_manifest'' PNone); Some (Inr (s\<lparr>bu_manifest := Some m\<rparr>)) }
              else do {
                owner \<leftarrow> map_of d ''tenant_id'';
                if \<not> py_eq owner (PStr t) then Some (Inl (Refused ''Tenant mismatch''))
                else do {
                  entry \<leftarrow> map_of d ''entry_hash'';
                  bad \<leftarrow> (if truthy entry then map_option (\<lambda>h. \<not> py_eq (PStr h) entry) (res_option (compute_entry_hash env d))
                         else Some False);
                  Some (if bad then Inl (Refused ''Record hash mismatch'') else Inr (s\<lparr>bu_texts := bu_texts s @ [line]\<rparr>)) } }
          | _ \<Rightarrow> None) }"

fun bundle_loop :: "audit_env \<Rightarrow> string \<Rightarrow> string list \<Rightarrow> bundle_state \<Rightarrow> (bundle_result + bundle_state) option" where
  "bundle_loop env t [] s = Some (Inr s)"
| "bundle_loop env t (l # ls) s =
     (case bundle_step env t l s of
        None \<Rightarrow> None
      | Some (Inl r) \<Rightarrow> Some (Inl r)
      | Some (Inr s1) \<Rightarrow> bundle_loop env t ls s1)"

definition manifest_agrees :: "audit_env \<Rightarrow> string \<Rightarrow> bundle_state \<Rightarrow> bool option" where
  "manifest_agrees env t s =
     (case bu_manifest s of
        None \<Rightarrow> Some False
      | Some m \<Rightarrow>
          if \<not> truthy m then Some False
          else do {
            owner \<leftarrow> pindex m ''tenant_id'';
            if \<not> py_eq owner (PStr t) then Some False
            else do {
              n \<leftarrow> pindex m ''count'';
              if \<not> py_eq n (PInt (int (length (bu_texts s)))) then Some False
              else do { h \<leftarrow> pindex m ''sha256''; Some (py_eq h (PStr (a_sha env (concat (bu_texts s))))) } } })"

definition verify_evidence_bundle :: "audit_env \<Rightarrow> string list \<Rightarrow> string \<Rightarrow> bundle_result" where
  "verify_evidence_bundle env ls t =
     (case bundle_loop env t ls \<lparr>bu_texts = [], bu_manifest = None\<rparr> of
        None \<Rightarrow> Refused ''Invalid bundle''
      | Some (Inl r) \<Rightarrow> r
      | Some (Inr s) \<Rightarrow>
          (case manifest_agrees env t s of
             None \<Rightarrow> Refused ''Invalid bundle''
           | Some ok \<Rightarrow> Checked ok (length (bu_texts s)) (bu_manifest s)))"

end
