(* ===== verification/Retention.thy ===== *)
theory Retention
  imports AuditVerify PolicyModel EvalClock
begin

text \<open>
  Retention (\<open>services/retention.py\<close>, \<open>models/retention_policy.py\<close>, \<open>models/retention_outcome.py\<close>): how
  long a tenant's rows are kept, what happens to them then, legal holds, signed manifests and archives.
  Times are microseconds since 1970. What a transaction undoes (the tables) is one record, what it does
  not undo (files, the analytics store, the counts returned) is another. Files are a map; whether a
  destination can be written is an argument, and the analytics store only notes what it was asked.
\<close>

section \<open>Rows\<close>

datatype entity = EVENTS | AUDIT_LOGS | INTERACTIONS | SCANS | USAGE_DATA

fun entity_value :: "entity \<Rightarrow> string" where
  "entity_value EVENTS = ''events''"
| "entity_value AUDIT_LOGS = ''audit_logs''"
| "entity_value INTERACTIONS = ''interactions''"
| "entity_value SCANS = ''scans''"
| "entity_value USAGE_DATA = ''usage_data''"

fun period_key :: "entity \<Rightarrow> string" where
  "period_key EVENTS = ''event_retention_days''"
| "period_key AUDIT_LOGS = ''audit_log_retention_days''"
| "period_key INTERACTIONS = ''interaction_retention_days''"
| "period_key SCANS = ''scan_retention_days''"
| "period_key USAGE_DATA = ''usage_retention_days''"

text \<open>The tables in the order they are swept, with their default periods.\<close>

definition ENTITIES :: "(entity \<times> int) list" where
  "ENTITIES = [(EVENTS, 90), (AUDIT_LOGS, 365), (INTERACTIONS, 90), (SCANS, 90), (USAGE_DATA, 365)]"

datatype expiration_action = DELETE_EXPIRED | ARCHIVE_EXPIRED | ANONYMIZE_EXPIRED | FLAG_EXPIRED

record retention_policy =
  rt_tenant :: string
  rt_entity :: string
  rt_days :: int
  rt_minimum :: "int option"
  rt_action :: expiration_action
  rt_location :: string
  rt_enabled :: bool
  rt_priority :: int

datatype hold_status = HOLD_ACTIVE | HOLD_RELEASED | HOLD_EXPIRED

record legal_hold =
  lh_tenant :: string
  lh_status :: hold_status
  lh_effective :: int
  lh_expiration :: "int option"
  lh_released :: "int option"

text \<open>A row of a table that is swept, with what the sweep reads of it.\<close>

record swept_row =
  rw_key :: string
  rw_tenant :: string
  rw_date :: int
  rw_processed :: bool
  rw_audit :: bool
  rw_fields :: pydict

datatype outcome_status = PRESERVED | ARCHIVED | DELETED | FAILED | HELD

record ret_outcome =
  oc_tenant :: string
  oc_entity :: string
  oc_status :: outcome_status
  oc_count :: int
  oc_manifest :: pydict
  oc_destination :: string
  oc_error :: pyexc

record ret_store =
  rs_rows :: "entity \<Rightarrow> swept_row list"
  rs_audit :: audit_db
  rs_outcomes :: "ret_outcome list"

record ret_outside =
  ro_deleted :: "entity \<Rightarrow> int"
  ro_failed :: nat
  ro_held :: nat
  ro_preserved :: "(string \<times> entity) list"
  ro_files :: "string \<Rightarrow> string option"
  ro_analytics :: "(string \<times> int) list"

record ret_env =
  re_audit :: audit_env
  re_now :: int
  re_stamp :: string
  re_key :: "swept_row list \<Rightarrow> string"
  re_writable :: "string \<Rightarrow> bool"
  re_analytics :: "string list option"
  re_uuid :: "string \<Rightarrow> bool"
  re_policies :: "policy list"
  re_retention :: "retention_policy list"
  re_holds :: "legal_hold list"

section \<open>Holds\<close>

definition hold_applies :: "int \<Rightarrow> string \<Rightarrow> legal_hold \<Rightarrow> bool" where
  "hold_applies now t h \<longleftrightarrow> lh_tenant h = t \<and> lh_status h = HOLD_ACTIVE \<and> lh_effective h \<le> now \<and>
     (case lh_expiration h of None \<Rightarrow> True | Some e \<Rightarrow> now < e)"

definition tenant_held :: "ret_env \<Rightarrow> string \<Rightarrow> bool" where
  "tenant_held env t \<longleftrightarrow> list_ex (hold_applies (re_now env) t) (re_holds env)"

definition hold_is_active :: "int \<Rightarrow> legal_hold \<Rightarrow> bool" where
  "hold_is_active now h \<longleftrightarrow> lh_status h = HOLD_ACTIVE \<and> (case lh_expiration h of None \<Rightarrow> True | Some e \<Rightarrow> now \<le> e)"

definition release_hold :: "int \<Rightarrow> legal_hold \<Rightarrow> legal_hold" where
  "release_hold now h = h\<lparr>lh_status := HOLD_RELEASED, lh_released := Some now\<rparr>"

section \<open>How long, and what then\<close>

datatype retention_action = DELETE | ARCHIVE | PRESERVE_FOR_REVIEW

fun action_name :: "retention_action \<Rightarrow> string" where
  "action_name DELETE = ''delete''"
| "action_name ARCHIVE = ''archive''"
| "action_name PRESERVE_FOR_REVIEW = ''preserve_for_review''"

definition get_effective_retention_days :: "retention_policy \<Rightarrow> int" where
  "get_effective_retention_days r =
     (case rt_minimum r of None \<Rightarrow> rt_days r | Some m \<Rightarrow> if m = 0 then rt_days r else max (rt_days r) m)"

text \<open>The period a \<open>data_retention\<close> rule asks for; None: it says nothing of the entity.\<close>

definition rule_period :: "entity \<Rightarrow> policy \<Rightarrow> pyexc + int option" where
  "rule_period e p =
     (case pget (p_config p) (period_key e) PNone of
        None \<Rightarrow> Inl OtherError
      | Some PNone \<Rightarrow> Inr None
      | Some v \<Rightarrow> rbind (py_int v) (\<lambda>n.
          case pget (p_config p) ''minimum_retention_days'' (PInt 0) of
            None \<Rightarrow> Inl OtherError
          | Some w \<Rightarrow> rbind (py_int w) (\<lambda>m. Inr (Some (max 1 (max n m))))))"

fun rule_periods :: "entity \<Rightarrow> policy list \<Rightarrow> pyexc + int list" where
  "rule_periods e [] = Inr []"
| "rule_periods e (p # ps) =
     rbind (rule_period e p) (\<lambda>d. rbind (rule_periods e ps) (\<lambda>ds. Inr ((case d of None \<Rightarrow> [] | Some n \<Rightarrow> [n]) @ ds)))"

definition retention_rules :: "ret_env \<Rightarrow> string \<Rightarrow> policy list" where
  "retention_rules env t = filter (\<lambda>p. p_tenant p = t \<and> p_type p = ''data_retention'' \<and> p_enabled p \<and> p_enforcement p = ENFORCE)
     (re_policies env)"

text \<open>In the order of the model: the highest priority first, \<open>all\<close> before the entity itself.\<close>

definition retention_rows :: "ret_env \<Rightarrow> string \<Rightarrow> entity \<Rightarrow> retention_policy list" where
  "retention_rows env t e =
     sort_key (\<lambda>r. - rt_priority r) (sort_key (\<lambda>r. if rt_entity r = ''all'' then 0 else (1 :: int))
       (filter (\<lambda>r. rt_tenant r = t \<and> rt_enabled r \<and> rt_entity r \<in> {entity_value e, ''all''}) (re_retention env)))"

definition next_action :: "retention_action \<Rightarrow> retention_policy \<Rightarrow> retention_action" where
  "next_action a r =
     (if rt_action r = ARCHIVE_EXPIRED \<and> rt_location r \<noteq> [] then ARCHIVE
      else if rt_action r \<noteq> DELETE_EXPIRED then PRESERVE_FOR_REVIEW else a)"

definition longest :: "int \<Rightarrow> int list \<Rightarrow> int" where
  "longest dflt ds = (case ds of [] \<Rightarrow> dflt | d # ds' \<Rightarrow> fold max ds' d)"

definition retention_decision :: "ret_env \<Rightarrow> string \<Rightarrow> entity \<Rightarrow> int \<Rightarrow> pyexc + (int \<times> retention_action)" where
  "retention_decision env t e dflt =
     rbind (rule_periods e (retention_rules env t)) (\<lambda>ds.
       (let rows = retention_rows env t e in
        Inr (longest dflt (ds @ map (\<lambda>r. max 1 (get_effective_retention_days r)) rows), foldl next_action DELETE rows)))"

text \<open>\<open>now - timedelta(days)\<close>, which raises before the year 1.\<close>

definition cutoff_of :: "ret_env \<Rightarrow> int \<Rightarrow> pyexc + int" where
  "cutoff_of env days =
     (let c = re_now env - days * day_us in if c < - 62135596800000000 then Inl ArithmeticError else Inr c)"

section \<open>Manifests\<close>

definition RETENTION_SALT :: string where "RETENTION_SALT = ''zentinelle-retention-v1''"

definition manifest_body :: "ret_env \<Rightarrow> string \<Rightarrow> string \<Rightarrow> string \<Rightarrow> int \<Rightarrow> string \<Rightarrow> string option \<Rightarrow> string option \<Rightarrow> pydict" where
  "manifest_body env t e act n dest subject checksum =
     [(''tenant_id'', PStr t), (''entity_type'', PStr e), (''action'', PStr act), (''record_count'', PInt n),
      (''destination'', PStr dest), (''created_at'', PStr (a_iso (re_audit env) (re_now env)))] @
     (case subject of None \<Rightarrow> [] | Some s \<Rightarrow> [(''subject_id'', PStr s)]) @
     (case checksum of None \<Rightarrow> [] | Some s \<Rightarrow> [(''archive_checksum'', PStr s)])"

definition signed_retention_manifest :: "ret_env \<Rightarrow> string \<Rightarrow> string \<Rightarrow> string \<Rightarrow> int \<Rightarrow> string \<Rightarrow> string option \<Rightarrow> string option \<Rightarrow> pydict" where
  "signed_retention_manifest env t e act n dest subject checksum =
     (let body = manifest_body env t e act n dest subject checksum;
          signature = a_sign (re_audit env) RETENTION_SALT (PDict body)
      in body @ [(''signature'', PStr signature), (''digest'', PStr (a_sha (re_audit env) signature))])"

definition MANIFEST_FIELDS :: "string list" where
  "MANIFEST_FIELDS = [''tenant_id'', ''entity_type'', ''action'', ''record_count'', ''destination'', ''created_at'']"

text \<open>An optional field: in both with one value, or in neither.\<close>

definition same_optional :: "pydict \<Rightarrow> pydict \<Rightarrow> string \<Rightarrow> bool" where
  "same_optional p m k = (if k \<in> fst ` set m then py_eq (dget p k PNone) (dget m k PNone) else k \<notin> fst ` set p)"

definition manifest_matches :: "pydict \<Rightarrow> pydict \<Rightarrow> bool" where
  "manifest_matches p m \<longleftrightarrow> list_all (\<lambda>k. py_eq (dget p k PNone) (dget m k PNone)) MANIFEST_FIELDS \<and>
     same_optional p m ''subject_id'' \<and> same_optional p m ''archive_checksum''"

text \<open>None: a signature that is no text, or a payload that is no dictionary, is an AttributeError.\<close>

definition verify_retention_manifest :: "ret_env \<Rightarrow> pyval \<Rightarrow> bool option" where
  "verify_retention_manifest env v =
     (case v of
        PDict m \<Rightarrow>
          (case dget m ''signature'' PNone of
             PStr s \<Rightarrow>
               if s = [] then Some False
               else if \<not> py_eq (dget m ''digest'' PNone) (PStr (a_sha (re_audit env) s)) then Some False
               else (case a_unsign (re_audit env) RETENTION_SALT s of
                       None \<Rightarrow> Some False
                     | Some (PDict p) \<Rightarrow> Some (manifest_matches p m)
                     | Some _ \<Rightarrow> None)
           | w \<Rightarrow> if truthy w then None else Some False)
      | _ \<Rightarrow> Some False)"

section \<open>Archives\<close>

definition local_path :: "string \<Rightarrow> string" where
  "local_path s = (if starts_with ''file://'' s then drop 7 s else s)"

definition is_local :: "string \<Rightarrow> bool" where
  "is_local s \<longleftrightarrow> \<not> substring ''://'' s \<and> starts_with ''/'' s"

definition os_path_join :: "string \<Rightarrow> string \<Rightarrow> string" where
  "os_path_join a b = (if starts_with ''/'' b then b else if a = [] \<or> last a = CHR ''/'' then a @ b else a @ ''/'' @ b)"

definition archive_destination :: "ret_env \<Rightarrow> string \<Rightarrow> string \<Rightarrow> entity \<Rightarrow> pyexc + string" where
  "archive_destination env location t e =
     (let dir = local_path location in
      if \<not> is_local dir then Inl (ValueError ''archive_location must be an absolute local path or file:// URI'')
      else Inr (os_path_join dir (t @ ''-'' @ entity_value e @ ''-'' @ re_stamp env @ ''.jsonl'')))"

definition archive_line :: "ret_env \<Rightarrow> swept_row \<Rightarrow> string" where
  "archive_line env r = a_json1 (re_audit env) (PDict (rw_fields r)) @ [CHR 0x0A]"

definition archive_text :: "ret_env \<Rightarrow> swept_row list \<Rightarrow> string" where
  "archive_text env rs = concat (map (archive_line env) rs)"

text \<open>The file replaces what was at the destination only when all of it has been written.\<close>

definition archive_records :: "ret_env \<Rightarrow> swept_row list \<Rightarrow> string \<Rightarrow> string \<Rightarrow> entity \<Rightarrow> ret_outside \<Rightarrow>
    pyexc + (string \<times> string \<times> int \<times> ret_outside)" where
  "archive_records env rs location t e u =
     rbind (archive_destination env location t e) (\<lambda>dest.
       if \<not> re_writable env dest then Inl OtherError
       else Inr (dest, a_sha (re_audit env) (archive_text env rs), int (length rs),
                 u\<lparr>ro_files := (ro_files u)(dest \<mapsto> archive_text env rs)\<rparr>))"

text \<open>\<open>expire_archive\<close>: overwriting and removing a file that is there; a missing one is no error.\<close>

definition expire_archive :: "ret_env \<Rightarrow> pyval \<Rightarrow> string \<Rightarrow> ret_outside \<Rightarrow> pyexc + ret_outside" where
  "expire_archive env manifest t u =
     (case verify_retention_manifest env manifest of
        None \<Rightarrow> Inl OtherError
      | Some ok \<Rightarrow>
          (case manifest of
             PDict m \<Rightarrow>
               if \<not> ok \<or> py_str (dget m ''tenant_id'' PNone) \<noteq> t
               then Inl (ValueError ''Invalid or cross-tenant retention manifest'')
               else (let dest = local_path (py_str (py_or (dget m ''destination'' PNone) (PStr []))) in
                     if \<not> is_local dest then Inl (ValueError ''Archive expiry requires an absolute local destination'')
                     else Inr (u\<lparr>ro_files := (ro_files u)(dest := None)\<rparr>))
           | _ \<Rightarrow> Inl (ValueError ''Invalid or cross-tenant retention manifest'')))"

section \<open>The sweep\<close>

definition audit_row :: "ret_env \<Rightarrow> audit_log \<Rightarrow> swept_row" where
  "audit_row env r = \<lparr>rw_key = al_id r, rw_tenant = al_tenant r, rw_date = al_time r, rw_processed = True, rw_audit = True,
     rw_fields = serialize_record (re_audit env) r\<rparr>"

definition table :: "ret_env \<Rightarrow> ret_store \<Rightarrow> entity \<Rightarrow> swept_row list" where
  "table env s e = (if e = AUDIT_LOGS then map (audit_row env) (db_logs (rs_audit s)) else rs_rows s e)"

text \<open>\<open>qs\<close>: the tenant's rows before the cutoff; of the events, the processed ones.\<close>

definition overdue :: "string \<Rightarrow> int \<Rightarrow> entity \<Rightarrow> swept_row \<Rightarrow> bool" where
  "overdue t cutoff e r \<longleftrightarrow> rw_tenant r = t \<and> rw_date r < cutoff \<and> (e = EVENTS \<longrightarrow> rw_processed r)"

definition overdue_log :: "string \<Rightarrow> int \<Rightarrow> audit_log \<Rightarrow> bool" where
  "overdue_log t cutoff r \<longleftrightarrow> al_tenant r = t \<and> al_time r < cutoff"

definition remove_rows :: "entity \<Rightarrow> (swept_row \<Rightarrow> bool) \<Rightarrow> ret_store \<Rightarrow> ret_store" where
  "remove_rows e gone s = s\<lparr>rs_rows := (rs_rows s)(e := filter (\<lambda>r. \<not> gone r) (rs_rows s e))\<rparr>"

definition remove_overdue :: "string \<Rightarrow> int \<Rightarrow> entity \<Rightarrow> ret_store \<Rightarrow> ret_store" where
  "remove_overdue t cutoff e s =
     (if e = AUDIT_LOGS
      then s\<lparr>rs_audit := (rs_audit s)\<lparr>db_logs := filter (\<lambda>r. \<not> overdue_log t cutoff r) (db_logs (rs_audit s))\<rparr>\<rparr>
      else remove_rows e (overdue t cutoff e) s)"

definition note_outcome :: "ret_outcome \<Rightarrow> ret_store \<Rightarrow> ret_store" where
  "note_outcome oc s = s\<lparr>rs_outcomes := rs_outcomes s @ [oc]\<rparr>"

definition plain_outcome :: "string \<Rightarrow> string \<Rightarrow> outcome_status \<Rightarrow> int \<Rightarrow> ret_outcome" where
  "plain_outcome t e st n = \<lparr>oc_tenant = t, oc_entity = e, oc_status = st, oc_count = n, oc_manifest = [], oc_destination = [],
     oc_error = ValueError []\<rparr>"

text \<open>\<open>alert_failure\<close>: an event that is still to be processed.\<close>

definition alert_failure :: "ret_env \<Rightarrow> string \<Rightarrow> string \<Rightarrow> ret_store \<Rightarrow> ret_store" where
  "alert_failure env t e s =
     s\<lparr>rs_rows := (rs_rows s)(EVENTS := rs_rows s EVENTS @
        [\<lparr>rw_key = re_key env (rs_rows s EVENTS), rw_tenant = t, rw_date = re_now env, rw_processed = False, rw_audit = False,
          rw_fields = [(''event_type'', PStr ''retention_failure''), (''entity_type'', PStr e)]\<rparr>])\<rparr>"

text \<open>The policy whose destination an archive goes to.\<close>

definition archive_policy :: "ret_env \<Rightarrow> string \<Rightarrow> entity \<Rightarrow> retention_policy option" where
  "archive_policy env t e =
     (case sort_key (\<lambda>r. - rt_priority r) (filter (\<lambda>r. rt_tenant r = t \<and> rt_enabled r \<and> rt_entity r \<in> {entity_value e, ''all''} \<and>
          rt_action r = ARCHIVE_EXPIRED \<and> rt_location r \<noteq> []) (re_retention env)) of
        [] \<Rightarrow> None
      | r # _ \<Rightarrow> Some r)"

definition archive_outcome :: "ret_env \<Rightarrow> string \<Rightarrow> entity \<Rightarrow> string \<Rightarrow> string \<Rightarrow> int \<Rightarrow> ret_outcome" where
  "archive_outcome env t e dest checksum n =
     \<lparr>oc_tenant = t, oc_entity = entity_value e, oc_status = ARCHIVED, oc_count = n,
      oc_manifest = signed_retention_manifest env t (entity_value e) ''archive'' n dest None (Some checksum),
      oc_destination = dest, oc_error = ValueError []\<rparr>"

definition archive_entity :: "ret_env \<Rightarrow> string \<Rightarrow> entity \<Rightarrow> int \<Rightarrow> ret_outside \<Rightarrow> ret_store \<Rightarrow> ret_outside \<times> ret_store" where
  "archive_entity env t e cutoff u s =
     (let records = sort_key rw_key (filter (overdue t cutoff e) (table env s e)) in
      case (case archive_policy env t e of None \<Rightarrow> Inl OtherError | Some r \<Rightarrow> archive_records env records (rt_location r) t e u) of
        Inr (dest, checksum, n, o1) \<Rightarrow>
          (o1, (if records = [] then id else remove_overdue t cutoff e) (note_outcome (archive_outcome env t e dest checksum n) s))
      | Inl x \<Rightarrow>
          (u\<lparr>ro_failed := ro_failed u + 1\<rparr>,
           alert_failure env t (entity_value e) (note_outcome ((plain_outcome t (entity_value e) FAILED 0)\<lparr>oc_error := x\<rparr>) s)))"

definition preserve_entity :: "ret_env \<Rightarrow> string \<Rightarrow> entity \<Rightarrow> ret_outside \<Rightarrow> ret_store \<Rightarrow> ret_outside \<times> ret_store" where
  "preserve_entity env t e u s =
     (u\<lparr>ro_preserved := ro_preserved u @ [(t, e)]\<rparr>,
      note_outcome ((plain_outcome t (entity_value e) PRESERVED 0)
        \<lparr>oc_manifest := signed_retention_manifest env t (entity_value e) (action_name PRESERVE_FOR_REVIEW) 0 [] None None\<rparr>) s)"

text \<open>What of the events may go: audit events stay as long as the audit log does.\<close>

definition deletable_event :: "string \<Rightarrow> int \<Rightarrow> int \<Rightarrow> retention_action \<Rightarrow> swept_row \<Rightarrow> bool" where
  "deletable_event t cutoff audit_cutoff audit_action r \<longleftrightarrow>
     overdue t cutoff EVENTS r \<and> (rw_audit r \<longrightarrow> audit_action = DELETE \<and> rw_date r < audit_cutoff)"

definition delete_rows :: "ret_env \<Rightarrow> string \<Rightarrow> entity \<Rightarrow> int \<Rightarrow> int \<Rightarrow> ret_store \<Rightarrow> pyexc + (int \<times> ret_store)" where
  "delete_rows env t e days cutoff s =
     (if e = AUDIT_LOGS then
        rbind (prune_audit_prefix (re_audit env) (tenant_held env t) t cutoff (rs_audit s)) (\<lambda>(n, db). Inr (int n, s\<lparr>rs_audit := db\<rparr>))
      else if e = EVENTS then
        rbind (retention_decision env t AUDIT_LOGS 365) (\<lambda>(audit_days, audit_action).
        rbind (cutoff_of env (max days audit_days)) (\<lambda>audit_cutoff.
          (let gone = deletable_event t cutoff audit_cutoff audit_action in
           Inr (int (length (filter gone (rs_rows s EVENTS))), remove_rows EVENTS gone s))))
      else Inr (int (length (filter (overdue t cutoff e) (rs_rows s e))), remove_rows e (overdue t cutoff e) s))"

definition retain_entity :: "ret_env \<Rightarrow> string \<Rightarrow> entity \<Rightarrow> int \<Rightarrow> ret_outside \<Rightarrow> ret_store \<Rightarrow> ret_outside \<times> (pyexc + ret_store)" where
  "retain_entity env t e dflt u s =
     (case rbind (retention_decision env t e dflt) (\<lambda>(days, act). rbind (cutoff_of env days) (\<lambda>c. Inr (days, act, c))) of
        Inl x \<Rightarrow> (u, Inl x)
      | Inr (days, act, cutoff) \<Rightarrow>
          (case act of
             ARCHIVE \<Rightarrow> (case archive_entity env t e cutoff u s of (o1, s1) \<Rightarrow> (o1, Inr s1))
           | PRESERVE_FOR_REVIEW \<Rightarrow> (case preserve_entity env t e u s of (o1, s1) \<Rightarrow> (o1, Inr s1))
           | DELETE \<Rightarrow>
               (case delete_rows env t e days cutoff s of
                  Inl x \<Rightarrow> (u, Inl x)
                | Inr (n, s1) \<Rightarrow> (u\<lparr>ro_deleted := (ro_deleted u)(e := ro_deleted u e + n)\<rparr>,
                                Inr (note_outcome (plain_outcome t (entity_value e) DELETED n) s1)))))"

fun retain_entities :: "ret_env \<Rightarrow> string \<Rightarrow> (entity \<times> int) list \<Rightarrow> ret_outside \<Rightarrow> ret_store \<Rightarrow> ret_outside \<times> (pyexc + ret_store)" where
  "retain_entities env t [] u s = (u, Inr s)"
| "retain_entities env t ((e, dflt) # es) u s =
     (case retain_entity env t e dflt u s of
        (u1, Inl x) \<Rightarrow> (u1, Inl x)
      | (u1, Inr s1) \<Rightarrow> retain_entities env t es u1 s1)"

text \<open>
  The analytics store is asked to forget events once neither events nor audit logs are preserved; it
  knows tenants by UUID only, and \<open>re_uuid\<close> tells whether an identifier is one.
\<close>

definition retain_analytics :: "ret_env \<Rightarrow> string \<Rightarrow> ret_outside \<Rightarrow> pyexc + ret_outside" where
  "retain_analytics env t u =
     (case re_analytics env of
        None \<Rightarrow> Inr u
      | Some _ \<Rightarrow>
          rbind (retention_decision env t EVENTS 90) (\<lambda>(event_days, event_action).
          rbind (retention_decision env t AUDIT_LOGS 365) (\<lambda>(audit_days, audit_action).
            if event_action = DELETE \<and> audit_action = DELETE
            then rbind (cutoff_of env (max event_days audit_days)) (\<lambda>c.
              if re_uuid env t then Inr (u\<lparr>ro_analytics := ro_analytics u @ [(t, c)]\<rparr>) else Inl (ValueError []))
            else Inr u)))"

text \<open>One tenant's transaction: an exception undoes its tables, is noted and counted.\<close>

definition retain_tenant :: "ret_env \<Rightarrow> string \<Rightarrow> ret_outside \<times> ret_store \<Rightarrow> ret_outside \<times> ret_store" where
  "retain_tenant env t us =
     (case us of (u, s) \<Rightarrow>
        if tenant_held env t then (u\<lparr>ro_held := ro_held u + 1\<rparr>, note_outcome (plain_outcome t ''all'' HELD 0) s)
        else
          (case retain_entities env t ENTITIES u s of
             (u1, r) \<Rightarrow>
               (case rbind r (\<lambda>s1. rbind (retain_analytics env t u1) (\<lambda>u2. Inr (u2, s1))) of
                  Inr result \<Rightarrow> result
                | Inl x \<Rightarrow> (u1\<lparr>ro_failed := ro_failed u1 + 1\<rparr>, alert_failure env t ''all'' s))))"

definition all_tenants :: "ret_env \<Rightarrow> ret_store \<Rightarrow> string list" where
  "all_tenants env s =
     sort (remdups ((case re_analytics env of None \<Rightarrow> [] | Some ts \<Rightarrow> ts) @
       concat (map (\<lambda>(e, _). map rw_tenant (table env s e)) ENTITIES)))"

definition no_result :: "(string \<Rightarrow> string option) \<Rightarrow> ret_outside" where
  "no_result files = \<lparr>ro_deleted = (\<lambda>_. 0), ro_failed = 0, ro_held = 0, ro_preserved = [], ro_files = files, ro_analytics = []\<rparr>"

definition enforce_retention :: "ret_env \<Rightarrow> (string \<Rightarrow> string option) \<Rightarrow> ret_store \<Rightarrow> ret_outside \<times> ret_store" where
  "enforce_retention env files s = fold (retain_tenant env) (all_tenants env s) (no_result files, s)"

end
