(* ===== verification/AuditRules.thy ===== *)
theory AuditRules
  imports AuditVerify
begin

text \<open>
  The audit chain refines an append-only list of hashes per tenant: appending extends the list,
  pruning moves a prefix of it out of the log, and verification accepts every state that is
  reached, also against a checkpoint kept from an earlier one.
\<close>

section \<open>What the services promise\<close>

definition audit_laws :: "audit_env \<Rightarrow> bool" where
  "audit_laws env \<longleftrightarrow>
     (\<forall>salt v. a_unsign env salt (a_sign env salt v) = Some v \<and> a_sign env salt v \<noteq> []) \<and>
     (\<forall>s. a_sha env s \<noteq> GENESIS \<and> a_sha env s \<noteq> [])"

lemma unsign_sign: "audit_laws env \<Longrightarrow> a_unsign env salt (a_sign env salt v) = Some v"
  by (simp add: audit_laws_def)

lemma sign_nonempty: "audit_laws env \<Longrightarrow> a_sign env salt v \<noteq> []"
  by (simp add: audit_laws_def)

section \<open>Hashing reads no hash\<close>

lemma record_hash_frame [simp]: "record_hash env (r\<lparr>al_entry := x, al_chain := y\<rparr>) = record_hash env r"
proof -
  let ?d = "serialize_record env (r\<lparr>al_entry := x, al_chain := y\<rparr>)" and ?c = "serialize_record env r"
  have same: "attr ?d k v = attr ?c k v" if "k \<noteq> ''entry_hash''" "k \<noteq> ''chain_hash''" for k v
    using that by (simp add: serialize_record_def attr_def dget_def)
  then have txts: "attr_text ?d k = attr_text ?c k" if "k \<noteq> ''entry_hash''" "k \<noteq> ''chain_hash''" for k
    using that by (simp add: attr_text_def)
  have time: "timestamp_text ?d = timestamp_text ?c" by (simp add: timestamp_text_def same)
  have v1: "entry_text_v1 env ?d = entry_text_v1 env ?c" by (simp add: entry_text_v1_def same txts time)
  have v2: "entry_content n ?d = entry_content n ?c" for n
    by (simp add: entry_content_def HASHED_FIELDS_def same txts time)
  have "entry_text env ?d = entry_text env ?c" unfolding entry_text_def v1 v2 by (simp add: same cong: if_cong)
  then show ?thesis by (simp add: record_hash_def compute_entry_hash_def)
qed

lemma link_genesis: "compute_chain_hash env [] e = compute_chain_hash env GENESIS e"
  by (simp add: compute_chain_hash_def link_text_def GENESIS_def)

section \<open>Linked records\<close>

fun linked :: "audit_env \<Rightarrow> string \<Rightarrow> int \<Rightarrow> audit_log list \<Rightarrow> bool" where
  "linked env p n [] \<longleftrightarrow> True"
| "linked env p n (r # rs) \<longleftrightarrow> al_sequence r = n \<and> link_ok env p r \<and> linked env (al_chain r) (n + 1) rs"

definition last_hash :: "string \<Rightarrow> audit_log list \<Rightarrow> string" where
  "last_hash p rs = (if rs = [] then p else al_chain (last rs))"

lemma last_hash_simps [simp]: "last_hash p [] = p" "last_hash p (r # rs) = last_hash (al_chain r) rs"
  by (simp_all add: last_hash_def)

lemma linked_append: "linked env p n (xs @ ys) \<longleftrightarrow> linked env p n xs \<and> linked env (last_hash p xs) (n + int (length xs)) ys"
  by (induction xs arbitrary: p n) (auto simp: algebra_simps)

lemma linked_nth: "linked env p n rs \<Longrightarrow> i < length rs \<Longrightarrow> al_sequence (rs ! i) = n + int i"
  by (induction rs arbitrary: p n i) (auto simp: nth_Cons split: nat.splits)

lemma linked_sequences: "linked env p n rs \<Longrightarrow> map al_sequence rs = map (\<lambda>i. n + int i) [0..<length rs]"
  by (rule nth_equalityI) (auto simp: linked_nth)

lemma linked_bounds: "linked env p n rs \<Longrightarrow> r \<in> set rs \<Longrightarrow> n \<le> al_sequence r \<and> al_sequence r < n + int (length rs)"
  by (auto simp: in_set_conv_nth linked_nth)

lemma linked_sorted: "linked env p n rs \<Longrightarrow> sorted (map al_sequence rs)"
  by (simp add: linked_sequences sorted_iff_nth_mono)

lemma linked_find:
  assumes "linked env p n rs" "n \<le> m" "m < n + int (length rs)"
  shows "find (\<lambda>r. al_sequence r = m) rs = Some (rs ! nat (m - n))"
proof -
  let ?i = "nat (m - n)"
  have "?i < length rs" "al_sequence (rs ! ?i) = m" using assms linked_nth [OF assms(1), of ?i] by auto
  moreover have "al_sequence (rs ! j) \<noteq> m" if "j < ?i" for j
    using linked_nth [OF assms(1), of j] that assms(3) by auto
  ultimately show ?thesis by (auto simp: find_Some_iff)
qed

lemma walk_linked:
  "linked env (wk_prev w) (wk_next w) rs \<Longrightarrow>
   walk_records env rs w = w\<lparr>wk_prev := last_hash (wk_prev w) rs, wk_next := wk_next w + int (length rs),
     wk_checked := wk_checked w + length rs, wk_root := (if rs = [] then wk_root w else al_chain (last rs))\<rparr>"
  by (induction rs arbitrary: w) (auto simp: Let_def)

lemma sort_key_sorted: "sorted (map f xs) \<Longrightarrow> sort_key f xs = xs"
  by (induction xs) (auto simp: insort_is_Cons)

section \<open>The abstract chain\<close>

definition base_hash :: "nat \<Rightarrow> string list \<Rightarrow> string" where
  "base_hash a hs = (if a = 0 then GENESIS else hs ! (a - 1))"

definition proof_ok :: "audit_env \<Rightarrow> string \<Rightarrow> nat \<Rightarrow> string list \<Rightarrow> retention_proof \<Rightarrow> bool" where
  "proof_ok env t a hs q \<longleftrightarrow>
     (\<exists>n len. rp_first q = int (Suc n) \<and> 0 < len \<and> n + len \<le> a \<and> rp_last q = int (n + len) \<and>
        rp_proof q = a_sign env PROOF_SALT (PDict (proof_payload t (int (Suc n)) (take len (drop n hs)))))"

definition proofs_ok :: "audit_env \<Rightarrow> string \<Rightarrow> nat \<Rightarrow> string list \<Rightarrow> retention_proof list \<Rightarrow> bool" where
  "proofs_ok env t a hs qs \<longleftrightarrow>
     (\<forall>q \<in> set qs. rp_tenant q = t \<longrightarrow> proof_ok env t a hs q) \<and>
     (\<forall>i. 1 \<le> i \<longrightarrow> i \<le> int a \<longrightarrow> (\<exists>q \<in> set qs. rp_tenant q = t \<and> rp_first q \<le> i \<and> i \<le> rp_last q))"

definition head_ok :: "audit_env \<Rightarrow> string \<Rightarrow> nat \<Rightarrow> string list \<Rightarrow> chain_head \<Rightarrow> bool" where
  "head_ok env t a hs h \<longleftrightarrow>
     ch_tenant h = t \<and> ch_archived h = int a \<and> a \<le> length hs \<and> ch_last h = int (length hs) \<and>
     ch_hash h = (if hs = [] then [] else last hs) \<and>
     ch_archived_hash h = (if a = 0 then [] else hs ! (a - 1)) \<and>
     (a \<noteq> 0 \<longrightarrow> ch_checkpoint h = a_sign env BOUNDARY_SALT (PDict (boundary_payload t (int a) (hs ! (a - 1)))))"

text \<open>The tenant's chain in a database is the list \<open>hs\<close>, its first \<open>a\<close> hashes archived.\<close>

definition represents :: "audit_env \<Rightarrow> string \<Rightarrow> audit_db \<Rightarrow> string list \<Rightarrow> bool" where
  "represents env t db hs \<longleftrightarrow>
     (\<forall>x \<in> set hs. x \<noteq> GENESIS \<and> x \<noteq> []) \<and>
     (\<exists>a. (case head_of t db of None \<Rightarrow> hs = [] \<and> a = 0 | Some h \<Rightarrow> head_ok env t a hs h) \<and>
        linked env (base_hash a hs) (int a + 1) (tenant_logs t db) \<and>
        map al_chain (tenant_logs t db) = drop a hs \<and> proofs_ok env t a hs (db_proofs db))"

lemma representsE:
  assumes "represents env t db hs"
  obtains a where "case head_of t db of None \<Rightarrow> hs = [] \<and> a = 0 | Some h \<Rightarrow> head_ok env t a hs h"
    "linked env (base_hash a hs) (int a + 1) (tenant_logs t db)" "map al_chain (tenant_logs t db) = drop a hs"
    "proofs_ok env t a hs (db_proofs db)" "\<forall>x \<in> set hs. x \<noteq> GENESIS \<and> x \<noteq> []" "a \<le> length hs"
    "length (tenant_logs t db) = length hs - a"
proof -
  from assms obtain a where a: "case head_of t db of None \<Rightarrow> hs = [] \<and> a = 0 | Some h \<Rightarrow> head_ok env t a hs h"
    "linked env (base_hash a hs) (int a + 1) (tenant_logs t db)" "map al_chain (tenant_logs t db) = drop a hs"
    "proofs_ok env t a hs (db_proofs db)" "\<forall>x \<in> set hs. x \<noteq> GENESIS \<and> x \<noteq> []"
    by (auto simp: represents_def)
  moreover have "a \<le> length hs" using a(1) by (auto simp: head_ok_def split: option.splits)
  moreover have "length (tenant_logs t db) = length hs - a" using arg_cong [OF a(3), of length] by simp
  ultimately show thesis using that by blast
qed

definition empty_db :: audit_db where
  "empty_db = \<lparr>db_logs = [], db_heads = [], db_proofs = []\<rparr>"

lemma represents_empty: "represents env t empty_db []"
  by (simp add: represents_def empty_db_def head_of_def tenant_logs_def proofs_ok_def)

lemma last_hash_represents:
  assumes "map al_chain rs = drop a hs" "a \<le> length hs"
  shows "last_hash (base_hash a hs) rs = (if hs = [] then GENESIS else last hs)"
proof (cases "rs = []")
  case True
  with assms have "a = length hs" by simp
  with True show ?thesis by (auto simp: base_hash_def last_conv_nth)
next
  case False
  then have "al_chain (last rs) = last (drop a hs)" using assms(1) by (metis last_map)
  moreover have "drop a hs \<noteq> []" using False assms(1) by (metis map_is_Nil_conv)
  ultimately show ?thesis using False by (auto simp: last_hash_def)
qed


section \<open>Verification accepts\<close>

lemma slice_all:
  assumes "linked env p n (tenant_logs t db)" "lo \<le> n"
  shows "chain_slice t lo None db = tenant_logs t db"
proof -
  have "filter (\<lambda>r. lo \<le> al_sequence r) (tenant_logs t db) = tenant_logs t db"
    using linked_bounds [OF assms(1)] assms(2) by (force simp: filter_id_conv)
  then show ?thesis using linked_sorted [OF assms(1)] by (simp add: chain_slice_def sort_key_sorted)
qed

lemma boundary_represents:
  assumes "audit_laws env" "head_ok env t a hs h"
  shows "boundary_holds env t h"
  using assms sign_nonempty [OF assms(1)] by (cases "a = 0") (auto simp: boundary_holds_def head_ok_def unsign_sign)

text \<open>The whole chain verifies, up to what an expected checkpoint says.\<close>

lemma verify_represents:
  assumes "audit_laws env" "represents env t db hs"
  shows "vr_valid (verify_chain env t 1 None expected db) \<longleftrightarrow>
    (case expected of None \<Rightarrow> True | Some token \<Rightarrow> token = [] \<or> pinned_break env t db token = None)"
proof (rule representsE [OF assms(2)], goal_cases)
  case (1 a)
  let ?rs = "tenant_logs t db" and ?start = "int a + 1"
  have start: "start_of 1 (head_of t db) = ?start" using 1(1) by (auto simp: start_of_def head_ok_def split: option.splits)
  have prev: "previous_hash t ?start (head_of t db) db = Inr (base_hash a hs)"
    using 1(1) by (auto simp: previous_hash_def head_ok_def base_hash_def split: option.splits)
  have bound: "case head_of t db of None \<Rightarrow> True | Some g \<Rightarrow> boundary_holds env t g"
    using 1(1) boundary_represents [OF assms(1)] by (auto split: option.splits)
  define w where "w = walk_records env ?rs \<lparr>wk_broken = None, wk_prev = base_hash a hs, wk_next = ?start, wk_checked = 0, wk_root = []\<rparr>"
  have w: "wk_broken w = None" "wk_prev w = (if hs = [] then GENESIS else last hs)" "wk_next w = int (length hs) + 1"
    "wk_checked w = length hs - a"
    using 1(2,6,7) last_hash_represents [OF 1(3,6)] by (simp_all add: w_def walk_linked)
  have "end_break env t db ?start None expected w =
      (case expected of None \<Rightarrow> None | Some token \<Rightarrow> if token = [] then None else pinned_break env t db token)"
    using 1(1,5) w by (auto simp: end_break_def Let_def head_ok_def split: option.splits)
  then show ?case
    using w(1) bound
    by (auto simp: verify_chain_def Let_def start prev slice_all [OF 1(2)] broken_at_def simp flip: w_def split: option.splits)
qed

section \<open>A kept checkpoint\<close>

lemma chain_record_represents:
  assumes "linked env (base_hash a hs) (int a + 1) (tenant_logs t db)" "map al_chain (tenant_logs t db) = drop a hs"
    "a < n" "n \<le> length hs"
  shows "\<exists>r. chain_record t (int n) db = Some r \<and> al_chain r = hs ! (n - 1)"
proof -
  let ?rs = "tenant_logs t db" and ?i = "n - a - 1"
  have len: "length ?rs = length hs - a" using arg_cong [OF assms(2), of length] by simp
  have "chain_record t (int n) db = Some (?rs ! nat (int n - (int a + 1)))"
    unfolding chain_record_def using assms(3,4) len by (intro linked_find [OF assms(1)]) auto
  moreover have "nat (int n - (int a + 1)) = ?i" using assms(3) by simp
  moreover have "al_chain (?rs ! ?i) = map al_chain ?rs ! ?i" using len assms(3,4) by simp
  then have "al_chain (?rs ! ?i) = hs ! (n - 1)" using assms(2,3,4) by simp
  ultimately show ?thesis by simp
qed

lemma proof_agrees:
  assumes "audit_laws env" "proof_ok env t a hs q" "rp_first q \<le> int n" "int n \<le> rp_last q" "a \<le> length hs"
  shows "proof_break env t q (int n) (PStr (hs ! (n - 1))) = Some None"
proof -
  from assms(2) obtain m len where m: "rp_first q = int (Suc m)" "0 < len" "m + len \<le> a" "rp_last q = int (m + len)"
    "rp_proof q = a_sign env PROOF_SALT (PDict (proof_payload t (int (Suc m)) (take len (drop m hs))))"
    by (auto simp: proof_ok_def)
  let ?seg = "take len (drop m hs)"
  have i: "n - Suc m < len" "Suc m \<le> n" using m assms(3,4) by auto
  then have "n - Suc m < length ?seg" using m(3) assms(5) by simp
  then have "list_index (map PStr ?seg) (int n - int (Suc m)) = Some (PStr (hs ! (n - 1)))"
    using i m(3) assms(5) by (auto simp: list_index_def nat_diff_distrib' simp flip: of_nat_Suc)
  then show ?thesis
    by (simp add: proof_break_def m(5) unsign_sign [OF assms(1)] proof_payload_def int_field_def)
qed


lemma pinned_represents:
  assumes "audit_laws env" "represents env t db hs" "0 < n" "n \<le> length hs"
    "cp = a_sign env CHECKPOINT_SALT (PDict d)" "map_of d ''tenant_id'' = Some (PStr t)"
    "map_of d ''sequence'' = Some (PInt (int n))" "map_of d ''chain_hash'' = Some (PStr (hs ! (n - 1)))"
  shows "pinned_break env t db cp = None"
proof (rule representsE [OF assms(2)], goal_cases)
  case (1 a)
  from 1(1) assms(3,4) obtain h where h: "head_of t db = Some h" "head_ok env t a hs h" by (auto split: option.splits)
  have payload: "a_unsign env CHECKPOINT_SALT cp = Some (PDict d)" using assms(1,5) by (simp add: unsign_sign)
  have seq: "int_field (PDict d) ''sequence'' = Some (int n)" by (simp add: int_field_def assms(7))
  consider "a < n" | "n < a" | "n = a" by linarith
  then show ?case
  proof cases
    case 1
    with chain_record_represents [of env a hs t db n] \<open>linked _ _ _ _\<close> \<open>map al_chain _ = _\<close> assms(4) obtain r where
      "chain_record t (int n) db = Some r" "al_chain r = hs ! (n - 1)" by blast
    with 1 h assms(4) show ?thesis by (simp add: pinned_break_def payload seq assms(6,8) head_ok_def)
  next
    case 2
    have "\<exists>q \<in> set (db_proofs db). rp_tenant q = t \<and> rp_first q \<le> int n \<and> int n \<le> rp_last q"
      using \<open>proofs_ok _ _ _ _ _\<close> 2 assms(3) by (auto simp: proofs_ok_def)
    then have "proof_for t (int n) db \<noteq> None" by (auto simp: proof_for_def find_None_iff)
    then obtain q where q: "proof_for t (int n) db = Some q" by blast
    then have "q \<in> set (db_proofs db)" "rp_tenant q = t" "rp_first q \<le> int n" "int n \<le> rp_last q"
      by (auto simp: proof_for_def find_Some_iff)
    with proof_agrees [OF assms(1) _ this(3,4)] \<open>proofs_ok _ _ _ _ _\<close> \<open>a \<le> length hs\<close>
    have "proof_break env t q (int n) (PStr (hs ! (n - 1))) = Some None" by (auto simp: proofs_ok_def)
    with q 2 h assms(4) show ?thesis by (simp add: pinned_break_def payload seq assms(6,8) head_ok_def)
  next
    case 3
    with h assms(3,4) show ?thesis by (simp add: pinned_break_def payload seq assms(6,8) head_ok_def)
  qed
qed

section \<open>Appending extends the list\<close>

lemma head_of_put:
  assumes "head_of t db = Some h" "ch_tenant g = t"
  shows "head_of t' (put_head g db) = (if t' = t then Some g else head_of t' db)"
proof -
  have "find (\<lambda>h. ch_tenant h = t') (map (\<lambda>x. if ch_tenant x = t then g else x) hs) =
      (if t' = t then map_option (\<lambda>_. g) (find (\<lambda>h. ch_tenant h = t) hs) else find (\<lambda>h. ch_tenant h = t') hs)" for hs
    using assms(2) by (induction hs) auto
  then show ?thesis using assms by (simp add: head_of_def put_head_def)
qed

lemma put_head_frame [simp]: "db_logs (put_head g db) = db_logs db" "db_proofs (put_head g db) = db_proofs db"
  "tenant_logs t (put_head g db) = tenant_logs t db"
  by (simp_all add: put_head_def tenant_logs_def)

lemma find_append: "find P (xs @ ys) = (case find P xs of None \<Rightarrow> find P ys | Some x \<Rightarrow> Some x)"
  by (induction xs) auto

lemma head_of_new: "head_of t db = None \<Longrightarrow>
   head_of t' (db\<lparr>db_heads := db_heads db @ [new_head t]\<rparr>) = (if t' = t then Some (new_head t) else head_of t' db)"
  by (simp add: head_of_def find_append new_head_def split: option.split)

lemma locked_head_spec:
  assumes "locked_head t db = (h, db1)"
  shows "head_of t db1 = Some h" "t' \<noteq> t \<Longrightarrow> head_of t' db1 = head_of t' db" "db_logs db1 = db_logs db" "db_proofs db1 = db_proofs db"
proof -
  have "(head_of t db1 = Some h \<and> (t' \<noteq> t \<longrightarrow> head_of t' db1 = head_of t' db)) \<and> db_logs db1 = db_logs db \<and> db_proofs db1 = db_proofs db"
  proof (cases "head_of t db")
    case None
    with assms have "h = new_head t" "db1 = db\<lparr>db_heads := db_heads db @ [new_head t]\<rparr>" by (auto simp: locked_head_def)
    with None show ?thesis by (simp add: head_of_new)
  next
    case (Some g)
    with assms show ?thesis by (simp add: locked_head_def)
  qed
  then show "head_of t db1 = Some h" "t' \<noteq> t \<Longrightarrow> head_of t' db1 = head_of t' db" "db_logs db1 = db_logs db" "db_proofs db1 = db_proofs db"
    by blast+
qed

lemma locked_head_represents:
  assumes "represents env t db hs" "locked_head t db = (h, db1)"
  shows "\<exists>a. head_ok env t a hs h \<and> linked env (base_hash a hs) (int a + 1) (tenant_logs t db) \<and>
    map al_chain (tenant_logs t db) = drop a hs \<and> proofs_ok env t a hs (db_proofs db)"
proof (rule representsE [OF assms(1)], goal_cases)
  case (1 a)
  have "head_ok env t a hs h"
  proof (cases "head_of t db")
    case None
    with 1(1) have "hs = []" "a = 0" by simp_all
    moreover have "h = new_head t" using None assms(2) by (simp add: locked_head_def)
    ultimately show ?thesis by (simp add: new_head_def head_ok_def)
  next
    case (Some g)
    with 1(1) assms(2) show ?thesis by (simp add: locked_head_def)
  qed
  with 1(2-4) show ?case by blast
qed

lemma proof_ok_append: "proof_ok env t a hs q \<Longrightarrow> a \<le> length hs \<Longrightarrow> proof_ok env t a (hs @ xs) q"
  by (force simp: proof_ok_def)

lemma proofs_ok_append: "proofs_ok env t a hs qs \<Longrightarrow> a \<le> length hs \<Longrightarrow> proofs_ok env t a (hs @ xs) qs"
  by (simp add: proofs_ok_def proof_ok_append)


text \<open>A saved entry: what \<open>save_audit\<close> stored, when the database keeps its address as given.\<close>

lemma save_audit_spec:
  assumes "save_audit env adding r db = Inr (r1, db')" "map_option (a_inet env) (al_ip r) = al_ip r"
  obtains h db1 where "locked_head (al_tenant r) db = (h, db1)" "al_tenant r1 = al_tenant r" "al_sequence r1 = ch_last h + 1"
    "link_ok env (ch_hash h) r1" "db' = put_head (h\<lparr>ch_last := al_sequence r1, ch_hash := al_chain r1\<rparr>) (db1\<lparr>db_logs := db_logs db1 @ [r1]\<rparr>)"
proof -
  obtain h db1 where lock: "locked_head (al_tenant r) db = (h, db1)" by (cases "locked_head (al_tenant r) db")
  let ?q = "(captured env r)\<lparr>al_sequence := ch_last h + 1\<rparr>"
  from assms(1) lock obtain e where e: "record_hash env ?q = Inr e"
    and r1: "r1 = ?q\<lparr>al_entry := e, al_chain := compute_chain_hash env (ch_hash h) e\<rparr>"
    and db': "db' = put_head (h\<lparr>ch_last := al_sequence r1, ch_hash := al_chain r1\<rparr>) (db1\<lparr>db_logs := db_logs db1 @ [stored env r1]\<rparr>)"
    by (auto simp: save_audit_def compute_hashes_def Let_def captured_def split: if_splits)
  have "stored env r1 = r1" using assms(2) by (simp add: stored_def r1 captured_def)
  moreover have "link_ok env (ch_hash h) r1" unfolding link_ok_def r1 record_hash_frame by (simp add: e)
  ultimately show thesis using that [OF lock] db' by (simp add: r1 captured_def)
qed

lemma link_base: "hs = [] \<Longrightarrow> link_ok env [] r \<longleftrightarrow> link_ok env GENESIS r"
  by (simp add: link_ok_def link_genesis)

lemma save_represents:
  assumes "audit_laws env" "represents env t db hs" "save_audit env adding r db = Inr (r1, db')"
    "map_option (a_inet env) (al_ip r) = al_ip r"
  shows "represents env t db' (if al_tenant r = t then hs @ [al_chain r1] else hs)"
proof (rule save_audit_spec [OF assms(3,4)], goal_cases)
  case (1 h db1)
  note head = locked_head_spec [OF 1(1)]
  let ?g = "h\<lparr>ch_last := al_sequence r1, ch_hash := al_chain r1\<rparr>"
  have logs: "tenant_logs t db' = tenant_logs t db @ (if al_tenant r = t then [r1] else [])"
    using 1(2) head(3) by (auto simp: 1(5) tenant_logs_def)
  have ten: "ch_tenant h = al_tenant r" using head(1) by (auto simp: head_of_def find_Some_iff)
  have heads: "head_of t db' = (if t = al_tenant r then Some ?g else head_of t db)"
    using head_of_put [of "al_tenant r" "db1\<lparr>db_logs := db_logs db1 @ [r1]\<rparr>" h ?g t] head ten by (simp add: 1(5) head_of_def)
  have proofs: "db_proofs db' = db_proofs db" by (simp add: 1(5) head(4))
  show ?case
  proof (cases "al_tenant r = t")
    case False
    with assms(2) logs heads proofs show ?thesis by (simp add: represents_def)
  next
    case True
    with locked_head_represents [OF assms(2), of h db1] 1(1) obtain a where a: "head_ok env t a hs h"
      "linked env (base_hash a hs) (int a + 1) (tenant_logs t db)" "map al_chain (tenant_logs t db) = drop a hs"
      "proofs_ok env t a hs (db_proofs db)" by blast
    have len: "a \<le> length hs" "length (tenant_logs t db) = length hs - a"
      using a(1) arg_cong [OF a(3), of length] by (auto simp: head_ok_def)
    have base: "base_hash a (hs @ xs) = base_hash a hs" for xs using len(1) by (cases "a = 0") (auto simp: base_hash_def nth_append)
    have link: "link_ok env (if hs = [] then GENESIS else last hs) r1"
      using 1(4) a(1) link_base by (auto simp: head_ok_def split: if_splits)
    have "al_chain r1 = a_sha env (link_text (ch_hash h) (al_entry r1))" using 1(4) by (simp add: link_ok_def compute_chain_hash_def)
    then have fresh: "al_chain r1 \<noteq> GENESIS \<and> al_chain r1 \<noteq> []" using assms(1) by (simp add: audit_laws_def)
    have "head_ok env t a (hs @ [al_chain r1]) ?g" using a(1) 1(3) len(1) by (auto simp: head_ok_def nth_append)
    moreover have "linked env (base_hash a hs) (int a + 1) (tenant_logs t db @ [r1])"
      unfolding linked_append last_hash_represents [OF a(3) len(1)] using a(1,2) 1(3) link len by (simp add: head_ok_def)
    ultimately show ?thesis
      using assms(2) True logs heads proofs a(3) fresh len(1) proofs_ok_append [OF a(4)]
      by (auto simp: represents_def base intro!: exI [of _ a])
  qed
qed


section \<open>Pruning archives a prefix\<close>

lemma chunks_concat: "concat (chunks n xs) = xs"
  by (induction n xs rule: chunks.induct) (auto simp: append_take_drop_id)

lemma chunks_nonempty: "ys \<in> set (chunks n xs) \<Longrightarrow> ys \<noteq> []"
  by (induction n xs rule: chunks.induct) (auto split: if_splits)

lemma proofs_of_spec:
  assumes "\<forall>ys \<in> set hss. ys \<noteq> []" "concat hss = take (length (concat hss)) (drop m hs)" "m + length (concat hss) \<le> a"
  shows "(\<forall>q \<in> set (proofs_of env t (int (Suc m)) hss). rp_tenant q = t \<and> proof_ok env t a hs q \<and> int (Suc m) \<le> rp_first q) \<and>
    (\<forall>i. int (Suc m) \<le> i \<longrightarrow> i \<le> int (m + length (concat hss)) \<longrightarrow>
      (\<exists>q \<in> set (proofs_of env t (int (Suc m)) hss). rp_first q \<le> i \<and> i \<le> rp_last q))"
  using assms
proof (induction hss arbitrary: m)
  case Nil
  then show ?case by simp
next
  case (Cons ys hss)
  let ?k = "length ys" and ?q = "\<lparr>rp_tenant = t, rp_first = int (Suc m), rp_last = int (Suc m) + int (length ys) - 1,
      rp_proof = a_sign env PROOF_SALT (PDict (proof_payload t (int (Suc m)) ys))\<rparr>"
  have "ys @ concat hss = take ?k (drop m hs) @ take (length (concat hss)) (drop (m + ?k) hs)"
    using Cons.prems(2) by (simp add: take_add add.commute)
  moreover have "length (concat (ys # hss)) \<le> length (drop m hs)"
    using arg_cong [OF Cons.prems(2), of length] by (metis length_take min.cobounded1)
  then have "length ys = length (take ?k (drop m hs))" by simp
  ultimately have ys: "ys = take ?k (drop m hs)" and rest: "concat hss = take (length (concat hss)) (drop (m + ?k) hs)"
    by (metis append_eq_append_conv)+
  have pos: "0 < ?k" using Cons.prems(1) by simp
  have IH: "(\<forall>q \<in> set (proofs_of env t (int (Suc (m + ?k))) hss). rp_tenant q = t \<and> proof_ok env t a hs q \<and> int (Suc (m + ?k)) \<le> rp_first q) \<and>
    (\<forall>i. int (Suc (m + ?k)) \<le> i \<longrightarrow> i \<le> int (m + ?k + length (concat hss)) \<longrightarrow>
      (\<exists>q \<in> set (proofs_of env t (int (Suc (m + ?k))) hss). rp_first q \<le> i \<and> i \<le> rp_last q))"
    using Cons.prems(1,3) by (intro Cons.IH rest) simp_all
  have "proof_ok env t a hs ?q"
    unfolding proof_ok_def using pos Cons.prems(3) ys by (intro exI [of _ m] exI [of _ ?k]) auto
  moreover have list: "proofs_of env t (int (Suc m)) (ys # hss) = ?q # proofs_of env t (int (Suc (m + ?k))) hss"
    by (simp add: add.assoc)
  moreover have "\<exists>q \<in> set (?q # proofs_of env t (int (Suc (m + ?k))) hss). rp_first q \<le> i \<and> i \<le> rp_last q"
    if "int (Suc m) \<le> i" "i \<le> int (m + length (concat (ys # hss)))" for i
  proof (cases "i \<le> int (m + ?k)")
    case True
    with that show ?thesis by simp
  next
    case False
    with IH that show ?thesis by (auto simp: add.assoc)
  qed
  ultimately show ?case using IH unfolding list by auto
qed

lemma linked_drop:
  assumes "linked env p n rs" "0 < n" "k \<le> length rs"
  shows "filter (\<lambda>r. \<not> (0 < al_sequence r \<and> al_sequence r \<le> n + int k - 1)) rs = drop k rs"
    "linked env (last_hash p (take k rs)) (n + int k) (drop k rs)"
proof -
  have split: "linked env p n (take k rs)" "linked env (last_hash p (take k rs)) (n + int k) (drop k rs)"
    using assms linked_append [of env p n "take k rs" "drop k rs"] by simp_all
  have "filter (\<lambda>r. \<not> (0 < al_sequence r \<and> al_sequence r \<le> n + int k - 1)) (take k rs) = []"
    using linked_bounds [OF split(1)] assms by (fastforce simp: filter_empty_conv)
  moreover have "filter (\<lambda>r. \<not> (0 < al_sequence r \<and> al_sequence r \<le> n + int k - 1)) (drop k rs) = drop k rs"
    using linked_bounds [OF split(2)] by (fastforce simp: filter_id_conv)
  ultimately show "filter (\<lambda>r. \<not> (0 < al_sequence r \<and> al_sequence r \<le> n + int k - 1)) rs = drop k rs"
    using filter_append [of _ "take k rs" "drop k rs"] by (metis append_Nil append_take_drop_id)
  show "linked env (last_hash p (take k rs)) (n + int k) (drop k rs)" by (rule split(2))
qed


lemma prune_audit_spec:
  assumes "prune_audit_prefix env hold t cutoff db = Inr (n, db')"
  obtains "db' = db"
  | h where "head_of t db = Some h" "expired_prefix t cutoff h db \<noteq> []"
      "db' = archive_prefix env t h (expired_prefix t cutoff h db) db"
proof (cases "hold \<or> head_of t db = None")
  case True
  with assms that(1) show thesis by (cases hold) (simp_all add: prune_audit_prefix_def)
next
  case False
  then obtain h where "head_of t db = Some h" "\<not> hold" by auto
  with assms that show thesis by (simp add: prune_audit_prefix_def Let_def split: if_split_asm)
qed

lemma proofs_of_tenant: "q \<in> set (proofs_of env t n hss) \<Longrightarrow> rp_tenant q = t"
  by (induction hss arbitrary: n) auto

lemma first_proofs: "q \<in> set (proofs_of env t n hss) \<Longrightarrow> n \<le> rp_first q"
  by (induction hss arbitrary: n) force+

lemma proof_ok_mono: "proof_ok env t a hs q \<Longrightarrow> a \<le> b \<Longrightarrow> proof_ok env t b hs q"
  by (auto simp: proof_ok_def)

lemma proofs_ok_extend:
  assumes "(\<forall>q \<in> set ps. rp_tenant q = t \<and> proof_ok env t (a + k) hs q \<and> int (Suc a) \<le> rp_first q) \<and>
    (\<forall>i. int (Suc a) \<le> i \<longrightarrow> i \<le> int (a + k) \<longrightarrow> (\<exists>q \<in> set ps. rp_first q \<le> i \<and> i \<le> rp_last q))" "proofs_ok env t a hs qs"
  shows "proofs_ok env t (a + k) hs (qs @ ps)"
proof -
  have "\<exists>q \<in> set (qs @ ps). rp_tenant q = t \<and> rp_first q \<le> i \<and> i \<le> rp_last q" if "1 \<le> i" "i \<le> int (a + k)" for i
  proof (cases "i \<le> int a")
    case True
    with that assms(2) show ?thesis by (auto simp: proofs_ok_def)
  next
    case False
    with that assms(1) show ?thesis by (metis UnCI not_le of_nat_Suc set_append zless_imp_add1_zle add.commute)
  qed
  moreover have "proof_ok env t (a + k) hs q" if "q \<in> set (qs @ ps)" "rp_tenant q = t" for q
  proof (cases "q \<in> set ps")
    case True
    with assms(1) show ?thesis by blast
  next
    case False
    with that assms(2) have "proof_ok env t a hs q" by (simp add: proofs_ok_def)
    then show ?thesis by (rule proof_ok_mono) simp
  qed
  ultimately show ?thesis by (simp add: proofs_ok_def)
qed

lemma proofs_ok_foreign: "\<forall>q \<in> set ps. rp_tenant q \<noteq> t \<Longrightarrow> proofs_ok env t a hs (qs @ ps) = proofs_ok env t a hs qs"
  unfolding proofs_ok_def set_append bex_Un ball_Un by blast

lemma tenant_logs_filter:
  "tenant_logs t (db\<lparr>db_logs := filter P (db_logs db), db_proofs := qs\<rparr>) = filter P (tenant_logs t db)"
  by (simp add: tenant_logs_def conj_commute)

lemma archive_prefix_fields:
  assumes "head_of t db = Some h"
  shows "head_of t' (archive_prefix env t h rs db) = (if t' = t then Some (archive_head env t (last rs) h) else head_of t' db)"
    "tenant_logs t' (archive_prefix env t h rs db) = filter (\<lambda>r. \<not> expired_row t (last rs) r) (tenant_logs t' db)"
    "db_proofs (archive_prefix env t h rs db) = db_proofs db @ prefix_proofs env t h rs"
proof -
  have ten: "ch_tenant (archive_head env t (last rs) h) = t"
    using assms by (auto simp: head_of_def find_Some_iff archive_head_def)
  show "head_of t' (archive_prefix env t h rs db) = (if t' = t then Some (archive_head env t (last rs) h) else head_of t' db)"
    unfolding archive_prefix_def
    using head_of_put [of t "db\<lparr>db_logs := filter (\<lambda>r. \<not> expired_row t (last rs) r) (db_logs db),
        db_proofs := db_proofs db @ prefix_proofs env t h rs\<rparr>" h _ t'] assms ten by (simp add: head_of_def)
qed (simp_all add: archive_prefix_def tenant_logs_filter)

text \<open>The expired prefix of linked records, and what its removal leaves.\<close>

lemma expired_prefix_spec:
  fixes cutoff :: int
  assumes "linked env p (int a + 1) (tenant_logs t db)" "ch_archived h = int a"
  defines "rs \<equiv> expired_prefix t cutoff h db" and "ls \<equiv> tenant_logs t db"
  assumes "rs \<noteq> []"
  shows "rs = takeWhile (\<lambda>r. al_time r < cutoff) ls" "rs = take (length rs) ls" "0 < length rs" "length rs \<le> length ls"
    "last rs = ls ! (length rs - 1)" "al_sequence (last rs) = int a + int (length rs)"
    "filter (\<lambda>r. \<not> expired_row t (last rs) r) ls = drop (length rs) ls"
proof -
  have "chain_slice t (ch_archived h + 1) None db = ls" using slice_all [OF assms(1)] assms(2) by (simp add: ls_def)
  then show rs0: "rs = takeWhile (\<lambda>r. al_time r < cutoff) ls" by (simp add: rs_def expired_prefix_def)
  then show rs: "rs = take (length rs) ls" and k2: "length rs \<le> length ls"
    using takeWhile_eq_take [of _ ls] length_takeWhile_le [of _ ls] by simp_all
  show k1: "0 < length rs" using assms(5) by simp
  then show last: "last rs = ls ! (length rs - 1)"
    using rs by (metis last_conv_nth length_greater_0_conv nth_take diff_less zero_less_one)
  have "length rs - 1 < length ls" using k1 k2 by linarith
  from linked_nth [OF assms(1) [folded ls_def] this] show seq: "al_sequence (last rs) = int a + int (length rs)"
    using last k1 by (simp add: of_nat_diff)
  have "filter (\<lambda>r. \<not> expired_row t (last rs) r) ls =
      filter (\<lambda>r. \<not> (0 < al_sequence r \<and> al_sequence r \<le> int a + 1 + int (length rs) - 1)) ls"
    by (rule filter_cong) (auto simp: expired_row_def ls_def tenant_logs_def seq)
  then show "filter (\<lambda>r. \<not> expired_row t (last rs) r) ls = drop (length rs) ls"
    using linked_drop(1) [OF assms(1) [folded ls_def] _ k2] by simp
qed

lemma archive_represents:
  assumes "represents env t db hs" "head_of t db = Some h" "expired_prefix t cutoff h db \<noteq> []"
  shows "represents env t (archive_prefix env t h (expired_prefix t cutoff h db) db) hs"
proof (rule representsE [OF assms(1)], goal_cases)
  case (1 a)
  let ?rs = "expired_prefix t cutoff h db"
  let ?tl = "tenant_logs t db" and ?k = "length ?rs"
  have h: "head_ok env t a hs h" using 1(1) assms(2) by simp
  then have arch: "ch_archived h = int a" by (simp add: head_ok_def)
  note spec = expired_prefix_spec [OF 1(2) arch assms(3)]
  note rs = spec(2) and k = spec(3,4) and seq = spec(6) and keep = spec(7)
  have len: "a + ?k \<le> length hs" using k(2) 1(6,7) by simp
  have "?k - 1 < length ?tl" using k by linarith
  then have "al_chain (last ?rs) = map al_chain ?tl ! (?k - 1)" using spec(5) by simp
  then have chain: "al_chain (last ?rs) = hs ! (a + ?k - 1)" using 1(3) k len by simp
  have head': "head_ok env t (a + ?k) hs (archive_head env t (last ?rs) h)"
    using h k len seq chain by (auto simp: head_ok_def archive_head_def)
  have base: "last_hash (base_hash a hs) (take ?k ?tl) = base_hash (a + ?k) hs"
    using rs k chain by (auto simp: last_hash_def base_hash_def)
  have linked': "linked env (base_hash (a + ?k) hs) (int (a + ?k) + 1) (drop ?k ?tl)"
    using linked_drop(2) [OF 1(2) _ k(2)] base by (simp add: algebra_simps)
  have chains: "map al_chain (drop ?k ?tl) = drop (a + ?k) hs" using 1(3) by (simp add: add.commute flip: drop_map)
  have seg: "map al_chain ?rs = take ?k (drop a hs)" using rs 1(3) by (metis take_map)
  have "(\<forall>q \<in> set (prefix_proofs env t h ?rs). rp_tenant q = t \<and> proof_ok env t (a + ?k) hs q \<and> int (Suc a) \<le> rp_first q) \<and>
      (\<forall>i. int (Suc a) \<le> i \<longrightarrow> i \<le> int (a + ?k) \<longrightarrow> (\<exists>q \<in> set (prefix_proofs env t h ?rs). rp_first q \<le> i \<and> i \<le> rp_last q))"
    using proofs_of_spec [of "chunks 1000 (map al_chain ?rs)" a hs "a + ?k" env t] seg
    unfolding chunks_concat length_map prefix_proofs_def arch of_nat_Suc add.commute [of 1 "int a"]
    by (metis chunks_nonempty le_refl)
  then have "proofs_ok env t (a + ?k) hs (db_proofs db @ prefix_proofs env t h ?rs)"
    using 1(4) by (rule proofs_ok_extend)
  with 1(5) head' linked' chains show ?case
    unfolding represents_def by (intro conjI exI [of _ "a + ?k"]) (simp_all add: archive_prefix_fields [OF assms(2)] keep)
qed

lemma prune_represents:
  assumes "represents env t' db hs" "prune_audit_prefix env hold t cutoff db = Inr (n, db')"
  shows "represents env t' db' hs"
  using assms(2)
proof (cases rule: prune_audit_spec)
  case 1
  with assms(1) show ?thesis by simp
next
  case (2 h)
  show ?thesis
  proof (cases "t' = t")
    case True
    with 2 assms(1) archive_represents show ?thesis by simp
  next
    case False
    have "\<not> expired_row t x r" if "r \<in> set (tenant_logs t' db)" for r x
      using that False by (simp add: tenant_logs_def expired_row_def)
    then have "filter (\<lambda>r. \<not> expired_row t (last (expired_prefix t cutoff h db)) r) (tenant_logs t' db) = tenant_logs t' db"
      by (intro filter_True) blast
    moreover have "\<forall>q \<in> set (prefix_proofs env t h (expired_prefix t cutoff h db)). rp_tenant q \<noteq> t'"
      using False by (auto simp: prefix_proofs_def dest: proofs_of_tenant)
    ultimately show ?thesis
      using assms(1) False by (simp add: represents_def 2(3) archive_prefix_fields [OF 2(1)] proofs_ok_foreign)
  qed
qed

end
