(* ===== verification/AuditHistory.thy ===== *)
theory AuditHistory
  imports AuditRules "HOL-Library.Countable"
begin

text \<open>
  Histories of an audit database: entries appended and expired prefixes archived, in any order. The
  properties say what a reader of the chain may rely on: a signed checkpoint stays good, retention is
  never refused, an edited record shows, and an exported bundle is accepted.
\<close>

section \<open>Steps of the database\<close>

text \<open>An address is stored as it was hashed when the column keeps it in the given form.\<close>

inductive audit_step :: "audit_env \<Rightarrow> audit_db \<Rightarrow> audit_db \<Rightarrow> bool" for env where
  append: "save_audit env True r db = Inr (r1, db') \<Longrightarrow> map_option (a_inet env) (al_ip r) = al_ip r \<Longrightarrow> audit_step env db db'"
| prune: "prune_audit_prefix env hold t cutoff db = Inr (n, db') \<Longrightarrow> audit_step env db db'"

abbreviation audit_run :: "audit_env \<Rightarrow> audit_db \<Rightarrow> audit_db \<Rightarrow> bool" where
  "audit_run env \<equiv> (audit_step env)\<^sup>*\<^sup>*"

lemma step_represents:
  assumes "audit_laws env" "represents env t db hs" "audit_step env db db'"
  shows "\<exists>xs. represents env t db' (hs @ xs)"
  using assms(3)
proof cases
  case (append r r1)
  with save_represents [OF assms(1,2)] have "represents env t db' (if al_tenant r = t then hs @ [al_chain r1] else hs)" by blast
  then show ?thesis by (metis append_Nil2)
next
  case (prune hold t1 cutoff n)
  with prune_represents [OF assms(2)] show ?thesis by (metis append_Nil2)
qed

lemma run_represents:
  assumes "audit_laws env" "audit_run env db db'" "represents env t db hs"
  shows "\<exists>xs. represents env t db' (hs @ xs)"
  using assms(2)
proof (induction rule: rtranclp_induct)
  case base
  with assms(3) show ?case by (metis append_Nil2)
next
  case (step y z)
  then show ?case using step_represents [OF assms(1)] by (metis append.assoc)
qed

lemma reachable_represents:
  assumes "audit_laws env" "audit_run env empty_db db"
  shows "\<exists>hs. represents env t db hs"
  using run_represents [OF assms represents_empty] by auto

section \<open>A checkpoint stays good\<close>

lemma checkpoint_represents:
  assumes "represents env t db hs" "head_of t db = Some h"
  shows "ch_last h = int (length hs)" "ch_hash h = (if hs = [] then [] else last hs)"
  by (rule representsE [OF assms(1)], use assms(2) in \<open>simp add: head_ok_def\<close>)+



text \<open>A checkpoint of a tenant without entries is not accepted even at once.\<close>

lemma empty_checkpoint_rejected:
  "audit_laws env \<Longrightarrow> \<not> vr_valid (verify_chain env t 1 None (Some (checkpoint env t empty_db)) empty_db)"
  by (simp add: verify_chain_def empty_db_def head_of_def start_of_def previous_hash_def chain_slice_def tenant_logs_def end_break_def
      checkpoint_def checkpoint_payload_def sign_nonempty unsign_sign pinned_break_def int_field_def broken_at_def Let_def)

section \<open>Retention is never refused\<close>

lemma takeWhile_drop_takeWhile: "takeWhile P (drop (length (takeWhile P xs)) xs) = []"
  by (induction xs) auto

definition expired_left :: "string \<Rightarrow> int \<Rightarrow> audit_db \<Rightarrow> audit_log list" where
  "expired_left t cutoff db = (case head_of t db of None \<Rightarrow> [] | Some h \<Rightarrow> expired_prefix t cutoff h db)"

lemma nothing_left:
  assumes "audit_laws env" "represents env t db hs" "head_of t db = Some h" "expired_prefix t cutoff h db \<noteq> []"
  shows "expired_left t cutoff (archive_prefix env t h (expired_prefix t cutoff h db) db) = []"
proof (rule representsE [OF assms(2)], goal_cases)
  case (1 a)
  let ?rs = "expired_prefix t cutoff h db" and ?db = "archive_prefix env t h (expired_prefix t cutoff h db) db"
  have arch: "ch_archived h = int a" using 1(1) assms(3) by (simp add: head_ok_def)
  note spec = expired_prefix_spec [OF 1(2) arch assms(4)]
  have logs: "tenant_logs t ?db = drop (length ?rs) (tenant_logs t db)"
    using spec(7) by (simp add: archive_prefix_fields [OF assms(3)])
  have "linked env (last_hash (base_hash a hs) (take (length ?rs) (tenant_logs t db))) (int a + 1 + int (length ?rs)) (tenant_logs t ?db)"
    unfolding logs using linked_drop(2) [OF 1(2) _ spec(4)] by simp
  from slice_all [OF this, of "ch_archived (archive_head env t (last ?rs) h) + 1"] spec(6)
  have "expired_prefix t cutoff (archive_head env t (last ?rs) h) ?db = takeWhile (\<lambda>r. al_time r < cutoff) (tenant_logs t ?db)"
    by (simp add: expired_prefix_def archive_head_def)
  also have "\<dots> = []"
    unfolding logs using takeWhile_drop_takeWhile [of "\<lambda>r. al_time r < cutoff" "tenant_logs t db"] spec(1) by simp
  finally show ?case by (simp add: expired_left_def archive_prefix_fields [OF assms(3)])
qed

lemma proofs_new:
  assumes "represents env t db hs" "head_of t db = Some h" "expired_prefix t cutoff h db \<noteq> []"
    "q \<in> set (prefix_proofs env t h (expired_prefix t cutoff h db))" "q' \<in> set (db_proofs db)" "rp_tenant q' = t"
  shows "rp_first q' \<noteq> rp_first q"
proof (rule representsE [OF assms(1)], goal_cases)
  case (1 a)
  have arch: "ch_archived h = int a" using 1(1) assms(2) by (simp add: head_ok_def)
  have "proof_ok env t a hs q'" using 1(4) assms(5,6) by (simp add: proofs_ok_def)
  then have old: "rp_first q' \<le> int a" by (auto simp: proof_ok_def)
  have "int (Suc a) \<le> rp_first q"
    using first_proofs [OF assms(4) [unfolded prefix_proofs_def]] arch by simp
  with old show ?case by simp
qed

text \<open>
  archiving an expired prefix is not refused in any state the application reaches, neither as a
  broken chain nor as a duplicate proof, and no expired entry is left at the front of the chain.
\<close>
lemma retention_never_refused:
  assumes "audit_laws env" "audit_run env empty_db db"
  shows "\<exists>n db'. prune_audit_prefix env False t cutoff db = Inr (n, db') \<and> expired_left t cutoff db' = []"
proof -
  from reachable_represents [OF assms] obtain hs where hs: "represents env t db hs" by blast
  have valid: "vr_valid (verify_chain env t 1 None None db)" by (simp add: verify_represents [OF assms(1) hs])
  show ?thesis
  proof (cases "head_of t db")
    case None
    then show ?thesis by (simp add: prune_audit_prefix_def expired_left_def)
  next
    case (Some h)
    let ?rs = "expired_prefix t cutoff h db"
    have unique: "\<not> list_ex (\<lambda>q. list_ex (\<lambda>q'. rp_tenant q' = t \<and> rp_first q' = rp_first q) (db_proofs db)) (prefix_proofs env t h ?rs)"
      if "?rs \<noteq> []" using proofs_new [OF hs Some that] by (auto simp: list_ex_iff)
    show ?thesis
      using valid Some unique nothing_left [OF assms(1) hs Some]
      by (cases "?rs = []") (simp_all add: prune_audit_prefix_def Let_def expired_left_def)
  qed
qed

section \<open>An edited record shows\<close>

definition record_text :: "audit_env \<Rightarrow> audit_log \<Rightarrow> pyexc + string" where
  "record_text env r = entry_text env (serialize_record env r)"

text \<open>The texts that are hashed when a list of records is verified.\<close>

fun hashed_texts :: "audit_env \<Rightarrow> string \<Rightarrow> audit_log list \<Rightarrow> string set" where
  "hashed_texts env p [] = {}"
| "hashed_texts env p (r # rs) =
     insert (link_text p (al_entry r)) (case record_text env r of Inl _ \<Rightarrow> {} | Inr s \<Rightarrow> {s}) \<union> hashed_texts env (al_chain r) rs"

lemma link_okD:
  assumes "link_ok env p r"
  obtains s where "record_text env r = Inr s" "al_entry r = a_sha env s" "al_chain r = a_sha env (link_text p (al_entry r))"
  using assms
  by (cases "record_text env r")
     (auto simp: link_ok_def record_hash_def compute_entry_hash_def record_text_def compute_chain_hash_def)

lemma hashed_append: "hashed_texts env p (rs @ [r]) =
    hashed_texts env p rs \<union> insert (link_text (last_hash p rs) (al_entry r)) (case record_text env r of Inl _ \<Rightarrow> {} | Inr s \<Rightarrow> {s})"
  by (induction rs arbitrary: p) auto

lemma link_text_inject: "p \<noteq> [] \<Longrightarrow> q \<noteq> [] \<Longrightarrow> length e = length e' \<Longrightarrow> link_text p e = link_text q e' \<Longrightarrow> p = q \<and> e = e'"
  by (simp add: link_text_def)

lemma last_hash_nonempty:
  assumes "linked env p n rs" "p \<noteq> []" "\<forall>s. length (a_sha env s) = Suc k"
  shows "last_hash p rs \<noteq> []"
  using assms(1,2)
proof (induction rs arbitrary: p n)
  case (Cons r rs)
  then have "al_chain r = a_sha env (link_text p (al_entry r))" by (simp add: link_ok_def compute_chain_hash_def)
  then have "length (al_chain r) = Suc k" using assms(3) by metis
  then have "al_chain r \<noteq> []" by auto
  with Cons show ?case by auto
qed simp

text \<open>Equally long linked lists that start and end with the same hashes hash the same texts.\<close>

lemma linked_unique:
  assumes "linked env p n rs" "linked env p n rs'" "length rs = length rs'" "last_hash p rs = last_hash p rs'"
    "inj_on (a_sha env) (hashed_texts env p rs \<union> hashed_texts env p rs')" "\<forall>s. length (a_sha env s) = Suc k" "p \<noteq> []"
  shows "map (record_text env) rs = map (record_text env) rs'"
  using assms
proof (induction rs arbitrary: rs' rule: rev_induct)
  case Nil
  then show ?case by simp
next
  case (snoc r rs)
  from snoc.prems(3) obtain r' qs where rs': "rs' = qs @ [r']" "length rs = length qs"
    by (metis length_append_singleton length_Suc_conv_rev old.nat.inject)
  from snoc.prems(1,2) have l: "linked env p n rs" "linked env p n qs" "link_ok env (last_hash p rs) r" "link_ok env (last_hash p qs) r'"
    by (simp_all add: rs' linked_append)
  obtain s where s: "record_text env r = Inr s" "al_entry r = a_sha env s" "al_chain r = a_sha env (link_text (last_hash p rs) (al_entry r))"
    by (rule link_okD [OF l(3)])
  obtain s' where s': "record_text env r' = Inr s'" "al_entry r' = a_sha env s'" "al_chain r' = a_sha env (link_text (last_hash p qs) (al_entry r'))"
    by (rule link_okD [OF l(4)])
  have inj: "x = y" if "a_sha env x = a_sha env y" "x \<in> hashed_texts env p (rs @ [r])" "y \<in> hashed_texts env p (qs @ [r'])" for x y
    using inj_onD [OF snoc.prems(5) that(1)] that(2,3) by (simp add: rs'(1))
  have "a_sha env (link_text (last_hash p rs) (al_entry r)) = a_sha env (link_text (last_hash p qs) (al_entry r'))"
    using snoc.prems(4) unfolding s(3) [symmetric] s'(3) [symmetric] by (simp add: rs' last_hash_def)
  then have links: "link_text (last_hash p rs) (al_entry r) = link_text (last_hash p qs) (al_entry r')"
    by (rule inj) (simp_all add: hashed_append)
  have "length (al_entry r) = length (al_entry r')" using snoc.prems(6) by (simp add: s(2) s'(2))
  with link_text_inject [OF _ _ this links] have same: "last_hash p rs = last_hash p qs" "al_entry r = al_entry r'"
    using last_hash_nonempty [OF l(1) snoc.prems(7,6)] last_hash_nonempty [OF l(2) snoc.prems(7,6)] by simp_all
  from same(2) have "a_sha env s = a_sha env s'" by (simp add: s s')
  then have "s = s'" by (rule inj) (simp_all add: hashed_append s s')
  moreover have "map (record_text env) rs = map (record_text env) qs"
    using snoc.prems(5) by (intro snoc.IH l rs' same snoc.prems(6,7)) (rule inj_on_subset, auto simp: rs' hashed_append)
  ultimately show ?case by (simp add: rs' s s')
qed

text \<open>What a successful verification says of an arbitrary database.\<close>

lemma walk_sound:
  "wk_broken w = None \<Longrightarrow> wk_broken (walk_records env rs w) = None \<Longrightarrow> linked env (wk_prev w) (wk_next w) rs"
proof (induction rs arbitrary: w)
  case (Cons r rs)
  let ?w = "w\<lparr>wk_checked := wk_checked w + 1, wk_prev := al_chain r, wk_root := al_chain r, wk_next := wk_next w + 1\<rparr>"
  from Cons.prems have "al_sequence r = wk_next w" "link_ok env (wk_prev w) r" "wk_broken (walk_records env rs ?w) = None"
    by (auto simp: Let_def split: if_splits)
  with Cons.IH [of ?w] Cons.prems(1) show ?case by simp
qed simp

lemma verified_linked:
  assumes "vr_valid (verify_chain env t 1 None expected db)" "head_of t db = Some h" "ch_archived h = 0"
  defines "rs \<equiv> chain_slice t 1 None db"
  shows "linked env GENESIS 1 rs" "int (length rs) = ch_last h"
    "ch_hash h = (if last_hash GENESIS rs = GENESIS then [] else last_hash GENESIS rs)"
    "expected = Some token \<Longrightarrow> token \<noteq> [] \<Longrightarrow> pinned_break env t db token = None"
proof -
  define w where "w = walk_records env rs \<lparr>wk_broken = None, wk_prev = GENESIS, wk_next = 1, wk_checked = 0, wk_root = []\<rparr>"
  have start: "start_of 1 (Some h) = 1" "previous_hash t 1 (Some h) db = Inr GENESIS" "boundary_holds env t h"
    using assms(3) by (simp_all add: start_of_def previous_hash_def boundary_holds_def)
  have ok: "wk_broken w = None" "end_break env t db 1 None expected w = None"
    using assms(1) unfolding verify_chain_def assms(2) Let_def option.case start sum.case rs_def [symmetric] w_def [symmetric]
    by (auto simp: broken_at_def start split: option.splits)
  then show linked: "linked env GENESIS 1 rs" 
    using walk_sound [of "\<lparr>wk_broken = None, wk_prev = GENESIS, wk_next = 1, wk_checked = 0, wk_root = []\<rparr>" env rs] ok(1)
    by (simp add: w_def)
  have w: "wk_next w = 1 + int (length rs)" "wk_prev w = last_hash GENESIS rs" by (simp_all add: w_def walk_linked linked)
  show "int (length rs) = ch_last h" "ch_hash h = (if last_hash GENESIS rs = GENESIS then [] else last_hash GENESIS rs)"
    using ok(2) assms(2) by (auto simp: end_break_def Let_def w split: if_splits)
  show "expected = Some token \<Longrightarrow> token \<noteq> [] \<Longrightarrow> pinned_break env t db token = None"
    using ok(2) assms(2) by (auto simp: end_break_def Let_def split: if_splits)
qed

lemma last_hash_sha: "linked env p n rs \<Longrightarrow> rs \<noteq> [] \<Longrightarrow> \<exists>s. last_hash p rs = a_sha env s"
proof (induction rs arbitrary: p n)
  case (Cons r rs)
  then show ?case
    by (cases "rs = []") (auto simp: link_ok_def compute_chain_hash_def simp flip: ex_simps dest: sym)
qed simp

lemma hashed_take: "hashed_texts env p (take n rs) \<subseteq> hashed_texts env p rs"
proof (induction rs arbitrary: p n)
  case (Cons r rs)
  then show ?case by (cases n) fastforce+
qed simp

text \<open>The record a checkpoint names is the one at its place in the verified records.\<close>

lemma pinned_record:
  assumes "audit_laws env" "linked env GENESIS 1 (chain_slice t 1 None db')" "head_of t db' = Some h'" "ch_archived h' = 0"
    "0 < ch_last h" "pinned_break env t db' (a_sign env CHECKPOINT_SALT (PDict (checkpoint_payload t (Some h)))) = None"
  shows "nat (ch_last h) \<le> length (chain_slice t 1 None db')"
    "al_chain (chain_slice t 1 None db' ! (nat (ch_last h) - 1)) = ch_hash h"
proof -
  let ?rs = "chain_slice t 1 None db'" and ?n = "ch_last h"
  have payload: "a_unsign env CHECKPOINT_SALT (a_sign env CHECKPOINT_SALT (PDict d)) = Some (PDict d)" for d
    by (rule unsign_sign [OF assms(1)])
  obtain r where r: "chain_record t ?n db' = Some r" "al_chain r = ch_hash h"
    using assms(3-6)
    by (auto simp: pinned_break_def payload checkpoint_payload_def int_field_def split: if_splits option.splits)
  then have "r \<in> set (tenant_logs t db')" and seq: "al_sequence r = ?n"
    by (auto simp: chain_record_def find_Some_iff)
  then have "r \<in> set ?rs" using assms(5) by (simp add: chain_slice_def)
  then obtain i where i: "i < length ?rs" "?rs ! i = r" by (auto simp: in_set_conv_nth)
  with linked_nth [OF assms(2) i(1)] seq have "nat ?n = Suc i" by simp
  with i r(2) show "nat ?n \<le> length ?rs" "al_chain (?rs ! (nat ?n - 1)) = ch_hash h" by simp_all
qed


section \<open>Exported bundles are accepted\<close>

text \<open>JSON reads a line back as the fields that were written.\<close>

definition reads_back :: "audit_env \<Rightarrow> audit_log \<Rightarrow> bool" where
  "reads_back env r \<longleftrightarrow>
     (case a_loads env (bundle_line env (serialize_record env r)) of
        Some (PDict d) \<Rightarrow> map_of d = map_of (serialize_record env r)
      | _ \<Rightarrow> False)"

definition manifest_reads_back :: "audit_env \<Rightarrow> string \<Rightarrow> bool" where
  "manifest_reads_back env s \<longleftrightarrow>
     a_loads env (a_dumps env (PDict [(''_manifest'', PStr s)]) @ [CHR 0x0A]) = Some (PDict [(''_manifest'', PStr s)])"

lemma dget_map_of: "dget d k v = (case map_of d k of None \<Rightarrow> v | Some x \<Rightarrow> x)"
  by (simp add: dget_def)

lemma entry_hash_map_of:
  assumes "map_of d = map_of d'"
  shows "compute_entry_hash env d = compute_entry_hash env d'"
proof -
  have a: "attr d k v = attr d' k v" for k v by (simp add: attr_def dget_map_of assms)
  then show ?thesis
    by (simp add: compute_entry_hash_def entry_text_def entry_content_def entry_text_v1_def attr_text_def timestamp_text_def
        cong: if_cong)
qed

lemma key_map_of: "k \<in> fst ` set d \<longleftrightarrow> map_of d k \<noteq> None"
  by (simp add: map_of_eq_None_iff)

lemma bundle_step_record:
  assumes "bundle_record env r = Inr l" "reads_back env r" "al_tenant r = t" "bu_manifest s = None"
  shows "bundle_step env t l s = Some (Inr (s\<lparr>bu_texts := bu_texts s @ [l]\<rparr>))"
proof -
  let ?d = "serialize_record env r"
  have l: "l = bundle_line env ?d" using assms(1) by (auto simp: bundle_record_def Let_def split: if_splits)
  obtain d where d: "a_loads env l = Some (PDict d)" "map_of d = map_of ?d"
    using assms(2) by (auto simp: reads_back_def l split: option.splits pyval.splits)
  have hash: "compute_entry_hash env d = Inr (al_entry r)" if "al_entry r \<noteq> []"
    using assms(1) that unfolding entry_hash_map_of [OF d(2)]
    by (auto simp: bundle_record_def Let_def split: if_splits)
  have keys: "\<not> ''_manifest'' \<in> fst ` set d" "map_of d ''tenant_id'' = Some (PStr t)" "map_of d ''entry_hash'' = Some (PStr (al_entry r))"
    unfolding key_map_of d(2) by (simp_all add: serialize_record_def assms(3))
  show ?thesis
    using hash by (cases "al_entry r = []") (simp_all add: bundle_step_def d(1) keys assms(4) del: not_None_eq)
qed

lemma bundle_records_loop:
  assumes "bundle_records env rs = Inr ls" "\<forall>r \<in> set rs. reads_back env r \<and> al_tenant r = t" "bu_manifest s = None"
  shows "length ls = length rs \<and> bundle_loop env t (ls @ ks) s = bundle_loop env t ks (s\<lparr>bu_texts := bu_texts s @ ls\<rparr>)"
  using assms
proof (induction rs arbitrary: ls s)
  case (Cons r rs)
  from Cons.prems(1) obtain l ms where l: "bundle_record env r = Inr l" "bundle_records env rs = Inr ms" "ls = l # ms"
    by (auto)
  have "bundle_step env t l s = Some (Inr (s\<lparr>bu_texts := bu_texts s @ [l]\<rparr>))"
    using Cons.prems by (intro bundle_step_record [OF l(1)]) simp_all
  with Cons.IH [OF l(2), of "s\<lparr>bu_texts := bu_texts s @ [l]\<rparr>"] Cons.prems(2,3) show ?case
    by (simp add: l(3))
qed simp

text \<open>
  a bundle that is exported for a tenant's records is accepted for that tenant, with all its records
  counted, when JSON reads back what it wrote.
\<close>
lemma exported_bundle_accepted:
  assumes "audit_laws env" "stream_evidence_bundle env rs t selection db = Inr ls"
    "\<forall>r \<in> set rs. reads_back env r \<and> al_tenant r = t" "\<forall>s. manifest_reads_back env s"
  shows "\<exists>m. verify_evidence_bundle env ls t = Checked True (length rs) (Some m)"
proof -
  from assms(2) obtain ms where ms: "bundle_records env rs = Inr ms" "ls = ms @ [manifest_line env t selection ms db]"
    by (auto simp: stream_evidence_bundle_def)
  let ?m = "PDict (manifest_payload env t selection ms db)" and ?s = "\<lparr>bu_texts = ms, bu_manifest = None\<rparr>"
  note loop = bundle_records_loop [OF ms(1) assms(3), of "\<lparr>bu_texts = [], bu_manifest = None\<rparr>" "[manifest_line env t selection ms db]"]
  have "a_loads env (manifest_line env t selection ms db) = Some (PDict [(''_manifest'', PStr (a_sign env EXPORT_SALT ?m))])"
    using assms(4) by (simp add: manifest_reads_back_def manifest_line_def)
  then have "bundle_step env t (manifest_line env t selection ms db) ?s = Some (Inr (?s\<lparr>bu_manifest := Some ?m\<rparr>))"
    by (simp add: bundle_step_def read_manifest_def unsign_sign [OF assms(1)] dget_def)
  then have "bundle_loop env t ls \<lparr>bu_texts = [], bu_manifest = None\<rparr> = Some (Inr \<lparr>bu_texts = ms, bu_manifest = Some ?m\<rparr>)"
    using loop by (simp add: ms(2))
  moreover have "manifest_agrees env t \<lparr>bu_texts = ms, bu_manifest = Some ?m\<rparr> = Some True"
    by (simp add: manifest_agrees_def manifest_payload_def)
  ultimately show ?thesis using loop by (simp add: verify_evidence_bundle_def)
qed

section \<open>A concrete log\<close>

instance pyval :: countable
  by countable_datatype

text \<open>A text for every value, read back by its length; the hash of an entry tells its sequence.\<close>

definition demo_text :: "pyval \<Rightarrow> string" where
  "demo_text v = CHR ''s'' # replicate (to_nat v) CHR ''x''"

definition demo_sha :: "string \<Rightarrow> string" where
  "demo_sha s =
     (if take 7 s = GENESIS then ''b'' else if take 1 s \<noteq> ''s'' then ''d''
      else (case from_nat (length s - 1) of
              PDict d \<Rightarrow> if dget d ''chain_sequence'' PNone = PInt 1 then ''a'' else ''c''
            | _ \<Rightarrow> ''c''))"

definition demo_audit :: audit_env where
  "demo_audit = \<lparr>a_sha = demo_sha, a_json = demo_text, a_json1 = demo_text, a_dumps = demo_text,
     a_loads = (\<lambda>s. Some (from_nat (length s - 2))), a_iso = (\<lambda>_. ''now''), a_sign = (\<lambda>_. demo_text),
     a_unsign = (\<lambda>_ s. Some (from_nat (length s - 1))), a_capture = (\<lambda>_ v. v), a_inet = id\<rparr>"

lemma demo_sha_length: "length (demo_sha s) = Suc 0"
  by (simp add: demo_sha_def split: pyval.split)

lemma demo_laws: "audit_laws demo_audit"
proof -
  have "demo_sha s \<noteq> GENESIS \<and> demo_sha s \<noteq> []" for s
    using demo_sha_length [of s] by (auto simp: GENESIS_def)
  then show ?thesis by (simp add: audit_laws_def demo_audit_def demo_text_def)
qed

definition demo_log :: "string \<Rightarrow> audit_log" where
  "demo_log k = new_audit k 0 ''t'' ''policy_update'' ''policy'' ''p'' ''P'' ''u'' [] None [] (PDict []) (PDict [])"

definition demo_stored :: "string \<Rightarrow> int \<Rightarrow> string \<Rightarrow> string \<Rightarrow> audit_log" where
  "demo_stored k n e c = (demo_log k)\<lparr>al_entry := e, al_chain := c, al_sequence := n\<rparr>"

definition demo_db :: "audit_log list \<Rightarrow> int \<Rightarrow> string \<Rightarrow> audit_db" where
  "demo_db rs n h = \<lparr>db_logs = rs, db_heads = [(new_head ''t'')\<lparr>ch_last := n, ch_hash := h\<rparr>], db_proofs = []\<rparr>"

definition demo_db1 :: audit_db where
  "demo_db1 = demo_db [demo_stored ''1'' 1 ''a'' ''b''] 1 ''b''"

definition demo_db2 :: audit_db where
  "demo_db2 = demo_db [demo_stored ''1'' 1 ''a'' ''b'', demo_stored ''2'' 2 ''c'' ''d''] 2 ''d''"

lemma demo_hash:
  "record_hash demo_audit (demo_stored k n e c) = Inr (if n = 1 then ''a'' else ''c'')"
  "compute_chain_hash demo_audit GENESIS e = ''b''" "compute_chain_hash demo_audit [] e = ''b''"
  "compute_chain_hash demo_audit ''b'' e = ''d''"
  by (simp_all add: record_hash_def compute_entry_hash_def compute_chain_hash_def link_text_def demo_audit_def demo_sha_def GENESIS_def
      entry_text_def entry_content_def HASHED_FIELDS_def attr_def dget_def serialize_record_def demo_stored_def demo_log_def new_audit_def
      demo_text_def)

lemma demo_captured: "(captured demo_audit (demo_log k))\<lparr>al_sequence := n\<rparr> = demo_stored k n [] []"
  "al_tenant (captured demo_audit (demo_log k)) = ''t''"
  by (simp_all add: captured_def demo_audit_def demo_stored_def demo_log_def new_audit_def)

lemma demo_fields: "al_tenant (demo_stored k n e c) = ''t''" "al_id (demo_stored k n e c) = k" "al_sequence (demo_stored k n e c) = n"
  "al_entry (demo_stored k n e c) = e" "al_chain (demo_stored k n e c) = c" "al_time (demo_stored k n e c) = 0"
  "stored demo_audit (demo_stored k n e c) = demo_stored k n e c"
  "(demo_stored k n [] [])\<lparr>al_entry := e, al_chain := c\<rparr> = demo_stored k n e c"
  "map_option (a_inet demo_audit) (al_ip (demo_log k)) = al_ip (demo_log k)"
  by (simp_all add: demo_stored_def demo_log_def new_audit_def stored_def demo_audit_def)

lemma demo_run1: "save_audit demo_audit True (demo_log ''1'') empty_db = Inr (demo_stored ''1'' 1 ''a'' ''b'', demo_db1)"
  by (simp add: save_audit_def compute_hashes_def demo_captured demo_fields demo_hash locked_head_def head_of_def empty_db_def new_head_def
      put_head_def demo_db1_def demo_db_def Let_def)

lemma demo_run2: "save_audit demo_audit True (demo_log ''2'') demo_db1 = Inr (demo_stored ''2'' 2 ''c'' ''d'', demo_db2)"
  by (simp add: save_audit_def compute_hashes_def demo_captured demo_fields demo_hash locked_head_def head_of_def new_head_def
      put_head_def demo_db1_def demo_db2_def demo_db_def Let_def clashes_def)

lemma demo_reached: "audit_run demo_audit empty_db demo_db1" "audit_run demo_audit demo_db1 demo_db2"
  using audit_step.append [OF demo_run1 demo_fields(9)] audit_step.append [OF demo_run2 demo_fields(9)] by blast+

lemma demo_head: "head_of ''t'' demo_db1 = Some ((new_head ''t'')\<lparr>ch_last := 1, ch_hash := ''b''\<rparr>)"
  "head_of ''t'' demo_db2 = Some ((new_head ''t'')\<lparr>ch_last := 2, ch_hash := ''d''\<rparr>)"
  by (simp_all add: head_of_def demo_db1_def demo_db2_def demo_db_def new_head_def)

lemma demo_slice: "chain_slice ''t'' 1 None demo_db1 = [demo_stored ''1'' 1 ''a'' ''b'']"
  "chain_slice ''t'' 1 None demo_db2 = [demo_stored ''1'' 1 ''a'' ''b'', demo_stored ''2'' 2 ''c'' ''d'']"
  by (simp_all add: chain_slice_def tenant_logs_def demo_db1_def demo_db2_def demo_db_def demo_fields)

text \<open>The whole log is archived after the checkpoint is taken.\<close>

definition demo_db3 :: audit_db where
  "demo_db3 = archive_prefix demo_audit ''t'' ((new_head ''t'')\<lparr>ch_last := 2, ch_hash := ''d''\<rparr>)
     [demo_stored ''1'' 1 ''a'' ''b'', demo_stored ''2'' 2 ''c'' ''d''] demo_db2"

lemma demo_distinct: "''b'' \<noteq> GENESIS" "''d'' \<noteq> GENESIS"
  by (simp_all add: GENESIS_def)

lemmas demo_verify = verify_chain_def demo_head demo_slice start_of_def previous_hash_def boundary_holds_def new_head_def link_ok_def
  demo_fields demo_hash end_break_def Let_def demo_distinct

lemma demo_valid: "vr_valid (verify_chain demo_audit ''t'' 1 None None demo_db1)" "vr_valid (verify_chain demo_audit ''t'' 1 None None demo_db2)"
  by (simp_all add: demo_verify)

lemma demo_logs2: "db_logs demo_db2 = [demo_stored ''1'' 1 ''a'' ''b'', demo_stored ''2'' 2 ''c'' ''d'']" "db_proofs demo_db2 = []"
  "tenant_logs ''t'' demo_db2 = [demo_stored ''1'' 1 ''a'' ''b'', demo_stored ''2'' 2 ''c'' ''d'']"
  by (simp_all add: demo_db2_def demo_db_def tenant_logs_def demo_fields)

lemma demo_prune: "prune_audit_prefix demo_audit False ''t'' 5 demo_db2 = Inr (2, demo_db3)"
  using demo_valid(2)
  by (simp add: prune_audit_prefix_def demo_head expired_prefix_def new_head_def demo_slice demo_fields Let_def demo_db3_def expired_row_def
      list_ex_iff demo_logs2)


lemma retention_never_refused_witness:
  "\<exists>n db'. prune_audit_prefix demo_audit False ''t'' 5 demo_db1 = Inr (n, db') \<and> expired_left ''t'' 5 db' = []"
  by (rule retention_never_refused [OF demo_laws demo_reached(1)])


text \<open>An exported bundle of the log.\<close>

lemma demo_reads: "reads_back demo_audit r" "manifest_reads_back demo_audit s"
  by (simp_all add: reads_back_def manifest_reads_back_def bundle_line_def demo_audit_def demo_text_def)

lemma exported_bundle_accepted_witness:
  "\<exists>ls m. stream_evidence_bundle demo_audit (tenant_logs ''t'' demo_db2) ''t'' PNone demo_db2 = Inr ls \<and>
     verify_evidence_bundle demo_audit ls ''t'' = Checked True 2 (Some m)"
proof -
  obtain ls where ls: "stream_evidence_bundle demo_audit (tenant_logs ''t'' demo_db2) ''t'' PNone demo_db2 = Inr ls"
    using demo_hash(1)
    by (simp add: stream_evidence_bundle_def demo_logs2 demo_fields bundle_record_def Let_def record_hash_def)
  have "length (tenant_logs ''t'' demo_db2) = 2" by (simp add: demo_logs2)
  with exported_bundle_accepted [OF demo_laws ls] demo_reads ls show ?thesis by (force simp: tenant_logs_def)
qed

end
