(* ===== verification/RetentionRules.thy ===== *)
theory RetentionRules
  imports Retention AuditHistory
begin

text \<open>
  What retention guarantees: a legal hold protects a tenant's rows, no row goes before its longest
  period has passed, and an archived row is in a file with a signed manifest before it is deleted.
\<close>

section \<open>A sweep of one tenant touches only its rows\<close>

definition rows_of :: "ret_env \<Rightarrow> string \<Rightarrow> entity \<Rightarrow> ret_store \<Rightarrow> swept_row list" where
  "rows_of env t e s = filter (\<lambda>r. rw_tenant r = t) (table env s e)"

lemma rows_of_logs: "rows_of env t AUDIT_LOGS s = map (audit_row env) (tenant_logs t (rs_audit s))"
  by (simp add: rows_of_def table_def tenant_logs_def filter_map o_def audit_row_def)

lemma rows_of_rows: "e \<noteq> AUDIT_LOGS \<Longrightarrow> rows_of env t e s = filter (\<lambda>r. rw_tenant r = t) (rs_rows s e)"
  by (simp add: rows_of_def table_def)

lemma rows_of_cong:
  assumes "tenant_logs t (rs_audit s') = tenant_logs t (rs_audit s)"
    "\<And>e. e \<noteq> AUDIT_LOGS \<Longrightarrow> filter (\<lambda>r. rw_tenant r = t) (rs_rows s' e) = filter (\<lambda>r. rw_tenant r = t) (rs_rows s e)"
  shows "rows_of env t e s' = rows_of env t e s"
  using assms by (cases "e = AUDIT_LOGS") (simp_all add: rows_of_logs rows_of_rows)

lemma rows_of_note [simp]: "rows_of env t e (note_outcome oc s) = rows_of env t e s"
  by (rule rows_of_cong) (simp_all add: note_outcome_def)

lemma rows_of_alert: "t' \<noteq> t \<Longrightarrow> rows_of env t' e (alert_failure env t x s) = rows_of env t' e s"
  by (rule rows_of_cong) (simp_all add: alert_failure_def)

lemma filter_keep: "(\<And>r. r \<in> set xs \<Longrightarrow> P r \<Longrightarrow> Q r) \<Longrightarrow> filter P (filter Q xs) = filter P xs"
  by (induction xs) auto

lemma rows_of_remove:
  assumes "t' \<noteq> t" "\<And>r. gone r \<Longrightarrow> rw_tenant r = t"
  shows "rows_of env t' e (remove_rows e1 gone s) = rows_of env t' e s"
proof (rule rows_of_cong)
  have "filter (\<lambda>r. rw_tenant r = t') (filter (\<lambda>r. \<not> gone r) rs) = filter (\<lambda>r. rw_tenant r = t') rs" for rs
    using assms by (intro filter_keep) auto
  then show "filter (\<lambda>r. rw_tenant r = t') (rs_rows (remove_rows e1 gone s) e) = filter (\<lambda>r. rw_tenant r = t') (rs_rows s e)" for e
    by (simp add: remove_rows_def del: filter_filter)
qed (simp add: remove_rows_def)

lemma rows_of_overdue:
  assumes "t' \<noteq> t"
  shows "rows_of env t' e (remove_overdue t cutoff e1 s) = rows_of env t' e s"
proof (cases "e1 = AUDIT_LOGS")
  case True
  have "filter (\<lambda>r. al_tenant r = t') (filter (\<lambda>r. \<not> overdue_log t cutoff r) rs) = filter (\<lambda>r. al_tenant r = t') rs" for rs
    using assms by (intro filter_keep) (auto simp: overdue_log_def)
  with True show ?thesis by (intro rows_of_cong) (simp_all add: remove_overdue_def tenant_logs_def del: filter_filter)
next
  case False
  then show ?thesis using rows_of_remove [OF assms, of "overdue t cutoff e1"] by (simp add: remove_overdue_def overdue_def)
qed

lemma prune_other_tenant:
  assumes "prune_audit_prefix env hold t cutoff db = Inr (n, db')" "t' \<noteq> t"
  shows "tenant_logs t' db' = tenant_logs t' db"
  using assms(1)
proof (cases rule: prune_audit_spec)
  case (2 h)
  have "\<not> expired_row t x r" if "r \<in> set (tenant_logs t' db)" for r x
    using that assms(2) by (simp add: tenant_logs_def expired_row_def)
  then show ?thesis unfolding 2(3) archive_prefix_fields(2) [OF 2(1)] by (intro filter_True) blast
qed simp

lemma rows_of_delete:
  assumes "delete_rows env t e1 days cutoff s = Inr (n, s')" "t' \<noteq> t"
  shows "rows_of env t' e s' = rows_of env t' e s"
proof (cases "e1 = AUDIT_LOGS")
  case True
  with assms(1) obtain k db where p: "prune_audit_prefix (re_audit env) (tenant_held env t) t cutoff (rs_audit s) = Inr (k, db)" "s' = s\<lparr>rs_audit := db\<rparr>"
    by (auto simp: delete_rows_def)
  then show ?thesis using prune_other_tenant [OF p(1) assms(2)] by (intro rows_of_cong) simp_all
next
  case False
  have mine: "overdue t c e0 r \<Longrightarrow> rw_tenant r = t" "deletable_event t c c' a r \<Longrightarrow> rw_tenant r = t" for c c' a e0 r
    by (simp_all add: overdue_def deletable_event_def)
  show ?thesis
  proof (cases "e1 = EVENTS")
    case True
    with assms(1) obtain c a where "s' = remove_rows EVENTS (deletable_event t cutoff c a) s"
      by (auto simp: delete_rows_def Let_def)
    then show ?thesis using rows_of_remove [OF assms(2), of "deletable_event t cutoff c a"] mine(2) by simp
  next
    case False
    with \<open>e1 \<noteq> AUDIT_LOGS\<close> assms(1) have "s' = remove_rows e1 (overdue t cutoff e1) s" by (simp add: delete_rows_def)
    then show ?thesis using rows_of_remove [OF assms(2), of "overdue t cutoff e1"] mine(1) by simp
  qed
qed

lemma retain_entity_cases:
  assumes "retain_entity env t e dflt u s = (u', Inr s')"
  obtains days act cutoff where "retention_decision env t e dflt = Inr (days, act)" "cutoff_of env days = Inr cutoff"
    "(act = ARCHIVE \<and> archive_entity env t e cutoff u s = (u', s')) \<or>
     (act = PRESERVE_FOR_REVIEW \<and> preserve_entity env t e u s = (u', s')) \<or>
     (act = DELETE \<and> (\<exists>n s1. delete_rows env t e days cutoff s = Inr (n, s1) \<and>
        s' = note_outcome (plain_outcome t (entity_value e) DELETED n) s1))"
  using assms unfolding retain_entity_def
  by (auto split: sum.splits retention_action.splits prod.splits)

lemma archive_entity_store:
  assumes "archive_entity env t e cutoff u s = (u', s')"
  obtains oc where "s' = remove_overdue t cutoff e (note_outcome oc s) \<or> s' = note_outcome oc s \<or>
    s' = alert_failure env t (entity_value e) (note_outcome oc s)"
  using assms unfolding archive_entity_def Let_def by (auto split: sum.splits prod.splits if_splits)

lemma rows_of_entity:
  assumes "retain_entity env t e1 dflt u s = (u', Inr s')" "t' \<noteq> t"
  shows "rows_of env t' e s' = rows_of env t' e s"
proof (rule retain_entity_cases [OF assms(1)], elim disjE conjE exE, goal_cases)
  case (1 days act cutoff)
  from 1(4) obtain oc where "s' = remove_overdue t cutoff e1 (note_outcome oc s) \<or> s' = note_outcome oc s \<or>
    s' = alert_failure env t (entity_value e1) (note_outcome oc s)" by (rule archive_entity_store)
  with assms(2) show ?case by (auto simp: rows_of_overdue rows_of_alert)
next
  case (2 days act cutoff)
  then show ?case by (auto simp: preserve_entity_def)
next
  case (3 days act cutoff n s1)
  then show ?case using rows_of_delete [OF _ assms(2)] by simp
qed

lemma rows_of_entities:
  "retain_entities env t es u s = (u', Inr s') \<Longrightarrow> t' \<noteq> t \<Longrightarrow> rows_of env t' e s' = rows_of env t' e s"
proof (induction env t es u s rule: retain_entities.induct)
  case (2 env t e1 dflt es u s)
  from 2(2) obtain u1 s1 where s1: "retain_entity env t e1 dflt u s = (u1, Inr s1)" "retain_entities env t es u1 s1 = (u', Inr s')"
    by (auto split: sum.splits prod.splits)
  with 2 rows_of_entity show ?case by metis
qed simp

lemma rows_of_tenant:
  assumes "retain_tenant env t (u, s) = (u', s')" "t' \<noteq> t \<or> tenant_held env t"
  shows "rows_of env t' e s' = rows_of env t' e s"
proof (cases "tenant_held env t")
  case True
  with assms(1) show ?thesis by (auto simp: retain_tenant_def)
next
  case False
  with assms(2) have "t' \<noteq> t" by simp
  obtain u1 r where r: "retain_entities env t ENTITIES u s = (u1, r)" by (cases "retain_entities env t ENTITIES u s")
  show ?thesis
  proof (cases "rbind r (\<lambda>s1. rbind (retain_analytics env t u1) (\<lambda>u2. Inr (u2, s1)))")
    case (Inl x)
    with assms(1) False r \<open>t' \<noteq> t\<close> show ?thesis by (auto simp: retain_tenant_def rows_of_alert)
  next
    case (Inr us)
    with assms(1) False r have "us = (u', s')" by (simp add: retain_tenant_def)
    with Inr r have "retain_entities env t ENTITIES u s = (u1, Inr s')" by auto
    with \<open>t' \<noteq> t\<close> show ?thesis by (simp add: rows_of_entities)
  qed
qed

text \<open>
  C20: as long as a legal hold on a tenant is in force, a retention run leaves every row of the tenant in
  every table, whatever its policies say and whatever happens to other tenants in the same run.
\<close>
theorem hold_protects:
  assumes "tenant_held env t" "enforce_retention env files s = (u', s')"
  shows "rows_of env t e s' = rows_of env t e s"
proof -
  have "rows_of env t e (snd (fold (retain_tenant env) ts us)) = rows_of env t e (snd us)" for ts us
  proof (induction ts arbitrary: us)
    case (Cons t1 ts)
    have "rows_of env t e (snd (retain_tenant env t1 us)) = rows_of env t e (snd us)"
      using rows_of_tenant [of env t1 "fst us" "snd us"] assms(1) by (metis prod.collapse)
    with Cons show ?case by simp
  qed simp
  from this [of "all_tenants env s" "(no_result files, s)"] assms(2) show ?thesis by (simp add: enforce_retention_def)
qed

section \<open>No row goes early\<close>

text \<open>A period that an enforced rule or a retention policy asks for.\<close>

definition asked :: "ret_env \<Rightarrow> string \<Rightarrow> entity \<Rightarrow> int \<Rightarrow> bool" where
  "asked env t e n \<longleftrightarrow>
     (\<exists>p \<in> set (retention_rules env t). rule_period e p = Inr (Some n)) \<or>
     (\<exists>q \<in> set (retention_rows env t e). n = max 1 (get_effective_retention_days q))"

lemma fold_max_ge: "d \<le> fold max ds d" "x \<in> set ds \<Longrightarrow> x \<le> fold max ds (d :: int)"
  by (induction ds arbitrary: d) (simp_all, metis max.bounded_iff, metis max.bounded_iff order_refl max.cobounded1)

lemma longest_ge: "x \<in> set ds \<Longrightarrow> x \<le> longest dflt ds"
  by (cases ds) (auto simp: longest_def intro: fold_max_ge)

lemma rule_periods_member: "rule_periods e ps = Inr ds \<Longrightarrow> p \<in> set ps \<Longrightarrow> rule_period e p = Inr (Some n) \<Longrightarrow> n \<in> set ds"
  by (induction ps arbitrary: ds) auto

lemma asked_counted:
  assumes "retention_decision env t e dflt = Inr (days, act)" "asked env t e n"
  shows "n \<le> days"
proof -
  from assms(1) obtain ds where ds: "rule_periods e (retention_rules env t) = Inr ds"
    "days = longest dflt (ds @ map (\<lambda>r. max 1 (get_effective_retention_days r)) (retention_rows env t e))"
    by (auto simp: retention_decision_def Let_def)
  have "n \<in> set (ds @ map (\<lambda>r. max 1 (get_effective_retention_days r)) (retention_rows env t e))"
    using assms(2) rule_periods_member [OF ds(1)] by (auto simp: asked_def)
  then show ?thesis unfolding ds(2) by (rule longest_ge)
qed

lemma cutoff_le: "cutoff_of env days = Inr c \<Longrightarrow> n \<le> days \<Longrightarrow> c \<le> re_now env - n * day_us"
  by (auto simp: cutoff_of_def Let_def day_us_def split: if_splits)

lemma remove_rows_in: "r \<in> set (rs_rows (remove_rows e1 gone s) e) \<longleftrightarrow> r \<in> set (rs_rows s e) \<and> \<not> (e1 = e \<and> gone r)"
  by (simp add: remove_rows_def)

lemma rows_simps [simp]:
  "rs_rows (note_outcome oc s) = rs_rows s"
  "r \<in> set (rs_rows s e) \<Longrightarrow> r \<in> set (rs_rows (alert_failure env t x s) e)"
  by (auto simp: note_outcome_def alert_failure_def)

lemma overdue_kept:
  assumes "\<not> (e1 = e \<and> overdue t cutoff e r)" "r \<in> set (rs_rows s e)" "e \<noteq> AUDIT_LOGS"
  shows "r \<in> set (rs_rows (remove_overdue t cutoff e1 s) e)"
  using assms by (cases "e1 = AUDIT_LOGS") (simp_all add: remove_overdue_def remove_rows_in)

lemma delete_rows_kept:
  assumes "delete_rows env t e1 days cutoff s = Inr (n, s')" "\<not> (e1 = e \<and> overdue t cutoff e r)" "r \<in> set (rs_rows s e)" "e \<noteq> AUDIT_LOGS"
  shows "r \<in> set (rs_rows s' e)"
proof -
  consider "e1 = AUDIT_LOGS" | "e1 = EVENTS" | "e1 \<noteq> AUDIT_LOGS" "e1 \<noteq> EVENTS" by blast
  then show ?thesis
  proof cases
    case 1
    with assms show ?thesis by (auto simp: delete_rows_def)
  next
    case 2
    with assms(1) obtain c a where "s' = remove_rows EVENTS (deletable_event t cutoff c a) s"
      by (auto simp: delete_rows_def Let_def)
    with 2 assms(2,3) show ?thesis by (auto simp: remove_rows_in deletable_event_def)
  next
    case 3
    with assms(1) have "s' = remove_rows e1 (overdue t cutoff e1) s" by (simp add: delete_rows_def)
    with assms(2,3) show ?thesis by (auto simp: remove_rows_in)
  qed
qed

lemma entity_keeps:
  assumes "retain_entity env t e1 dflt u s = (u', Inr s')" "r \<in> set (rs_rows s e)" "e \<noteq> AUDIT_LOGS"
    "asked env (rw_tenant r) e n" "re_now env - n * day_us \<le> rw_date r"
  shows "r \<in> set (rs_rows s' e)"
proof (rule retain_entity_cases [OF assms(1)], goal_cases)
  case (1 days act cutoff)
  have young: "\<not> (e1 = e \<and> overdue t cutoff e r)"
    using asked_counted [of env t e dflt days act n] 1(1) cutoff_le [OF 1(2), of n] assms(4,5) by (auto simp: overdue_def)
  from 1(3) show ?case
  proof (elim disjE conjE exE, goal_cases)
    case 1
    from 1(2) obtain oc where "s' = remove_overdue t cutoff e1 (note_outcome oc s) \<or> s' = note_outcome oc s \<or>
      s' = alert_failure env t (entity_value e1) (note_outcome oc s)" by (rule archive_entity_store)
    with assms(2,3) overdue_kept [OF young] show ?case by auto
  next
    case 2
    with assms(2) show ?case by (auto simp: preserve_entity_def)
  next
    case (3 k s1)
    with delete_rows_kept [OF _ young assms(2,3)] show ?case by simp
  qed
qed

lemma entities_keep:
  "retain_entities env t es u s = (u', Inr s') \<Longrightarrow> r \<in> set (rs_rows s e) \<Longrightarrow> e \<noteq> AUDIT_LOGS \<Longrightarrow>
   asked env (rw_tenant r) e n \<Longrightarrow> re_now env - n * day_us \<le> rw_date r \<Longrightarrow> r \<in> set (rs_rows s' e)"
proof (induction env t es u s rule: retain_entities.induct)
  case (2 env t e1 dflt es u s)
  from 2(2) obtain u1 s1 where s1: "retain_entity env t e1 dflt u s = (u1, Inr s1)" "retain_entities env t es u1 s1 = (u', Inr s')"
    by (auto split: sum.splits prod.splits)
  with 2 entity_keeps [OF s1(1) 2(3-6)] show ?case by metis
qed simp

lemma tenant_keeps:
  assumes "r \<in> set (rs_rows (snd us) e)" "e \<noteq> AUDIT_LOGS" "asked env (rw_tenant r) e n" "re_now env - n * day_us \<le> rw_date r"
  shows "r \<in> set (rs_rows (snd (retain_tenant env t us)) e)"
proof -
  obtain u s where us: "us = (u, s)" by (cases us)
  obtain u1 q where q: "retain_entities env t ENTITIES u s = (u1, q)" by (cases "retain_entities env t ENTITIES u s")
  consider "tenant_held env t" | x where "\<not> tenant_held env t" "rbind q (\<lambda>s1. rbind (retain_analytics env t u1) (\<lambda>u2. Inr (u2, s1))) = Inl x"
    | u2 s2 where "\<not> tenant_held env t" "rbind q (\<lambda>s1. rbind (retain_analytics env t u1) (\<lambda>u2. Inr (u2, s1))) = Inr (u2, s2)"
    by (metis surj_pair sum.exhaust)
  then show ?thesis
  proof cases
    case (3 u2 s2)
    then have "retain_entities env t ENTITIES u s = (u1, Inr s2)" using q by auto
    with entities_keep [OF this] assms us 3 q show ?thesis by (simp add: retain_tenant_def)
  qed (use assms(1) us q in \<open>simp_all add: retain_tenant_def\<close>)
qed


section \<open>Manifests and archives\<close>

lemma manifest_matches_body: "manifest_matches (manifest_body env t e act n dest sub chk)
    (manifest_body env t e act n dest sub chk @ [(''signature'', a), (''digest'', b)])"
  by (cases sub; cases chk) (simp_all add: manifest_matches_def same_optional_def manifest_body_def MANIFEST_FIELDS_def dget_def)

lemma manifest_verifies:
  assumes "audit_laws (re_audit env)"
  shows "verify_retention_manifest env (PDict (signed_retention_manifest env t e act n dest sub chk)) = Some True"
proof -
  let ?b = "manifest_body env t e act n dest sub chk" and ?s = "a_sign (re_audit env) RETENTION_SALT (PDict (manifest_body env t e act n dest sub chk))"
  have "dget (?b @ [(''signature'', PStr ?s), (''digest'', d)]) ''signature'' PNone = PStr ?s"
    "dget (?b @ [(''signature'', PStr ?s), (''digest'', d)]) ''digest'' PNone = d" for d
    by (cases sub; cases chk; simp add: manifest_body_def dget_def)+
  then show ?thesis
    by (simp add: verify_retention_manifest_def signed_retention_manifest_def Let_def sign_nonempty [OF assms] unsign_sign [OF assms]
        manifest_matches_body)
qed

text \<open>
  a row that the archive step of an entity removes is a line of the file its outcome names, and that
  outcome has a manifest which verifies and carries the hash of the file.
\<close>
lemma archived_before_deleted:
  assumes "audit_laws (re_audit env)" "archive_entity env t e cutoff u s = (u', s')" "r \<in> set (table env s e)" "r \<notin> set (table env s' e)"
  shows "\<exists>oc txt. oc \<in> set (rs_outcomes s') \<and> oc_status oc = ARCHIVED \<and> ro_files u' (oc_destination oc) = Some txt \<and>
    substring (archive_line env r) txt \<and> verify_retention_manifest env (PDict (oc_manifest oc)) = Some True \<and>
    dget (oc_manifest oc) ''archive_checksum'' PNone = PStr (a_sha (re_audit env) txt)"
proof -
  let ?records = "sort_key rw_key (filter (overdue t cutoff e) (table env s e))"
  from assms(4) have stays: "table env s' e \<noteq> table env s e" using assms(3) by auto
  have alert: "r \<in> set (table env (alert_failure env t x s1) e)" if "r \<in> set (table env s1 e)" for x s1
    using that by (cases "e = AUDIT_LOGS") (auto simp: table_def alert_failure_def)
  have tab [simp]: "table env (note_outcome oc s1) e = table env s1 e" for oc s1 by (simp add: table_def note_outcome_def)
  obtain q dest chk n u1 where q: "archive_policy env t e = Some q" "archive_records env ?records (rt_location q) t e u = Inr (dest, chk, n, u1)"
    "u' = u1" "s' = (if ?records = [] then id else remove_overdue t cutoff e) (note_outcome (archive_outcome env t e dest chk n) s)"
    using assms(2-4) alert unfolding archive_entity_def Let_def
    by (auto split: option.splits sum.splits prod.splits)
  then have written: "ro_files u' dest = Some (archive_text env ?records)" "chk = a_sha (re_audit env) (archive_text env ?records)"
    by (auto simp: archive_records_def split: if_splits)
  have "overdue t cutoff e r"
  proof (rule ccontr)
    assume "\<not> overdue t cutoff e r"
    with assms(3) have "r \<in> set (table env s' e)"
      by (auto simp: q(4) table_def remove_overdue_def remove_rows_def note_outcome_def overdue_def overdue_log_def audit_row_def)
    with assms(4) show False by simp
  qed
  with assms(3) have "r \<in> set ?records" by simp
  then have "substring (archive_line env r) (archive_text env ?records)"
    unfolding archive_text_def substring_iff by (metis concat.simps(2) concat_append in_set_conv_decomp list.simps(9) map_append)
  moreover have "archive_outcome env t e dest chk n \<in> set (rs_outcomes s')"
    by (simp add: q(4) note_outcome_def remove_overdue_def remove_rows_def)
  moreover have "dget (oc_manifest (archive_outcome env t e dest chk n)) ''archive_checksum'' PNone = PStr chk"
    by (simp add: archive_outcome_def signed_retention_manifest_def manifest_body_def Let_def dget_def)
  ultimately show ?thesis
    using written manifest_verifies [OF assms(1)]
    by (intro exI [of _ "archive_outcome env t e dest chk n"] exI [of _ "archive_text env ?records"]) (simp add: archive_outcome_def)
qed

section \<open>A concrete run\<close>

definition demo_retention_row :: "string \<Rightarrow> expiration_action \<Rightarrow> retention_policy" where
  "demo_retention_row t a = \<lparr>rt_tenant = t, rt_entity = ''events'', rt_days = 30, rt_minimum = None, rt_action = a,
     rt_location = ''/archive'', rt_enabled = True, rt_priority = 0\<rparr>"

definition demo_ret :: ret_env where
  "demo_ret = \<lparr>re_audit = demo_audit, re_now = 1000 * day_us, re_stamp = ''stamp'', re_key = (\<lambda>rs. ''k''), re_writable = (\<lambda>_. True),
     re_analytics = None, re_uuid = (\<lambda>_. True), re_policies = [],
     re_retention = [demo_retention_row ''t'' ARCHIVE_EXPIRED, demo_retention_row ''h'' DELETE_EXPIRED],
     re_holds = [\<lparr>lh_tenant = ''h'', lh_status = HOLD_ACTIVE, lh_effective = 0, lh_expiration = None, lh_released = None\<rparr>]\<rparr>"

definition demo_row :: "string \<Rightarrow> string \<Rightarrow> int \<Rightarrow> swept_row" where
  "demo_row k t d = \<lparr>rw_key = k, rw_tenant = t, rw_date = d * day_us, rw_processed = True, rw_audit = False, rw_fields = []\<rparr>"

definition demo_ret_store :: ret_store where
  "demo_ret_store = \<lparr>rs_rows = (\<lambda>e. if e = EVENTS then [demo_row ''1'' ''t'' 900, demo_row ''2'' ''t'' 990, demo_row ''3'' ''h'' 1] else []),
     rs_audit = demo_db1, rs_outcomes = []\<rparr>"

theorem hold_protects_witness:
  "rows_of demo_ret ''h'' EVENTS (snd (enforce_retention demo_ret (\<lambda>_. None) demo_ret_store)) = [demo_row ''3'' ''h'' 1]"
proof -
  have "tenant_held demo_ret ''h''" by (simp add: tenant_held_def demo_ret_def hold_applies_def day_us_def)
  from hold_protects [OF this surjective_pairing] show ?thesis
    by (simp add: rows_of_rows demo_ret_store_def demo_row_def)
qed


lemma demo_archive: "archive_policy demo_ret ''t'' EVENTS = Some (demo_retention_row ''t'' ARCHIVE_EXPIRED)"
  by (simp add: archive_policy_def demo_ret_def demo_retention_row_def)

lemma archived_before_deleted_witness:
  "\<exists>u' s' oc txt. archive_entity demo_ret ''t'' EVENTS (970 * day_us) (no_result (\<lambda>_. None)) demo_ret_store = (u', s') \<and>
     rs_rows s' EVENTS = [demo_row ''2'' ''t'' 990, demo_row ''3'' ''h'' 1] \<and>
     oc \<in> set (rs_outcomes s') \<and> ro_files u' (oc_destination oc) = Some txt \<and> substring (archive_line demo_ret (demo_row ''1'' ''t'' 900)) txt"
proof -
  let ?r = "demo_row ''1'' ''t'' 900"
  obtain u' s' where run: "archive_entity demo_ret ''t'' EVENTS (970 * day_us) (no_result (\<lambda>_. None)) demo_ret_store = (u', s')"
    by (cases "archive_entity demo_ret ''t'' EVENTS (970 * day_us) (no_result (\<lambda>_. None)) demo_ret_store")
  have laws: "audit_laws (re_audit demo_ret)" by (simp add: demo_ret_def demo_laws)
  have writable: "re_writable demo_ret d" for d by (simp add: demo_ret_def)
  have rows: "rs_rows s' EVENTS = [demo_row ''2'' ''t'' 990, demo_row ''3'' ''h'' 1]"
    using run
    by (auto simp: archive_entity_def Let_def demo_archive archive_records_def archive_destination_def demo_retention_row_def local_path_def
        is_local_def starts_with_def table_def demo_ret_store_def demo_row_def overdue_def writable day_us_def remove_overdue_def
        remove_rows_def note_outcome_def)
  have mem: "?r \<in> set (table demo_ret demo_ret_store EVENTS)" "?r \<notin> set (table demo_ret s' EVENTS)"
    by (simp_all add: table_def rows) (simp_all add: demo_ret_store_def demo_row_def)
  from archived_before_deleted [OF laws run mem] rows run show ?thesis by blast
qed

section \<open>Where archiving and the audit chain disagree\<close>

text \<open>Archived audit rows leave the chain without its boundary: what is left does not verify.\<close>

lemma archiving_breaks_chain:
  "vr_valid (verify_chain demo_audit ''t'' 1 None None demo_db1) \<and>
   \<not> vr_valid (verify_chain demo_audit ''t'' 1 None None (rs_audit (remove_overdue ''t'' 5 AUDIT_LOGS demo_ret_store)))"
proof -
  let ?db = "rs_audit (remove_overdue ''t'' 5 AUDIT_LOGS demo_ret_store)"
  have "head_of ''t'' ?db = head_of ''t'' demo_db1" by (simp add: remove_overdue_def demo_ret_store_def head_of_def)
  moreover have "chain_slice ''t'' 1 None ?db = []"
    by (simp add: remove_overdue_def demo_ret_store_def chain_slice_def tenant_logs_def demo_db1_def demo_db_def demo_fields overdue_log_def)
  ultimately show ?thesis
    using demo_valid(1) by (simp add: demo_verify broken_at_def)
qed

text \<open>An archive policy after a request to review, in the order of the table, has the rows deleted.\<close>

lemma archive_overrides_review:
  "foldl next_action DELETE [demo_retention_row ''t'' FLAG_EXPIRED, demo_retention_row ''t'' ARCHIVE_EXPIRED] = ARCHIVE"
  by (simp add: next_action_def demo_retention_row_def)

end
