(* ===== verification/Rollout.thy ===== *)
theory Rollout
  imports PolicyModel
begin

text \<open>
  Staged policy changes (\<open>services/policy_rollout.py\<close>, \<open>models/policy_change.py\<close>,
  \<open>services/policy_acknowledgement.py\<close>) and the history that saving a policy writes (\<open>models/policy.py\<close>).
  A transaction that raises leaves the tables as they were. A proposed value of another type than its
  column, which Django converts or refuses in its own way, is refused here; identifiers of policies are
  in canonical form.
\<close>

section \<open>Rows\<close>

datatype change_status = DRAFT | VALIDATED | STAGED | APPROVED | PROMOTED | ROLLED_BACK | REJECTED

fun change_status_value :: "change_status \<Rightarrow> string" where
  "change_status_value DRAFT = ''draft''"
| "change_status_value VALIDATED = ''validated''"
| "change_status_value STAGED = ''staged''"
| "change_status_value APPROVED = ''approved''"
| "change_status_value PROMOTED = ''promoted''"
| "change_status_value ROLLED_BACK = ''rolled_back''"
| "change_status_value REJECTED = ''rejected''"

record policy_row =
  pw_policy :: policy
  pw_description :: string

text \<open>What was applied: the policy's row before the promotion, or none when the promotion created it.\<close>

record applied =
  ap_policy :: string
  ap_snapshot :: "policy_row option"

record change_set =
  cs_id :: string
  cs_tenant :: string
  cs_status :: change_status
  cs_changes :: pyval
  cs_base :: pydict
  cs_validation :: pyval
  cs_applied :: "applied list"
  cs_created_by :: string
  cs_reviewed_by :: string
  cs_approved_by :: string
  cs_staged_at :: "int option"
  cs_promoted_at :: "int option"
  cs_rolled_back_at :: "int option"

record acknowledgement =
  ak_change :: string
  ak_tenant :: string
  ak_type :: string
  ak_subject :: string
  ak_acknowledged :: bool
  ak_version :: pyval
  ak_digest :: string
  ak_metadata :: pyval

record history_row =
  hi_policy :: string
  hi_version :: nat
  hi_snapshot :: policy_row
  hi_by :: string
  hi_summary :: string

record policy_db =
  pd_rows :: "policy_row list"
  pd_history :: "history_row list"

section \<open>The lifecycle of a change\<close>

fun allowed_next :: "change_status \<Rightarrow> change_status list" where
  "allowed_next DRAFT = [VALIDATED, REJECTED]"
| "allowed_next VALIDATED = [STAGED, REJECTED]"
| "allowed_next STAGED = [APPROVED, REJECTED]"
| "allowed_next APPROVED = [PROMOTED, REJECTED]"
| "allowed_next PROMOTED = [ROLLED_BACK]"
| "allowed_next ROLLED_BACK = []"
| "allowed_next REJECTED = []"

definition or_text :: "string \<Rightarrow> string \<Rightarrow> string" where
  "or_text a b = (if a = [] then b else a)"

definition transition :: "int \<Rightarrow> change_status \<Rightarrow> string \<Rightarrow> pyval \<Rightarrow> change_set \<Rightarrow> pyexc + change_set" where
  "transition now st actor validation c =
     (if st \<notin> set (allowed_next (cs_status c))
      then Inl (ValueError (''Cannot transition policy change from '' @ change_status_value (cs_status c) @ '' to '' @ change_status_value st))
      else
        (let c1 = c\<lparr>cs_status := st, cs_validation := (if validation = PNone then cs_validation c else validation)\<rparr> in
         Inr (case st of
                VALIDATED \<Rightarrow> c1\<lparr>cs_reviewed_by := or_text actor (cs_reviewed_by c1)\<rparr>
              | APPROVED \<Rightarrow> c1\<lparr>cs_approved_by := or_text actor (cs_approved_by c1)\<rparr>
              | STAGED \<Rightarrow> c1\<lparr>cs_staged_at := Some now\<rparr>
              | PROMOTED \<Rightarrow> c1\<lparr>cs_promoted_at := Some now\<rparr>
              | ROLLED_BACK \<Rightarrow> c1\<lparr>cs_rolled_back_at := Some now\<rparr>
              | _ \<Rightarrow> c1)))"

section \<open>Saving a policy\<close>

text \<open>A policy being edited: its action settings are untyped until they are saved.\<close>

record draft =
  dr_row :: policy_row
  dr_action :: pyval
  dr_level :: pyval
  dr_steer :: pyval
  dr_escalation :: pyval

definition draft_of :: "policy_row \<Rightarrow> draft" where
  "draft_of r =
     (let p = pw_policy r in
      \<lparr>dr_row = r, dr_action = PStr (action_value (p_action p)), dr_level = PStr (level_value (p_block_level p)),
       dr_steer = PStr (p_steer p), dr_escalation = escalation_json (p_escalation p)\<rparr>)"

definition row_of :: "string \<Rightarrow> policy_db \<Rightarrow> policy_row option" where
  "row_of i db = find (\<lambda>r. p_id (pw_policy r) = i) (pd_rows db)"

text \<open>\<open>create_policy_revision\<close>: the row of a version is written once.\<close>

definition add_history :: "string \<Rightarrow> string \<Rightarrow> policy_row \<Rightarrow> policy_db \<Rightarrow> policy_db" where
  "add_history by_whom summary r db =
     (let i = p_id (pw_policy r); n = p_version (pw_policy r) in
      if list_ex (\<lambda>h. hi_policy h = i \<and> hi_version h = n) (pd_history db) then db
      else db\<lparr>pd_history := pd_history db @
             [\<lparr>hi_policy = i, hi_version = n, hi_snapshot = r, hi_by = or_text by_whom ''system'', hi_summary = summary\<rparr>]\<rparr>)"

definition put_row :: "policy_row \<Rightarrow> policy_db \<Rightarrow> policy_db" where
  "put_row r db =
     (if row_of (p_id (pw_policy r)) db = None then db\<lparr>pd_rows := pd_rows db @ [r]\<rparr>
      else db\<lparr>pd_rows := map (\<lambda>q. if p_id (pw_policy q) = p_id (pw_policy r) then r else q) (pd_rows db)\<rparr>)"

text \<open>\<open>Policy.save\<close> of an instance that was read from the table (\<open>existed\<close>) or is new.\<close>

definition save_draft :: "bool \<Rightarrow> string \<Rightarrow> string \<Rightarrow> draft \<Rightarrow> policy_db \<Rightarrow> pyexc + policy_db" where
  "save_draft existed by_whom summary d db =
     (let r = dr_row d; p = pw_policy r; stored = row_of (p_id p) db in
      case policy_save (if existed then map_option (\<lambda>q. p_version (pw_policy q)) stored else None) p
             (dr_action d) (dr_level d) (dr_steer d) (dr_escalation d) of
        Inl msg \<Rightarrow> Inl (ValueError msg)
      | Inr q \<Rightarrow>
          if existed \<and> stored = None then Inl LookupError
          else if \<not> existed \<and> stored \<noteq> None then Inl IntegrityError
          else (let r1 = r\<lparr>pw_policy := q\<rparr> in Inr (add_history by_whom summary r1 (put_row r1 db))))"

definition delete_row :: "string \<Rightarrow> string \<Rightarrow> policy_db \<Rightarrow> policy_db" where
  "delete_row t i db =
     (case row_of i db of
        Some r \<Rightarrow>
          if p_tenant (pw_policy r) = t
          then \<lparr>pd_rows = filter (\<lambda>q. p_id (pw_policy q) \<noteq> i) (pd_rows db), pd_history = filter (\<lambda>h. hi_policy h \<noteq> i) (pd_history db)\<rparr>
          else db
      | None \<Rightarrow> db)"

section \<open>Proposed values\<close>

fun scope_value :: "scope_type \<Rightarrow> string" where
  "scope_value ORGANIZATION = ''organization''"
| "scope_value SUB_ORGANIZATION = ''sub_organization''"
| "scope_value DEPLOYMENT = ''deployment''"
| "scope_value ENDPOINT = ''endpoint''"
| "scope_value USER = ''user''"

definition read_scope :: "pyval \<Rightarrow> scope_type option" where
  "read_scope v = find (\<lambda>s. v = PStr (scope_value s)) [ORGANIZATION, SUB_ORGANIZATION, DEPLOYMENT, ENDPOINT, USER]"

definition read_mode_value :: "pyval \<Rightarrow> mode option" where
  "read_mode_value v = find (\<lambda>m. v = PStr (mode_value m)) [ENFORCE, AUDIT, DISABLED]"

definition MUTABLE_FIELDS :: "string list" where
  "MUTABLE_FIELDS = [''name'', ''description'', ''policy_type'', ''config'', ''priority'', ''enabled'', ''enforcement'', ''scope_type'',
     ''scope_sub_organization_id_ext'', ''scope_deployment_id_ext'', ''scope_user_id_ext'', ''override_group'', ''non_overridable'',
     ''scope_endpoint_id'', ''action'', ''block_level'', ''steer_message'', ''escalation'']"

definition on_policy :: "(policy \<Rightarrow> policy) \<Rightarrow> draft \<Rightarrow> draft" where
  "on_policy f d = d\<lparr>dr_row := (dr_row d)\<lparr>pw_policy := f (pw_policy (dr_row d))\<rparr>\<rparr>"

text \<open>A text column.\<close>

definition text_field :: "(string \<Rightarrow> draft \<Rightarrow> draft) \<Rightarrow> pyval \<Rightarrow> draft \<Rightarrow> pyexc + draft" where
  "text_field f v d = (case v of PStr s \<Rightarrow> Inr (f s d) | _ \<Rightarrow> Inl TypeError)"

definition bool_field :: "(bool \<Rightarrow> draft \<Rightarrow> draft) \<Rightarrow> pyval \<Rightarrow> draft \<Rightarrow> pyexc + draft" where
  "bool_field f v d = (case v of PBool b \<Rightarrow> Inr (f b d) | _ \<Rightarrow> Inl TypeError)"

text \<open>\<open>setattr(policy, key, item[key])\<close>\<close>

definition set_field :: "string \<Rightarrow> pyval \<Rightarrow> draft \<Rightarrow> pyexc + draft" where
  "set_field k v d =
     (if k = ''name'' then text_field (\<lambda>s. on_policy (\<lambda>p. p\<lparr>p_name := s\<rparr>)) v d
      else if k = ''description'' then text_field (\<lambda>s d. d\<lparr>dr_row := (dr_row d)\<lparr>pw_description := s\<rparr>\<rparr>) v d
      else if k = ''policy_type'' then text_field (\<lambda>s. on_policy (\<lambda>p. p\<lparr>p_type := s\<rparr>)) v d
      else if k = ''config'' then Inr (on_policy (\<lambda>p. p\<lparr>p_config := v\<rparr>) d)
      else if k = ''priority'' then (case v of PInt n \<Rightarrow> Inr (on_policy (\<lambda>p. p\<lparr>p_priority := n\<rparr>) d) | _ \<Rightarrow> Inl TypeError)
      else if k = ''enabled'' then bool_field (\<lambda>b. on_policy (\<lambda>p. p\<lparr>p_enabled := b\<rparr>)) v d
      else if k = ''enforcement''
        then (case read_mode_value v of Some m \<Rightarrow> Inr (on_policy (\<lambda>p. p\<lparr>p_enforcement := m\<rparr>) d) | None \<Rightarrow> Inl TypeError)
      else if k = ''scope_type''
        then (case read_scope v of Some s \<Rightarrow> Inr (on_policy (\<lambda>p. p\<lparr>p_scope := s\<rparr>) d) | None \<Rightarrow> Inl TypeError)
      else if k = ''scope_sub_organization_id_ext'' then text_field (\<lambda>s. on_policy (\<lambda>p. p\<lparr>p_scope_sub_org := s\<rparr>)) v d
      else if k = ''scope_deployment_id_ext'' then text_field (\<lambda>s. on_policy (\<lambda>p. p\<lparr>p_scope_deployment := s\<rparr>)) v d
      else if k = ''scope_user_id_ext'' then text_field (\<lambda>s. on_policy (\<lambda>p. p\<lparr>p_scope_user := s\<rparr>)) v d
      else if k = ''override_group'' then text_field (\<lambda>s. on_policy (\<lambda>p. p\<lparr>p_override_group := s\<rparr>)) v d
      else if k = ''non_overridable'' then bool_field (\<lambda>b. on_policy (\<lambda>p. p\<lparr>p_non_overridable := b\<rparr>)) v d
      else if k = ''scope_endpoint_id''
        then (if v = PNone then Inr (on_policy (\<lambda>p. p\<lparr>p_scope_endpoint := None\<rparr>) d)
              else text_field (\<lambda>s. on_policy (\<lambda>p. p\<lparr>p_scope_endpoint := Some s\<rparr>)) v d)
      else if k = ''action'' then Inr (d\<lparr>dr_action := v\<rparr>)
      else if k = ''block_level'' then Inr (d\<lparr>dr_level := v\<rparr>)
      else if k = ''steer_message'' then Inr (d\<lparr>dr_steer := v\<rparr>)
      else Inr (d\<lparr>dr_escalation := v\<rparr>))"

fun set_fields :: "string list \<Rightarrow> pydict \<Rightarrow> draft \<Rightarrow> pyexc + draft" where
  "set_fields [] item d = Inr d"
| "set_fields (k # ks) item d =
     (case map_of item k of
        None \<Rightarrow> set_fields ks item d
      | Some v \<Rightarrow> rbind (set_field k v d) (\<lambda>d1. set_fields ks item d1))"

text \<open>\<open>Policy(tenant_id=...)\<close> with the defaults of the model.\<close>

definition new_policy :: "string \<Rightarrow> string \<Rightarrow> policy_row" where
  "new_policy i t =
     \<lparr>pw_policy = \<lparr>p_id = i, p_tenant = t, p_name = [], p_type = [], p_version = 1, p_priority = 0, p_enabled = True,
        p_scope = ORGANIZATION, p_scope_sub_org = [], p_scope_deployment = [], p_scope_endpoint = None, p_scope_user = [],
        p_enforcement = ENFORCE, p_action = BLOCK, p_block_level = TOOL_CALL, p_steer = [], p_escalation = no_escalation,
        p_config = PDict [], p_override_group = [], p_non_overridable = False\<rparr>, pw_description = []\<rparr>"

section \<open>Acknowledgements\<close>

text \<open>\<open>acknowledge_change_set\<close>: one row per change and subject, the last one given.\<close>

definition same_subject :: "acknowledgement \<Rightarrow> acknowledgement \<Rightarrow> bool" where
  "same_subject a b \<longleftrightarrow> ak_change a = ak_change b \<and> ak_type a = ak_type b \<and> ak_subject a = ak_subject b"

definition dict_or_empty :: "pyval \<Rightarrow> pyval" where
  "dict_or_empty v = (if is_dict v then v else PDict [])"

definition acknowledge_change_set :: "change_set \<Rightarrow> string \<Rightarrow> string \<Rightarrow> pyval \<Rightarrow> string \<Rightarrow> pyval \<Rightarrow> acknowledgement list \<Rightarrow>
    pyexc + acknowledgement list" where
  "acknowledge_change_set c kind subject version digest metadata acks =
     (if cs_status c \<notin> {STAGED, APPROVED, PROMOTED}
      then Inl (ValueError ''Only staged or approved policy changes can be acknowledged'')
      else if kind = [] \<or> subject = [] \<or> digest = []
      then Inl (ValueError ''Subject identity and acknowledgement digest are required'')
      else
        (let a = \<lparr>ak_change = cs_id c, ak_tenant = cs_tenant c, ak_type = kind, ak_subject = subject, ak_acknowledged = True,
               ak_version = dict_or_empty version, ak_digest = digest, ak_metadata = dict_or_empty metadata\<rparr>
         in Inr (if list_ex (same_subject a) acks then map (\<lambda>b. if same_subject a b then a else b) acks else acks @ [a])))"

text \<open>A required acknowledgement (an object) that nobody gave.\<close>

definition acknowledged :: "change_set \<Rightarrow> acknowledgement list \<Rightarrow> pydict \<Rightarrow> bool" where
  "acknowledged c acks item \<longleftrightarrow>
     list_ex (\<lambda>a. ak_change a = cs_id c \<and> ak_tenant a = cs_tenant c \<and> ak_acknowledged a \<and>
       dget item ''subject_type'' PNone = PStr (ak_type a) \<and> py_str (dget item ''subject_id'' PNone) = ak_subject a) acks"

definition missing_acks :: "change_set \<Rightarrow> acknowledgement list \<Rightarrow> pyexc + pyval list" where
  "missing_acks c acks =
     (case pget (cs_validation c) ''required_acknowledgements'' (PList []) of
        None \<Rightarrow> Inl OtherError
      | Some req \<Rightarrow>
          if \<not> truthy req then Inr []
          else (case py_iter req of
                  None \<Rightarrow> Inl TypeError
                | Some items \<Rightarrow> Inr (filter (\<lambda>i. case i of PDict d \<Rightarrow> \<not> acknowledged c acks d | _ \<Rightarrow> False) items)))"

section \<open>Promotion\<close>

text \<open>The rows the changes start from, with their versions checked; None: a policy to create.\<close>

definition is_new :: "pyval \<Rightarrow> bool" where
  "is_new v \<longleftrightarrow> \<not> truthy v \<or> starts_with ''new:'' (py_str v)"

definition base_matches :: "change_set \<Rightarrow> policy_row \<Rightarrow> pyexc + bool" where
  "base_matches c r =
     (case dget (cs_base c) (p_id (pw_policy r)) PNone of
        PNone \<Rightarrow> Inr False
      | v \<Rightarrow> rbind (py_int v) (\<lambda>n. Inr (n = int (p_version (pw_policy r)))))"

definition load_item :: "change_set \<Rightarrow> policy_db \<Rightarrow> pyval \<Rightarrow> pyexc + (policy_row option \<times> pydict)" where
  "load_item c db item =
     (case item of
        PDict d \<Rightarrow>
          (let i = dget d ''policy_id'' PNone in
           if is_new i then Inr (None, d)
           else (case i of
                   PStr pid \<Rightarrow>
                     (case row_of pid db of
                        Some r \<Rightarrow>
                          if p_tenant (pw_policy r) \<noteq> cs_tenant c then Inl (ValueError ''Policy was not found in this tenant'')
                          else rbind (base_matches c r) (\<lambda>ok.
                            if ok then Inr (Some r, d)
                            else Inl (ValueError ''Policy changed since this draft was created; revalidate before promotion''))
                      | None \<Rightarrow> Inl (ValueError ''Policy was not found in this tenant''))
                 | _ \<Rightarrow> Inl OtherError))
      | _ \<Rightarrow> Inl (ValueError ''Each policy change must be an object''))"

fun load_items :: "change_set \<Rightarrow> policy_db \<Rightarrow> pyval list \<Rightarrow> pyexc + (policy_row option \<times> pydict) list" where
  "load_items c db [] = Inr []"
| "load_items c db (i # xs) = rbind (load_item c db i) (\<lambda>l. rbind (load_items c db xs) (\<lambda>ls. Inr (l # ls)))"

text \<open>One change: the row as it was loaded, whatever earlier changes of the set have written since.\<close>

definition apply_item :: "change_set \<Rightarrow> string \<Rightarrow> string \<Rightarrow> policy_row option \<times> pydict \<Rightarrow> policy_db \<Rightarrow> pyexc + (applied \<times> policy_db)" where
  "apply_item c fresh actor item db =
     (let by_whom = or_text actor (cs_created_by c); summary = ''Promoted policy change set '' @ cs_id c in
      case item of
        (None, d) \<Rightarrow>
          if \<not> (map_of d ''name'' \<noteq> None \<and> map_of d ''policy_type'' \<noteq> None \<and> map_of d ''config'' \<noteq> None)
          then Inl (ValueError ''New policies require name, policy_type, and config'')
          else rbind (set_fields MUTABLE_FIELDS d (draft_of (new_policy fresh (cs_tenant c)))) (\<lambda>q.
               rbind (save_draft False by_whom summary q db) (\<lambda>db1. Inr (\<lparr>ap_policy = fresh, ap_snapshot = None\<rparr>, db1)))
      | (Some r, d) \<Rightarrow>
          rbind (set_fields MUTABLE_FIELDS d (draft_of r)) (\<lambda>q.
          rbind (save_draft True by_whom summary q db) (\<lambda>db1.
          Inr (\<lparr>ap_policy = p_id (pw_policy r), ap_snapshot = Some r\<rparr>, db1))))"

text \<open>\<open>fresh n\<close> is the identifier of the \<open>n\<close>th new instance.\<close>

fun apply_items :: "change_set \<Rightarrow> (nat \<Rightarrow> string) \<Rightarrow> string \<Rightarrow> nat \<Rightarrow> (policy_row option \<times> pydict) list \<Rightarrow> policy_db \<Rightarrow>
    pyexc + (applied list \<times> policy_db)" where
  "apply_items c fresh actor n [] db = Inr ([], db)"
| "apply_items c fresh actor n (x # xs) db =
     rbind (apply_item c (fresh n) actor x db) (\<lambda>(a, db1).
     rbind (apply_items c fresh actor (n + 1) xs db1) (\<lambda>(as, db2). Inr (a # as, db2)))"

definition promote_change_set :: "int \<Rightarrow> (nat \<Rightarrow> string) \<Rightarrow> string \<Rightarrow> acknowledgement list \<Rightarrow> change_set \<Rightarrow> policy_db \<Rightarrow>
    pyexc + (change_set \<times> policy_db)" where
  "promote_change_set now fresh actor acks c db =
     (if cs_status c \<noteq> APPROVED then Inl (ValueError ''Only approved policy changes can be promoted'')
      else (case cs_changes c of
              PList items \<Rightarrow>
                rbind (missing_acks c acks) (\<lambda>missing.
                if missing \<noteq> [] then Inl (ValueError ''Required policy acknowledgements are missing'')
                else
                  rbind (load_items c db items) (\<lambda>loaded.
                  rbind (apply_items c fresh actor 0 loaded db) (\<lambda>(snapshots, db1).
                  rbind (transition now PROMOTED actor PNone (c\<lparr>cs_applied := snapshots\<rparr>)) (\<lambda>c1. Inr (c1, db1)))))
            | _ \<Rightarrow> Inl (ValueError ''Policy changes must be a list'')))"

section \<open>Rollback\<close>

text \<open>Every mutable field of the snapshot is set; the rest (the tenant, the version) is the row's own.\<close>

definition restore_fields :: "policy_row \<Rightarrow> policy_row \<Rightarrow> policy_row" where
  "restore_fields snapshot r = snapshot\<lparr>pw_policy := (pw_policy snapshot)
     \<lparr>p_id := p_id (pw_policy r), p_tenant := p_tenant (pw_policy r), p_version := p_version (pw_policy r)\<rparr>\<rparr>"

definition undo_item :: "change_set \<Rightarrow> string \<Rightarrow> applied \<Rightarrow> policy_db \<Rightarrow> pyexc + policy_db" where
  "undo_item c actor a db =
     (case ap_snapshot a of
        None \<Rightarrow> Inr (delete_row (cs_tenant c) (ap_policy a) db)
      | Some snapshot \<Rightarrow>
          (case row_of (ap_policy a) db of
             Some r \<Rightarrow>
               if p_tenant (pw_policy r) \<noteq> cs_tenant c then Inl (ValueError ''Policy is missing; rollback is incomplete'')
               else save_draft True (or_text actor (cs_created_by c)) (''Rolled back policy change set '' @ cs_id c)
                      (draft_of (restore_fields snapshot r)) db
           | None \<Rightarrow> Inl (ValueError ''Policy is missing; rollback is incomplete'')))"

fun undo_items :: "change_set \<Rightarrow> string \<Rightarrow> applied list \<Rightarrow> policy_db \<Rightarrow> pyexc + policy_db" where
  "undo_items c actor [] db = Inr db"
| "undo_items c actor (a # as) db = rbind (undo_item c actor a db) (undo_items c actor as)"

definition rollback_change_set :: "int \<Rightarrow> string \<Rightarrow> change_set \<Rightarrow> policy_db \<Rightarrow> pyexc + (change_set \<times> policy_db)" where
  "rollback_change_set now actor c db =
     (if cs_status c \<noteq> PROMOTED then Inl (ValueError ''Only promoted policy changes can be rolled back'')
      else if cs_applied c = [] then Inl (ValueError ''No promotion snapshots are available for rollback'')
      else
        rbind (undo_items c actor (cs_applied c) db) (\<lambda>db1.
        rbind (transition now ROLLED_BACK actor PNone c) (\<lambda>c1. Inr (c1, db1))))"

end
