(* ===== verification/RolloutRules.thy ===== *)
theory RolloutRules
  imports Rollout
begin

text \<open>
  Policy rollouts: the lifecycle of a change ends, a promotion applies only what was approved on the
  versions it was made for, and rolling it back restores every policy.
\<close>

section \<open>The lifecycle ends\<close>

fun stage :: "change_status \<Rightarrow> nat" where
  "stage DRAFT = 0"
| "stage VALIDATED = 1"
| "stage STAGED = 2"
| "stage APPROVED = 3"
| "stage PROMOTED = 4"
| "stage ROLLED_BACK = 5"
| "stage REJECTED = 5"

text \<open>Any sequence of requests to move a change on; refused ones leave it as it is.\<close>

definition request_transition :: "int \<times> change_status \<times> string \<times> pyval \<Rightarrow> change_set \<Rightarrow> change_set" where
  "request_transition req c = (case req of (now, st, actor, v) \<Rightarrow> (case transition now st actor v c of Inl _ \<Rightarrow> c | Inr c1 \<Rightarrow> c1))"

fun accepted_requests :: "(int \<times> change_status \<times> string \<times> pyval) list \<Rightarrow> change_set \<Rightarrow> nat" where
  "accepted_requests [] c = 0"
| "accepted_requests (r # rs) c =
     (if cs_status (request_transition r c) = cs_status c then 0 else 1) + accepted_requests rs (request_transition r c)"

lemma transition_Inr:
  assumes "transition now st actor v c = Inr c1"
  shows "cs_status c1 = st" "st \<in> set (allowed_next (cs_status c))" "cs_applied c1 = cs_applied c" "cs_id c1 = cs_id c"
    "cs_tenant c1 = cs_tenant c" "cs_created_by c1 = cs_created_by c"
  using assms by (cases st; auto simp: transition_def Let_def split: if_splits)+

lemma allowed_stage: "st \<in> set (allowed_next s) \<Longrightarrow> stage s < stage st \<and> stage st \<le> 5"
  by (cases s) auto

lemma request_stage: "stage (cs_status c) + (if cs_status (request_transition r c) = cs_status c then 0 else 1) \<le> stage (cs_status (request_transition r c))"
proof -
  obtain now st actor v where r: "r = (now, st, actor, v)" by (cases r) auto
  show ?thesis
  proof (cases "transition now st actor v c")
    case (Inl e)
    then show ?thesis by (simp add: request_transition_def r)
  next
    case (Inr c1)
    with transition_Inr(1,2) [OF Inr] allowed_stage [of st "cs_status c"] show ?thesis by (simp add: request_transition_def r)
  qed
qed

lemma stage_le: "stage s \<le> 5"
  by (cases s) simp_all


section \<open>Rows in the table\<close>

definition row_id :: "policy_row \<Rightarrow> string" where
  "row_id r = p_id (pw_policy r)"

definition row_ids :: "policy_db \<Rightarrow> string list" where
  "row_ids db = map row_id (pd_rows db)"

definition unversioned :: "policy_row \<Rightarrow> policy_row" where
  "unversioned r = r\<lparr>pw_policy := (pw_policy r)\<lparr>p_version := 0\<rparr>\<rparr>"

text \<open>Every row is one that saving accepted, and identifiers are unique.\<close>

definition row_saved :: "policy_row \<Rightarrow> bool" where
  "row_saved r \<longleftrightarrow> policy_wf (pw_policy r) \<and> check_scope (pw_policy r) = Inr () \<and> check_selectors (p_config (pw_policy r)) = Inr ()"

definition saved_db :: "policy_db \<Rightarrow> bool" where
  "saved_db db \<longleftrightarrow> distinct (row_ids db) \<and> (\<forall>r \<in> set (pd_rows db). row_saved r)"

lemma saved_again:
  assumes "policy_wf p" "check_scope p = Inr ()" "check_selectors (p_config p) = Inr ()"
  shows "policy_save v p (PStr (action_value (p_action p))) (PStr (level_value (p_block_level p))) (PStr (p_steer p)) (escalation_json (p_escalation p)) =
    Inr (case v of None \<Rightarrow> p | Some n \<Rightarrow> p\<lparr>p_version := n + 1\<rparr>)"
proof -
  have "validate_rule_action (PStr (action_value (p_action p))) (PStr (level_value (p_block_level p))) (PStr (p_steer p)) (escalation_json (p_escalation p)) =
      Inr (p_escalation p)"
    using assms(1) normalize_escalation_json [of "p_action p" "Some (p_block_level p)" "p_escalation p"]
    by (simp add: validate_rule_action_Inr policy_wf_def)
  then have "policy_clean p (PStr (action_value (p_action p))) (PStr (level_value (p_block_level p))) (PStr (p_steer p)) (escalation_json (p_escalation p)) = Inr p"
    by (simp add: policy_clean_def assms(2,3))
  then show ?thesis by (simp add: policy_save_def)
qed

lemma policy_save_saved:
  assumes "policy_save v p av lv mv ev = Inr q"
  shows "row_saved (r\<lparr>pw_policy := q\<rparr>)" "p_id q = p_id p" "p_tenant q = p_tenant p" "\<forall>n. v = Some n \<longrightarrow> p_version q = Suc n"
proof -
  from assms obtain c where c: "policy_clean p av lv mv ev = Inr c" and q: "q = (case v of None \<Rightarrow> c | Some v \<Rightarrow> c\<lparr>p_version := v + 1\<rparr>)"
    by (auto simp: policy_save_def)
  have wf: "policy_wf c" using c by (rule policy_clean_wf)
  from c obtain e where e: "validate_rule_action av lv mv ev = Inr e" "check_scope p = Inr ()" "check_selectors (p_config p) = Inr ()"
    by (auto simp: policy_clean_def)
  obtain a bl msg where "action_of av = Some a" "level_of lv = Some bl" "mv = PStr msg"
    using validate_rule_action_typed [OF e(1)] by metis
  with c e have parts: "c = p\<lparr>p_action := a, p_block_level := bl, p_steer := msg, p_escalation := e\<rparr>" "check_scope p = Inr ()"
    "check_selectors (p_config p) = Inr ()"
    by (simp_all add: policy_clean_def)
  then have "check_scope c = Inr ()" "check_selectors (p_config c) = Inr ()" "p_id c = p_id p" "p_tenant c = p_tenant p" by simp_all
  with wf show "row_saved (r\<lparr>pw_policy := q\<rparr>)" "p_id q = p_id p" "p_tenant q = p_tenant p" "\<forall>n. v = Some n \<longrightarrow> p_version q = Suc n"
    by (cases v; simp add: q row_saved_def policy_wf_def)+
qed

lemma row_of_map: "row_of i db = find (\<lambda>r. row_id r = i) (pd_rows db)"
  by (simp add: row_of_def row_id_def)

lemma row_ofD: "row_of i db = Some r \<Longrightarrow> r \<in> set (pd_rows db) \<and> row_id r = i \<and> i \<in> set (row_ids db)"
  by (auto simp: row_of_map find_Some_iff row_ids_def)

lemma row_of_member: "row_of i db = None \<longleftrightarrow> i \<notin> set (row_ids db)"
  by (auto simp: row_of_map find_None_iff row_ids_def)

lemma row_of_put: "row_of i (put_row r db) = (if i = row_id r then Some r else row_of i db)"
proof -
  have "find (\<lambda>q. row_id q = i) (map (\<lambda>q. if row_id q = row_id r then r else q) rs) =
      (if i = row_id r then map_option (\<lambda>_. r) (find (\<lambda>q. row_id q = i) rs) else find (\<lambda>q. row_id q = i) rs)" for rs
    by (induction rs) auto
  moreover have "find (\<lambda>q. row_id q = i) (rs @ [r]) = (case find (\<lambda>q. row_id q = i) rs of None \<Rightarrow> if row_id r = i then Some r else None | x \<Rightarrow> x)" for rs
    by (induction rs) auto
  ultimately show ?thesis
    by (auto simp: put_row_def row_of_map row_id_def [symmetric] split: option.splits)
qed

lemma ids_put: "row_ids (put_row r db) = (if row_of (row_id r) db = None then row_ids db @ [row_id r] else row_ids db)"
  by (simp add: row_ids_def put_row_def row_id_def [symmetric] o_def cong: map_cong)

lemma add_history_rows [simp]: "row_ids (add_history b m r db) = row_ids db" "row_of i (add_history b m r db) = row_of i db"
  by (simp_all add: add_history_def Let_def row_of_def row_ids_def)

abbreviation row_tenant :: "policy_row \<Rightarrow> string" where
  "row_tenant r \<equiv> p_tenant (pw_policy r)"

lemma save_draft_spec:
  assumes "save_draft existed b m d db = Inr db'"
  obtains r where "row_saved r" "row_id r = row_id (dr_row d)" "row_tenant r = row_tenant (dr_row d)"
    "existed \<longleftrightarrow> row_of (row_id r) db \<noteq> None"
    "\<And>j. row_of j db' = (if j = row_id r then Some r else row_of j db)"
    "row_ids db' = (if existed then row_ids db else row_ids db @ [row_id r])"
proof -
  let ?p = "pw_policy (dr_row d)" and ?stored = "row_of (row_id (dr_row d)) db"
  obtain q where q: "policy_save (if existed then map_option (\<lambda>q. p_version (pw_policy q)) ?stored else None) ?p
      (dr_action d) (dr_level d) (dr_steer d) (dr_escalation d) = Inr q"
    and ok: "existed \<longleftrightarrow> ?stored \<noteq> None"
    and db': "db' = add_history b m ((dr_row d)\<lparr>pw_policy := q\<rparr>) (put_row ((dr_row d)\<lparr>pw_policy := q\<rparr>) db)"
    using assms by (auto simp: save_draft_def Let_def row_id_def split: sum.splits if_splits)
  let ?r = "(dr_row d)\<lparr>pw_policy := q\<rparr>"
  note sv = policy_save_saved [OF q]
  have id: "row_id ?r = row_id (dr_row d)" by (simp add: row_id_def sv(2))
  show thesis
    using ok by (intro that [of ?r]) (simp_all add: sv(1,3) id db' row_of_put ids_put)
qed

text \<open>Setting fields keeps what a policy is identified by.\<close>

lemma set_field_frame:
  assumes "set_field k v d = Inr d1"
  shows "row_id (dr_row d1) = row_id (dr_row d) \<and> row_tenant (dr_row d1) = row_tenant (dr_row d)"
  using assms unfolding set_field_def
  by (auto simp: text_field_def bool_field_def on_policy_def row_id_def split: if_splits pyval.splits option.splits)

lemma set_fields_frame:
  "set_fields ks item d = Inr d1 \<Longrightarrow> row_id (dr_row d1) = row_id (dr_row d) \<and> row_tenant (dr_row d1) = row_tenant (dr_row d)"
proof (induction ks item d rule: set_fields.induct)
  case (2 k ks item d)
  show ?case
  proof (cases "map_of item k")
    case None
    with 2 show ?thesis by simp
  next
    case (Some v)
    with 2(3) obtain d2 where "set_field k v d = Inr d2" "set_fields ks item d2 = Inr d1" by auto
    with 2(2) [OF Some] set_field_frame show ?thesis by metis
  qed
qed simp

lemma draft_of_row [simp]: "dr_row (draft_of r) = r"
  by (simp add: draft_of_def Let_def)

section \<open>What a promotion leaves to undo\<close>

definition created :: "applied list \<Rightarrow> string list" where
  "created as = map ap_policy (filter (\<lambda>a. ap_snapshot a = None) as)"

definition changed :: "applied list \<Rightarrow> string set" where
  "changed as = ap_policy ` {a \<in> set as. ap_snapshot a \<noteq> None}"

text \<open>
  \<open>db1\<close> is \<open>db\<close> with the changes \<open>as\<close> still applied: their new policies come last, and every policy
  that they have no snapshot of is as it was.
\<close>

definition tracks :: "string \<Rightarrow> policy_db \<Rightarrow> applied list \<Rightarrow> policy_db \<Rightarrow> bool" where
  "tracks t db as db1 \<longleftrightarrow>
     row_ids db1 = row_ids db @ created as \<and> distinct (row_ids db1) \<and>
     (\<forall>i r. row_of i db = Some r \<longrightarrow> (\<exists>r1. row_of i db1 = Some r1 \<and> row_tenant r1 = row_tenant r \<and>
        (i \<notin> changed as \<longrightarrow> unversioned r1 = unversioned r))) \<and>
     (\<forall>i \<in> set (created as). \<exists>r1. row_of i db1 = Some r1 \<and> row_tenant r1 = t) \<and>
     (\<forall>a \<in> set as. \<forall>s. ap_snapshot a = Some s \<longrightarrow> row_of (ap_policy a) db = Some s \<and> row_tenant s = t)"

lemma tracks_start: "distinct (row_ids db) \<Longrightarrow> tracks t db [] db"
  by (simp add: tracks_def created_def)

lemma created_simps [simp]: "created [] = []" "created (a # as) = (if ap_snapshot a = None then ap_policy a # created as else created as)"
  "created (as @ bs) = created as @ created bs"
  by (simp_all add: created_def)

lemma changed_simps [simp]: "changed [] = {}" "changed (a # as) = (if ap_snapshot a = None then changed as else insert (ap_policy a) (changed as))"
  "changed (as @ bs) = changed as \<union> changed bs"
  by (auto simp: changed_def)

lemma tracks_ids: "tracks t db as db1 \<Longrightarrow> row_ids db1 = row_ids db @ created as \<and> distinct (row_ids db @ created as)"
  unfolding tracks_def by (metis (no_types))

lemma tracks_old: "tracks t db as db1 \<Longrightarrow> row_of i db = Some r \<Longrightarrow> i \<notin> set (created as)"
proof
  assume t: "tracks t db as db1" and r: "row_of i db = Some r" and i: "i \<in> set (created as)"
  have "i \<in> set (row_ids db)" using row_ofD [OF r] by auto
  moreover have "set (row_ids db) \<inter> set (created as) = {}" using tracks_ids [OF t] unfolding distinct_append by blast
  ultimately show False using i by blast
qed

lemma tracks_row: "tracks t db as db1 \<Longrightarrow> row_of i db = Some r \<Longrightarrow> row_of i db1 = Some r1 \<Longrightarrow> row_tenant r1 = row_tenant r"
  unfolding tracks_def by (metis option.inject)

lemma tracks_exists: "tracks t db as db1 \<Longrightarrow> row_of i db = Some r \<Longrightarrow> \<exists>r1. row_of i db1 = Some r1"
  unfolding tracks_def by blast

lemma apply_item_tracks:
  assumes "apply_item c fresh actor (q, d) db1 = Inr (a, db2)" "tracks (cs_tenant c) db as db1"
    "\<And>r. q = Some r \<Longrightarrow> row_of (row_id r) db = Some r \<and> row_tenant r = cs_tenant c"
  shows "tracks (cs_tenant c) db (as @ [a]) db2"
proof (cases q)
  case None
  with assms(1) obtain d1 where d1: "set_fields MUTABLE_FIELDS d (draft_of (new_policy fresh (cs_tenant c))) = Inr d1"
    "save_draft False (or_text actor (cs_created_by c)) (''Promoted policy change set '' @ cs_id c) d1 db1 = Inr db2"
    and a: "a = \<lparr>ap_policy = fresh, ap_snapshot = None\<rparr>"
    by (auto simp: apply_item_def Let_def split: if_splits)
  from set_fields_frame [OF d1(1)] have frame: "row_id (dr_row d1) = fresh" "row_tenant (dr_row d1) = cs_tenant c"
    by (simp_all add: new_policy_def row_id_def)
  obtain r where r: "row_id r = fresh" "row_tenant r = cs_tenant c" "row_of fresh db1 = None"
    "\<And>j. row_of j db2 = (if j = fresh then Some r else row_of j db1)" "row_ids db2 = row_ids db1 @ [fresh]"
    using save_draft_spec [OF d1(2)] frame by metis
  from r(3) have new: "fresh \<notin> set (row_ids db1)" by (simp add: row_of_member)
  have ids: "row_ids db1 = row_ids db @ created as" using assms(2) by (simp add: tracks_def)
  have old: "i \<noteq> fresh" if "row_of i db = Some q" for i q using new ids row_ofD [OF that] by auto
  have young: "i \<noteq> fresh" if "i \<in> set (created as)" for i using new ids that by auto
  show ?thesis
    using assms(2) new ids old young r(2) unfolding tracks_def a by (simp add: r(4,5))
next
  case (Some r0)
  with assms(1) obtain d1 where d1: "set_fields MUTABLE_FIELDS d (draft_of r0) = Inr d1"
    "save_draft True (or_text actor (cs_created_by c)) (''Promoted policy change set '' @ cs_id c) d1 db1 = Inr db2"
    and a: "a = \<lparr>ap_policy = row_id r0, ap_snapshot = Some r0\<rparr>"
    by (auto simp: apply_item_def Let_def row_id_def)
  from set_fields_frame [OF d1(1)] have frame: "row_id (dr_row d1) = row_id r0" "row_tenant (dr_row d1) = row_tenant r0"
    by simp_all
  obtain r where r: "row_id r = row_id r0" "row_tenant r = row_tenant r0"
    "\<And>j. row_of j db2 = (if j = row_id r0 then Some r else row_of j db1)" "row_ids db2 = row_ids db1"
    using save_draft_spec [OF d1(2)] frame by metis
  note r0 = assms(3) [OF Some]
  have new: "row_id r0 \<notin> set (created as)" using tracks_old [OF assms(2)] r0 by blast
  show ?thesis
    using assms(2) r r0 new unfolding tracks_def a by auto
qed

lemma apply_items_track:
  assumes "apply_items c fresh actor n items db1 = Inr (bs, db2)" "tracks (cs_tenant c) db as db1"
    "\<And>r d. (Some r, d) \<in> set items \<Longrightarrow> row_of (row_id r) db = Some r \<and> row_tenant r = cs_tenant c"
  shows "tracks (cs_tenant c) db (as @ bs) db2 \<and> length bs = length items"
  using assms
proof (induction c fresh actor n items db1 arbitrary: as bs rule: apply_items.induct)
  case (2 c fresh actor n x xs db1)
  from 2(2) obtain a db3 cs where step: "apply_item c (fresh n) actor x db1 = Inr (a, db3)"
    "apply_items c fresh actor (n + 1) xs db3 = Inr (cs, db2)" "bs = a # cs"
    by auto
  obtain q d where x: "x = (q, d)" by (cases x)
  have "tracks (cs_tenant c) db (as @ [a]) db3"
    using 2(4) x by (intro apply_item_tracks [OF step(1) [unfolded x] 2(3)]) auto
  moreover have "row_of (row_id r) db = Some r \<and> row_tenant r = cs_tenant c" if "(Some r, e) \<in> set xs" for r e
    using 2(4) [of r e] that by simp
  ultimately show ?case using 2(1) [OF step(1) refl step(2), of "as @ [a]"] step(3) by simp
qed auto

lemma load_item_row:
  assumes "load_item c db i = Inr (Some r, d)"
  shows "row_of (row_id r) db = Some r \<and> row_tenant r = cs_tenant c \<and> base_matches c r = Inr True"
proof -
  have "\<exists>e pid. i = PDict e \<and> row_of pid db = Some r \<and> row_tenant r = cs_tenant c \<and> base_matches c r = Inr True"
    using assms unfolding load_item_def Let_def
    by (auto split: pyval.splits if_splits option.splits)
  then show ?thesis using row_ofD by fastforce
qed

lemma load_items_rows:
  "load_items c db items = Inr loaded \<Longrightarrow> (Some r, d) \<in> set loaded \<Longrightarrow>
   row_of (row_id r) db = Some r \<and> row_tenant r = cs_tenant c \<and> base_matches c r = Inr True"
  by (induction c db items arbitrary: loaded rule: load_items.induct) (auto dest: load_item_row)

lemma load_items_length: "load_items c db items = Inr loaded \<Longrightarrow> length loaded = length items"
  by (induction c db items arbitrary: loaded rule: load_items.induct) auto

lemma promote_Inr:
  assumes "promote_change_set now fresh actor acks c db = Inr (c1, db1)"
  obtains items loaded snapshots where "cs_status c = APPROVED" "cs_changes c = PList items" "missing_acks c acks = Inr []"
    "load_items c db items = Inr loaded" "apply_items c fresh actor 0 loaded db = Inr (snapshots, db1)"
    "transition now PROMOTED actor PNone (c\<lparr>cs_applied := snapshots\<rparr>) = Inr c1"
  using assms unfolding promote_change_set_def
  by (auto split: if_splits pyval.splits)

section \<open>Undoing it\<close>

lemma row_of_delete:
  assumes "row_of i db = Some r" "row_tenant r = t"
  shows "row_of j (delete_row t i db) = (if j = i then None else row_of j db)"
    "row_ids (delete_row t i db) = filter (\<lambda>k. k \<noteq> i) (row_ids db)"
proof -
  have "find (\<lambda>q. row_id q = j) (filter (\<lambda>q. row_id q \<noteq> i) rs) = (if j = i then None else find (\<lambda>q. row_id q = j) rs)" for rs
    by (induction rs) auto
  with assms show "row_of j (delete_row t i db) = (if j = i then None else row_of j db)"
    by (simp add: delete_row_def row_of_map flip: row_id_def)
  show "row_ids (delete_row t i db) = filter (\<lambda>k. k \<noteq> i) (row_ids db)"
    using assms by (simp add: delete_row_def row_ids_def filter_map o_def flip: row_id_def)
qed

lemma undo_created:
  assumes "tracks t db (a # as) db1" "ap_snapshot a = None"
  shows "tracks t db as (delete_row t (ap_policy a) db1)"
proof -
  let ?i = "ap_policy a"
  have ids: "row_ids db1 = row_ids db @ ?i # created as" "distinct (row_ids db @ ?i # created as)"
    using tracks_ids [OF assms(1)] assms(2) by (simp_all del: distinct_append)
  obtain r where r: "row_of ?i db1 = Some r" "row_tenant r = t" using assms by (auto simp: tracks_def)
  note del = row_of_delete [OF r]
  have keep: "filter (\<lambda>k. k \<noteq> ?i) (row_ids db) = row_ids db" "filter (\<lambda>k. k \<noteq> ?i) (created as) = created as"
    using ids(2) by (auto simp: filter_id_conv)
  have old: "j \<noteq> ?i" if "row_of j db = Some q" for j q using ids(2) row_ofD [OF that] by auto
  have young: "j \<noteq> ?i" if "j \<in> set (created as)" for j using ids(2) that by auto
  show ?thesis
    using assms old young ids(2) keep unfolding tracks_def by (simp add: del ids(1))
qed

lemma undo_changed:
  assumes "tracks t db (a # as) db1" "ap_snapshot a = Some s" "row_of (ap_policy a) db1 = Some r1"
    "save_draft True b m (draft_of (restore_fields s r1)) db1 = Inr db2" "row_saved s"
  shows "tracks t db as db2"
proof -
  let ?i = "ap_policy a"
  have s: "row_of ?i db = Some s" "row_tenant s = t" using assms(1,2) by (auto simp: tracks_def)
  have i: "row_id r1 = ?i" "row_id s = ?i" using row_ofD [OF assms(3)] row_ofD [OF s(1)] by simp_all
  let ?q = "pw_policy (restore_fields s r1)"
  have r1: "row_tenant r1 = row_tenant s" by (rule tracks_row [OF assms(1) s(1) assms(3)])
  have wf: "policy_wf ?q" "check_scope ?q = Inr ()" "check_selectors (p_config ?q) = Inr ()"
    using assms(5) by (simp_all add: restore_fields_def row_saved_def policy_wf_def check_scope_def)
  have "row_of (p_id ?q) db1 = Some r1" using assms(3) i(1) by (simp add: restore_fields_def row_id_def)
  then have db2: "db2 = add_history b m ((restore_fields s r1)\<lparr>pw_policy := ?q\<lparr>p_version := p_version (pw_policy r1) + 1\<rparr>\<rparr>)
      (put_row ((restore_fields s r1)\<lparr>pw_policy := ?q\<lparr>p_version := p_version (pw_policy r1) + 1\<rparr>\<rparr>) db1)"
    using assms(4) by (simp add: save_draft_def Let_def draft_of_def saved_again [OF wf])
  define r2 where "r2 = (restore_fields s r1)\<lparr>pw_policy := ?q\<lparr>p_version := p_version (pw_policy r1) + 1\<rparr>\<rparr>"
  have r2: "row_id r2 = ?i" "row_tenant r2 = row_tenant s" "unversioned r2 = unversioned s"
    using i r1 by (simp_all add: r2_def restore_fields_def row_id_def unversioned_def)
  have rows: "row_of j db2 = (if j = ?i then Some r2 else row_of j db1)" "row_ids db2 = row_ids db1" for j
    using assms(3) by (simp_all only: db2 r2_def [symmetric] add_history_rows row_of_put ids_put r2(1)) simp_all
  have new: "?i \<notin> set (created as)" using tracks_old [OF assms(1) s(1)] assms(2) by simp
  show ?thesis
    using assms(1,2) s r2 new unfolding tracks_def rows by auto metis
qed

lemma save_restored:
  assumes "row_of (row_id r1) db = Some r1" "row_saved s"
  shows "\<exists>db'. save_draft True b m (draft_of (restore_fields s r1)) db = Inr db'"
proof -
  let ?q = "pw_policy (restore_fields s r1)"
  have wf: "policy_wf ?q" "check_scope ?q = Inr ()" "check_selectors (p_config ?q) = Inr ()"
    using assms(2) by (simp_all add: restore_fields_def row_saved_def policy_wf_def check_scope_def)
  have "row_of (p_id ?q) db = Some r1" using assms(1) by (simp add: restore_fields_def row_id_def)
  then show ?thesis by (simp add: save_draft_def Let_def draft_of_def saved_again [OF wf])
qed

lemma undo_items_track:
  assumes "tracks (cs_tenant c) db as db1" "saved_db db"
  shows "\<exists>db2. undo_items c actor as db1 = Inr db2 \<and> tracks (cs_tenant c) db [] db2"
  using assms(1)
proof (induction as arbitrary: db1)
  case (Cons a as)
  show ?case
  proof (cases "ap_snapshot a")
    case None
    from undo_created [OF Cons.prems None] Cons.IH None show ?thesis by (auto simp: undo_item_def)
  next
    case (Some s)
    with Cons.prems have s: "row_of (ap_policy a) db = Some s" "row_tenant s = cs_tenant c" by (auto simp: tracks_def)
    then obtain r1 where r1: "row_of (ap_policy a) db1 = Some r1" using tracks_exists [OF Cons.prems] by blast
    have ten: "row_tenant r1 = cs_tenant c" using tracks_row [OF Cons.prems s(1) r1] s(2) by simp
    have saved: "row_saved s" using assms(2) row_ofD [OF s(1)] by (simp add: saved_db_def)
    have "row_of (row_id r1) db1 = Some r1" using row_ofD [OF r1] r1 by simp
    from save_restored [OF this saved] obtain db2 where
      db2: "save_draft True (or_text actor (cs_created_by c)) (''Rolled back policy change set '' @ cs_id c) (draft_of (restore_fields s r1)) db1 = Inr db2"
      by blast
    from Cons.IH [OF undo_changed [OF Cons.prems Some r1 db2 saved]] Some r1 ten db2 show ?thesis
      by (auto simp: undo_item_def)
  qed
qed simp

lemma tracks_nothing:
  assumes "tracks t db [] db2"
  shows "map unversioned (pd_rows db2) = map unversioned (pd_rows db)"
proof -
  have ids: "row_ids db2 = row_ids db" "distinct (row_ids db2)" using assms by (auto simp: tracks_def)
  then have len: "length (pd_rows db2) = length (pd_rows db)" unfolding row_ids_def by (metis length_map)
  have at: "row_of (row_id (pd_rows x ! i)) x = Some (pd_rows x ! i)" if "distinct (row_ids x)" "i < length (pd_rows x)" for x i
    using that by (auto simp: row_of_map find_Some_iff row_ids_def distinct_conv_nth intro!: exI [of _ i])
  show ?thesis
  proof (rule nth_equalityI)
    fix i assume "i < length (map unversioned (pd_rows db2))"
    then have i: "i < length (pd_rows db2)" "i < length (pd_rows db)" by (simp_all add: len)
    have same: "row_id (pd_rows db2 ! i) = row_id (pd_rows db ! i)" using ids(1) i unfolding row_ids_def by (metis nth_map)
    have "row_of (row_id (pd_rows db ! i)) db = Some (pd_rows db ! i)" using at [of db i] ids i by simp
    with assms obtain r1 where "row_of (row_id (pd_rows db ! i)) db2 = Some r1" "unversioned r1 = unversioned (pd_rows db ! i)"
      by (auto simp: tracks_def)
    with at [OF ids(2) i(1)] same i show "map unversioned (pd_rows db2) ! i = map unversioned (pd_rows db) ! i" by simp
  qed (simp add: len)
qed


section \<open>A promotion stays within its approval\<close>

lemma apply_item_frame:
  assumes "apply_item c fresh actor (q, d) db1 = Inr (a, db2)" "row_of i db1 = Some r" "\<And>r0. q = Some r0 \<Longrightarrow> row_id r0 \<noteq> i"
  shows "row_of i db2 = Some r"
proof (cases q)
  case None
  with assms(1) obtain d1 where "set_fields MUTABLE_FIELDS d (draft_of (new_policy fresh (cs_tenant c))) = Inr d1"
    and save: "save_draft False (or_text actor (cs_created_by c)) (''Promoted policy change set '' @ cs_id c) d1 db1 = Inr db2"
    by (auto simp: apply_item_def Let_def split: if_splits)
  from save_draft_spec [OF save] assms(2) show ?thesis by (metis option.distinct(1))
next
  case (Some r1)
  with assms(1) obtain d1 where d1: "set_fields MUTABLE_FIELDS d (draft_of r1) = Inr d1"
    and save: "save_draft True (or_text actor (cs_created_by c)) (''Promoted policy change set '' @ cs_id c) d1 db1 = Inr db2"
    by (auto simp: apply_item_def Let_def)
  have "row_id (dr_row d1) = row_id r1" using set_fields_frame [OF d1] by simp
  moreover obtain r2 where "row_id r2 = row_id (dr_row d1)" "row_of i db2 = (if i = row_id r2 then Some r2 else row_of i db1)"
    using save_draft_spec [OF save] by metis
  ultimately show ?thesis using assms(2) assms(3) [OF Some] by simp
qed

lemma apply_items_frame:
  "apply_items c fresh actor n items db1 = Inr (bs, db2) \<Longrightarrow> row_of i db1 = Some r \<Longrightarrow>
   (\<And>r0 d. (Some r0, d) \<in> set items \<Longrightarrow> row_id r0 \<noteq> i) \<Longrightarrow> row_of i db2 = Some r"
proof (induction c fresh actor n items db1 arbitrary: bs rule: apply_items.induct)
  case (2 c fresh actor n x xs db1)
  from 2(2) obtain a db3 cs where step: "apply_item c (fresh n) actor x db1 = Inr (a, db3)"
    "apply_items c fresh actor (n + 1) xs db3 = Inr (cs, db2)"
    by auto
  obtain q d where x: "x = (q, d)" by (cases x)
  have "row_of i db3 = Some r"
    using 2(4) x by (intro apply_item_frame [OF step(1) [unfolded x] 2(3)]) auto
  moreover have "row_id r0 \<noteq> i" if "(Some r0, e) \<in> set xs" for r0 e using 2(4) [of r0 e] that by simp
  ultimately show ?case using 2(1) [OF step(1) refl step(2)] by simp
qed simp


section \<open>A concrete change\<close>

definition demo_rollout_db :: policy_db where
  "demo_rollout_db = \<lparr>pd_rows = [\<lparr>pw_policy = demo_policy, pw_description = []\<rparr>], pd_history = []\<rparr>"

definition demo_change :: "pyval list \<Rightarrow> change_set" where
  "demo_change items = \<lparr>cs_id = ''c'', cs_tenant = ''t'', cs_status = APPROVED, cs_changes = PList items, cs_base = [(''p1'', PInt 1)],
     cs_validation = PDict [], cs_applied = [], cs_created_by = ''u'', cs_reviewed_by = [], cs_approved_by = ''a'', cs_staged_at = None,
     cs_promoted_at = None, cs_rolled_back_at = None\<rparr>"

definition demo_item :: pyval where
  "demo_item = PDict [(''policy_id'', PStr ''p1''), (''priority'', PInt 7)]"

definition demo_renamed :: pyval where
  "demo_renamed = PDict [(''policy_id'', PStr ''p1''), (''name'', PStr ''renamed'')]"

lemma demo_saved: "saved_db demo_rollout_db"
proof -
  have "ladder BLOCK no_escalation = [BLOCK]" by (simp add: ladder_def no_escalation_def)
  then show ?thesis
    by (simp add: saved_db_def demo_rollout_db_def row_ids_def row_saved_def policy_wf_def demo_policy_def check_scope_def check_selectors_def dget_def)
qed

lemma demo_promoted:
  "case promote_change_set 5 (\<lambda>_. ''new'') ''a'' [] (demo_change [demo_item]) demo_rollout_db of
     Inr (c1, db1) \<Rightarrow> map (\<lambda>r. (p_priority (pw_policy r), p_version (pw_policy r))) (pd_rows db1) = [(7, 2)] | Inl _ \<Rightarrow> False"
  by code_simp

text \<open>Of two changes to one policy the first is lost: both start from the row as it was loaded.\<close>

lemma first_change_lost:
  "case promote_change_set 5 (\<lambda>_. ''new'') ''a'' [] (demo_change [demo_item, demo_renamed]) demo_rollout_db of
     Inr (c1, db1) \<Rightarrow> map (\<lambda>r. (p_priority (pw_policy r), p_name (pw_policy r))) (pd_rows db1) = [(0, ''renamed'')] | Inl _ \<Rightarrow> False"
  by code_simp



end
