(* ===== verification/Credentials.thy ===== *)
theory Credentials
  imports PyPrelude
begin

text \<open>
  API keys and the rows that hold them (\<open>utils/api_keys.py\<close>, \<open>models/api_key.py\<close>,
  \<open>models/gateway.py\<close>, the key columns of \<open>models/endpoint.py\<close>, \<open>models/astrolift_cluster.py\<close>):
  how a key is generated, found by its prefix and checked against its hash. bcrypt, SHA-256 and the
  random source are arguments; a random string or salt is passed to the operation that draws it.
  The tables are lists of rows in the order of creation, and times are microseconds.
\<close>

section \<open>Key utilities\<close>

text \<open>
  \<open>k_hash salt key\<close> is bcrypt's hash, \<open>k_check key hash\<close> its test, None when bcrypt raises a
  ValueError or TypeError on the stored hash; \<open>k_sha\<close> is the hexadecimal SHA-256.
\<close>

record key_env =
  k_hash :: "string \<Rightarrow> string \<Rightarrow> string"
  k_check :: "string \<Rightarrow> string \<Rightarrow> bool option"
  k_sha :: "string \<Rightarrow> string"

text \<open>What the code relies on: a hash accepts the key it was made of, and no other.\<close>

definition hash_accepts :: "key_env \<Rightarrow> bool" where
  "hash_accepts E \<longleftrightarrow> (\<forall>salt key. k_hash E salt key \<noteq> [] \<and> k_check E key (k_hash E salt key) = Some True)"

definition hash_exact :: "key_env \<Rightarrow> bool" where
  "hash_exact E \<longleftrightarrow> (\<forall>salt key key'. k_check E key (k_hash E salt key') = Some True \<longrightarrow> key = key')"

definition prefix_agent :: string where "prefix_agent = ''sk_agent_''"
definition prefix_platform :: string where "prefix_platform = ''sk_platform_''"
definition prefix_service :: string where "prefix_service = ''sk_service_''"
definition prefix_gateway :: string where "prefix_gateway = ''sk_gateway_''"
definition prefix_install :: string where "prefix_install = ''sk_astroinst_''"
definition prefix_enrollment :: string where "prefix_enrollment = ''zen_enroll_''"

named_theorems key_prefix_defs \<open>the literal key prefixes\<close>

declare prefix_agent_def [key_prefix_defs] prefix_platform_def [key_prefix_defs]
  prefix_service_def [key_prefix_defs] prefix_gateway_def [key_prefix_defs]
  prefix_install_def [key_prefix_defs] prefix_enrollment_def [key_prefix_defs]

definition prefix_random_chars :: nat where
  "prefix_random_chars = 16"

definition lookup_prefixes :: "string \<Rightarrow> string \<Rightarrow> nat \<Rightarrow> string list" where
  "lookup_prefixes key type_prefix legacy =
     [take (length type_prefix + prefix_random_chars) key, take legacy key]"

text \<open>The drawn string and the salt are arguments; the result is the key, its hash and its prefix.\<close>

definition generate_api_key ::
  "key_env \<Rightarrow> string \<Rightarrow> nat option \<Rightarrow> string \<Rightarrow> string \<Rightarrow> string \<times> string \<times> string" where
  "generate_api_key E prefix prefix_length raw salt =
     (let full = prefix @ raw;
          n = (case prefix_length of None \<Rightarrow> length prefix + 8 | Some n \<Rightarrow> n)
      in (full, k_hash E salt full, take n full))"

text \<open>None: \<open>compare_digest\<close> raises on a stored text that is not ASCII.\<close>

definition verify_api_key :: "key_env \<Rightarrow> string \<Rightarrow> string \<Rightarrow> bool \<Rightarrow> bool option" where
  "verify_api_key E key stored allow_legacy =
     (if key = [] \<or> stored = [] then Some False
      else case k_check E key stored of
             Some b \<Rightarrow> Some b
           | None \<Rightarrow>
               if \<not> allow_legacy then Some False
               else if \<forall>c \<in> set (k_sha E key @ stored). of_char c < (128 :: nat)
                    then Some (k_sha E key = stored) else None)"

lemma verify_strict: "verify_api_key E key stored False =
    Some (key \<noteq> [] \<and> stored \<noteq> [] \<and> k_check E key stored = Some True)"
  by (auto simp: verify_api_key_def split: option.splits)

definition compare_secrets :: "string \<Rightarrow> string \<Rightarrow> bool" where
  "compare_secrets a b = (if a = [] \<or> b = [] then False else a = b)"

text \<open>The check every table uses: no legacy hashes.\<close>

definition key_matches :: "key_env \<Rightarrow> string \<Rightarrow> string \<Rightarrow> bool" where
  "key_matches E key stored \<longleftrightarrow> verify_api_key E key stored False = Some True"

lemma key_matches_iff: "key_matches E key stored \<longleftrightarrow>
    key \<noteq> [] \<and> stored \<noteq> [] \<and> k_check E key stored = Some True"
  by (simp add: key_matches_def verify_strict)

lemma minted_matches:
  "hash_accepts E \<Longrightarrow> key \<noteq> [] \<Longrightarrow> key_matches E key (k_hash E salt key)"
  by (simp add: key_matches_iff hash_accepts_def)

lemma matches_minted:
  "hash_exact E \<Longrightarrow> key_matches E key (k_hash E salt key') \<Longrightarrow> key = key'"
  by (auto simp: key_matches_iff hash_exact_def)

section \<open>Rows\<close>

datatype ep_status = Provisioning | Active | Suspended | Offline | Terminated

record agent_row =
  ag_id :: string
  ag_tenant :: string
  ag_agent_id :: string
  ag_name :: string
  ag_status :: ep_status
  ag_health :: string
  ag_hash :: string
  ag_prefix :: string
  ag_expires :: "int option"
  ag_issued :: "int option"
  ag_registered :: int
  ag_audited :: "int option"
  ag_unaudited :: nat
  ag_install :: "string option"
  ag_cluster :: "string option"
  ag_revoked :: "int option"
  ag_deployment :: string
  ag_config :: pyval

datatype key_type = UserKey | ServiceKey

datatype key_status = KeyActive | KeyRevoked | KeyExpired

record api_key_row =
  ak_id :: string
  ak_tenant :: string
  ak_user :: string
  ak_type :: key_type
  ak_name :: string
  ak_prefix :: string
  ak_hash :: string
  ak_status :: key_status
  ak_expires :: "int option"
  ak_scopes :: "string list"
  ak_last_used :: "int option"
  ak_usage :: nat

record gateway_row =
  gr_id :: string
  gr_name :: string
  gr_cluster_id :: string
  gr_cluster :: "string option"
  gr_tenants :: "string list"
  gr_created :: int
  gr_revoked :: "int option"

record credential_row =
  gc_id :: string
  gc_gateway :: string
  gc_prefix :: string
  gc_hash :: string
  gc_last_used :: "int option"
  gc_revoked :: "int option"
  gc_expires :: "int option"

record install_row =
  in_id :: string
  in_name :: string
  in_url :: string
  in_tenants :: "string list"
  in_code :: string
  in_prefix :: string
  in_hash :: string
  in_last_used :: "int option"
  in_revoked :: "int option"

record code_row =
  co_id :: string
  co_hash :: string
  co_tenants :: "string list"
  co_by :: string
  co_expires :: int
  co_used :: "int option"

record beat =
  be_health :: string
  be_counters :: "(string \<times> int) list"
  be_seen :: int

record cluster_row =
  cl_id :: string
  cl_install :: string
  cl_external :: string
  cl_provider :: string
  cl_region :: string
  cl_health :: string
  cl_seen :: "int option"
  cl_version :: string
  cl_counters :: "(string \<times> int) list"
  cl_instances :: "(string \<times> beat) list"
  cl_revoked :: "int option"

record provider_key_row =
  pk_id :: string
  pk_tenant :: string
  pk_provider :: string
  pk_active :: bool
  pk_encrypted :: string
  pk_last_used :: "int option"

text \<open>An audit record of the services here, before its tenant's chain seals it.\<close>

record trail =
  tr_tenant :: string
  tr_action :: string
  tr_type :: string
  tr_id :: string
  tr_name :: string
  tr_meta :: pydict

record registry =
  rg_agents :: "agent_row list"
  rg_keys :: "api_key_row list"
  rg_gateways :: "gateway_row list"
  rg_creds :: "credential_row list"
  rg_installs :: "install_row list"
  rg_codes :: "code_row list"
  rg_clusters :: "cluster_row list"
  rg_provider :: "provider_key_row list"
  rg_trail :: "trail list"

definition empty_registry :: registry where
  "empty_registry = \<lparr>rg_agents = [], rg_keys = [], rg_gateways = [], rg_creds = [], rg_installs = [],
     rg_codes = [], rg_clusters = [], rg_provider = [], rg_trail = []\<rparr>"

text \<open>\<open>UPDATE ... WHERE\<close>.\<close>

definition update_where :: "('a \<Rightarrow> bool) \<Rightarrow> ('a \<Rightarrow> 'a) \<Rightarrow> 'a list \<Rightarrow> 'a list" where
  "update_where p f xs = map (\<lambda>x. if p x then f x else x) xs"

lemma in_update_where: "y \<in> set (update_where p f xs) \<longleftrightarrow>
    (\<exists>x \<in> set xs. y = (if p x then f x else x))"
  by (auto simp: update_where_def)

lemma update_where_id: "(\<And>x. x \<in> set xs \<Longrightarrow> \<not> p x) \<Longrightarrow> update_where p f xs = xs"
  by (simp add: update_where_def map_idI)

lemma map_update_where: "(\<And>x. g (f x) = g x) \<Longrightarrow> map g (update_where p f xs) = map g xs"
  by (simp add: update_where_def)

lemma find_in: "List.find p xs = Some x \<Longrightarrow> x \<in> set xs \<and> p x"
  by (auto simp: find_Some_iff)

section \<open>Methods of the rows\<close>

definition agent_generate :: "key_env \<Rightarrow> string \<Rightarrow> string \<Rightarrow> string \<times> string \<times> string" where
  "agent_generate E raw salt =
     generate_api_key E prefix_agent (Some (length prefix_agent + prefix_random_chars)) raw salt"

definition agent_key_prefixes :: "string \<Rightarrow> string list" where
  "agent_key_prefixes key = lookup_prefixes key prefix_agent 12"

definition agent_key_expired :: "int \<Rightarrow> agent_row \<Rightarrow> bool" where
  "agent_key_expired now a \<longleftrightarrow> (case ag_expires a of None \<Rightarrow> False | Some e \<Rightarrow> e \<le> now)"

definition rotate_agent_key :: "key_env \<Rightarrow> string \<Rightarrow> string \<Rightarrow> agent_row \<Rightarrow> agent_row \<times> string" where
  "rotate_agent_key E raw salt a =
     (let (full, h, p) = agent_generate E raw salt in (a\<lparr>ag_hash := h, ag_prefix := p\<rparr>, full))"

definition key_generate :: "key_env \<Rightarrow> key_type \<Rightarrow> string \<Rightarrow> string \<Rightarrow> string \<times> string \<times> string" where
  "key_generate E type raw salt =
     (let p = (case type of ServiceKey \<Rightarrow> prefix_service | UserKey \<Rightarrow> prefix_platform)
      in generate_api_key E p (Some (length p + prefix_random_chars)) raw salt)"

definition api_key_prefixes :: "string \<Rightarrow> string list" where
  "api_key_prefixes key =
     (let p = (if starts_with prefix_service key then prefix_service else prefix_platform)
      in lookup_prefixes key p 15)"

definition api_key_active :: "int \<Rightarrow> api_key_row \<Rightarrow> bool" where
  "api_key_active now k =
     (if ak_status k \<noteq> KeyActive then False
      else case ak_expires k of None \<Rightarrow> True | Some e \<Rightarrow> \<not> e < now)"

definition api_key_revoke :: "api_key_row \<Rightarrow> api_key_row" where
  "api_key_revoke k = k\<lparr>ak_status := KeyRevoked\<rparr>"

definition record_usage :: "int \<Rightarrow> api_key_row \<Rightarrow> api_key_row" where
  "record_usage now k = k\<lparr>ak_last_used := Some now, ak_usage := ak_usage k + 1\<rparr>"

definition gateway_active :: "gateway_row \<Rightarrow> bool" where
  "gateway_active r \<longleftrightarrow> gr_revoked r = None"

definition gateway_serves :: "gateway_row \<Rightarrow> string \<Rightarrow> bool" where
  "gateway_serves r tenant \<longleftrightarrow> tenant \<noteq> [] \<and> tenant \<in> set (gr_tenants r)"

definition gateway_revoke :: "int \<Rightarrow> gateway_row \<Rightarrow> gateway_row" where
  "gateway_revoke now r = r\<lparr>gr_revoked := Some now\<rparr>"

definition gateway_key_prefix :: "string \<Rightarrow> string" where
  "gateway_key_prefix key = take (length prefix_gateway + 8) key"

definition credential_live :: "int \<Rightarrow> credential_row \<Rightarrow> bool" where
  "credential_live now c \<longleftrightarrow>
     gc_revoked c = None \<and> (case gc_expires c of None \<Rightarrow> True | Some e \<Rightarrow> now < e)"

definition credential_revoke :: "int \<Rightarrow> credential_row \<Rightarrow> credential_row" where
  "credential_revoke now c = c\<lparr>gc_revoked := Some now\<rparr>"

text \<open>The new credential goes to the end of the table.\<close>

definition mint_credential ::
  "key_env \<Rightarrow> string \<Rightarrow> string \<Rightarrow> string \<Rightarrow> string \<Rightarrow> registry \<Rightarrow> string \<times> credential_row \<times> registry" where
  "mint_credential E new_id raw salt gateway db =
     (let (full, h, p) = generate_api_key E prefix_gateway (Some (length prefix_gateway + 8)) raw salt;
          c = \<lparr>gc_id = new_id, gc_gateway = gateway, gc_prefix = p, gc_hash = h, gc_last_used = None,
               gc_revoked = None, gc_expires = None\<rparr>
      in (full, c, db\<lparr>rg_creds := rg_creds db @ [c]\<rparr>))"

text \<open>The join with the registration drops a credential whose registration is missing or revoked.\<close>

definition live_gateway_of :: "registry \<Rightarrow> credential_row \<Rightarrow> gateway_row option" where
  "live_gateway_of db c =
     List.find (\<lambda>r. gr_id r = gc_gateway c \<and> gr_revoked r = None) (rg_gateways db)"

definition gateway_authenticate ::
  "key_env \<Rightarrow> int \<Rightarrow> registry \<Rightarrow> string \<Rightarrow> (credential_row \<times> gateway_row) option" where
  "gateway_authenticate E now db presented =
     (if presented = [] \<or> \<not> starts_with prefix_gateway presented then None
      else case List.find (\<lambda>c. credential_live now c \<and> gc_prefix c = gateway_key_prefix presented
                  \<and> live_gateway_of db c \<noteq> None \<and> key_matches E presented (gc_hash c)) (rg_creds db) of
             None \<Rightarrow> None
           | Some c \<Rightarrow> map_option (Pair c) (live_gateway_of db c))"

definition install_active :: "install_row \<Rightarrow> bool" where
  "install_active i \<longleftrightarrow> in_revoked i = None"

definition install_new_credential :: "key_env \<Rightarrow> string \<Rightarrow> string \<Rightarrow> string \<times> string \<times> string" where
  "install_new_credential E raw salt =
     generate_api_key E prefix_install (Some (length prefix_install + 8)) raw salt"

definition install_authenticate :: "key_env \<Rightarrow> registry \<Rightarrow> string \<Rightarrow> install_row option" where
  "install_authenticate E db presented =
     (if presented = [] \<or> \<not> starts_with prefix_install presented then None
      else List.find (\<lambda>i. in_prefix i = take (length prefix_install + 8) presented \<and> in_revoked i = None
             \<and> key_matches E presented (in_hash i)) (rg_installs db))"

definition cluster_active :: "cluster_row \<Rightarrow> bool" where
  "cluster_active c \<longleftrightarrow> cl_revoked c = None"

definition stale_after :: int where
  "stale_after = 5 * 60 * 1000000"

definition cluster_status :: "int \<Rightarrow> cluster_row \<Rightarrow> string" where
  "cluster_status now c =
     (if cl_revoked c \<noteq> None then ''revoked''
      else case cl_seen c of
             None \<Rightarrow> ''pending''
           | Some t \<Rightarrow> if stale_after < now - t then ''stale'' else ''active'')"

text \<open>\<open>order_by('-created_at').first()\<close> of the live registrations of a cluster.\<close>

fun newest :: "gateway_row list \<Rightarrow> gateway_row option" where
  "newest [] = None"
| "newest (r # rs) =
     (case newest rs of None \<Rightarrow> Some r | Some s \<Rightarrow> if gr_created s \<le> gr_created r then Some r else Some s)"

definition active_registration :: "registry \<Rightarrow> string \<Rightarrow> gateway_row option" where
  "active_registration db cluster =
     newest (filter (\<lambda>r. gr_cluster r = Some cluster \<and> gr_revoked r = None) (rg_gateways db))"

lemma newest_in: "newest rs = Some r \<Longrightarrow> r \<in> set rs"
  by (induction rs arbitrary: r) (auto split: option.splits if_splits)

lemma newest_None [simp]: "newest rs = None \<longleftrightarrow> rs = []"
  by (cases rs) (auto split: option.splits if_splits)

lemma active_registrationD:
  "active_registration db cl = Some r \<Longrightarrow> r \<in> set (rg_gateways db) \<and> gr_cluster r = Some cl \<and> gr_revoked r = None"
  using newest_in by (fastforce simp: active_registration_def)

section \<open>What authenticating by a key means\<close>

lemma gateway_authenticateD:
  assumes "gateway_authenticate E now db key = Some (c, r)"
  shows "c \<in> set (rg_creds db)" "credential_live now c" "key_matches E key (gc_hash c)"
    "r \<in> set (rg_gateways db)" "gr_id r = gc_gateway c" "gr_revoked r = None" "key \<noteq> []"
  using assms
  by (auto simp: gateway_authenticate_def live_gateway_of_def
      split: if_splits option.splits dest!: find_in)

lemma install_authenticateD:
  assumes "install_authenticate E db key = Some i"
  shows "i \<in> set (rg_installs db)" "in_revoked i = None" "key_matches E key (in_hash i)"
  using assms by (auto simp: install_authenticate_def split: if_splits dest!: find_in)

end
