(* ===== verification/Astrolift.thy ===== *)
theory Astrolift
  imports Credentials
begin

text \<open>
  Connected Astrolift installs (\<open>services/astrolift_clusters.py\<close>): enrollment codes, installs, their
  clusters with the gateway registrations and credentials, the agent keys an install mints, and the
  heartbeats of gateways. Each operation is one transaction: it returns the new registry, or the
  refusal, and then nothing has changed. Who acted is taken from the HTTP request and left out of
  the trail.
\<close>

section \<open>Environment and audit\<close>

text \<open>\<open>e_lifetime\<close> is the setting ASTROLIFT_AGENT_KEY_MAX_LIFETIME_SECONDS in microseconds.\<close>

record astro_env =
  e_keys :: key_env
  e_iso :: "int \<Rightarrow> string"
  e_lifetime :: int

text \<open>What one call draws at random: row ids, the random part of a key and the salt of its hash.\<close>

record fresh =
  fr_id :: string
  fr_gateway :: string
  fr_credential :: string
  fr_raw :: string
  fr_salt :: string

text \<open>\<open>Crash\<close> is an exception the service does not raise itself: a missing row, an attribute of None.\<close>

datatype astro_error = Refusal string string nat | BadValue string | Crash

definition seconds :: "int \<Rightarrow> int" where
  "seconds n = n * 1000000"

definition default_ttl :: int where "default_ttl = seconds (15 * 60)"
definition max_ttl :: int where "max_ttl = seconds (60 * 60)"
definition default_overlap :: int where "default_overlap = seconds (10 * 60)"
definition max_overlap :: int where "max_overlap = seconds (24 * 3600)"
definition max_agent_key_ttl :: int where "max_agent_key_ttl = seconds (30 * 24 * 3600)"
definition renewal_audit_grace :: int where "renewal_audit_grace = seconds (24 * 3600)"

definition audit_all ::
  "string list \<Rightarrow> string \<Rightarrow> string \<Rightarrow> string \<Rightarrow> string \<Rightarrow> pydict \<Rightarrow> registry \<Rightarrow> registry" where
  "audit_all tenants act type rid rname meta db =
     db\<lparr>rg_trail := rg_trail db @ map (\<lambda>t. \<lparr>tr_tenant = t, tr_action = act, tr_type = type, tr_id = rid,
       tr_name = take 255 rname, tr_meta = meta\<rparr>) tenants\<rparr>"

section \<open>Enrollment\<close>

definition issue_code ::
  "astro_env \<Rightarrow> int \<Rightarrow> fresh \<Rightarrow> string list \<Rightarrow> string \<Rightarrow> int option \<Rightarrow> registry
   \<Rightarrow> astro_error + (string \<times> code_row) \<times> registry" where
  "issue_code E now fr tenants by ttl db =
     (let ttl = (case ttl of None \<Rightarrow> default_ttl | Some t \<Rightarrow> t) in
      if \<not> (seconds 60 \<le> ttl \<and> ttl \<le> max_ttl)
      then Inl (BadValue ''An enrollment code lives between 1 and 60 minutes'')
      else if tenants = [] then Inl (BadValue ''An enrollment code needs at least one tenant'')
      else
        (let plain = prefix_enrollment @ fr_raw fr;
             c = \<lparr>co_id = fr_id fr, co_hash = k_sha (e_keys E) plain, co_tenants = tenants,
                  co_by = take 255 by, co_expires = now + ttl, co_used = None\<rparr>;
             db1 = db\<lparr>rg_codes := rg_codes db @ [c]\<rparr>
         in Inr ((plain, c), audit_all tenants ''astrolift.enrollment_code.created''
              ''astrolift_enrollment_code'' (co_id c) []
              [(''created_by'', PStr (co_by c)), (''expires_at'', PStr (e_iso E (co_expires c)))] db1)))"

text \<open>The conditional UPDATE that consumes a code.\<close>

definition usable_code :: "int \<Rightarrow> string \<Rightarrow> code_row \<Rightarrow> bool" where
  "usable_code now h c \<longleftrightarrow> co_hash c = h \<and> co_used c = None \<and> now < co_expires c"

definition connect ::
  "astro_env \<Rightarrow> int \<Rightarrow> fresh \<Rightarrow> string \<Rightarrow> string \<Rightarrow> string \<Rightarrow> registry
   \<Rightarrow> astro_error + (install_row \<times> string) \<times> registry" where
  "connect E now fr code url name db =
     (let h = k_sha (e_keys E) code in
      if \<not> list_ex (usable_code now h) (rg_codes db)
      then Inl (Refusal ''invalid_enrollment_code''
        ''The enrollment code is unknown, expired or already used. Generate a new one in Zentinelle.'' 400)
      else
        (let db1 = db\<lparr>rg_codes := update_where (usable_code now h) (\<lambda>c. c\<lparr>co_used := Some now\<rparr>) (rg_codes db)\<rparr> in
         case List.find (\<lambda>c. co_hash c = h) (rg_codes db1) of
           None \<Rightarrow> Inl Crash
         | Some c \<Rightarrow>
             (let (plain, kh, kp) = install_new_credential (e_keys E) (fr_raw fr) (fr_salt fr);
                  i = \<lparr>in_id = fr_id fr, in_name = name, in_url = url, in_tenants = co_tenants c,
                       in_code = co_id c, in_prefix = kp, in_hash = kh, in_last_used = None, in_revoked = None\<rparr>
              in Inr ((i, plain), audit_all (in_tenants i) ''astrolift.install.connected'' ''astrolift_install''
                   (in_id i) name
                   [(''base_url'', PStr url), (''enrollment_code_id'', PStr (co_id c)),
                    (''code_created_by'', PStr (co_by c))]
                   (db1\<lparr>rg_installs := rg_installs db1 @ [i]\<rparr>)))))"

section \<open>Clusters\<close>

fun scope_loop :: "install_row \<Rightarrow> string list \<Rightarrow> string list \<Rightarrow> astro_error + string list" where
  "scope_loop i scope [] = Inr scope"
| "scope_loop i scope (t # ts) =
     (if t \<notin> set (in_tenants i)
      then Inl (Refusal ''tenant_not_in_install_scope''
        ''A cluster can serve only tenants its install was connected for.'' 403)
      else scope_loop i (if t \<in> set scope then scope else scope @ [t]) ts)"

definition cluster_scope :: "install_row \<Rightarrow> string list option \<Rightarrow> astro_error + string list" where
  "cluster_scope i requested =
     (case requested of None \<Rightarrow> Inr (in_tenants i) | Some ts \<Rightarrow> scope_loop i [] ts)"

definition locked_install :: "registry \<Rightarrow> string \<Rightarrow> astro_error + install_row" where
  "locked_install db pk =
     (case List.find (\<lambda>i. in_id i = pk) (rg_installs db) of
        None \<Rightarrow> Inl Crash
      | Some i \<Rightarrow>
          if \<not> install_active i
          then Inl (Refusal ''install_disconnected'' ''This Astrolift install is disconnected.'' 401)
          else Inr i)"

definition find_cluster :: "registry \<Rightarrow> install_row \<Rightarrow> string \<Rightarrow> cluster_row option" where
  "find_cluster db i external =
     List.find (\<lambda>c. cl_install c = in_id i \<and> cl_external c = external \<and> cl_revoked c = None) (rg_clusters db)"

definition live_cluster :: "registry \<Rightarrow> install_row \<Rightarrow> string \<Rightarrow> astro_error + cluster_row" where
  "live_cluster db i external =
     (case find_cluster db i external of
        None \<Rightarrow> Inl (Refusal ''cluster_not_found'' (''No registered cluster '' @ external @ '' on this install.'') 404)
      | Some c \<Rightarrow> Inr c)"

definition local_gateway_name :: string where
  "local_gateway_name = ''local''"

text \<open>The registration of a new cluster: an operator's it may adopt, or one of its own.\<close>

definition adoptable :: "cluster_row \<Rightarrow> gateway_row \<Rightarrow> bool" where
  "adoptable c r \<longleftrightarrow> gr_cluster_id r = cl_external c \<and> gr_cluster r = None \<and> gr_revoked r = None
     \<and> gr_name r \<noteq> local_gateway_name"

definition registration_for_new_cluster ::
  "int \<Rightarrow> fresh \<Rightarrow> cluster_row \<Rightarrow> string list \<Rightarrow> registry \<Rightarrow> (gateway_row \<times> bool) \<times> registry" where
  "registration_for_new_cluster now fr c scope db =
     (let own = \<lparr>gr_id = fr_gateway fr, gr_name = ''astrolift-'' @ cl_id c, gr_cluster_id = cl_external c,
                 gr_cluster = Some (cl_id c), gr_tenants = scope, gr_created = now, gr_revoked = None\<rparr>;
          create = ((own, False), db\<lparr>rg_gateways := rg_gateways db @ [own]\<rparr>)
      in case filter (adoptable c) (rg_gateways db) of
           [r] \<Rightarrow>
             if gr_tenants r \<noteq> [] \<and> set (gr_tenants r) \<subseteq> set scope
             then (let r' = r\<lparr>gr_cluster := Some (cl_id c), gr_tenants := scope\<rparr>
                   in ((r', True), db\<lparr>rg_gateways := update_where (\<lambda>x. gr_id x = gr_id r) (\<lambda>_. r') (rg_gateways db)\<rparr>))
             else create
         | _ \<Rightarrow> create)"

text \<open>The live credentials of a registration, \<open>keep\<close> apart, expire after \<open>overlap\<close> at the latest.\<close>

definition retired :: "string \<Rightarrow> string \<Rightarrow> int \<Rightarrow> credential_row \<Rightarrow> bool" where
  "retired gateway keep ends c \<longleftrightarrow> gc_gateway c = gateway \<and> gc_revoked c = None \<and> gc_id c \<noteq> keep
     \<and> (case gc_expires c of None \<Rightarrow> True | Some e \<Rightarrow> ends < e)"

definition retire_previous :: "int \<Rightarrow> string \<Rightarrow> string \<Rightarrow> int \<Rightarrow> registry \<Rightarrow> nat \<times> registry" where
  "retire_previous now gateway keep overlap db =
     (let ends = now + overlap in
      (length (filter (retired gateway keep ends) (rg_creds db)),
       db\<lparr>rg_creds := update_where (retired gateway keep ends) (\<lambda>c. c\<lparr>gc_expires := Some ends\<rparr>) (rg_creds db)\<rparr>))"

text \<open>
  The next credential of a registration; with an overlap the earlier ones are retired. The result
  has the plaintext, the row and how many were retired.
\<close>

definition next_credential ::
  "astro_env \<Rightarrow> int \<Rightarrow> fresh \<Rightarrow> string \<Rightarrow> int option \<Rightarrow> registry \<Rightarrow> (string \<times> credential_row \<times> nat) \<times> registry" where
  "next_credential E now fr gateway overlap db =
     (let (plain, cred, db1) = mint_credential (e_keys E) (fr_credential fr) (fr_raw fr) (fr_salt fr) gateway db in
      case overlap of
        None \<Rightarrow> ((plain, cred, 0), db1)
      | Some d \<Rightarrow> (let (n, db2) = retire_previous now gateway (gc_id cred) d db1 in ((plain, cred, n), db2)))"

text \<open>The registration a cluster is registered under: whether it is new, and whether it was adopted.\<close>

definition place_cluster ::
  "int \<Rightarrow> fresh \<Rightarrow> install_row \<Rightarrow> string \<Rightarrow> string \<Rightarrow> string \<Rightarrow> string list \<Rightarrow> registry
   \<Rightarrow> astro_error + (cluster_row \<times> gateway_row \<times> bool \<times> bool) \<times> registry" where
  "place_cluster now fr i external provider region scope db =
     (case find_cluster db i external of
        None \<Rightarrow>
          (let c = \<lparr>cl_id = fr_id fr, cl_install = in_id i, cl_external = external, cl_provider = provider,
                    cl_region = region, cl_health = ''unknown'', cl_seen = None, cl_version = [],
                    cl_counters = [], cl_instances = [], cl_revoked = None\<rparr>;
               ((r, adopted), db1) = registration_for_new_cluster now fr c scope
                  (db\<lparr>rg_clusters := rg_clusters db @ [c]\<rparr>)
           in Inr ((c, r, True, adopted), db1))
      | Some c \<Rightarrow>
          (let c' = c\<lparr>cl_provider := provider, cl_region := region\<rparr>;
               db1 = db\<lparr>rg_clusters := update_where (\<lambda>x. cl_id x = cl_id c) (\<lambda>_. c') (rg_clusters db)\<rparr>
           in case active_registration db1 (cl_id c) of
                None \<Rightarrow> Inl Crash
              | Some r \<Rightarrow>
                  (let r' = r\<lparr>gr_tenants := scope\<rparr>
                   in Inr ((c', r', False, False),
                        db1\<lparr>rg_gateways := update_where (\<lambda>x. gr_id x = gr_id r) (\<lambda>_. r') (rg_gateways db1)\<rparr>))))"

definition register_cluster ::
  "astro_env \<Rightarrow> int \<Rightarrow> fresh \<Rightarrow> string \<Rightarrow> string \<Rightarrow> string \<Rightarrow> string \<Rightarrow> string list option \<Rightarrow> registry
   \<Rightarrow> astro_error + (cluster_row \<times> gateway_row \<times> string \<times> bool) \<times> registry" where
  "register_cluster E now fr install external provider region requested db =
     rbind (locked_install db install) (\<lambda>i.
     rbind (cluster_scope i requested) (\<lambda>scope.
     rbind (place_cluster now fr i external provider region scope db) (\<lambda>((c, r, created, adopted), db1).
       let ((plain, cred, n), db2) =
             next_credential E now fr (gr_id r) (if created \<and> \<not> adopted then None else Some default_overlap) db1
       in Inr ((c, r, plain, created), audit_all scope ''astrolift.cluster.registered'' ''astrolift_cluster''
            (cl_id c) (cl_external c)
            [(''install_id'', PStr (in_id i)), (''install'', PStr (in_name i)), (''gateway'', PStr (gr_name r)),
             (''new'', PBool created), (''adopted_registration'', PBool adopted),
             (''credential_prefix'', PStr (gc_prefix cred)), (''previous_credentials_overlapping'', PInt (int n)),
             (''overlap_seconds'', PInt (if n \<noteq> 0 then default_overlap div 1000000 else 0))] db2))))"

definition rotate_cluster ::
  "astro_env \<Rightarrow> int \<Rightarrow> fresh \<Rightarrow> string \<Rightarrow> string \<Rightarrow> int \<Rightarrow> string \<Rightarrow> registry
   \<Rightarrow> astro_error + (cluster_row \<times> gateway_row \<times> string) \<times> registry" where
  "rotate_cluster E now fr install external overlap via db =
     rbind (locked_install db install) (\<lambda>i.
     rbind (live_cluster db i external) (\<lambda>c.
       case active_registration db (cl_id c) of
         None \<Rightarrow> Inl Crash
       | Some r \<Rightarrow>
           (let ((plain, cred, n), db1) = next_credential E now fr (gr_id r) (Some overlap) db
            in Inr ((c, r, plain), audit_all (gr_tenants r) ''astrolift.cluster.rotated'' ''astrolift_cluster''
                 (cl_id c) (cl_external c)
                 [(''install_id'', PStr (in_id i)), (''install'', PStr (in_name i)), (''gateway'', PStr (gr_name r)),
                  (''credential_prefix'', PStr (gc_prefix cred)), (''previous_credentials'', PInt (int n)),
                  (''overlap_seconds'', PInt (overlap div 1000000)), (''via'', PStr via)] db1))))"

definition registrations_of :: "registry \<Rightarrow> string \<Rightarrow> gateway_row list" where
  "registrations_of db cluster =
     filter (\<lambda>r. gr_cluster r = Some cluster \<and> gr_revoked r = None) (rg_gateways db)"

definition install_tenants :: "registry \<Rightarrow> string \<Rightarrow> string list" where
  "install_tenants db pk =
     (case List.find (\<lambda>i. in_id i = pk) (rg_installs db) of None \<Rightarrow> [] | Some i \<Rightarrow> in_tenants i)"

definition install_name :: "registry \<Rightarrow> string \<Rightarrow> string" where
  "install_name db pk = (case List.find (\<lambda>i. in_id i = pk) (rg_installs db) of None \<Rightarrow> [] | Some i \<Rightarrow> in_name i)"

definition revoke_cluster :: "int \<Rightarrow> string \<Rightarrow> string \<Rightarrow> registry \<Rightarrow> astro_error + cluster_row \<times> registry" where
  "revoke_cluster now cluster via db =
     (case List.find (\<lambda>c. cl_id c = cluster) (rg_clusters db) of
        None \<Rightarrow> Inl Crash
      | Some c \<Rightarrow>
          if \<not> cluster_active c then Inr (c, db)
          else
            (let rs = registrations_of db (cl_id c);
                 named = sort (remdups (concat (map gr_tenants rs)));
                 tenants = (if named = [] then install_tenants db (cl_install c) else named);
                 c' = c\<lparr>cl_revoked := Some now\<rparr>
             in Inr (c', audit_all tenants ''astrolift.cluster.revoked'' ''astrolift_cluster'' (cl_id c) (cl_external c)
                  [(''install_id'', PStr (cl_install c)), (''install'', PStr (install_name db (cl_install c))),
                   (''via'', PStr via), (''gateways'', PList (map (PStr \<circ> gr_name) rs))]
                  (db\<lparr>rg_gateways := update_where (\<lambda>x. gr_id x \<in> gr_id ` set rs)
                        (\<lambda>x. x\<lparr>gr_revoked := Some now\<rparr>) (rg_gateways db),
                      rg_clusters := update_where (\<lambda>x. cl_id x = cl_id c) (\<lambda>_. c') (rg_clusters db)\<rparr>))))"

section \<open>Disconnecting an install\<close>

text \<open>Registrations joined with the clusters of an install.\<close>

definition of_install :: "registry \<Rightarrow> string \<Rightarrow> gateway_row \<Rightarrow> bool" where
  "of_install db install r \<longleftrightarrow>
     (case gr_cluster r of None \<Rightarrow> False
      | Some k \<Rightarrow> list_ex (\<lambda>c. cl_id c = k \<and> cl_install c = install) (rg_clusters db))"

definition agent_of_install :: "install_row \<Rightarrow> agent_row \<Rightarrow> bool" where
  "agent_of_install i a \<longleftrightarrow> ag_tenant a \<in> set (in_tenants i) \<and> ag_install a = Some (in_id i)"

definition disconnect_install ::
  "int \<Rightarrow> string \<Rightarrow> string \<Rightarrow> registry \<Rightarrow> astro_error + install_row \<times> registry" where
  "disconnect_install now install via db =
     (case List.find (\<lambda>i. in_id i = install) (rg_installs db) of
        None \<Rightarrow> Inl Crash
      | Some i \<Rightarrow>
          if \<not> install_active i then Inr (i, db)
          else
            (let cs = filter (\<lambda>c. cl_install c = in_id i \<and> cl_revoked c = None) (rg_clusters db);
                 gone = (\<lambda>r. of_install db (in_id i) r \<and> gr_revoked r = None);
                 stopped = (\<lambda>a. agent_of_install i a \<and> ag_status a \<noteq> Terminated);
                 i' = i\<lparr>in_revoked := Some now\<rparr>
             in Inr (i', audit_all (in_tenants i) ''astrolift.install.disconnected'' ''astrolift_install''
                  (in_id i) (in_name i)
                  [(''via'', PStr via), (''clusters'', PList (map (PStr \<circ> cl_external) cs)),
                   (''gateways'', PList (map (PStr \<circ> gr_name) (filter gone (rg_gateways db)))),
                   (''agents_terminated'', PInt (int (length (filter stopped (rg_agents db)))))]
                  (db\<lparr>rg_gateways := update_where gone (\<lambda>r. r\<lparr>gr_revoked := Some now\<rparr>) (rg_gateways db),
                      rg_clusters := update_where (\<lambda>c. cl_install c = in_id i \<and> cl_revoked c = None)
                        (\<lambda>c. c\<lparr>cl_revoked := Some now\<rparr>) (rg_clusters db),
                      rg_agents := update_where stopped
                        (\<lambda>a. a\<lparr>ag_status := Terminated, ag_revoked := None\<rparr>) (rg_agents db),
                      rg_installs := update_where (\<lambda>x. in_id x = in_id i) (\<lambda>_. i') (rg_installs db)\<rparr>))))"

end
