(* ===== verification/AstroliftAgents.thy ===== *)
theory AstroliftAgents
  imports Astrolift
begin

text \<open>
  The short-lived agent keys an install mints, renews and revokes, and the heartbeats its gateways
  send (the second half of \<open>services/astrolift_clusters.py\<close>); and the stops and other changes the
  rest of the backend makes to the same rows: the portal's mutations (\<open>schema/mutations/endpoint.py\<close>),
  the operator API, the kill switch, deregistration and \<open>manage.py gateway_credential\<close>.
\<close>

section \<open>Agent keys\<close>

definition agent_tenant :: "install_row \<Rightarrow> string \<Rightarrow> astro_error + string" where
  "agent_tenant i tenant =
     (if tenant \<noteq> [] then
        (if tenant \<notin> set (in_tenants i)
         then Inl (Refusal ''tenant_not_in_install_scope''
           ''An agent key can be minted only in a tenant its install was connected for.'' 403)
         else Inr tenant)
      else case in_tenants i of
             [t] \<Rightarrow> Inr t
           | _ \<Rightarrow> Inl (Refusal ''tenant_required'' ''This install serves several tenants; name the tenant_id.'' 400))"

definition install_agents :: "registry \<Rightarrow> install_row \<Rightarrow> string \<Rightarrow> string \<Rightarrow> agent_row list" where
  "install_agents db i agent_id tenant =
     filter (\<lambda>a. agent_of_install i a \<and> ag_agent_id a = agent_id \<and> (tenant = [] \<or> ag_tenant a = tenant)) (rg_agents db)"

definition one_install_agent :: "agent_row list \<Rightarrow> string \<Rightarrow> astro_error + agent_row" where
  "one_install_agent found agent_id =
     (case found of
        [] \<Rightarrow> Inl (Refusal ''agent_not_found'' (''This install minted no agent '' @ agent_id @ ''.'') 404)
      | [a] \<Rightarrow> Inr a
      | _ \<Rightarrow> Inl (Refusal ''tenant_required''
               (''Agent '' @ agent_id @ '' exists in several tenants; name the tenant_id.'') 400))"

definition lifetime_ends_at :: "astro_env \<Rightarrow> agent_row \<Rightarrow> int" where
  "lifetime_ends_at E a = (case ag_issued a of Some t \<Rightarrow> t | None \<Rightarrow> ag_registered a) + e_lifetime E"

definition existing_agent :: "registry \<Rightarrow> string \<Rightarrow> string \<Rightarrow> agent_row option" where
  "existing_agent db tenant agent_id =
     List.find (\<lambda>a. ag_tenant a = tenant \<and> ag_agent_id a = agent_id) (rg_agents db)"

definition stopped_by_others :: "agent_row \<Rightarrow> bool" where
  "stopped_by_others a =
     (if ag_status a = Active then False else \<not> (ag_status a = Terminated \<and> ag_revoked a \<noteq> None))"

fun status_text :: "ep_status \<Rightarrow> string" where
  "status_text Provisioning = ''provisioning''"
| "status_text Active = ''active''"
| "status_text Suspended = ''suspended''"
| "status_text Offline = ''offline''"
| "status_text Terminated = ''terminated''"

definition agent_suspended :: "agent_row \<Rightarrow> astro_error" where
  "agent_suspended a = Refusal ''agent_suspended''
     (''Agent '' @ ag_agent_id a @ '' was stopped in Zentinelle ('' @ status_text (ag_status a)
      @ '') by someone other than this install, and it stays stopped.'') 409"

definition agent_id_taken :: "string \<Rightarrow> astro_error" where
  "agent_id_taken agent_id = Refusal ''agent_id_taken''
     (''Agent '' @ agent_id @ '' exists in this tenant and was not minted by this install.'') 409"

definition ttl_error :: astro_error where
  "ttl_error = Refusal ''invalid_ttl'' ''ttl_seconds must be between 1 and 2592000.'' 400"

definition valid_ttl :: "int \<Rightarrow> bool" where
  "valid_ttl ttl \<longleftrightarrow> seconds 1 \<le> ttl \<and> ttl \<le> max_agent_key_ttl"

text \<open>The cluster a key is minted for, if one is named: its gateway has to serve the tenant.\<close>

definition mint_cluster :: "registry \<Rightarrow> install_row \<Rightarrow> string \<Rightarrow> string \<Rightarrow> astro_error + cluster_row option" where
  "mint_cluster db i external tenant =
     (if external = [] then Inr None
      else rbind (live_cluster db i external) (\<lambda>c.
        let refused = Inl (Refusal ''tenant_not_in_cluster_scope''
              (''Cluster '' @ external @ '' does not serve the agent'' @ sq @ ''s tenant.'') 403)
        in case active_registration db (cl_id c) of
             None \<Rightarrow> refused
           | Some g \<Rightarrow> if gateway_serves g tenant then Inr (Some c) else refused))"

text \<open>What a mint asks for.\<close>

record mint_request =
  mr_agent :: string
  mr_ttl :: int
  mr_tenant :: string
  mr_name :: string
  mr_deployment :: string
  mr_cluster :: string

text \<open>
  A new agent. Its id was looked up in the tenant under the same lock, so the unique constraint, which
  turns a concurrent insert into \<open>agent_id_taken\<close>, holds here.
\<close>

definition new_agent ::
  "int \<Rightarrow> fresh \<Rightarrow> install_row \<Rightarrow> mint_request \<Rightarrow> string \<Rightarrow> cluster_row option \<Rightarrow> string \<times> string \<Rightarrow> int \<Rightarrow> agent_row" where
  "new_agent now fr i mr tenant cl key expires =
     \<lparr>ag_id = fr_id fr, ag_tenant = tenant, ag_agent_id = mr_agent mr,
      ag_name = (if mr_name mr \<noteq> [] then mr_name mr else mr_agent mr), ag_status = Active,
      ag_health = ''unknown'', ag_hash = fst key, ag_prefix = snd key, ag_expires = Some expires,
      ag_issued = Some now, ag_registered = now, ag_audited = Some expires, ag_unaudited = 0,
      ag_install = Some (in_id i), ag_cluster = map_option cl_id cl, ag_revoked = None,
      ag_deployment = mr_deployment mr, ag_config = PDict []\<rparr>"

definition reminted_agent ::
  "int \<Rightarrow> mint_request \<Rightarrow> cluster_row option \<Rightarrow> string \<times> string \<Rightarrow> int \<Rightarrow> agent_row \<Rightarrow> agent_row" where
  "reminted_agent now mr cl key expires a =
     a\<lparr>ag_hash := fst key, ag_prefix := snd key, ag_issued := Some now, ag_expires := Some expires,
       ag_audited := Some expires, ag_unaudited := 0, ag_status := Active, ag_revoked := None,
       ag_name := (if mr_name mr \<noteq> [] then mr_name mr else ag_name a), ag_deployment := mr_deployment mr,
       ag_cluster := map_option cl_id cl\<rparr>"

definition put_agent :: "agent_row \<Rightarrow> registry \<Rightarrow> registry" where
  "put_agent a db = db\<lparr>rg_agents := update_where (\<lambda>x. ag_id x = ag_id a) (\<lambda>_. a) (rg_agents db)\<rparr>"

definition mint_agent_key ::
  "astro_env \<Rightarrow> int \<Rightarrow> fresh \<Rightarrow> string \<Rightarrow> mint_request \<Rightarrow> registry
   \<Rightarrow> astro_error + (agent_row \<times> string \<times> bool) \<times> registry" where
  "mint_agent_key E now fr install mr db =
     (if \<not> valid_ttl (mr_ttl mr) then Inl ttl_error
      else let (plain, kh, kp) = agent_generate (e_keys E) (fr_raw fr) (fr_salt fr) in
      rbind (locked_install db install) (\<lambda>i.
      rbind (agent_tenant i (mr_tenant mr)) (\<lambda>tenant.
      rbind (mint_cluster db i (mr_cluster mr) tenant) (\<lambda>cl.
        let expires = min (now + mr_ttl mr) (now + e_lifetime E);
            minted = (\<lambda>a created db1. Inr ((a, plain, created),
              audit_all [tenant] ''astrolift.agent_key.minted'' ''agent_endpoint'' (ag_id a) (ag_agent_id a)
                [(''install_id'', PStr (in_id i)), (''install'', PStr (in_name i)), (''key_prefix'', PStr kp),
                 (''expires_at'', PStr (e_iso E expires)), (''new'', PBool created),
                 (''deployment_id'', PStr (mr_deployment mr)), (''cluster_id'', PStr (mr_cluster mr))] db1))
        in case existing_agent db tenant (mr_agent mr) of
             None \<Rightarrow>
               (let a = new_agent now fr i mr tenant cl (kh, kp) expires
                in minted a True (db\<lparr>rg_agents := rg_agents db @ [a]\<rparr>))
           | Some old \<Rightarrow>
               if ag_install old \<noteq> Some (in_id i) then Inl (agent_id_taken (mr_agent mr))
               else if stopped_by_others old then Inl (agent_suspended old)
               else (let a = reminted_agent now mr cl (kh, kp) expires old
                     in minted a False (put_agent a db))))))"

definition renewed_agent :: "astro_env \<Rightarrow> int \<Rightarrow> int \<Rightarrow> agent_row \<Rightarrow> agent_row \<times> bool" where
  "renewed_agent E now ttl a =
     (let expires = min (now + ttl) (lifetime_ends_at E a);
          audited = (case ag_audited a of None \<Rightarrow> True | Some r \<Rightarrow> r + renewal_audit_grace < expires)
      in (if audited
          then a\<lparr>ag_expires := Some expires, ag_audited := Some expires, ag_unaudited := 0\<rparr>
          else a\<lparr>ag_expires := Some expires, ag_unaudited := ag_unaudited a + 1\<rparr>, audited))"

definition renewal_metadata :: "astro_env \<Rightarrow> install_row \<Rightarrow> agent_row \<Rightarrow> agent_row \<Rightarrow> pydict" where
  "renewal_metadata E i old a =
     [(''install_id'', PStr (in_id i)), (''install'', PStr (in_name i)), (''key_prefix'', PStr (ag_prefix a)),
      (''expires_at'', (case ag_expires a of Some e \<Rightarrow> PStr (e_iso E e) | None \<Rightarrow> PNone)),
      (''previously_recorded_expires_at'', (case ag_audited old of Some e \<Rightarrow> PStr (e_iso E e) | None \<Rightarrow> PNone)),
      (''renewals'', PInt (int (ag_unaudited old) + 1))]"

definition renew_agent_key ::
  "astro_env \<Rightarrow> int \<Rightarrow> install_row \<Rightarrow> string \<Rightarrow> int \<Rightarrow> string \<Rightarrow> registry \<Rightarrow> astro_error + agent_row \<times> registry" where
  "renew_agent_key E now i agent_id ttl tenant db =
     (if \<not> valid_ttl ttl then Inl ttl_error
      else rbind (one_install_agent (install_agents db i agent_id tenant) agent_id) (\<lambda>a0.
        if stopped_by_others a0 then Inl (agent_suspended a0)
        else if ag_status a0 \<noteq> Active
        then Inl (Refusal ''agent_not_found'' (''Agent '' @ agent_id @ '' was revoked; mint a new key.'') 404)
        else case List.find (\<lambda>a. ag_id a = ag_id a0 \<and> ag_status a = Active
               \<and> (case ag_expires a of None \<Rightarrow> False | Some e \<Rightarrow> now < e)) (rg_agents db) of
               None \<Rightarrow> Inl (Refusal ''agent_key_expired''
                 (''The key of agent '' @ agent_id @ '' expired; mint a new one.'') 409)
             | Some a \<Rightarrow>
                 (let (a', audited) = renewed_agent E now ttl a; db1 = put_agent a' db
                  in Inr (a', if audited
                       then audit_all [ag_tenant a] ''astrolift.agent_key.renewed'' ''agent_endpoint''
                              (ag_id a) (ag_agent_id a) (renewal_metadata E i a a') db1
                       else db1))))"

definition revoke_agent_key ::
  "int \<Rightarrow> install_row \<Rightarrow> string \<Rightarrow> string \<Rightarrow> registry \<Rightarrow> astro_error + agent_row \<times> registry" where
  "revoke_agent_key now i agent_id tenant db =
     rbind (one_install_agent (install_agents db i agent_id tenant) agent_id) (\<lambda>a.
       if ag_status a \<noteq> Active then Inr (a, db)
       else (let a' = a\<lparr>ag_status := Terminated, ag_revoked := Some now\<rparr>
             in Inr (a', audit_all [ag_tenant a] ''astrolift.agent_key.revoked'' ''agent_endpoint''
                  (ag_id a) (ag_agent_id a)
                  [(''install_id'', PStr (in_id i)), (''install'', PStr (in_name i)),
                   (''key_prefix'', PStr (ag_prefix a))] (put_agent a' db))))"

section \<open>Heartbeats\<close>

definition heartbeat_counters :: "string list" where
  "heartbeat_counters = [''requests'', ''blocked'', ''agents_seen'']"

definition max_heartbeat_instances :: nat where
  "max_heartbeat_instances = 100"

text \<open>\<open>HEALTH_ORDER.index\<close>: None where it raises.\<close>

definition health_rank :: "string \<Rightarrow> nat option" where
  "health_rank h =
     (if h = ''healthy'' then Some 0 else if h = ''degraded'' then Some 1
      else if h = ''unhealthy'' then Some 2 else None)"

text \<open>\<open>max(healths, key=HEALTH_ORDER.index)\<close>: the first of the greatest.\<close>

fun worst_from :: "string \<Rightarrow> nat \<Rightarrow> string list \<Rightarrow> string option" where
  "worst_from best n [] = Some best"
| "worst_from best n (h # hs) =
     (case health_rank h of None \<Rightarrow> None | Some m \<Rightarrow> if n < m then worst_from h m hs else worst_from best n hs)"

definition worst_health :: "string list \<Rightarrow> string option" where
  "worst_health hs =
     (case hs of [] \<Rightarrow> None
      | h # hs \<Rightarrow> (case health_rank h of None \<Rightarrow> None | Some n \<Rightarrow> worst_from h n hs))"

definition add_counter :: "string \<times> int \<Rightarrow> (string \<times> int) list \<Rightarrow> (string \<times> int) list" where
  "add_counter kv totals =
     dput (fst kv) ((case map_of totals (fst kv) of None \<Rightarrow> 0 | Some v \<Rightarrow> v) + snd kv) totals"

definition total_counters :: "beat list \<Rightarrow> (string \<times> int) list" where
  "total_counters bs = fold add_counter (concat (map be_counters bs)) []"

text \<open>The replicas still counted, with the beat of this one last.\<close>

definition next_instances ::
  "int \<Rightarrow> string \<Rightarrow> beat \<Rightarrow> (string \<times> beat) list \<Rightarrow> (string \<times> beat) list" where
  "next_instances now name b old =
     (let kept = filter (\<lambda>(n, e). n \<noteq> name \<and> now - stale_after \<le> be_seen e) old;
          kept = (if max_heartbeat_instances \<le> length kept
                  then (let newest = sort_key (\<lambda>(_, e). be_seen e) kept
                        in drop (length newest - (max_heartbeat_instances - 1)) newest)
                  else kept)
      in kept @ [(name, b)])"

definition record_heartbeat ::
  "int \<Rightarrow> credential_row \<Rightarrow> gateway_row \<Rightarrow> string \<Rightarrow> string \<Rightarrow> string \<Rightarrow> (string \<times> int) list \<Rightarrow> string \<Rightarrow> registry
   \<Rightarrow> astro_error + unit \<times> registry" where
  "record_heartbeat now c r cluster_id health version counters instance_name db =
     (case Option.bind (gr_cluster r) (\<lambda>k. List.find (\<lambda>x. cl_id x = k) (rg_clusters db)) of
        None \<Rightarrow> Inl (Refusal ''cluster_not_found'' ''This gateway is not registered for that cluster.'' 404)
      | Some cl \<Rightarrow>
          if \<not> cluster_active cl \<or> cl_external cl \<noteq> cluster_id
          then Inl (Refusal ''cluster_not_found'' ''This gateway is not registered for that cluster.'' 404)
          else
            (let b = \<lparr>be_health = health,
                      be_counters = filter (\<lambda>(n, _). n \<in> set heartbeat_counters) counters, be_seen = now\<rparr>;
                 ins = next_instances now instance_name b (cl_instances cl)
             in case worst_health (map (be_health \<circ> snd) ins) of
                  None \<Rightarrow> Inl Crash
                | Some worst \<Rightarrow>
                    Inr ((), db\<lparr>rg_clusters := update_where (\<lambda>x. cl_id x = cl_id cl)
                           (\<lambda>x. x\<lparr>cl_health := worst, cl_version := version,
                              cl_counters := total_counters (map snd ins), cl_instances := ins,
                              cl_seen := Some now\<rparr>) (rg_clusters db),
                         rg_creds := update_where (\<lambda>x. gc_id x = gc_id c)
                           (\<lambda>x. x\<lparr>gc_last_used := Some now\<rparr>) (rg_creds db)\<rparr>)))"

section \<open>What the rest of the backend does to agents\<close>

definition suspend_endpoint :: "agent_row \<Rightarrow> agent_row option" where
  "suspend_endpoint a =
     (if ag_status a = Suspended then None else Some (a\<lparr>ag_status := Suspended, ag_revoked := None\<rparr>))"

definition activate_endpoint :: "agent_row \<Rightarrow> agent_row option" where
  "activate_endpoint a =
     (if ag_status a = Active then None
      else if ag_status a = Terminated then None
      else Some (a\<lparr>ag_status := Active\<rparr>))"

definition set_endpoint_status :: "ep_status \<Rightarrow> agent_row \<Rightarrow> agent_row" where
  "set_endpoint_status s a = a\<lparr>ag_status := s, ag_revoked := None\<rparr>"

definition regenerate_key :: "key_env \<Rightarrow> string \<Rightarrow> string \<Rightarrow> agent_row \<Rightarrow> agent_row \<times> string" where
  "regenerate_key E raw salt a =
     (let (full, h, p) = agent_generate E raw salt in (a\<lparr>ag_hash := h, ag_prefix := p\<rparr>, full))"

text \<open>The operator API's revoke, the kill switch, and an agent that deregisters itself.\<close>

definition operator_revoke :: "agent_row \<Rightarrow> agent_row" where
  "operator_revoke a = a\<lparr>ag_status := Terminated, ag_revoked := None\<rparr>"

definition kill_switch :: "agent_row \<Rightarrow> agent_row" where
  "kill_switch a = a\<lparr>ag_status := Terminated, ag_hash := [], ag_revoked := None\<rparr>"

definition control_suspend :: "agent_row \<Rightarrow> agent_row" where
  "control_suspend a = a\<lparr>ag_status := Suspended, ag_revoked := None\<rparr>"

definition deregister :: "agent_row \<Rightarrow> agent_row option" where
  "deregister a =
     (if ag_status a = Terminated then None
      else Some (a\<lparr>ag_status := Terminated, ag_health := ''unknown'', ag_revoked := None\<rparr>))"

text \<open>A stop by anyone but the minting install.\<close>

definition stops :: "agent_row \<Rightarrow> agent_row list" where
  "stops a = (case suspend_endpoint a of None \<Rightarrow> [] | Some b \<Rightarrow> [b])
     @ [operator_revoke a, kill_switch a, control_suspend a, set_endpoint_status Suspended a,
        set_endpoint_status Terminated a]
     @ (case deregister a of None \<Rightarrow> [] | Some b \<Rightarrow> [b])"

section \<open>Gateways an operator registers\<close>

text \<open>A name in double quotes.\<close>

definition dq :: "string \<Rightarrow> string" where
  "dq s = [CHR 0x22] @ s @ [CHR 0x22]"

fun clean_tenants :: "string list \<Rightarrow> string list \<Rightarrow> string + string list" where
  "clean_tenants acc [] = Inr acc"
| "clean_tenants acc (v # vs) =
     (let t = strip v in
      if t = [] then Inl ''A tenant id cannot be empty''
      else clean_tenants (if t \<in> set acc then acc else acc @ [t]) vs)"

definition find_gateway :: "registry \<Rightarrow> string \<Rightarrow> string + gateway_row" where
  "find_gateway db name =
     (case List.find (\<lambda>r. gr_name r = name) (rg_gateways db) of
        None \<Rightarrow> Inl (''No gateway named '' @ dq name) | Some r \<Rightarrow> Inr r)"

definition find_active_gateway :: "registry \<Rightarrow> string \<Rightarrow> string + gateway_row" where
  "find_active_gateway db name =
     rbind (find_gateway db name) (\<lambda>r.
       if gateway_active r then Inr r else Inl (''Gateway '' @ dq name @ '' is revoked''))"

definition gateway_register ::
  "key_env \<Rightarrow> int \<Rightarrow> fresh \<Rightarrow> string \<Rightarrow> string \<Rightarrow> string list \<Rightarrow> registry \<Rightarrow> string + string \<times> registry" where
  "gateway_register E now fr name cluster tenants db =
     (let name = strip name in
      if name = [] then Inl ''A gateway needs a name''
      else if name = local_gateway_name then Inl (dq local_gateway_name @ '' is the backend'' @ sq @ ''s own compose gateway; pick another name'')
      else if list_ex (\<lambda>r. gr_name r = name) (rg_gateways db) then Inl (''Gateway '' @ dq name @ '' is already registered: use mint for another credential, or scope'')
      else rbind (clean_tenants [] tenants) (\<lambda>ts.
        let r = \<lparr>gr_id = fr_gateway fr, gr_name = name, gr_cluster_id = strip cluster, gr_cluster = None,
                 gr_tenants = ts, gr_created = now, gr_revoked = None\<rparr>;
            (plain, c, db2) = mint_credential E (fr_credential fr) (fr_raw fr) (fr_salt fr) (gr_id r)
              (db\<lparr>rg_gateways := rg_gateways db @ [r]\<rparr>)
        in Inr (plain, db2)))"

definition gateway_mint ::
  "key_env \<Rightarrow> fresh \<Rightarrow> string \<Rightarrow> registry \<Rightarrow> string + string \<times> registry" where
  "gateway_mint E fr name db =
     rbind (find_active_gateway db name) (\<lambda>r.
       if gr_name r = local_gateway_name then Inl (dq local_gateway_name @ '' credentials are minted by the backend into its shared volume'')
       else (let (plain, c, db2) = mint_credential E (fr_credential fr) (fr_raw fr) (fr_salt fr) (gr_id r) db
             in Inr (plain, db2)))"

definition gateway_scope :: "string \<Rightarrow> string list \<Rightarrow> registry \<Rightarrow> string + registry" where
  "gateway_scope name tenants db =
     rbind (find_active_gateway db name) (\<lambda>r.
     rbind (clean_tenants [] tenants) (\<lambda>ts.
       Inr (db\<lparr>rg_gateways := update_where (\<lambda>x. gr_id x = gr_id r) (\<lambda>x. x\<lparr>gr_tenants := ts\<rparr>) (rg_gateways db)\<rparr>)))"

text \<open>Revoking one credential, or the gateway, with its cluster when it has one.\<close>

definition gateway_revoke_command :: "int \<Rightarrow> string \<Rightarrow> string \<Rightarrow> registry \<Rightarrow> string + registry" where
  "gateway_revoke_command now name credential db =
     rbind (find_gateway db name) (\<lambda>r.
       if credential \<noteq> [] then
         (case List.find (\<lambda>c. gc_gateway c = gr_id r \<and> gc_prefix c = credential \<and> gc_revoked c = None) (rg_creds db) of
            None \<Rightarrow> Inl (''No live credential '' @ credential @ '' on gateway '' @ dq (gr_name r))
          | Some c \<Rightarrow> Inr (db\<lparr>rg_creds := update_where (\<lambda>x. gc_id x = gc_id c) (credential_revoke now) (rg_creds db)\<rparr>))
       else if gr_cluster r \<noteq> None \<and> gateway_active r then
         (case revoke_cluster now (the (gr_cluster r)) ''manage.py'' db of
            Inl _ \<Rightarrow> Inl ''cluster missing'' | Inr (_, db1) \<Rightarrow> Inr db1)
       else Inr (db\<lparr>rg_gateways := update_where (\<lambda>x. gr_id x = gr_id r) (gateway_revoke now) (rg_gateways db)\<rparr>))"

section \<open>The local gateway of a compose install\<close>

text \<open>
  \<open>auth/gateway_credential.py\<close>: the credential file is linked into place, unless another replica's
  is there already or the file system refuses. The result says whether the file was written.
\<close>

datatype written = Linked | AlreadyThere | NoWrite

definition local_registration :: "int \<Rightarrow> fresh \<Rightarrow> string \<Rightarrow> registry \<Rightarrow> gateway_row \<times> registry" where
  "local_registration now fr tenant db =
     (case List.find (\<lambda>r. gr_name r = local_gateway_name) (rg_gateways db) of
        Some r \<Rightarrow> (r, db)
      | None \<Rightarrow>
          (let r = \<lparr>gr_id = fr_gateway fr, gr_name = local_gateway_name, gr_cluster_id = [], gr_cluster = None,
                    gr_tenants = [tenant], gr_created = now, gr_revoked = None\<rparr>
           in (r, db\<lparr>rg_gateways := rg_gateways db @ [r]\<rparr>)))"

definition ensure_local_gateway ::
  "key_env \<Rightarrow> int \<Rightarrow> fresh \<Rightarrow> string \<Rightarrow> bool \<Rightarrow> bool \<Rightarrow> written \<Rightarrow> string \<Rightarrow> registry \<Rightarrow> string option \<times> registry" where
  "ensure_local_gateway E now fr path file_exists directory_exists outcome tenant db =
     (if path = [] \<or> file_exists then (None, db)
      else if \<not> directory_exists then (None, db)
      else
        (let (r, db1) = local_registration now fr tenant db in
         if \<not> gateway_active r then (None, db1)
         else
           (let (plain, c, db2) = mint_credential E (fr_credential fr) (fr_raw fr) (fr_salt fr) (gr_id r) db1;
                revoke_where = (\<lambda>p. db2\<lparr>rg_creds := update_where p (credential_revoke now) (rg_creds db2)\<rparr>)
            in case outcome of
                 Linked \<Rightarrow> (Some plain, revoke_where (\<lambda>x. gc_gateway x = gr_id r \<and> gc_revoked x = None \<and> gc_id x \<noteq> gc_id c))
               | _ \<Rightarrow> (None, revoke_where (\<lambda>x. gc_id x = gc_id c)))))"

end
