(* ===== verification/AstroliftInv.thy ===== *)
theory AstroliftInv
  imports AstroliftAgents
begin

text \<open>
  The invariant of the Astrolift registry, table by table, and that every operation keeps it:
  installs, clusters, gateways and agents form a tree in which nothing live hangs below anything
  revoked and no tenant reaches further than its install.
\<close>

section \<open>The invariant\<close>

definition clusters_ok :: "install_row list \<Rightarrow> cluster_row list \<Rightarrow> bool" where
  "clusters_ok is cs \<longleftrightarrow>
     (\<forall>c \<in> set cs. \<exists>i \<in> set is. in_id i = cl_install c \<and> (cl_revoked c = None \<longrightarrow> in_revoked i = None))"

text \<open>A live registration of a cluster serves tenants of the cluster's install only.\<close>

definition gateways_ok :: "install_row list \<Rightarrow> cluster_row list \<Rightarrow> gateway_row list \<Rightarrow> bool" where
  "gateways_ok is cs gs \<longleftrightarrow>
     (\<forall>r \<in> set gs. \<forall>k. gr_cluster r = Some k \<longrightarrow>
       (\<exists>c \<in> set cs. cl_id c = k \<and> (gr_revoked r = None \<longrightarrow> cl_revoked c = None \<and>
         (\<exists>i \<in> set is. in_id i = cl_install c \<and> set (gr_tenants r) \<subseteq> set (in_tenants i)))))"

definition usable_status :: "ep_status \<Rightarrow> bool" where
  "usable_status s \<longleftrightarrow> s = Active \<or> s = Provisioning"

definition agents_ok :: "install_row list \<Rightarrow> agent_row list \<Rightarrow> bool" where
  "agents_ok is as \<longleftrightarrow>
     (\<forall>a \<in> set as. \<forall>k. ag_install a = Some k \<longrightarrow>
       (\<exists>i \<in> set is. in_id i = k \<and> ag_tenant a \<in> set (in_tenants i)
          \<and> (usable_status (ag_status a) \<longrightarrow> in_revoked i = None)))"

definition linked :: "string \<Rightarrow> gateway_row \<Rightarrow> bool" where
  "linked k r \<longleftrightarrow> gr_cluster r = Some k \<and> gr_revoked r = None"

definition one_gateway :: "cluster_row list \<Rightarrow> gateway_row list \<Rightarrow> bool" where
  "one_gateway cs gs \<longleftrightarrow>
     (\<forall>c \<in> set cs. cl_revoked c = None \<longrightarrow> length (filter (linked (cl_id c)) gs) = 1)"

definition ids_ok :: "registry \<Rightarrow> bool" where
  "ids_ok db \<longleftrightarrow> distinct (map in_id (rg_installs db)) \<and> distinct (map cl_id (rg_clusters db))
     \<and> distinct (map gr_id (rg_gateways db)) \<and> distinct (map ag_id (rg_agents db))"

definition registry_ok :: "registry \<Rightarrow> bool" where
  "registry_ok db \<longleftrightarrow> ids_ok db \<and> clusters_ok (rg_installs db) (rg_clusters db)
     \<and> gateways_ok (rg_installs db) (rg_clusters db) (rg_gateways db)
     \<and> agents_ok (rg_installs db) (rg_agents db) \<and> one_gateway (rg_clusters db) (rg_gateways db)"

text \<open>The drawn ids are new.\<close>

definition fresh_for :: "fresh \<Rightarrow> registry \<Rightarrow> bool" where
  "fresh_for fr db \<longleftrightarrow> fr_id fr \<notin> in_id ` set (rg_installs db) \<and> fr_id fr \<notin> cl_id ` set (rg_clusters db)
     \<and> fr_id fr \<notin> ag_id ` set (rg_agents db) \<and> fr_id fr \<notin> co_id ` set (rg_codes db)
     \<and> fr_gateway fr \<notin> gr_id ` set (rg_gateways db) \<and> fr_credential fr \<notin> gc_id ` set (rg_creds db)"

section \<open>Rows and updates\<close>

lemma same_row: "distinct (map f xs) \<Longrightarrow> x \<in> set xs \<Longrightarrow> y \<in> set xs \<Longrightarrow> f x = f y \<Longrightarrow> x = y"
  by (metis distinct_map inj_onD)

lemma length_filter_update:
  "(\<And>x. x \<in> set xs \<Longrightarrow> q x \<Longrightarrow> p (f x) = p x) \<Longrightarrow> length (filter p (update_where q f xs)) = length (filter p xs)"
  by (induction xs) (auto simp: update_where_def)

lemma filter_one: "length (filter p xs) = 1 \<longleftrightarrow> (\<exists>x. filter p xs = [x])"
  by (metis One_nat_def length_0_conv length_Suc_conv)

lemma locked_installD:
  "locked_install db k = Inr i \<Longrightarrow> i \<in> set (rg_installs db) \<and> in_id i = k \<and> in_revoked i = None"
  by (auto simp: locked_install_def install_active_def split: option.splits if_splits dest: find_in)

lemma find_clusterD:
  "find_cluster db i e = Some c \<Longrightarrow>
   c \<in> set (rg_clusters db) \<and> cl_install c = in_id i \<and> cl_external c = e \<and> cl_revoked c = None"
  by (auto simp: find_cluster_def dest: find_in)

lemma live_clusterD:
  "live_cluster db i e = Inr c \<Longrightarrow>
   c \<in> set (rg_clusters db) \<and> cl_install c = in_id i \<and> cl_external c = e \<and> cl_revoked c = None"
  by (auto simp: live_cluster_def split: option.splits dest: find_clusterD)

lemma scope_loop_subset:
  "scope_loop i acc ts = Inr scope \<Longrightarrow> set acc \<subseteq> set (in_tenants i) \<Longrightarrow>
   set scope = set acc \<union> set ts \<and> set scope \<subseteq> set (in_tenants i)"
  by (induction i acc ts arbitrary: scope rule: scope_loop.induct) (auto split: if_splits)

lemma cluster_scope_subset: "cluster_scope i req = Inr scope \<Longrightarrow> set scope \<subseteq> set (in_tenants i)"
  using scope_loop_subset [of i "[]"] by (auto simp: cluster_scope_def split: option.splits)

lemma registrations_linked: "registrations_of db k = filter (linked k) (rg_gateways db)"
  by (simp add: registrations_of_def linked_def [abs_def])

lemma active_linked: "active_registration db k = newest (filter (linked k) (rg_gateways db))"
  by (simp add: active_registration_def linked_def [abs_def])

lemma audit_all_tables [simp]:
  "rg_agents (audit_all ts x t r n m db) = rg_agents db" "rg_keys (audit_all ts x t r n m db) = rg_keys db"
  "rg_gateways (audit_all ts x t r n m db) = rg_gateways db" "rg_creds (audit_all ts x t r n m db) = rg_creds db"
  "rg_installs (audit_all ts x t r n m db) = rg_installs db" "rg_codes (audit_all ts x t r n m db) = rg_codes db"
  "rg_clusters (audit_all ts x t r n m db) = rg_clusters db"
  by (simp_all add: audit_all_def)

lemma registry_ok_audit [simp]: "registry_ok (audit_all ts x t r n m db) = registry_ok db"
  by (simp add: registry_ok_def ids_ok_def)

text \<open>Two registries with the same installs, clusters, gateways and agents.\<close>

lemma registry_ok_cong:
  "rg_installs db' = rg_installs db \<Longrightarrow> rg_clusters db' = rg_clusters db \<Longrightarrow> rg_gateways db' = rg_gateways db
   \<Longrightarrow> rg_agents db' = rg_agents db \<Longrightarrow> registry_ok db' = registry_ok db"
  by (simp add: registry_ok_def ids_ok_def)

section \<open>Installs\<close>

lemma tables_more_installs:
  assumes "set is \<subseteq> set is'"
  shows "clusters_ok is cs \<Longrightarrow> clusters_ok is' cs" "gateways_ok is cs gs \<Longrightarrow> gateways_ok is' cs gs"
    "agents_ok is as \<Longrightarrow> agents_ok is' as"
  unfolding clusters_ok_def gateways_ok_def agents_ok_def using assms by (meson subsetD)+

lemma connect_ok:
  assumes "connect E now fr code url name db = Inr (x, db')" "registry_ok db" "fresh_for fr db"
  shows "registry_ok db'"
proof -
  obtain i codes where db': "rg_installs db' = rg_installs db @ [i]" "in_id i = fr_id fr"
    "rg_clusters db' = rg_clusters db" "rg_gateways db' = rg_gateways db" "rg_agents db' = rg_agents db"
    using assms(1) by (auto simp: connect_def Let_def split: if_splits option.splits prod.splits)
  with assms(2,3) show ?thesis
    using tables_more_installs [of "rg_installs db" "rg_installs db @ [i]"]
    by (auto simp: registry_ok_def ids_ok_def fresh_for_def)
qed

section \<open>Registering a cluster\<close>

text \<open>The tables after a new live cluster of a live install has been given a registration.\<close>

lemma new_cluster_ok:
  assumes ok: "registry_ok db" and c: "cl_id c \<notin> cl_id ` set (rg_clusters db)" "cl_revoked c = None"
    and i: "i \<in> set (rg_installs db)" "in_id i = cl_install c" "in_revoked i = None"
    and r: "gr_cluster r = Some (cl_id c)" "gr_revoked r = None" "set (gr_tenants r) \<subseteq> set (in_tenants i)"
    and gs: "distinct (map gr_id gs)" "set gs \<subseteq> insert r (set (rg_gateways db))"
      "filter (linked (cl_id c)) gs = [r]"
      "\<And>k. k \<noteq> cl_id c \<Longrightarrow> length (filter (linked k) gs) = length (filter (linked k) (rg_gateways db))"
    and db': "rg_installs db' = rg_installs db" "rg_clusters db' = rg_clusters db @ [c]" "rg_gateways db' = gs"
      "rg_agents db' = rg_agents db"
  shows "registry_ok db'"
proof -
  have "clusters_ok (rg_installs db) (rg_clusters db @ [c])"
    using ok i by (auto simp: registry_ok_def clusters_ok_def)
  moreover have "gateways_ok (rg_installs db) (rg_clusters db @ [c]) gs"
    unfolding gateways_ok_def
  proof (intro ballI allI impI)
    fix s k assume s: "s \<in> set gs" "gr_cluster s = Some k"
    show "\<exists>x \<in> set (rg_clusters db @ [c]). cl_id x = k \<and> (gr_revoked s = None \<longrightarrow> cl_revoked x = None \<and>
         (\<exists>j \<in> set (rg_installs db). in_id j = cl_install x \<and> set (gr_tenants s) \<subseteq> set (in_tenants j)))"
    proof (cases "s = r")
      case True
      with s r c(2) i show ?thesis by (intro bexI [of _ c]) auto
    next
      case False
      with s(1) gs(2) have "s \<in> set (rg_gateways db)" by auto
      with ok s(2) show ?thesis by (fastforce simp: registry_ok_def gateways_ok_def)
    qed
  qed
  moreover have "one_gateway (rg_clusters db @ [c]) gs"
  proof -
    have "cl_id x \<noteq> cl_id c" if "x \<in> set (rg_clusters db)" for x using c(1) that by (metis imageI)
    with ok gs(3,4) show ?thesis by (simp add: registry_ok_def one_gateway_def)
  qed
  ultimately show ?thesis
    using ok c(1) gs(1) by (auto simp: registry_ok_def ids_ok_def db')
qed

lemma unlinked_fresh:
  assumes "registry_ok db" "k \<notin> cl_id ` set (rg_clusters db)" "r \<in> set (rg_gateways db)"
  shows "gr_cluster r \<noteq> Some k"
  using assms by (force simp: registry_ok_def gateways_ok_def)

lemma own_registration:
  assumes ok: "registry_ok db" and k: "k \<notin> cl_id ` set (rg_clusters db)"
    and r: "gr_cluster r = Some k" "gr_revoked r = None" "gr_id r \<notin> gr_id ` set (rg_gateways db)"
  shows "distinct (map gr_id (rg_gateways db @ [r]))" "filter (linked k) (rg_gateways db @ [r]) = [r]"
    "k' \<noteq> k \<Longrightarrow> length (filter (linked k') (rg_gateways db @ [r])) = length (filter (linked k') (rg_gateways db))"
  using ok r unlinked_fresh [OF ok k]
  by (auto simp: registry_ok_def ids_ok_def linked_def filter_empty_conv)

lemma adopted_registration:
  assumes ok: "registry_ok db" and k: "k \<notin> cl_id ` set (rg_clusters db)"
    and s: "s \<in> set (rg_gateways db)" "gr_cluster s = None"
    and r: "gr_cluster r = Some k" "gr_revoked r = None" "gr_id r = gr_id s"
    and gs: "gs = update_where (\<lambda>x. gr_id x = gr_id s) (\<lambda>_. r) (rg_gateways db)"
  shows "distinct (map gr_id gs)" "set gs \<subseteq> insert r (set (rg_gateways db))" "filter (linked k) gs = [r]"
    "k' \<noteq> k \<Longrightarrow> length (filter (linked k') gs) = length (filter (linked k') (rg_gateways db))"
proof -
  have d: "distinct (map gr_id (rg_gateways db))" using ok by (simp add: registry_ok_def ids_ok_def)
  have only: "x = s" if "x \<in> set (rg_gateways db)" "gr_id x = gr_id s" for x
    using same_row [OF d that(1) s(1) that(2)] .
  have "map gr_id gs = map gr_id (rg_gateways db)"
    unfolding gs update_where_def using r(3) by (auto simp: only)
  with d show "distinct (map gr_id gs)" by simp
  show sub: "set gs \<subseteq> insert r (set (rg_gateways db))"
    by (auto simp: gs in_update_where)
  obtain us vs where split: "rg_gateways db = us @ s # vs" using s(1) by (meson split_list)
  have other: "x \<in> set us \<union> set vs \<Longrightarrow> gr_id x \<noteq> gr_id s" for x
    using d by (auto simp: split) (metis image_eqI)+
  have "gs = us @ r # vs"
    using other by (simp add: gs split update_where_def map_idI)
  moreover have "filter (linked k) us = []" "filter (linked k) vs = []"
    using unlinked_fresh [OF ok k] by (auto simp: split linked_def filter_empty_conv)
  ultimately show "filter (linked k) gs = [r]" using r by (simp add: linked_def)
  show "length (filter (linked k') gs) = length (filter (linked k') (rg_gateways db))" if "k' \<noteq> k"
    using \<open>gs = us @ r # vs\<close> r(1) s(2) that by (simp add: split linked_def)
qed

lemma mint_credential_tables:
  assumes "mint_credential K n raw salt g db = (plain, c, db')"
  shows "rg_agents db' = rg_agents db" "rg_gateways db' = rg_gateways db" "rg_installs db' = rg_installs db"
    "rg_clusters db' = rg_clusters db" "rg_codes db' = rg_codes db" "rg_trail db' = rg_trail db"
    "rg_creds db' = rg_creds db @ [c]" "gc_id c = n" "gc_gateway c = g"
  using assms by (auto simp: mint_credential_def Let_def split: prod.splits)

lemma snd_mint_credential [simp]:
  "rg_agents (snd (snd (mint_credential K n raw salt g db))) = rg_agents db"
  "rg_gateways (snd (snd (mint_credential K n raw salt g db))) = rg_gateways db"
  "rg_installs (snd (snd (mint_credential K n raw salt g db))) = rg_installs db"
  "rg_clusters (snd (snd (mint_credential K n raw salt g db))) = rg_clusters db"
  "rg_codes (snd (snd (mint_credential K n raw salt g db))) = rg_codes db"
  by (auto simp: mint_credential_def Let_def split: prod.splits)

lemma snd_retire_previous [simp]:
  "rg_agents (snd (retire_previous now g keep d db)) = rg_agents db"
  "rg_gateways (snd (retire_previous now g keep d db)) = rg_gateways db"
  "rg_installs (snd (retire_previous now g keep d db)) = rg_installs db"
  "rg_clusters (snd (retire_previous now g keep d db)) = rg_clusters db"
  "rg_codes (snd (retire_previous now g keep d db)) = rg_codes db"
  by (simp_all add: retire_previous_def Let_def)

lemma next_credential_tables [simp]:
  "rg_agents (snd (next_credential E now fr g d db)) = rg_agents db"
  "rg_gateways (snd (next_credential E now fr g d db)) = rg_gateways db"
  "rg_installs (snd (next_credential E now fr g d db)) = rg_installs db"
  "rg_clusters (snd (next_credential E now fr g d db)) = rg_clusters db"
  "rg_codes (snd (next_credential E now fr g d db)) = rg_codes db"
  by (simp_all add: next_credential_def Let_def case_prod_beta split: option.split)

end
