(* ===== verification/AstroliftSteps.thy ===== *)
theory AstroliftSteps
  imports AstroliftInv
begin

text \<open>
  The operations on the Astrolift registry as one step relation, and the invariant of
  \<open>AstroliftInv\<close> in every state the steps reach. A step is any call, at any time and in any order; the
  steps leave out what an administrator may do to bring a stopped agent back
  (\<open>activate_endpoint\<close>, \<open>set_endpoint_status\<close> to a live status) and \<open>manage.py gateway_credential scope\<close>.
\<close>

section \<open>Rows that keep their place in the tree\<close>

definition cluster_place :: "cluster_row \<Rightarrow> string \<times> string \<times> int option" where
  "cluster_place c = (cl_id c, cl_install c, cl_revoked c)"

lemma clusters_place_ok:
  assumes "map cluster_place cs' = map cluster_place cs"
  shows "clusters_ok is cs' = clusters_ok is cs" "gateways_ok is cs' gs = gateways_ok is cs gs"
    "one_gateway cs' gs = one_gateway cs gs" "map cl_id cs' = map cl_id cs"
proof -
  let ?S = "cluster_place ` set cs"
  have S: "cluster_place ` set cs' = ?S" using assms by (metis list.set_map)
  have clus: "clusters_ok is xs \<longleftrightarrow> (\<forall>(k, n, v) \<in> cluster_place ` set xs.
      \<exists>i \<in> set is. in_id i = n \<and> (v = None \<longrightarrow> in_revoked i = None))" for xs
    by (simp add: clusters_ok_def cluster_place_def)
  have gat: "gateways_ok is xs gs \<longleftrightarrow> (\<forall>r \<in> set gs. \<forall>j. gr_cluster r = Some j \<longrightarrow>
      (\<exists>(k, n, v) \<in> cluster_place ` set xs. k = j \<and> (gr_revoked r = None \<longrightarrow> v = None \<and>
         (\<exists>i \<in> set is. in_id i = n \<and> set (gr_tenants r) \<subseteq> set (in_tenants i)))))" for xs
    by (simp add: gateways_ok_def cluster_place_def)
  have one: "one_gateway xs gs \<longleftrightarrow> (\<forall>(k, n, v) \<in> cluster_place ` set xs.
      v = None \<longrightarrow> length (filter (linked k) gs) = 1)" for xs
    by (simp add: one_gateway_def cluster_place_def)
  show "clusters_ok is cs' = clusters_ok is cs" by (simp only: clus S)
  show "gateways_ok is cs' gs = gateways_ok is cs gs" by (simp only: gat S)
  show "one_gateway cs' gs = one_gateway cs gs" by (simp only: one S)
  from assms have "map fst (map cluster_place cs') = map fst (map cluster_place cs)" by simp
  then show "map cl_id cs' = map cl_id cs" by (simp add: cluster_place_def comp_def)
qed

lemma registry_ok_place:
  assumes "map cluster_place (rg_clusters db') = map cluster_place (rg_clusters db)"
    "rg_installs db' = rg_installs db" "rg_gateways db' = rg_gateways db" "rg_agents db' = rg_agents db"
  shows "registry_ok db' = registry_ok db"
  using clusters_place_ok [OF assms(1)] assms(2-4) by (simp add: registry_ok_def ids_ok_def)

lemma map_update_same:
  "(\<And>x. x \<in> set xs \<Longrightarrow> p x \<Longrightarrow> g (f x) = g x) \<Longrightarrow> map g (update_where p f xs) = map g xs"
  by (simp add: update_where_def)

text \<open>A live registration of a live cluster gets a scope within the install's tenants.\<close>

lemma rescope_ok:
  assumes ok: "registry_ok db" and r: "r \<in> set (rg_gateways db)" "gr_cluster r = Some (cl_id c)" "gr_revoked r = None"
    and c: "c \<in> set (rg_clusters db)"
    and i: "i \<in> set (rg_installs db)" "in_id i = cl_install c" "set scope \<subseteq> set (in_tenants i)"
    and gs: "gs = update_where (\<lambda>x. gr_id x = gr_id r) (\<lambda>_. r\<lparr>gr_tenants := scope\<rparr>) (rg_gateways db)"
  shows "registry_ok (db\<lparr>rg_gateways := gs\<rparr>)"
proof -
  have d: "distinct (map gr_id (rg_gateways db))" and dc: "distinct (map cl_id (rg_clusters db))"
    using ok by (simp_all add: registry_ok_def ids_ok_def)
  have only: "x = r" if "x \<in> set (rg_gateways db)" "gr_id x = gr_id r" for x
    using same_row [OF d that(1) r(1) that(2)] .
  have "map gr_id gs = map gr_id (rg_gateways db)"
    unfolding gs by (rule map_update_same) (simp add: only)
  moreover have "length (filter (linked k) gs) = length (filter (linked k) (rg_gateways db))" for k
    unfolding gs by (rule length_filter_update) (use only in \<open>auto simp: linked_def\<close>)
  moreover have "gateways_ok (rg_installs db) (rg_clusters db) gs"
  proof -
    have "cl_revoked c = None"
    proof -
      from ok r obtain c' where "c' \<in> set (rg_clusters db)" "cl_id c' = cl_id c" "cl_revoked c' = None"
        unfolding registry_ok_def gateways_ok_def by meson
      with same_row [OF dc _ c] show ?thesis by metis
    qed
    then have x: "\<exists>x \<in> set (rg_clusters db). cl_id x = cl_id c \<and> (v = None \<longrightarrow> cl_revoked x = None \<and>
        (\<exists>j \<in> set (rg_installs db). in_id j = cl_install x \<and> set scope \<subseteq> set (in_tenants j)))" for v :: "int option"
      using c i by metis
    show ?thesis
      unfolding gateways_ok_def
    proof (intro ballI allI impI)
      fix s k assume "s \<in> set gs" "gr_cluster s = Some k"
      then consider "s = r\<lparr>gr_tenants := scope\<rparr>" "k = cl_id c" | "s \<in> set (rg_gateways db)"
        using r(2) by (auto simp: gs in_update_where split: if_splits)
      then show "\<exists>x \<in> set (rg_clusters db). cl_id x = k \<and> (gr_revoked s = None \<longrightarrow> cl_revoked x = None \<and>
          (\<exists>j \<in> set (rg_installs db). in_id j = cl_install x \<and> set (gr_tenants s) \<subseteq> set (in_tenants j)))"
      proof cases
        case 1
        with x show ?thesis by simp
      next
        case 2
        with ok \<open>gr_cluster s = Some k\<close> show ?thesis by (simp add: registry_ok_def gateways_ok_def)
      qed
    qed
  qed
  ultimately show ?thesis using ok by (simp add: registry_ok_def ids_ok_def one_gateway_def)
qed

lemma filter_single: "filter p xs = [y] \<Longrightarrow> y \<in> set xs \<and> p y"
proof -
  assume "filter p xs = [y]"
  then have "y \<in> set (filter p xs)" by simp
  then show ?thesis by simp
qed

lemma place_cluster_ok:
  assumes "place_cluster now fr i external provider region scope db = Inr ((c, r, created, adopted), db')"
    and ok: "registry_ok db" and fr: "fresh_for fr db"
    and i: "i \<in> set (rg_installs db)" "in_revoked i = None" "set scope \<subseteq> set (in_tenants i)"
  shows "registry_ok db' \<and> r \<in> set (rg_gateways db') \<and> gr_tenants r = scope \<and> linked (cl_id c) r"
proof (cases "find_cluster db i external")
  case (Some c0)
  note c0 = find_clusterD [OF Some]
  let ?db1 = "db\<lparr>rg_clusters := update_where (\<lambda>x. cl_id x = cl_id c0)
       (\<lambda>_. c0\<lparr>cl_provider := provider, cl_region := region\<rparr>) (rg_clusters db)\<rparr>"
  from assms(1) Some obtain r0 where r0: "active_registration ?db1 (cl_id c0) = Some r0"
    and r: "r = r0\<lparr>gr_tenants := scope\<rparr>" and c: "c = c0\<lparr>cl_provider := provider, cl_region := region\<rparr>"
    and db': "db' = ?db1\<lparr>rg_gateways := update_where (\<lambda>x. gr_id x = gr_id r0) (\<lambda>_. r) (rg_gateways ?db1)\<rparr>"
    by (auto simp: place_cluster_def Let_def split: option.splits)
  have dc: "distinct (map cl_id (rg_clusters db))" using ok by (simp add: registry_ok_def ids_ok_def)
  have place: "map cluster_place (rg_clusters ?db1) = map cluster_place (rg_clusters db)"
    using same_row [OF dc _ conjunct1 [OF c0]]
    by simp (rule map_update_same, auto simp: cluster_place_def)
  have ok1: "registry_ok ?db1" using ok registry_ok_place [OF place] by simp
  have c': "c \<in> set (rg_clusters ?db1)" using c0 by (auto simp: c in_update_where)
  note r0' = active_registrationD [OF r0]
  have "registry_ok db'"
    unfolding db' r using rescope_ok [OF ok1 _ _ _ c' _ _ i(3), of r0] r0' c0 i c by simp
  moreover have "r \<in> set (rg_gateways db')" using r0' by (auto simp: db' in_update_where)
  ultimately show ?thesis using r r0' c by (simp add: linked_def)
next
  case None
  let ?c = "\<lparr>cl_id = fr_id fr, cl_install = in_id i, cl_external = external, cl_provider = provider,
     cl_region = region, cl_health = ''unknown'', cl_seen = None, cl_version = [],
     cl_counters = [], cl_instances = [], cl_revoked = None\<rparr>"
  let ?db1 = "db\<lparr>rg_clusters := rg_clusters db @ [?c]\<rparr>"
  from assms(1) None have reg: "registration_for_new_cluster now fr ?c scope ?db1 = ((r, adopted), db')" and c: "c = ?c"
    by (auto simp: place_cluster_def Let_def split: prod.splits)
  have new: "cl_id ?c \<notin> cl_id ` set (rg_clusters db)" and newg: "fr_gateway fr \<notin> gr_id ` set (rg_gateways db)"
    using fr by (simp_all add: fresh_for_def)
  have db': "rg_installs db' = rg_installs db" "rg_clusters db' = rg_clusters db @ [?c]" "rg_agents db' = rg_agents db"
    using reg by (auto simp: registration_for_new_cluster_def Let_def split: list.splits if_splits)
  have r: "gr_cluster r = Some (cl_id ?c)" "gr_revoked r = None" "gr_tenants r = scope"
    using reg
    by (auto simp: registration_for_new_cluster_def Let_def split: list.splits if_splits dest!: filter_single)
      (auto simp: adoptable_def)
  have "rg_gateways db' = rg_gateways db @ [r] \<and> gr_id r = fr_gateway fr \<or>
      (\<exists>s \<in> set (rg_gateways db). gr_cluster s = None \<and> gr_id r = gr_id s \<and>
         rg_gateways db' = update_where (\<lambda>x. gr_id x = gr_id s) (\<lambda>_. r) (rg_gateways db))"
    using reg
    by (auto simp: registration_for_new_cluster_def Let_def split: list.splits if_splits
        dest!: filter_single) (auto simp: adoptable_def)
  then show ?thesis
  proof (elim disjE conjE bexE)
    assume gs: "rg_gateways db' = rg_gateways db @ [r]" and id: "gr_id r = fr_gateway fr"
    note own = own_registration [OF ok new r(1,2) newg [folded id]]
    have "registry_ok db'"
      by (rule new_cluster_ok [OF ok new _ i(1) _ i(2) r(1,2) _ own(1) _ own(2,3) db'(1,2) gs db'(3)])
        (use r i in auto)
    then show ?thesis using r gs c by (simp add: linked_def)
  next
    fix s assume s: "s \<in> set (rg_gateways db)" "gr_cluster s = None" "gr_id r = gr_id s"
      and gs: "rg_gateways db' = update_where (\<lambda>x. gr_id x = gr_id s) (\<lambda>_. r) (rg_gateways db)"
    note ad = adopted_registration [OF ok new s(1,2) r(1,2) s(3) gs]
    have "registry_ok db'"
      by (rule new_cluster_ok [OF ok new _ i(1) _ i(2) r(1,2) _ ad(1,2,3,4) db'(1,2) refl db'(3)])
        (use r i in auto)
    then show ?thesis using r gs c s by (auto simp: linked_def in_update_where)
  qed
qed

lemma register_cluster_ok:
  assumes "register_cluster E now fr k external provider region requested db = Inr (x, db')"
    "registry_ok db" "fresh_for fr db"
  shows "registry_ok db'"
proof -
  obtain i scope c r created adopted db1 where i: "locked_install db k = Inr i"
    and s: "cluster_scope i requested = Inr scope"
    and p: "place_cluster now fr i external provider region scope db = Inr ((c, r, created, adopted), db1)"
    and db': "rg_installs db' = rg_installs db1" "rg_clusters db' = rg_clusters db1"
      "rg_gateways db' = rg_gateways db1" "rg_agents db' = rg_agents db1"
    using assms(1) by (auto simp: register_cluster_def Let_def case_prod_beta)
  from locked_installD [OF i] cluster_scope_subset [OF s]
  have "registry_ok db1" by (intro conjunct1 [OF place_cluster_ok [OF p assms(2,3)]]) simp_all
  with db' show ?thesis using registry_ok_cong by metis
qed

lemma rotate_cluster_ok:
  assumes "rotate_cluster E now fr k external overlap via db = Inr (x, db')" "registry_ok db"
  shows "registry_ok db'"
proof -
  have "rg_installs db' = rg_installs db" "rg_clusters db' = rg_clusters db"
    "rg_gateways db' = rg_gateways db" "rg_agents db' = rg_agents db"
    using assms(1)
    by (auto simp: rotate_cluster_def Let_def case_prod_beta split: option.splits)
  with assms(2) show ?thesis using registry_ok_cong by metis
qed

section \<open>Revoking\<close>

text \<open>Clusters that are revoked together with the live registrations linked to them.\<close>

lemma revoke_tables:
  assumes ok: "registry_ok db"
    and P: "\<And>c d. c \<in> set (rg_clusters db) \<Longrightarrow> d \<in> set (rg_clusters db) \<Longrightarrow> cl_id c = cl_id d \<Longrightarrow> P c = P d"
    and Q: "\<And>r. r \<in> set (rg_gateways db) \<Longrightarrow>
       Q r \<longleftrightarrow> gr_revoked r = None \<and> (\<exists>c \<in> set (rg_clusters db). P c \<and> gr_cluster r = Some (cl_id c))"
    and cs: "cs = update_where P (\<lambda>c. c\<lparr>cl_revoked := Some now\<rparr>) (rg_clusters db)"
    and gs: "gs = update_where Q (\<lambda>r. r\<lparr>gr_revoked := Some now\<rparr>) (rg_gateways db)"
  shows "registry_ok (db\<lparr>rg_clusters := cs, rg_gateways := gs\<rparr>)"
proof -
  have ids: "map cl_id cs = map cl_id (rg_clusters db)" "map gr_id gs = map gr_id (rg_gateways db)"
    by (simp_all add: cs gs map_update_where)
  have "clusters_ok (rg_installs db) cs"
    using ok by (fastforce simp: registry_ok_def clusters_ok_def cs in_update_where)
  moreover have "gateways_ok (rg_installs db) cs gs"
    unfolding gateways_ok_def
  proof (intro ballI allI impI)
    fix s k assume "s \<in> set gs" and k: "gr_cluster s = Some k"
    then obtain r where r: "r \<in> set (rg_gateways db)" "gr_cluster r = Some k"
      and s: "s = (if Q r then r\<lparr>gr_revoked := Some now\<rparr> else r)"
      by (auto simp: gs in_update_where split: if_splits)
    from ok r obtain c where c: "c \<in> set (rg_clusters db)" "cl_id c = k"
      and live: "gr_revoked r = None \<Longrightarrow> cl_revoked c = None \<and>
        (\<exists>i \<in> set (rg_installs db). in_id i = cl_install c \<and> set (gr_tenants r) \<subseteq> set (in_tenants i))"
      unfolding registry_ok_def gateways_ok_def by meson
    let ?c = "if P c then c\<lparr>cl_revoked := Some now\<rparr> else c"
    have "?c \<in> set cs" using c(1) by (auto simp: cs in_update_where)
    moreover have "gr_revoked s = None \<Longrightarrow> \<not> P c \<and> gr_revoked r = None \<and> s = r"
      using s Q [OF r(1)] c r(2) by (auto split: if_splits)
    ultimately show "\<exists>x \<in> set cs. cl_id x = k \<and> (gr_revoked s = None \<longrightarrow> cl_revoked x = None \<and>
         (\<exists>i \<in> set (rg_installs db). in_id i = cl_install x \<and> set (gr_tenants s) \<subseteq> set (in_tenants i)))"
      using c(2) live by (intro bexI [of _ ?c]) auto
  qed
  moreover have "one_gateway cs gs"
    unfolding one_gateway_def
  proof (intro ballI impI)
    fix x assume "x \<in> set cs" "cl_revoked x = None"
    then obtain y where y: "y \<in> set (rg_clusters db)" "x = (if P y then y\<lparr>cl_revoked := Some now\<rparr> else y)"
      by (auto simp: cs in_update_where)
    with \<open>cl_revoked x = None\<close> have x: "x \<in> set (rg_clusters db)" "\<not> P x" by (auto split: if_splits)
    have "length (filter (linked (cl_id x)) gs) = length (filter (linked (cl_id x)) (rg_gateways db))"
      unfolding gs
    proof (rule length_filter_update)
      fix r assume r: "r \<in> set (rg_gateways db)" "Q r"
      with Q obtain c where "c \<in> set (rg_clusters db)" "P c" "gr_cluster r = Some (cl_id c)" by blast
      with P [OF _ x(1)] x(2) have "gr_cluster r \<noteq> Some (cl_id x)" by auto
      then show "linked (cl_id x) (r\<lparr>gr_revoked := Some now\<rparr>) = linked (cl_id x) r" by (simp add: linked_def)
    qed
    with ok x \<open>cl_revoked x = None\<close> show "length (filter (linked (cl_id x)) gs) = 1"
      by (simp add: registry_ok_def one_gateway_def)
  qed
  ultimately show ?thesis using ok ids by (simp add: registry_ok_def ids_ok_def)
qed

lemma revoke_cluster_ok:
  assumes "revoke_cluster now k via db = Inr (x, db')" and ok: "registry_ok db"
  shows "registry_ok db'"
proof -
  obtain c where c: "c \<in> set (rg_clusters db)" "cl_id c = k"
    and cases: "db' = db \<or> rg_installs db' = rg_installs db \<and> rg_agents db' = rg_agents db
      \<and> rg_clusters db' = update_where (\<lambda>x. cl_id x = cl_id c) (\<lambda>_. c\<lparr>cl_revoked := Some now\<rparr>) (rg_clusters db)
      \<and> rg_gateways db' = update_where (\<lambda>x. gr_id x \<in> gr_id ` set (registrations_of db (cl_id c)))
          (\<lambda>x. x\<lparr>gr_revoked := Some now\<rparr>) (rg_gateways db)"
    using assms(1) by (auto simp: revoke_cluster_def Let_def split: option.splits if_splits dest!: find_in)
  have d: "distinct (map cl_id (rg_clusters db))" "distinct (map gr_id (rg_gateways db))"
    using ok by (simp_all add: registry_ok_def ids_ok_def)
  have cs: "update_where (\<lambda>x. cl_id x = cl_id c) (\<lambda>_. c\<lparr>cl_revoked := Some now\<rparr>) (rg_clusters db)
      = update_where (\<lambda>x. cl_id x = cl_id c) (\<lambda>x. x\<lparr>cl_revoked := Some now\<rparr>) (rg_clusters db)"
    using same_row [OF d(1) _ c(1)] by (auto simp: update_where_def)
  let ?Q = "\<lambda>x. gr_id x \<in> gr_id ` set (registrations_of db (cl_id c))"
  have Q: "?Q r \<longleftrightarrow> gr_revoked r = None \<and> (\<exists>y \<in> set (rg_clusters db). cl_id y = cl_id c \<and> gr_cluster r = Some (cl_id y))"
    if "r \<in> set (rg_gateways db)" for r
    using same_row [OF d(2) that] that c(1) by (auto simp: registrations_of_def)
  let ?db = "db\<lparr>rg_clusters := update_where (\<lambda>x. cl_id x = cl_id c) (\<lambda>x. x\<lparr>cl_revoked := Some now\<rparr>) (rg_clusters db),
      rg_gateways := update_where ?Q (\<lambda>x. x\<lparr>gr_revoked := Some now\<rparr>) (rg_gateways db)\<rparr>"
  have "registry_ok ?db"
    by (rule revoke_tables [OF ok _ Q refl refl]) simp_all
  moreover have "db' = db \<or> registry_ok db' = registry_ok ?db"
    using cases unfolding cs by (elim disjE conjE) (simp, intro disjI2 registry_ok_cong, simp_all)
  ultimately show ?thesis using ok by blast
qed

section \<open>Disconnecting\<close>

text \<open>An install below which nothing is live is revoked.\<close>

lemma retire_install:
  assumes ok: "registry_ok db" and i: "i \<in> set (rg_installs db)"
    and dead: "\<And>c. c \<in> set (rg_clusters db) \<Longrightarrow> cl_install c = in_id i \<Longrightarrow> cl_revoked c \<noteq> None"
    and stopped: "\<And>a. a \<in> set (rg_agents db) \<Longrightarrow> ag_install a = Some (in_id i) \<Longrightarrow> \<not> usable_status (ag_status a)"
  shows "registry_ok (db\<lparr>rg_installs := update_where (\<lambda>x. in_id x = in_id i) (\<lambda>_. i\<lparr>in_revoked := Some now\<rparr>) (rg_installs db)\<rparr>)"
proof -
  let ?i = "i\<lparr>in_revoked := Some now\<rparr>"
  let ?is = "update_where (\<lambda>x. in_id x = in_id i) (\<lambda>_. ?i) (rg_installs db)"
  have d: "distinct (map in_id (rg_installs db))" using ok by (simp add: registry_ok_def ids_ok_def)
  have only: "x = i" if "x \<in> set (rg_installs db)" "in_id x = in_id i" for x
    using same_row [OF d that(1) i that(2)] .
  have ids: "map in_id ?is = map in_id (rg_installs db)" by (rule map_update_same) simp
  have image: "\<exists>j' \<in> set ?is. in_id j' = in_id j \<and> in_tenants j' = in_tenants j
      \<and> (in_id j \<noteq> in_id i \<longrightarrow> in_revoked j' = in_revoked j)" if "j \<in> set (rg_installs db)" for j
  proof -
    have "(if in_id j = in_id i then ?i else j) \<in> set ?is" using that by (auto simp: in_update_where)
    with only [OF that] show ?thesis by (intro bexI [of _ "if in_id j = in_id i then ?i else j"]) auto
  qed
  have "clusters_ok ?is (rg_clusters db)"
    unfolding clusters_ok_def
  proof
    fix c assume c: "c \<in> set (rg_clusters db)"
    with ok obtain j where j: "j \<in> set (rg_installs db)" "in_id j = cl_install c"
      "cl_revoked c = None \<longrightarrow> in_revoked j = None" unfolding registry_ok_def clusters_ok_def by meson
    from image [OF j(1)] j dead [OF c]
    show "\<exists>j \<in> set ?is. in_id j = cl_install c \<and> (cl_revoked c = None \<longrightarrow> in_revoked j = None)" by metis
  qed
  moreover have "gateways_ok ?is (rg_clusters db) (rg_gateways db)"
    unfolding gateways_ok_def
  proof (intro ballI allI impI)
    fix r k assume r: "r \<in> set (rg_gateways db)" "gr_cluster r = Some k"
    with ok obtain c where c: "c \<in> set (rg_clusters db)" "cl_id c = k" "gr_revoked r = None \<longrightarrow> cl_revoked c = None \<and>
        (\<exists>j \<in> set (rg_installs db). in_id j = cl_install c \<and> set (gr_tenants r) \<subseteq> set (in_tenants j))"
      unfolding registry_ok_def gateways_ok_def by meson
    with image show "\<exists>c \<in> set (rg_clusters db). cl_id c = k \<and> (gr_revoked r = None \<longrightarrow> cl_revoked c = None \<and>
        (\<exists>j \<in> set ?is. in_id j = cl_install c \<and> set (gr_tenants r) \<subseteq> set (in_tenants j)))" by metis
  qed
  moreover have "agents_ok ?is (rg_agents db)"
    unfolding agents_ok_def
  proof (intro ballI allI impI)
    fix a k assume a: "a \<in> set (rg_agents db)" "ag_install a = Some k"
    with ok obtain j where j: "j \<in> set (rg_installs db)" "in_id j = k" "ag_tenant a \<in> set (in_tenants j)"
      "usable_status (ag_status a) \<longrightarrow> in_revoked j = None" unfolding registry_ok_def agents_ok_def by meson
    from image [OF j(1)] j stopped [OF a(1)] a(2)
    show "\<exists>j \<in> set ?is. in_id j = k \<and> ag_tenant a \<in> set (in_tenants j)
        \<and> (usable_status (ag_status a) \<longrightarrow> in_revoked j = None)" by metis
  qed
  ultimately show ?thesis using ok ids by (simp add: registry_ok_def ids_ok_def)
qed

text \<open>Agents keep their install and tenant, and none comes back to life.\<close>

lemma calmer_agents_ok:
  assumes "agents_ok is as"
    and "\<And>b. b \<in> set bs \<Longrightarrow> \<exists>a \<in> set as. ag_install b = ag_install a \<and> ag_tenant b = ag_tenant a
       \<and> (usable_status (ag_status b) \<longrightarrow> usable_status (ag_status a))"
  shows "agents_ok is bs"
  using assms unfolding agents_ok_def by metis

lemma calmer_update_ok:
  assumes "agents_ok is as"
    and f: "\<And>a. a \<in> set as \<Longrightarrow> p a \<Longrightarrow> ag_install (f a) = ag_install a \<and> ag_tenant (f a) = ag_tenant a
       \<and> (usable_status (ag_status (f a)) \<longrightarrow> usable_status (ag_status a))"
  shows "agents_ok is (update_where p f as)"
proof (rule calmer_agents_ok [OF assms(1)])
  fix b assume "b \<in> set (update_where p f as)"
  then obtain a where a: "a \<in> set as" "b = (if p a then f a else a)" by (auto simp: in_update_where)
  with f [OF a(1)] show "\<exists>a \<in> set as. ag_install b = ag_install a \<and> ag_tenant b = ag_tenant a
       \<and> (usable_status (ag_status b) \<longrightarrow> usable_status (ag_status a))"
    by (intro bexI [of _ a]) auto
qed

lemma disconnect_install_tables:
  assumes "disconnect_install now k via db = Inr (x, db')"
  obtains i where "i \<in> set (rg_installs db)" "in_id i = k" "in_revoked i \<noteq> None" "db' = db"
  | i where "i \<in> set (rg_installs db)" "in_id i = k" "in_revoked i = None"
    "rg_gateways db' = update_where (\<lambda>r. of_install db k r \<and> gr_revoked r = None)
       (\<lambda>r. r\<lparr>gr_revoked := Some now\<rparr>) (rg_gateways db)"
    "rg_clusters db' = update_where (\<lambda>c. cl_install c = k \<and> cl_revoked c = None)
       (\<lambda>c. c\<lparr>cl_revoked := Some now\<rparr>) (rg_clusters db)"
    "rg_agents db' = update_where (\<lambda>a. agent_of_install i a \<and> ag_status a \<noteq> Terminated)
       (\<lambda>a. a\<lparr>ag_status := Terminated, ag_revoked := None\<rparr>) (rg_agents db)"
    "rg_installs db' = update_where (\<lambda>x. in_id x = k) (\<lambda>_. i\<lparr>in_revoked := Some now\<rparr>) (rg_installs db)"
proof -
  from assms obtain i where i: "List.find (\<lambda>i. in_id i = k) (rg_installs db) = Some i"
    by (auto simp: disconnect_install_def split: option.splits)
  note i' = find_in [OF i]
  show ?thesis
  proof (cases "install_active i")
    case True
    with assms i i' show ?thesis
      by (intro that(2) [of i]) (auto simp: disconnect_install_def Let_def install_active_def)
  next
    case False
    with assms i i' show ?thesis
      by (intro that(1) [of i]) (auto simp: disconnect_install_def install_active_def)
  qed
qed

lemma disconnect_install_ok:
  assumes "disconnect_install now k via db = Inr (x, db')" and ok: "registry_ok db"
  shows "registry_ok db'"
  using assms(1)
proof (cases rule: disconnect_install_tables)
  case (1 i)
  with ok show ?thesis by simp
next
  case (2 i)
  have d: "distinct (map cl_id (rg_clusters db))" "distinct (map in_id (rg_installs db))"
    using ok by (simp_all add: registry_ok_def ids_ok_def)
  let ?P = "\<lambda>c. cl_install c = k \<and> cl_revoked c = None"
  let ?Q = "\<lambda>r. of_install db k r \<and> gr_revoked r = None"
  have P: "?P c = ?P e" if "c \<in> set (rg_clusters db)" "e \<in> set (rg_clusters db)" "cl_id c = cl_id e" for c e
    using same_row [OF d(1) that] by simp
  have Q: "?Q r \<longleftrightarrow> gr_revoked r = None \<and> (\<exists>c \<in> set (rg_clusters db). ?P c \<and> gr_cluster r = Some (cl_id c))"
    if r: "r \<in> set (rg_gateways db)" for r
  proof -
    have "cl_revoked c = None" if "c \<in> set (rg_clusters db)" "gr_cluster r = Some (cl_id c)" "gr_revoked r = None" for c
    proof -
      from ok r that obtain c' where "c' \<in> set (rg_clusters db)" "cl_id c' = cl_id c" "cl_revoked c' = None"
        unfolding registry_ok_def gateways_ok_def by meson
      with same_row [OF d(1) _ that(1)] show ?thesis by metis
    qed
    then show ?thesis by (auto simp: of_install_def list_ex_iff split: option.splits)
  qed
  let ?db1 = "db\<lparr>rg_clusters := rg_clusters db', rg_gateways := rg_gateways db'\<rparr>"
  have ok1: "registry_ok ?db1" unfolding 2(4,5) by (rule revoke_tables [OF ok P Q refl refl])
  let ?db2 = "?db1\<lparr>rg_agents := rg_agents db'\<rparr>"
  have tenant: "ag_tenant a \<in> set (in_tenants i)" if "a \<in> set (rg_agents db)" "ag_install a = Some k" for a
  proof -
    from ok that obtain j where "j \<in> set (rg_installs db)" "in_id j = k" "ag_tenant a \<in> set (in_tenants j)"
      unfolding registry_ok_def agents_ok_def by meson
    with same_row [OF d(2) _ 2(1)] 2(2) show ?thesis by metis
  qed
  have "agents_ok (rg_installs db) (rg_agents db')"
    using ok unfolding 2(6) by (intro calmer_update_ok) (simp_all add: registry_ok_def usable_status_def)
  moreover have "map ag_id (rg_agents db') = map ag_id (rg_agents db)"
    unfolding 2(6) by (rule map_update_where) simp
  ultimately have ok2: "registry_ok ?db2" using ok1 by (simp add: registry_ok_def ids_ok_def)
  have "registry_ok (?db2\<lparr>rg_installs := rg_installs db'\<rparr>)"
    unfolding 2(7) 2(2) [symmetric]
  proof (rule retire_install [OF ok2, of i, simplified])
    show "i \<in> set (rg_installs db)" by (rule 2(1))
    fix c assume "c \<in> set (rg_clusters db')" and k: "cl_install c = in_id i"
    then obtain e where "e \<in> set (rg_clusters db)" "c = (if ?P e then e\<lparr>cl_revoked := Some now\<rparr> else e)"
      unfolding 2(5) in_update_where by blast
    with k 2(2) show "\<exists>y. cl_revoked c = Some y" by (cases "?P e") auto
  next
    fix a assume "a \<in> set (rg_agents db')" and k: "ag_install a = Some (in_id i)"
    then obtain e where "e \<in> set (rg_agents db)" "a = (if agent_of_install i e \<and> ag_status e \<noteq> Terminated
        then e\<lparr>ag_status := Terminated, ag_revoked := None\<rparr> else e)"
      unfolding 2(6) in_update_where by blast
    with k 2(2) tenant [of e] show "\<not> usable_status (ag_status a)"
      by (cases "ag_status e = Terminated") (auto simp: usable_status_def agent_of_install_def)
  qed
  then show ?thesis by (subst registry_ok_cong [of db' "?db2\<lparr>rg_installs := rg_installs db'\<rparr>"]) simp_all
qed

end
