(* ===== verification/AstroliftReach.thy ===== *)
theory AstroliftReach
  imports AstroliftSteps
begin

text \<open>
  The agent keys, heartbeats, stops and operator commands keep the invariant too; the step relation
  of the whole registry and the states it reaches.
\<close>

section \<open>Agents\<close>

lemma put_agent_tables [simp]:
  "rg_installs (put_agent a db) = rg_installs db" "rg_clusters (put_agent a db) = rg_clusters db"
  "rg_gateways (put_agent a db) = rg_gateways db" "rg_creds (put_agent a db) = rg_creds db"
  "rg_codes (put_agent a db) = rg_codes db" "rg_trail (put_agent a db) = rg_trail db"
  by (simp_all add: put_agent_def)

lemma map_id_put_agent: "map ag_id (rg_agents (put_agent a db)) = map ag_id (rg_agents db)"
  unfolding put_agent_def by (simp, rule map_update_same) simp

lemma in_put_agent: "b \<in> set (rg_agents (put_agent a db)) \<longleftrightarrow>
    (b = a \<and> (\<exists>c \<in> set (rg_agents db). ag_id c = ag_id a)) \<or> (b \<in> set (rg_agents db) \<and> ag_id b \<noteq> ag_id a)"
  by (auto simp: put_agent_def in_update_where)

text \<open>A row in place of its earlier self, allowed where it stands.\<close>

definition placed :: "install_row list \<Rightarrow> agent_row \<Rightarrow> bool" where
  "placed is a \<longleftrightarrow> (\<forall>k. ag_install a = Some k \<longrightarrow>
     (\<exists>i \<in> set is. in_id i = k \<and> ag_tenant a \<in> set (in_tenants i) \<and> (usable_status (ag_status a) \<longrightarrow> in_revoked i = None)))"

lemma agents_placed: "agents_ok is as \<longleftrightarrow> (\<forall>a \<in> set as. placed is a)"
  by (simp add: agents_ok_def placed_def)

lemma put_agent_ok: "registry_ok db \<Longrightarrow> placed (rg_installs db) a \<Longrightarrow> registry_ok (put_agent a db)"
  by (auto simp: registry_ok_def ids_ok_def map_id_put_agent agents_placed in_put_agent)

lemma calmer_placed:
  "registry_ok db \<Longrightarrow> a \<in> set (rg_agents db) \<Longrightarrow> ag_install b = ag_install a \<Longrightarrow> ag_tenant b = ag_tenant a \<Longrightarrow>
   (usable_status (ag_status b) \<Longrightarrow> usable_status (ag_status a)) \<Longrightarrow> placed (rg_installs db) b"
  unfolding registry_ok_def agents_placed placed_def by metis

lemma agent_tenantD: "agent_tenant i t = Inr tenant \<Longrightarrow> tenant \<in> set (in_tenants i)"
  by (auto simp: agent_tenant_def split: if_splits list.splits)

lemma existing_agentD:
  "existing_agent db t n = Some a \<Longrightarrow> a \<in> set (rg_agents db) \<and> ag_tenant a = t \<and> ag_agent_id a = n"
  by (auto simp: existing_agent_def dest: find_in)

text \<open>What a successful mint did.\<close>

lemma mint_agent_keyD:
  assumes "mint_agent_key E now fr k mr db = Inr ((a, plain, created), db')"
  obtains i tenant cl where "i \<in> set (rg_installs db)" "in_id i = k" "in_revoked i = None"
      "tenant \<in> set (in_tenants i)" "valid_ttl (mr_ttl mr)" "created" "existing_agent db tenant (mr_agent mr) = None"
      "a = new_agent now fr i mr tenant cl (snd (agent_generate (e_keys E) (fr_raw fr) (fr_salt fr)))
         (min (now + mr_ttl mr) (now + e_lifetime E))"
      "rg_agents db' = rg_agents db @ [a]" "rg_installs db' = rg_installs db" "rg_clusters db' = rg_clusters db"
      "rg_gateways db' = rg_gateways db" "rg_creds db' = rg_creds db" "rg_codes db' = rg_codes db"
  | i tenant cl old where "i \<in> set (rg_installs db)" "in_id i = k" "in_revoked i = None"
      "tenant \<in> set (in_tenants i)" "valid_ttl (mr_ttl mr)" "\<not> created" "existing_agent db tenant (mr_agent mr) = Some old"
      "ag_install old = Some k" "\<not> stopped_by_others old"
      "a = reminted_agent now mr cl (snd (agent_generate (e_keys E) (fr_raw fr) (fr_salt fr)))
         (min (now + mr_ttl mr) (now + e_lifetime E)) old"
      "rg_agents db' = rg_agents (put_agent a db)" "rg_installs db' = rg_installs db" "rg_clusters db' = rg_clusters db"
      "rg_gateways db' = rg_gateways db" "rg_creds db' = rg_creds db" "rg_codes db' = rg_codes db"
proof -
  let ?g = "agent_generate (e_keys E) (fr_raw fr) (fr_salt fr)"
  obtain i tenant cl where i: "locked_install db k = Inr i" and t: "agent_tenant i (mr_tenant mr) = Inr tenant"
    and c: "mint_cluster db i (mr_cluster mr) tenant = Inr cl" and v: "valid_ttl (mr_ttl mr)"
    using assms by (auto simp: mint_agent_key_def Let_def case_prod_beta split: if_splits)
  note i' = locked_installD [OF i]
  show ?thesis
  proof (cases "existing_agent db tenant (mr_agent mr)")
    case None
    with assms i t c v have "created \<and> a = new_agent now fr i mr tenant cl (snd ?g) (min (now + mr_ttl mr) (now + e_lifetime E))
        \<and> rg_agents db' = rg_agents db @ [a] \<and> rg_installs db' = rg_installs db \<and> rg_clusters db' = rg_clusters db
        \<and> rg_gateways db' = rg_gateways db \<and> rg_creds db' = rg_creds db \<and> rg_codes db' = rg_codes db"
      by (auto simp: mint_agent_key_def Let_def case_prod_beta)
    with None i' agent_tenantD [OF t] v show ?thesis by (intro that(1)) auto
  next
    case (Some old)
    with assms i t c v have "\<not> created \<and> ag_install old = Some (in_id i) \<and> \<not> stopped_by_others old
        \<and> a = reminted_agent now mr cl (snd ?g) (min (now + mr_ttl mr) (now + e_lifetime E)) old
        \<and> rg_agents db' = rg_agents (put_agent a db) \<and> rg_installs db' = rg_installs db \<and> rg_clusters db' = rg_clusters db
        \<and> rg_gateways db' = rg_gateways db \<and> rg_creds db' = rg_creds db \<and> rg_codes db' = rg_codes db"
      by (auto simp: mint_agent_key_def Let_def case_prod_beta split: if_splits)
    with Some i' agent_tenantD [OF t] v show ?thesis by (intro that(2)) auto
  qed
qed

lemma mint_agent_key_ok:
  assumes "mint_agent_key E now fr k mr db = Inr (x, db')" and ok: "registry_ok db" and fr: "fresh_for fr db"
  shows "registry_ok db'"
proof -
  obtain a plain created where x: "x = (a, plain, created)" by (cases x)
  from assms(1) [unfolded x] show ?thesis
  proof (cases rule: mint_agent_keyD)
    case (1 i tenant cl)
    have "placed (rg_installs db) a" using 1(1-4) by (auto simp: 1(8) placed_def new_agent_def)
    moreover have "ag_id a = fr_id fr" by (simp add: 1(8) new_agent_def)
    ultimately show ?thesis
      using ok fr 1(9-12) by (auto simp: registry_ok_def ids_ok_def agents_placed fresh_for_def)
  next
    case (2 i tenant cl old)
    have "placed (rg_installs db) a"
      using 2(1-4,8) existing_agentD [OF 2(7)] by (auto simp: 2(10) placed_def reminted_agent_def)
    from put_agent_ok [OF ok this] 2(11-14) show ?thesis
      by (subst registry_ok_cong [of db' "put_agent a db"]) simp_all
  qed
qed

lemma one_install_agentD: "one_install_agent found n = Inr a \<Longrightarrow> found = [a]"
  by (auto simp: one_install_agent_def split: list.splits)

lemma one_installed:
  "one_install_agent (install_agents db i n t) n = Inr a \<Longrightarrow> a \<in> set (rg_agents db) \<and> agent_of_install i a \<and> ag_agent_id a = n"
  using filter_single by (fastforce simp: install_agents_def dest: one_install_agentD)

lemma renew_agent_keyD:
  assumes "renew_agent_key E now i n ttl t db = Inr (a', db')"
  obtains a e where "a \<in> set (rg_agents db)" "ag_status a = Active" "ag_expires a = Some e" "now < e"
    "a' = fst (renewed_agent E now ttl a)" "valid_ttl ttl"
    "rg_agents db' = rg_agents (put_agent a' db)" "rg_installs db' = rg_installs db" "rg_clusters db' = rg_clusters db"
    "rg_gateways db' = rg_gateways db" "rg_creds db' = rg_creds db" "rg_codes db' = rg_codes db"
    "\<exists>a0. ag_id a0 = ag_id a \<and> one_install_agent (install_agents db i n t) n = Inr a0"
  using assms
  by (auto simp: renew_agent_key_def Let_def case_prod_beta split: if_splits option.splits dest!: find_in intro!: that)

lemma renewed_same [simp]:
  "ag_install (fst (renewed_agent E now ttl a)) = ag_install a" "ag_tenant (fst (renewed_agent E now ttl a)) = ag_tenant a"
  "ag_status (fst (renewed_agent E now ttl a)) = ag_status a" "ag_id (fst (renewed_agent E now ttl a)) = ag_id a"
  "ag_revoked (fst (renewed_agent E now ttl a)) = ag_revoked a" "ag_issued (fst (renewed_agent E now ttl a)) = ag_issued a"
  "ag_agent_id (fst (renewed_agent E now ttl a)) = ag_agent_id a"
  by (simp_all add: renewed_agent_def Let_def)

lemma renew_agent_key_ok:
  assumes "renew_agent_key E now i n ttl t db = Inr (a', db')" and ok: "registry_ok db"
  shows "registry_ok db'"
  using assms(1)
proof (cases rule: renew_agent_keyD)
  case (1 a e)
  have "placed (rg_installs db) a'" unfolding 1(5) by (rule calmer_placed [OF ok 1(1)]) simp_all
  from put_agent_ok [OF ok this] 1(7-10) show ?thesis
    by (subst registry_ok_cong [of db' "put_agent a' db"]) simp_all
qed

lemma revoke_agent_keyD:
  assumes "revoke_agent_key now i n t db = Inr (a', db')"
  obtains "db' = db"
  | a where "a \<in> set (rg_agents db)" "ag_status a = Active" "a' = a\<lparr>ag_status := Terminated, ag_revoked := Some now\<rparr>"
    "agent_of_install i a"
    "rg_agents db' = rg_agents (put_agent a' db)" "rg_installs db' = rg_installs db" "rg_clusters db' = rg_clusters db"
    "rg_gateways db' = rg_gateways db" "rg_creds db' = rg_creds db" "rg_codes db' = rg_codes db"
  using assms one_installed
  by (fastforce simp: revoke_agent_key_def Let_def split: if_splits)

lemma revoke_agent_key_ok:
  assumes "revoke_agent_key now i n t db = Inr (a', db')" and ok: "registry_ok db"
  shows "registry_ok db'"
  using assms(1)
proof (cases rule: revoke_agent_keyD)
  case 1
  with ok show ?thesis by simp
next
  case (2 a)
  have "placed (rg_installs db) a'"
    unfolding 2(3) by (rule calmer_placed [OF ok 2(1)]) (simp_all add: usable_status_def)
  from put_agent_ok [OF ok this] 2(5-8) show ?thesis
    by (subst registry_ok_cong [of db' "put_agent a' db"]) simp_all
qed

lemma stops_stopped:
  assumes "b \<in> set (stops a)"
  shows "ag_id b = ag_id a" "ag_install b = ag_install a" "ag_tenant b = ag_tenant a" "ag_revoked b = None"
    "ag_status b = Suspended \<or> ag_status b = Terminated" "ag_issued b = ag_issued a" "ag_expires b = ag_expires a"
    "ag_audited b = ag_audited a"
  using assms
  by (auto simp: stops_def suspend_endpoint_def operator_revoke_def kill_switch_def control_suspend_def
      set_endpoint_status_def deregister_def split: if_splits)

section \<open>Heartbeats and gateways\<close>

lemma record_heartbeat_ok:
  assumes "record_heartbeat now c r k h v cts n db = Inr (u, db')" and ok: "registry_ok db"
  shows "registry_ok db'"
proof -
  have "map cluster_place (rg_clusters db') = map cluster_place (rg_clusters db)
      \<and> rg_installs db' = rg_installs db \<and> rg_gateways db' = rg_gateways db \<and> rg_agents db' = rg_agents db"
    using assms(1)
    by (auto simp: record_heartbeat_def Let_def cluster_place_def split: option.splits if_splits intro!: map_update_where)
  with ok show ?thesis using registry_ok_place by metis
qed

text \<open>A registration linked to no cluster comes or goes freely.\<close>

lemma unlinked_gateway_ok:
  assumes ok: "registry_ok db" and r: "gr_cluster r = None" "gr_id r \<notin> gr_id ` set (rg_gateways db)"
  shows "registry_ok (db\<lparr>rg_gateways := rg_gateways db @ [r]\<rparr>)"
  using assms by (simp add: registry_ok_def ids_ok_def gateways_ok_def one_gateway_def linked_def)

lemma gateway_register_ok:
  assumes "gateway_register K now fr name cl ts db = Inr (x, db')" and ok: "registry_ok db" and fr: "fresh_for fr db"
  shows "registry_ok db'"
proof -
  define r where "r ts' = \<lparr>gr_id = fr_gateway fr, gr_name = strip name, gr_cluster_id = strip cl,
      gr_cluster = None, gr_tenants = ts', gr_created = now, gr_revoked = None\<rparr>" for ts'
  obtain ts' where db': "rg_gateways db' = rg_gateways db @ [r ts']" "rg_installs db' = rg_installs db"
      "rg_clusters db' = rg_clusters db" "rg_agents db' = rg_agents db"
    using assms(1) unfolding gateway_register_def r_def by (auto simp: Let_def case_prod_beta split: if_splits)
  have "registry_ok (db\<lparr>rg_gateways := rg_gateways db @ [r ts']\<rparr>)"
    using unlinked_gateway_ok [OF ok, of "r ts'"] fr by (simp add: fresh_for_def r_def)
  then show ?thesis using db' by (subst registry_ok_cong [of db' "db\<lparr>rg_gateways := rg_gateways db @ [r ts']\<rparr>"]) simp_all
qed

lemma gateway_mint_ok:
  assumes "gateway_mint K fr name db = Inr (x, db')" and ok: "registry_ok db"
  shows "registry_ok db'"
proof -
  have "rg_gateways db' = rg_gateways db" "rg_installs db' = rg_installs db"
      "rg_clusters db' = rg_clusters db" "rg_agents db' = rg_agents db"
    using assms(1) by (auto simp: gateway_mint_def case_prod_beta Let_def split: if_splits)
  with ok show ?thesis using registry_ok_cong by metis
qed

text \<open>Revoking a registration that is unlinked or already revoked.\<close>

lemma spare_revoke_ok:
  assumes ok: "registry_ok db"
    and Q: "\<And>r. r \<in> set (rg_gateways db) \<Longrightarrow> Q r \<Longrightarrow> gr_cluster r = None \<or> gr_revoked r \<noteq> None"
  shows "registry_ok (db\<lparr>rg_gateways := update_where Q (gateway_revoke now) (rg_gateways db)\<rparr>)"
proof -
  let ?gs = "update_where Q (gateway_revoke now) (rg_gateways db)"
  have "map gr_id ?gs = map gr_id (rg_gateways db)" by (rule map_update_where) (simp add: gateway_revoke_def)
  moreover have "length (filter (linked k) ?gs) = length (filter (linked k) (rg_gateways db))" for k
    by (rule length_filter_update) (use Q in \<open>fastforce simp: linked_def gateway_revoke_def\<close>)
  moreover have "gateways_ok (rg_installs db) (rg_clusters db) ?gs"
    unfolding gateways_ok_def
  proof (intro ballI allI impI)
    fix s k assume "s \<in> set ?gs" and k: "gr_cluster s = Some k"
    then obtain r where r: "r \<in> set (rg_gateways db)" "s = (if Q r then gateway_revoke now r else r)"
      by (auto simp: in_update_where)
    with k have rk: "gr_cluster r = Some k" and live: "gr_revoked s = None \<Longrightarrow> s = r"
      by (auto simp: gateway_revoke_def split: if_splits)
    from ok r(1) rk obtain c where "c \<in> set (rg_clusters db)" "cl_id c = k" "gr_revoked r = None \<longrightarrow> cl_revoked c = None \<and>
        (\<exists>j \<in> set (rg_installs db). in_id j = cl_install c \<and> set (gr_tenants r) \<subseteq> set (in_tenants j))"
      unfolding registry_ok_def gateways_ok_def by meson
    with live show "\<exists>c \<in> set (rg_clusters db). cl_id c = k \<and> (gr_revoked s = None \<longrightarrow> cl_revoked c = None \<and>
        (\<exists>j \<in> set (rg_installs db). in_id j = cl_install c \<and> set (gr_tenants s) \<subseteq> set (in_tenants j)))" by metis
  qed
  ultimately show ?thesis using ok by (simp add: registry_ok_def ids_ok_def one_gateway_def)
qed

lemma gateway_revoke_command_ok:
  assumes "gateway_revoke_command now name cred db = Inr db'" and ok: "registry_ok db"
  shows "registry_ok db'"
proof -
  obtain r where r: "find_gateway db name = Inr r"
    using assms(1) by (auto simp: gateway_revoke_command_def)
  then have r': "r \<in> set (rg_gateways db)" by (auto simp: find_gateway_def split: option.splits dest: find_in)
  have d: "distinct (map gr_id (rg_gateways db))" using ok by (simp add: registry_ok_def ids_ok_def)
  consider "rg_gateways db' = rg_gateways db" "rg_installs db' = rg_installs db" "rg_clusters db' = rg_clusters db"
      "rg_agents db' = rg_agents db"
    | x where "revoke_cluster now (the (gr_cluster r)) ''manage.py'' db = Inr (x, db')"
    | "gr_cluster r = None \<or> gr_revoked r \<noteq> None"
      "db' = db\<lparr>rg_gateways := update_where (\<lambda>x. gr_id x = gr_id r) (gateway_revoke now) (rg_gateways db)\<rparr>"
    using assms(1) r
    by (auto simp: gateway_revoke_command_def gateway_active_def split: if_splits option.splits sum.splits prod.splits)
  then show ?thesis
  proof cases
    case 1
    with ok show ?thesis using registry_ok_cong by metis
  next
    case 2
    from revoke_cluster_ok [OF this ok] show ?thesis .
  next
    case 3
    show ?thesis unfolding 3(2) using same_row [OF d _ r'] 3(1) by (intro spare_revoke_ok [OF ok]) auto
  qed
qed

lemma ensure_local_gateway_ok:
  assumes "ensure_local_gateway K now fr path fe de out tenant db = (x, db')" and ok: "registry_ok db" and fr: "fresh_for fr db"
  shows "registry_ok db'"
proof -
  obtain r db1 where l: "local_registration now fr tenant db = (r, db1)" by fastforce
  have "registry_ok db1"
    using l ok fr unlinked_gateway_ok [OF ok]
    by (auto simp: local_registration_def Let_def fresh_for_def split: option.splits)
  moreover have "db' = db \<or> rg_gateways db' = rg_gateways db1 \<and> rg_installs db' = rg_installs db1
      \<and> rg_clusters db' = rg_clusters db1 \<and> rg_agents db' = rg_agents db1"
    using assms(1) l
    by (auto simp: ensure_local_gateway_def Let_def case_prod_beta split: if_splits written.splits)
  ultimately show ?thesis using ok registry_ok_cong by metis
qed

section \<open>Steps\<close>

inductive astro_step :: "astro_env \<Rightarrow> registry \<Rightarrow> registry \<Rightarrow> bool" for E :: astro_env where
  issue: "issue_code E now fr ts by ttl db = Inr (xc, db') \<Longrightarrow> fresh_for fr db \<Longrightarrow>
     k_sha (e_keys E) (prefix_enrollment @ fr_raw fr) \<notin> co_hash ` set (rg_codes db) \<Longrightarrow> astro_step E db db'"
| connect: "connect E now fr code url name db = Inr (xi, db') \<Longrightarrow> fresh_for fr db \<Longrightarrow> astro_step E db db'"
| register: "register_cluster E now fr k ext prov reg req db = Inr (xr, db') \<Longrightarrow> fresh_for fr db \<Longrightarrow> astro_step E db db'"
| rotate: "rotate_cluster E now fr k ext overlap via db = Inr (xo, db') \<Longrightarrow> fresh_for fr db \<Longrightarrow> astro_step E db db'"
| revoke: "revoke_cluster now cl via db = Inr (xv, db') \<Longrightarrow> astro_step E db db'"
| disconnect: "disconnect_install now k via db = Inr (xd, db') \<Longrightarrow> astro_step E db db'"
| mint: "mint_agent_key E now fr k mr db = Inr (xm, db') \<Longrightarrow> fresh_for fr db \<Longrightarrow> astro_step E db db'"
| renew: "renew_agent_key E now i n ttl t db = Inr (xn, db') \<Longrightarrow> i \<in> set (rg_installs db) \<Longrightarrow> astro_step E db db'"
| revoke_key: "revoke_agent_key now i n t db = Inr (xk, db') \<Longrightarrow> i \<in> set (rg_installs db) \<Longrightarrow> astro_step E db db'"
| heartbeat: "record_heartbeat now c r cid h v cts inst db = Inr (xh, db') \<Longrightarrow> astro_step E db db'"
| stop: "a \<in> set (rg_agents db) \<Longrightarrow> b \<in> set (stops a) \<Longrightarrow> astro_step E db (put_agent b db)"
| rekey: "a \<in> set (rg_agents db) \<Longrightarrow> regenerate_key (e_keys E) raw salt a = (b, plain) \<Longrightarrow> astro_step E db (put_agent b db)"
| enroll: "ag_install a = None \<Longrightarrow> ag_id a \<notin> ag_id ` set (rg_agents db) \<Longrightarrow>
     astro_step E db (db\<lparr>rg_agents := rg_agents db @ [a]\<rparr>)"
| gw_register: "gateway_register (e_keys E) now fr name cl ts db = Inr (xg, db') \<Longrightarrow> fresh_for fr db \<Longrightarrow> astro_step E db db'"
| gw_mint: "gateway_mint (e_keys E) fr name db = Inr (xg, db') \<Longrightarrow> fresh_for fr db \<Longrightarrow> astro_step E db db'"
| gw_revoke: "gateway_revoke_command now name cred db = Inr db' \<Longrightarrow> astro_step E db db'"
| local: "ensure_local_gateway (e_keys E) now fr path fe de wr tenant db = (xl, db') \<Longrightarrow> fresh_for fr db \<Longrightarrow> astro_step E db db'"

text \<open>The states the deployment reaches from an empty database.\<close>

definition reachable :: "astro_env \<Rightarrow> registry \<Rightarrow> bool" where
  "reachable E db \<longleftrightarrow> (astro_step E)\<^sup>*\<^sup>* empty_registry db"

lemma reachable_step: "reachable E db \<Longrightarrow> astro_step E db db' \<Longrightarrow> reachable E db'"
  unfolding reachable_def by simp

lemma reachable_steps: "reachable E db \<Longrightarrow> (astro_step E)\<^sup>*\<^sup>* db db' \<Longrightarrow> reachable E db'"
  unfolding reachable_def by simp

lemma rekeyed_same:
  assumes "regenerate_key K raw salt a = (b, plain)"
  shows "ag_id b = ag_id a" "ag_install b = ag_install a" "ag_tenant b = ag_tenant a" "ag_status b = ag_status a"
    "ag_revoked b = ag_revoked a" "ag_issued b = ag_issued a" "ag_expires b = ag_expires a" "ag_audited b = ag_audited a"
  using assms by (auto simp: regenerate_key_def split: prod.splits)

lemma stop_not_usable: "b \<in> set (stops a) \<Longrightarrow> \<not> usable_status (ag_status b)"
  using stops_stopped(5) [of b a] by (auto simp: usable_status_def)

lemmas operations_keep = connect_ok register_cluster_ok rotate_cluster_ok revoke_cluster_ok disconnect_install_ok
  mint_agent_key_ok renew_agent_key_ok revoke_agent_key_ok record_heartbeat_ok gateway_register_ok
  gateway_mint_ok gateway_revoke_command_ok ensure_local_gateway_ok

lemma step_ok: "astro_step E db db' \<Longrightarrow> registry_ok db \<Longrightarrow> registry_ok db'"
proof (induction rule: astro_step.induct)
  case (issue now fr ts who ttl db xc db')
  then show ?case
    by (subst registry_ok_cong [of db' db]) (auto simp: issue_code_def Let_def split: if_splits option.splits)
next
  case (stop a db b)
  then show ?case
    using stops_stopped [of b a] stop_not_usable [of b a] by (intro put_agent_ok calmer_placed) auto
next
  case (rekey a db raw salt b plain)
  then show ?case using rekeyed_same [OF rekey(2)] by (intro put_agent_ok calmer_placed) auto
next
  case (enroll a db)
  then show ?case by (auto simp: registry_ok_def ids_ok_def agents_placed placed_def)
qed (blast intro: operations_keep)+

lemma empty_ok: "registry_ok empty_registry"
  by (simp add: registry_ok_def ids_ok_def empty_registry_def clusters_ok_def gateways_ok_def agents_ok_def
      one_gateway_def)

lemma reachable_ok: "reachable E db \<Longrightarrow> registry_ok db"
  unfolding reachable_def by (induction rule: rtranclp_induct) (simp add: empty_ok, rule step_ok)

end
