(* ===== verification/HubIdentity.thy ===== *)
theory HubIdentity
  imports Credentials
begin

text \<open>
  Binding a request to a JupyterHub user (\<open>services/hub_identity.py\<close>): which hub URL an operator
  may configure, and how the user token of a request is checked with the hub. URL parsing, name
  resolution, the address registry and the HTTP client are arguments.
\<close>

text \<open>What authentication raises; \<open>Uncaught\<close> is an exception nothing on the way turns into a refusal.\<close>

datatype auth_exc = AuthenticationFailed string | PermissionDenied string | Uncaught

record split_url =
  u_scheme :: string
  u_host :: "string option"
  u_user :: string
  u_password :: string
  u_query :: string
  u_fragment :: string
  u_port :: "int option option"

text \<open>
  \<open>h_split\<close> is None where \<open>urlsplit\<close> raises, and \<open>u_port\<close> None where the port is invalid; a
  missing user or password is the empty string. \<open>h_get url token\<close> is \<open>Inl True\<close> for an exception
  the caller catches (an \<open>httpx.HTTPError\<close> or a ValueError), \<open>Inl False\<close> for any other, and else the
  status, the length of the body and the parsed body, None where it is not JSON.
\<close>

record hub_env =
  h_split :: "string \<Rightarrow> split_url option"
  h_addresses :: "string \<Rightarrow> int \<Rightarrow> string list option"
  h_global :: "string \<Rightarrow> bool"
  h_get :: "string \<Rightarrow> string \<Rightarrow> bool + int \<times> nat \<times> pyval option"
  h_allowed :: "string list"

definition before_percent :: "string \<Rightarrow> string" where
  "before_percent a = takeWhile (\<lambda>c. c \<noteq> CHR 0x25) a"

definition public_host :: "hub_env \<Rightarrow> string \<Rightarrow> int \<Rightarrow> string option" where
  "public_host H host port =
     (if host \<in> set (h_allowed H) then None
      else case h_addresses H host port of
             None \<Rightarrow> Some ''hub_identity.api_url host does not resolve''
           | Some as \<Rightarrow>
               if as = [] \<or> \<not> list_all (\<lambda>a. h_global H (before_percent a)) as
               then Some ''hub_identity.api_url resolves to a non-public address; add its host to HUB_IDENTITY_ALLOWED_HOSTS''
               else None)"

text \<open>None: \<open>urlsplit\<close> raised, outside the handler; else why the binding is unusable, or nothing.\<close>

definition hub_identity_error :: "hub_env \<Rightarrow> pyval \<Rightarrow> string option option" where
  "hub_identity_error H binding =
     (case binding of
        PDict d \<Rightarrow>
          (let api_url = dget d ''api_url'' (PStr []); hub_id = dget d ''hub_id'' (PStr []) in
           case h_split H (case api_url of PStr s \<Rightarrow> s | _ \<Rightarrow> []) of
             None \<Rightarrow> None
           | Some u \<Rightarrow>
               (case u_port u of
                  None \<Rightarrow> Some (Some ''hub_identity.api_url has an invalid port'')
                | Some port \<Rightarrow>
                    if u_scheme u \<notin> {''http'', ''https''} \<or> u_host u \<in> {None, Some []} \<or> u_user u \<noteq> []
                       \<or> u_password u \<noteq> [] \<or> u_query u \<noteq> [] \<or> u_fragment u \<noteq> []
                    then Some (Some ''hub_identity.api_url must be a plain http(s) URL'')
                    else
                      (case hub_id of
                         PStr h \<Rightarrow>
                           if h = [] \<or> 64 < length h
                           then Some (Some ''hub_identity.hub_id must be 1 to 64 characters'')
                           else Some (public_host H (lower (the (u_host u)))
                             (case port of Some p \<Rightarrow> if p \<noteq> 0 then p else if u_scheme u = ''https'' then 443 else 80
                              | None \<Rightarrow> if u_scheme u = ''https'' then 443 else 80))
                       | _ \<Rightarrow> Some (Some ''hub_identity.hub_id must be 1 to 64 characters''))))
      | _ \<Rightarrow> Some (Some ''hub_identity must be an object''))"

definition rstrip_slash :: "string \<Rightarrow> string" where
  "rstrip_slash s = rev (dropWhile (\<lambda>c. c = CHR ''/'') (rev s))"

text \<open>The scopes with which a hub vouches that the user may use a server of their own.\<close>

definition server_scope :: "string \<Rightarrow> pyval \<Rightarrow> bool" where
  "server_scope name v =
     (case v of
        PStr s \<Rightarrow> s = ''access:servers'' \<or> s = ''access:servers!user='' @ name
                  \<or> starts_with (''access:servers!server='' @ name @ ''/'') s
      | _ \<Rightarrow> False)"

definition hub_user_name :: "pyval \<Rightarrow> string option" where
  "hub_user_name user =
     (case user of
        PDict d \<Rightarrow>
          (case (dget d ''name'' PNone, dget d ''scopes'' (PList [])) of
             (PStr name, PList scopes) \<Rightarrow>
               if dget d ''kind'' PNone \<noteq> PStr ''user'' \<or> name = [] \<or> 128 < length name then None
               else if list_ex (server_scope name) scopes then Some name else None
           | _ \<Rightarrow> None)
      | _ \<Rightarrow> None)"

definition ask_hub :: "hub_env \<Rightarrow> string \<Rightarrow> string \<Rightarrow> auth_exc + string" where
  "ask_hub H api_url token =
     (let refused = Inl (AuthenticationFailed ''Hub user identity could not be verified'') in
      case h_get H (rstrip_slash api_url @ ''/user'') token of
        Inl caught \<Rightarrow> if caught then refused else Inl Uncaught
      | Inr (status, len, body) \<Rightarrow>
          if status \<noteq> 200 \<or> 65536 < len then refused
          else (case Option.bind body hub_user_name of None \<Rightarrow> refused | Some name \<Rightarrow> Inr name))"

text \<open>\<open>(endpoint.config or {}).get(key)\<close>.\<close>

definition config_value :: "pyval \<Rightarrow> string \<Rightarrow> pyval option" where
  "config_value config k = (if truthy config then pget config k PNone else Some PNone)"

definition bound_str :: "pyval \<Rightarrow> string \<Rightarrow> string" where
  "bound_str binding k =
     (case binding of PDict d \<Rightarrow> (case dget d k PNone of PStr s \<Rightarrow> s | _ \<Rightarrow> []) | _ \<Rightarrow> [])"

definition verified_hub_identity :: "hub_env \<Rightarrow> pyval \<Rightarrow> string \<Rightarrow> auth_exc + pydict option" where
  "verified_hub_identity H config token =
     (case config_value config ''hub_identity'' of
        None \<Rightarrow> Inl Uncaught
      | Some binding \<Rightarrow>
          if \<not> truthy binding then
            (if token \<noteq> [] then Inl (AuthenticationFailed ''Hub identity is not configured for this endpoint'')
             else Inr None)
          else if \<not> is_dict binding \<or> token = [] \<or> 4096 < length token then
            Inl (AuthenticationFailed ''A verified hub user token is required'')
          else
            (case hub_identity_error H binding of
               None \<Rightarrow> Inl Uncaught
             | Some (Some _) \<Rightarrow> Inl (AuthenticationFailed ''Hub identity configuration is invalid'')
             | Some None \<Rightarrow>
                 (let api_url = bound_str binding ''api_url''; hub_id = bound_str binding ''hub_id'' in
                  rbind (ask_hub H api_url token) (\<lambda>name.
                    Inr (Some [(''user_id'', PStr (''hub:'' @ hub_id @ '':'' @ name)),
                               (''hub_id'', PStr hub_id), (''hub_user'', PStr name)])))))"

section \<open>An identity is the hub's word\<close>

lemma ask_hubD:
  "ask_hub H url token = Inr name \<Longrightarrow>
   \<exists>len user. h_get H (rstrip_slash url @ ''/user'') token = Inr (200, len, Some user)
     \<and> len \<le> 65536 \<and> hub_user_name user = Some name"
  by (auto simp: ask_hub_def Let_def split: sum.splits if_splits option.splits Option.bind_splits)

lemma hub_user_nameD:
  "hub_user_name user = Some name \<Longrightarrow>
   \<exists>d scopes. user = PDict d \<and> dget d ''name'' PNone = PStr name \<and> dget d ''kind'' PNone = PStr ''user''
     \<and> dget d ''scopes'' (PList []) = PList scopes \<and> list_ex (server_scope name) scopes \<and> name \<noteq> []"
  by (auto simp: hub_user_name_def split: pyval.splits if_splits)

text \<open>A usable binding names a host the operator may have the backend call.\<close>

definition callable_host :: "hub_env \<Rightarrow> string \<Rightarrow> bool" where
  "callable_host H host \<longleftrightarrow> host \<in> set (h_allowed H) \<or>
     (\<exists>port as. h_addresses H host port = Some as \<and> as \<noteq> [] \<and> (\<forall>a \<in> set as. h_global H (before_percent a)))"

lemma public_hostD: "public_host H host port = None \<Longrightarrow> callable_host H host"
  by (auto simp: public_host_def callable_host_def list_all_iff split: if_splits option.splits)

lemma hub_identity_errorD:
  assumes "hub_identity_error H (PDict d) = Some None"
  shows "\<exists>url u host. dget d ''api_url'' (PStr []) = PStr url \<and> h_split H url = Some u
    \<and> u_host u = Some host \<and> callable_host H (lower host)
    \<or> h_split H [] = Some u \<and> u_host u = Some host"
  using assms
  by (auto simp: hub_identity_error_def Let_def split: pyval.splits option.splits if_splits
      dest: public_hostD)

end
