(* ===== verification/Principals.thy ===== *)
theory Principals
  imports HubIdentity
begin

text \<open>
  Who a request is and what it may do (\<open>auth/mode.py\<close>, \<open>auth/roles.py\<close>, \<open>api/auth.py\<close>,
  \<open>api/permissions.py\<close>): the portal roles, the authenticators and the permission classes. Session
  authentication and the CSRF check are those of Django REST framework and are arguments.
\<close>

section \<open>Principals and roles\<close>

record portal_user =
  pu_id :: string
  pu_active :: bool
  pu_super :: bool
  pu_staff :: bool
  pu_groups :: "string list"

text \<open>A workload's \<open>is_active\<close> is read when the principal is made.\<close>

datatype principal =
    Anonymous
  | PortalUser portal_user
  | OpenUser
  | AgentUser agent_row
  | ServiceUser api_key_row bool
  | InstallUser install_row
  | GatewayUser gateway_row

fun is_workload :: "principal \<Rightarrow> bool" where
  "is_workload (AgentUser _) = True"
| "is_workload (ServiceUser _ _) = True"
| "is_workload (InstallUser _) = True"
| "is_workload (GatewayUser _) = True"
| "is_workload _ = False"

fun is_authenticated :: "principal \<Rightarrow> bool" where
  "is_authenticated Anonymous = False"
| "is_authenticated _ = True"

fun principal_active :: "principal \<Rightarrow> bool" where
  "principal_active Anonymous = False"
| "principal_active (PortalUser u) = pu_active u"
| "principal_active OpenUser = True"
| "principal_active (AgentUser a) = (ag_status a = Active)"
| "principal_active (ServiceUser _ active) = active"
| "principal_active (InstallUser i) = install_active i"
| "principal_active (GatewayUser _) = True"

definition role_admin :: string where "role_admin = ''zentinelle_admin''"
definition role_operator :: string where "role_operator = ''zentinelle_operator''"
definition role_viewer :: string where "role_viewer = ''zentinelle_viewer''"

lemmas role_defs = role_admin_def role_operator_def role_viewer_def

definition all_roles :: "string list" where
  "all_roles = [role_admin, role_operator, role_viewer]"

definition portal_role :: "portal_user \<Rightarrow> string" where
  "portal_role u =
     (if \<not> pu_active u then []
      else if pu_super u then role_admin
      else if role_admin \<in> set (pu_groups u) then role_admin
      else if role_operator \<in> set (pu_groups u) then role_operator
      else if role_viewer \<in> set (pu_groups u) then role_viewer
      else if pu_staff u then role_admin
      else role_viewer)"

text \<open>A workload has neither \<open>is_superuser\<close> nor \<open>groups\<close>.\<close>

fun get_role :: "principal \<Rightarrow> string" where
  "get_role Anonymous = []"
| "get_role (PortalUser u) = portal_role u"
| "get_role OpenUser = role_admin"
| "get_role (AgentUser _) = []"
| "get_role (ServiceUser _ _) = []"
| "get_role (InstallUser _) = []"
| "get_role (GatewayUser _) = []"

definition role_level :: "string \<Rightarrow> nat" where
  "role_level r =
     (if r = role_admin then 3 else if r = role_operator then 2 else if r = role_viewer then 1 else 0)"

definition has_role :: "principal \<Rightarrow> string \<Rightarrow> bool" where
  "has_role p role \<longleftrightarrow> role_level role \<le> role_level (get_role p)"

definition can_mutate :: "principal \<Rightarrow> bool" where "can_mutate p = has_role p role_operator"
definition can_admin :: "principal \<Rightarrow> bool" where "can_admin p = has_role p role_admin"
definition can_view :: "principal \<Rightarrow> bool" where "can_view p = has_role p role_viewer"

text \<open>None: \<open>Group.objects.get\<close> raises on an unknown group, after the roles were removed.\<close>

definition assign_role :: "string list \<Rightarrow> portal_user \<Rightarrow> string \<Rightarrow> portal_user \<times> unit option" where
  "assign_role groups u role =
     (let groups = groups @ filter (\<lambda>r. r \<notin> set groups) all_roles;
          rest = filter (\<lambda>g. g \<notin> set all_roles) (pu_groups u);
          u' = u\<lparr>pu_groups := rest\<rparr>
      in if role \<in> set groups
         then (u'\<lparr>pu_groups := if role \<in> set rest then rest else rest @ [role]\<rparr>, Some ())
         else (u', None))"

section \<open>Authentication\<close>

definition is_open_mode :: "string option \<Rightarrow> bool" where
  "is_open_mode setting =
     (lower (case setting of None \<Rightarrow> ''open'' | Some m \<Rightarrow> if m = [] then ''open'' else m) = ''open'')"

text \<open>A header that was not sent is the empty string.\<close>

record http_request =
  rq_method :: string
  rq_key :: string
  rq_bearer :: string
  rq_gateway :: string
  rq_hub_token :: string

datatype token = NoToken | KeyToken string | CredentialToken credential_row gateway_row | InstallToken install_row

text \<open>An authenticator raises, passes (None), or names a principal.\<close>

type_synonym outcome = "auth_exc + (principal \<times> token) option"

record auth_env =
  au_keys :: key_env
  au_hub :: hub_env
  au_mode :: "string option"
  au_now :: int

definition matching_agent :: "auth_env \<Rightarrow> registry \<Rightarrow> string \<Rightarrow> agent_row option" where
  "matching_agent V db key =
     List.find (\<lambda>a. ag_prefix a \<in> set (agent_key_prefixes key) \<and> ag_status a \<in> {Active, Provisioning}
        \<and> key_matches (au_keys V) key (ag_hash a)) (rg_agents db)"

definition authenticate_agent :: "auth_env \<Rightarrow> registry \<Rightarrow> http_request \<Rightarrow> outcome" where
  "authenticate_agent V db rq =
     (let key = rq_key rq in
      if key = [] then Inr None
      else if \<not> starts_with ''sk_agent_'' key then Inl (AuthenticationFailed ''Invalid API key format'')
      else case matching_agent V db key of
             None \<Rightarrow> Inl (AuthenticationFailed ''Invalid API key'')
           | Some a \<Rightarrow>
               if ag_status a = Suspended then Inl (AuthenticationFailed ''Endpoint is suspended'')
               else if agent_key_expired (au_now V) a then Inl (AuthenticationFailed ''API key expired'')
               else rbind (verified_hub_identity (au_hub V) (ag_config a) (rq_hub_token rq))
                      (\<lambda>_. Inr (Some (AgentUser a, KeyToken key))))"

text \<open>The hub identity the agent authenticator stores on the request.\<close>

definition request_hub_identity :: "auth_env \<Rightarrow> registry \<Rightarrow> http_request \<Rightarrow> pydict option" where
  "request_hub_identity V db rq =
     (case matching_agent V db (rq_key rq) of
        None \<Rightarrow> None
      | Some a \<Rightarrow>
          (case verified_hub_identity (au_hub V) (ag_config a) (rq_hub_token rq) of
             Inr i \<Rightarrow> i | Inl _ \<Rightarrow> None))"

definition matching_api_key ::
  "auth_env \<Rightarrow> registry \<Rightarrow> (api_key_row \<Rightarrow> bool) \<Rightarrow> string \<Rightarrow> api_key_row option" where
  "matching_api_key V db flt key =
     List.find (\<lambda>k. ak_prefix k \<in> set (api_key_prefixes key) \<and> flt k
        \<and> key_matches (au_keys V) key (ak_hash k)) (rg_keys db)"

text \<open>\<open>header[len('Bearer '):].strip()\<close>, None for a header of another scheme.\<close>

definition bearer_of :: "string \<Rightarrow> string option" where
  "bearer_of header = (if starts_with ''Bearer '' header then Some (strip (drop 7 header)) else None)"

text \<open>
  The part the two bearer authenticators share: the words of their refusals differ. The use of a
  key is recorded in its row.
\<close>

definition accept_bearer ::
  "auth_env \<Rightarrow> registry \<Rightarrow> string \<Rightarrow> string \<Rightarrow> api_key_row option \<Rightarrow> outcome \<times> registry" where
  "accept_bearer V db who key found =
     (case found of
        None \<Rightarrow> (Inl (AuthenticationFailed (''Invalid '' @ lower who @ '' key'')), db)
      | Some k \<Rightarrow>
          if \<not> api_key_active (au_now V) k
          then (Inl (AuthenticationFailed (who @ '' key is not active'')), db)
          else if ak_tenant k = []
          then (Inl (AuthenticationFailed (who @ '' key has no tenant'')), db)
          else (let k' = record_usage (au_now V) k in
                (Inr (Some (ServiceUser k' (api_key_active (au_now V) k'), KeyToken key)),
                 db\<lparr>rg_keys := update_where (\<lambda>x. ak_id x = ak_id k) (\<lambda>_. k') (rg_keys db)\<rparr>)))"

definition authenticate_service :: "auth_env \<Rightarrow> registry \<Rightarrow> http_request \<Rightarrow> outcome \<times> registry" where
  "authenticate_service V db rq =
     (case bearer_of (rq_bearer rq) of
        None \<Rightarrow> (Inr None, db)
      | Some key \<Rightarrow>
          if \<not> starts_with prefix_service key then (Inr None, db)
          else accept_bearer V db ''Service'' key
                 (matching_api_key V db (\<lambda>k. ak_type k = ServiceKey) key))"

definition authenticate_platform :: "auth_env \<Rightarrow> registry \<Rightarrow> http_request \<Rightarrow> outcome \<times> registry" where
  "authenticate_platform V db rq =
     (case bearer_of (rq_bearer rq) of
        None \<Rightarrow> (Inr None, db)
      | Some key \<Rightarrow>
          if \<not> (starts_with prefix_platform key \<or> starts_with prefix_service key) then (Inr None, db)
          else accept_bearer V db ''Platform'' key (matching_api_key V db (\<lambda>_. True) key))"

definition authenticate_combined :: "auth_env \<Rightarrow> registry \<Rightarrow> http_request \<Rightarrow> outcome" where
  "authenticate_combined V db rq =
     (let key = rq_key rq in
      if key = [] then Inr None
      else if starts_with ''sk_agent_'' key then authenticate_agent V db rq
      else Inl (AuthenticationFailed ''Invalid API key format''))"

definition authenticate_gateway_agent :: "auth_env \<Rightarrow> registry \<Rightarrow> http_request \<Rightarrow> outcome" where
  "authenticate_gateway_agent V db rq =
     (case gateway_authenticate (au_keys V) (au_now V) db (rq_gateway rq) of
        None \<Rightarrow> Inl (AuthenticationFailed ''Invalid gateway credential'')
      | Some (c, r) \<Rightarrow>
          rbind (authenticate_agent V db rq) (\<lambda>found.
            case found of
              None \<Rightarrow> Inl (AuthenticationFailed ''X-Zentinelle-Key is required'')
            | Some (p, _) \<Rightarrow> Inr (Some (p, CredentialToken c r))))"

definition authenticate_install :: "auth_env \<Rightarrow> registry \<Rightarrow> http_request \<Rightarrow> outcome \<times> registry" where
  "authenticate_install V db rq =
     (case bearer_of (rq_bearer rq) of
        None \<Rightarrow> (Inr None, db)
      | Some key \<Rightarrow>
          (case install_authenticate (au_keys V) db key of
             None \<Rightarrow> (Inl (AuthenticationFailed ''Invalid Astrolift install credential''), db)
           | Some i \<Rightarrow>
               (Inr (Some (InstallUser i, InstallToken i)),
                db\<lparr>rg_installs := update_where (\<lambda>x. in_id x = in_id i)
                     (\<lambda>x. x\<lparr>in_last_used := Some (au_now V)\<rparr>) (rg_installs db)\<rparr>)))"

definition authenticate_gateway :: "auth_env \<Rightarrow> registry \<Rightarrow> http_request \<Rightarrow> outcome" where
  "authenticate_gateway V db rq =
     (let presented = rq_gateway rq in
      if presented = [] then Inr None
      else case gateway_authenticate (au_keys V) (au_now V) db presented of
             None \<Rightarrow> Inl (AuthenticationFailed ''Invalid gateway credential'')
           | Some (c, r) \<Rightarrow> Inr (Some (GatewayUser r, CredentialToken c r)))"

text \<open>\<open>csrf\<close> is the framework's CSRF check: the reason it refuses with, or None.\<close>

definition authenticate_open :: "auth_env \<Rightarrow> (http_request \<Rightarrow> string option) \<Rightarrow> http_request \<Rightarrow> outcome" where
  "authenticate_open V csrf rq =
     (if is_open_mode (au_mode V)
      then (case csrf rq of Some why \<Rightarrow> Inl (PermissionDenied why) | None \<Rightarrow> Inr (Some (OpenUser, NoToken)))
      else Inr None)"

section \<open>Tenants and permissions\<close>

definition standalone_tenant :: string where
  "standalone_tenant = ''00000000-0000-0000-0000-000000000001''"

fun endpoint_of_principal :: "principal \<Rightarrow> pyexc + agent_row" where
  "endpoint_of_principal (AgentUser a) = Inr a"
| "endpoint_of_principal _ = Inl (ValueError ''Request not authenticated with Zentinelle API key'')"

definition tenant_of_request :: "string option \<Rightarrow> principal \<Rightarrow> string option" where
  "tenant_of_request mode p =
     (case p of
        AgentUser a \<Rightarrow> Some (ag_tenant a)
      | ServiceUser k _ \<Rightarrow> Some (ak_tenant k)
      | _ \<Rightarrow>
          if is_authenticated p then Some standalone_tenant
          else if is_open_mode mode then Some standalone_tenant
          else None)"

definition safe_method :: "string \<Rightarrow> bool" where
  "safe_method m \<longleftrightarrow> m \<in> {''GET'', ''HEAD'', ''OPTIONS''}"

definition portal_access :: "string \<Rightarrow> principal \<Rightarrow> bool" where
  "portal_access m p = (if safe_method m then can_view p else can_mutate p)"

definition portal_admin_access :: "principal \<Rightarrow> bool" where
  "portal_admin_access p = can_admin p"

fun is_service_key :: "principal \<Rightarrow> bool" where
  "is_service_key (ServiceUser _ active) = active"
| "is_service_key _ = False"

definition open_or_agent :: "string option \<Rightarrow> string \<Rightarrow> principal \<Rightarrow> bool" where
  "open_or_agent mode m p =
     (if is_open_mode mode then True
      else case p of
             AgentUser _ \<Rightarrow> principal_active p
           | _ \<Rightarrow> if safe_method m then can_view p else can_mutate p)"

section \<open>Releasing a tenant's provider key to a gateway\<close>

text \<open>
  \<open>POST /gateway/provider-key\<close> after authentication: the stored key of a tenant and provider is
  None without a usable row, and empty when it cannot be decrypted. The result is the response's
  status and error, or the released key, whose audit record is made before it.
\<close>

definition provider_key_of :: "registry \<Rightarrow> string \<Rightarrow> string \<Rightarrow> provider_key_row option" where
  "provider_key_of db tenant provider =
     (case List.find (\<lambda>k. pk_tenant k = tenant \<and> pk_provider k = provider \<and> pk_active k) (rg_provider db) of
        None \<Rightarrow> None
      | Some k \<Rightarrow> if pk_encrypted k = [] then None else Some k)"

definition release_metadata :: "gateway_row \<Rightarrow> agent_row \<Rightarrow> pydict" where
  "release_metadata r a =
     [(''reader'', PStr ''gateway''), (''gateway'', PStr (gr_name r)), (''gateway_id'', PStr (gr_id r)),
      (''agent_id'', PStr (ag_agent_id a))]
     @ (if gr_cluster_id r \<noteq> [] then [(''cluster_id'', PStr (gr_cluster_id r))] else [])"

definition release_trail :: "gateway_row \<Rightarrow> agent_row \<Rightarrow> string \<Rightarrow> trail" where
  "release_trail r a provider =
     \<lparr>tr_tenant = ag_tenant a, tr_action = ''access'', tr_type = ''llm_provider_key'', tr_id = provider,
      tr_name = [], tr_meta = release_metadata r a\<rparr>"

definition release_provider_key ::
  "(string \<Rightarrow> string) \<Rightarrow> int \<Rightarrow> agent_row \<Rightarrow> credential_row \<Rightarrow> gateway_row \<Rightarrow> string \<Rightarrow> registry
   \<Rightarrow> (nat \<times> string + string) \<times> registry" where
  "release_provider_key decrypt now a c r provider db =
     (let tenant = ag_tenant a in
      if \<not> gateway_serves r tenant then (Inl (403, ''tenant_not_in_gateway_scope''), db)
      else case provider_key_of db tenant provider of
             None \<Rightarrow> (Inl (404, ''provider_key_not_found''), db)
           | Some k \<Rightarrow>
               (let key = decrypt (pk_encrypted k) in
                if key = [] then (Inl (503, ''provider_key_unreadable''), db)
                else (Inr key,
                  db\<lparr>rg_trail := rg_trail db @ [release_trail r a provider],
                     rg_provider := update_where (\<lambda>x. pk_id x = pk_id k \<and> pk_tenant x = tenant)
                       (\<lambda>x. x\<lparr>pk_last_used := Some now\<rparr>) (rg_provider db),
                     rg_creds := update_where (\<lambda>x. gc_id x = gc_id c)
                       (\<lambda>x. x\<lparr>gc_last_used := Some now\<rparr>) (rg_creds db)\<rparr>)))"

text \<open>The whole request: authentication, then the view.\<close>

definition provider_key_request ::
  "auth_env \<Rightarrow> (string \<Rightarrow> string) \<Rightarrow> http_request \<Rightarrow> string \<Rightarrow> registry \<Rightarrow> (nat \<times> string + string) \<times> registry" where
  "provider_key_request V decrypt rq provider db =
     (case authenticate_gateway_agent V db rq of
        Inr (Some (AgentUser a, CredentialToken c r)) \<Rightarrow>
          release_provider_key decrypt (au_now V) a c r provider db
      | Inl Uncaught \<Rightarrow> (Inl (500, []), db)
      | _ \<Rightarrow> (Inl (401, ''authentication_failed''), db))"

end
