(* ===== verification/PrincipalRules.thy ===== *)
theory PrincipalRules
  imports Principals
begin

text \<open>
  What authentication and the permission classes guarantee: a workload's key never opens the
  portal, a minted key works until it is rotated, a provider key leaves only for a gateway and an
  agent of its tenant, and a hub identity is the hub's word.
\<close>

section \<open>Authenticators name rows of the registry\<close>

lemma matching_agentD:
  assumes "matching_agent V db key = Some a"
  shows "a \<in> set (rg_agents db)" "ag_status a \<in> {Active, Provisioning}"
    "key_matches (au_keys V) key (ag_hash a)" "ag_prefix a \<in> set (agent_key_prefixes key)"
  using find_in [OF assms [unfolded matching_agent_def]] by auto

lemma authenticate_agentD:
  assumes "authenticate_agent V db rq = Inr (Some (p, t))"
  shows "\<exists>a. p = AgentUser a \<and> t = KeyToken (rq_key rq) \<and> matching_agent V db (rq_key rq) = Some a
    \<and> \<not> agent_key_expired (au_now V) a \<and> starts_with ''sk_agent_'' (rq_key rq)
    \<and> (\<exists>i. verified_hub_identity (au_hub V) (ag_config a) (rq_hub_token rq) = Inr i)"
  using assms by (auto simp: authenticate_agent_def Let_def split: if_splits option.splits)

lemma authenticate_gateway_agentD:
  assumes "authenticate_gateway_agent V db rq = Inr (Some (p, t))"
  shows "\<exists>a c r. p = AgentUser a \<and> t = CredentialToken c r
    \<and> gateway_authenticate (au_keys V) (au_now V) db (rq_gateway rq) = Some (c, r)
    \<and> authenticate_agent V db rq = Inr (Some (AgentUser a, KeyToken (rq_key rq)))"
proof -
  from assms obtain c r t' where g: "gateway_authenticate (au_keys V) (au_now V) db (rq_gateway rq) = Some (c, r)"
    and a: "authenticate_agent V db rq = Inr (Some (p, t'))" and t: "t = CredentialToken c r"
    by (auto simp: authenticate_gateway_agent_def split: option.splits)
  from authenticate_agentD [OF a] g a t show ?thesis by auto
qed

lemma accept_bearerD:
  "accept_bearer V db who key found = (Inr (Some (p, t)), db') \<Longrightarrow> \<exists>k b. p = ServiceUser k b"
  by (auto simp: accept_bearer_def Let_def split: option.splits if_splits)

lemma authenticate_serviceD:
  "fst (authenticate_service V db rq) = Inr (Some (p, t)) \<Longrightarrow> \<exists>k b. p = ServiceUser k b"
  by (cases "accept_bearer V db ''Service'' (strip (drop 7 (rq_bearer rq)))
        (matching_api_key V db (\<lambda>k. ak_type k = ServiceKey) (strip (drop 7 (rq_bearer rq))))")
     (auto simp: authenticate_service_def bearer_of_def dest: accept_bearerD split: if_splits option.splits)

lemma authenticate_platformD:
  "fst (authenticate_platform V db rq) = Inr (Some (p, t)) \<Longrightarrow> \<exists>k b. p = ServiceUser k b"
  by (cases "accept_bearer V db ''Platform'' (strip (drop 7 (rq_bearer rq)))
        (matching_api_key V db (\<lambda>_. True) (strip (drop 7 (rq_bearer rq))))")
     (auto simp: authenticate_platform_def bearer_of_def dest: accept_bearerD split: if_splits option.splits)

lemma authenticate_combinedD:
  "authenticate_combined V db rq = Inr (Some (p, t)) \<Longrightarrow> \<exists>a. p = AgentUser a"
  by (auto simp: authenticate_combined_def Let_def dest: authenticate_agentD split: if_splits)

lemma authenticate_installD:
  "fst (authenticate_install V db rq) = Inr (Some (p, t)) \<Longrightarrow> \<exists>i. p = InstallUser i"
  by (auto simp: authenticate_install_def split: option.splits)

lemma authenticate_gatewayD:
  "authenticate_gateway V db rq = Inr (Some (p, t)) \<Longrightarrow> \<exists>r. p = GatewayUser r"
  by (auto simp: authenticate_gateway_def Let_def split: if_splits option.splits prod.splits)

lemma authenticate_openD:
  "authenticate_open V csrf rq = Inr (Some (p, t)) \<Longrightarrow> p = OpenUser \<and> is_open_mode (au_mode V)"
  by (auto simp: authenticate_open_def split: if_splits option.splits)

text \<open>Everything the authenticators of the backend make of a request, the session's apart.\<close>

definition key_outcomes :: "auth_env \<Rightarrow> (http_request \<Rightarrow> string option) \<Rightarrow> registry \<Rightarrow> http_request \<Rightarrow> outcome list" where
  "key_outcomes V csrf db rq =
     [authenticate_agent V db rq, fst (authenticate_service V db rq), fst (authenticate_platform V db rq),
      authenticate_combined V db rq, authenticate_gateway_agent V db rq,
      fst (authenticate_install V db rq), authenticate_gateway V db rq, authenticate_open V csrf rq]"

lemma key_outcomesD:
  assumes "Inr (Some (p, t)) \<in> set (key_outcomes V csrf db rq)"
  shows "is_workload p \<or> p = OpenUser \<and> is_open_mode (au_mode V)"
  using assms
  by (auto simp: key_outcomes_def eq_commute [of "Inr _"]
      dest!: authenticate_agentD authenticate_serviceD authenticate_platformD authenticate_combinedD
        authenticate_gateway_agentD authenticate_installD authenticate_gatewayD authenticate_openD)

section \<open>Roles\<close>

lemma role_distinct [simp]:
  "role_admin \<noteq> role_operator" "role_operator \<noteq> role_admin" "role_admin \<noteq> role_viewer"
  "role_viewer \<noteq> role_admin" "role_operator \<noteq> role_viewer" "role_viewer \<noteq> role_operator"
  "role_admin \<noteq> []" "role_operator \<noteq> []" "role_viewer \<noteq> []"
  "[] \<noteq> role_admin" "[] \<noteq> role_operator" "[] \<noteq> role_viewer"
  by (simp_all add: role_defs)

lemma role_level_simps [simp]:
  "role_level role_admin = 3" "role_level role_operator = 2" "role_level role_viewer = 1" "role_level [] = 0"
  by (simp_all add: role_level_def)

lemma workload_no_role: "is_workload p \<Longrightarrow> get_role p = []"
  by (cases p) simp_all

lemma portal_role_cases:
  "portal_role u \<in> {[], role_admin, role_operator, role_viewer}"
  "portal_role u = [] \<longleftrightarrow> \<not> pu_active u"
  by (simp_all add: portal_role_def)

text \<open>\<open>has_role\<close> grants a role it does not know to everybody.\<close>

lemma unknown_role_granted:
  "r \<notin> set all_roles \<Longrightarrow> has_role p r"
  by (auto simp: has_role_def role_level_def all_roles_def)

text \<open>Assigning one of the three roles takes the other two away.\<close>

lemma assign_role_exact:
  assumes "role \<in> set all_roles" "pu_active u" "\<not> pu_super u"
  shows "portal_role (fst (assign_role groups u role)) = role"
  using assms by (auto simp: assign_role_def portal_role_def all_roles_def Let_def)

text \<open>
  Outside the open mode no key opens the portal. Whatever the request carries, the principal
  one of the backend's authenticators makes of it, other than the session's, is refused by the
  portal's permission classes for every method, the administrator's included; and on an endpoint
  shared with agents it passes only as an active agent.
\<close>

lemma keys_never_open_portal:
  assumes "Inr (Some (p, t)) \<in> set (key_outcomes V csrf db rq)" "\<not> is_open_mode (au_mode V)"
  shows "\<not> portal_access m p \<and> \<not> portal_admin_access p
    \<and> (open_or_agent (au_mode V) m p \<longrightarrow> (\<exists>a. p = AgentUser a \<and> ag_status a = Active))"
proof (intro conjI impI)
  from key_outcomesD [OF assms(1)] assms(2) have w: "is_workload p" by simp
  from workload_no_role [OF w] have r: "get_role p = []" .
  show "\<not> portal_access m p" "\<not> portal_admin_access p"
    by (simp_all add: portal_access_def portal_admin_access_def can_view_def can_mutate_def can_admin_def
        has_role_def r)
  assume "open_or_agent (au_mode V) m p"
  with assms(2) r show "\<exists>a. p = AgentUser a \<and> ag_status a = Active"
    by (cases p) (auto simp: open_or_agent_def can_view_def can_mutate_def has_role_def split: if_splits)
qed

text \<open>Who passes the portal's permission classes is decided by the role alone.\<close>

lemma portal_access_iff:
  "portal_access m p \<longleftrightarrow> get_role p \<in> (if safe_method m then set all_roles else {role_admin, role_operator})"
proof (cases p)
  case (PortalUser u)
  with portal_role_cases [of u] show ?thesis
    by (auto simp: portal_access_def can_view_def can_mutate_def has_role_def all_roles_def)
qed (auto simp: portal_access_def can_view_def can_mutate_def has_role_def all_roles_def)

section \<open>Agent keys\<close>

text \<open>The other rows do not take this key: each is blank or was minted of another key.\<close>

definition only_key_of :: "key_env \<Rightarrow> agent_row list \<Rightarrow> agent_row \<Rightarrow> string \<Rightarrow> bool" where
  "only_key_of E rows a key \<longleftrightarrow>
     (\<forall>b \<in> set rows. b \<noteq> a \<longrightarrow> ag_hash b = [] \<or> (\<exists>salt key'. ag_hash b = k_hash E salt key' \<and> key' \<noteq> key))"

lemma only_key_matches:
  "hash_exact E \<Longrightarrow> only_key_of E rows a key \<Longrightarrow> b \<in> set rows \<Longrightarrow> key_matches E key (ag_hash b) \<Longrightarrow> b = a"
  unfolding only_key_of_def by (metis key_matches_iff matches_minted)

lemma find_unique:
  assumes "x \<in> set xs" "p x" and u: "\<And>y. y \<in> set xs \<Longrightarrow> p y \<Longrightarrow> y = x"
  shows "List.find p xs = Some x"
proof (cases "List.find p xs")
  case None
  with assms(1,2) show ?thesis unfolding find_None_iff by blast
next
  case (Some y)
  have "y = x" by (rule u) (use find_in [OF Some] in simp_all)
  with Some show ?thesis by (simp only:)
qed

lemma agent_generate_prefix:
  "agent_generate E raw salt = (full, h, p) \<Longrightarrow>
   p \<in> set (agent_key_prefixes full) \<and> starts_with ''sk_agent_'' full \<and> full \<noteq> []
   \<and> h = k_hash E salt full"
  by (auto simp: agent_generate_def generate_api_key_def Let_def agent_key_prefixes_def lookup_prefixes_def
      prefix_agent_def starts_with_def)

text \<open>
  Rotating an agent's key puts the new key in the old one's place. For an active agent whose
  key is unexpired and which no hub binds, a request with the key the rotation returned is
  authenticated as that agent, in its tenant; and a request with the key it had before is refused.
\<close>

lemma rotation_replaces_key:
  assumes "hash_accepts (au_keys V)" "hash_exact (au_keys V)"
    and "rotate_agent_key (au_keys V) raw salt a = (a', full)"
    and "ag_status a = Active" "\<not> agent_key_expired (au_now V) a" "\<not> truthy (ag_config a)"
    and "rg_agents db = before @ a' # after"
    and "only_key_of (au_keys V) (before @ a' # after) a' full"
    and "old \<noteq> full" "only_key_of (au_keys V) (before @ a' # after) a' old"
  shows "authenticate_agent V db \<lparr>rq_method = m, rq_key = full, rq_bearer = b, rq_gateway = g, rq_hub_token = []\<rparr>
      = Inr (Some (AgentUser a', KeyToken full))"
    and "tenant_of_request (au_mode V) (AgentUser a') = Some (ag_tenant a)"
    and "starts_with ''sk_agent_'' old \<Longrightarrow>
      authenticate_agent V db \<lparr>rq_method = m, rq_key = old, rq_bearer = b, rq_gateway = g, rq_hub_token = hub\<rparr>
      = Inl (AuthenticationFailed ''Invalid API key'')"
proof -
  obtain h p where gen: "agent_generate (au_keys V) raw salt = (full, h, p)"
    and a': "a' = a\<lparr>ag_hash := h, ag_prefix := p\<rparr>"
    using assms(3) by (auto simp: rotate_agent_key_def split: prod.splits)
  note pre = agent_generate_prefix [OF gen]
  have match: "key_matches (au_keys V) full (ag_hash a')"
    using minted_matches [OF assms(1)] pre a' by simp
  have "matching_agent V db full = Some a'"
    unfolding matching_agent_def assms(7)
    using match pre assms(4) a' only_key_matches [OF assms(2,8)]
    by (intro find_unique) auto
  then show "authenticate_agent V db \<lparr>rq_method = m, rq_key = full, rq_bearer = b, rq_gateway = g, rq_hub_token = []\<rparr>
      = Inr (Some (AgentUser a', KeyToken full))"
    using pre assms(4,5,6) a'
    by (simp add: authenticate_agent_def agent_key_expired_def verified_hub_identity_def config_value_def)
  show "tenant_of_request (au_mode V) (AgentUser a') = Some (ag_tenant a)"
    by (simp add: tenant_of_request_def a')
  assume old: "starts_with ''sk_agent_'' old"
  have "\<not> key_matches (au_keys V) old (ag_hash a')"
    using matches_minted [OF assms(2)] pre a' assms(9) by auto
  then have "matching_agent V db old = None"
    using only_key_matches [OF assms(2,10)] assms(7)
    by (auto simp: matching_agent_def find_None_iff)
  with old show "authenticate_agent V db \<lparr>rq_method = m, rq_key = old, rq_bearer = b, rq_gateway = g, rq_hub_token = hub\<rparr>
      = Inl (AuthenticationFailed ''Invalid API key'')"
    by (cases old) (auto simp: authenticate_agent_def starts_with_def)
qed

section \<open>Releasing a provider key\<close>

lemma release_provider_keyD:
  assumes "release_provider_key decrypt now a c r provider db = (Inr key, db')"
  shows "\<exists>k \<in> set (rg_provider db). pk_tenant k = ag_tenant a \<and> pk_provider k = provider \<and> pk_active k
      \<and> key = decrypt (pk_encrypted k)"
    "ag_tenant a \<in> set (gr_tenants r)" "rg_trail db' = rg_trail db @ [release_trail r a provider]"
  using assms
  by (auto simp: release_provider_key_def provider_key_of_def Let_def gateway_serves_def
      split: if_splits option.splits dest!: find_in)

text \<open>
  C14: A provider key leaves the backend only when the request carries both a live credential of an
  unrevoked gateway and the unexpired key of an active or provisioning agent, the gateway is
  registered for the agent's tenant, and the key is that tenant's own active one for the provider;
  and the release has been written to the trail of that tenant. In particular no agent key alone
  and no gateway credential alone ever obtains one.
\<close>

theorem provider_key_needs_both:
  assumes "provider_key_request V decrypt rq provider db = (Inr key, db')"
  shows "\<exists>a \<in> set (rg_agents db). \<exists>c \<in> set (rg_creds db). \<exists>r \<in> set (rg_gateways db). \<exists>k \<in> set (rg_provider db).
      key_matches (au_keys V) (rq_key rq) (ag_hash a) \<and> ag_status a \<in> {Active, Provisioning}
    \<and> \<not> agent_key_expired (au_now V) a
    \<and> key_matches (au_keys V) (rq_gateway rq) (gc_hash c) \<and> credential_live (au_now V) c
    \<and> gc_gateway c = gr_id r \<and> gateway_active r \<and> ag_tenant a \<in> set (gr_tenants r)
    \<and> pk_tenant k = ag_tenant a \<and> pk_provider k = provider \<and> pk_active k \<and> key = decrypt (pk_encrypted k)
    \<and> rg_trail db' = rg_trail db @ [release_trail r a provider]"
proof -
  obtain a c r where auth: "authenticate_gateway_agent V db rq = Inr (Some (AgentUser a, CredentialToken c r))"
    and rel: "release_provider_key decrypt (au_now V) a c r provider db = (Inr key, db')"
    using assms
    by (auto simp: provider_key_request_def
        split: sum.splits option.splits prod.splits principal.splits token.splits auth_exc.splits)
  from authenticate_gateway_agentD [OF auth]
  have gw: "gateway_authenticate (au_keys V) (au_now V) db (rq_gateway rq) = Some (c, r)"
    and ag: "authenticate_agent V db rq = Inr (Some (AgentUser a, KeyToken (rq_key rq)))" by auto
  from authenticate_agentD [OF ag] have m: "matching_agent V db (rq_key rq) = Some a"
    and e: "\<not> agent_key_expired (au_now V) a" by auto
  from release_provider_keyD [OF rel] obtain k where k: "k \<in> set (rg_provider db)"
    "pk_tenant k = ag_tenant a" "pk_provider k = provider" "pk_active k" "key = decrypt (pk_encrypted k)" by auto
  show ?thesis
    using matching_agentD [OF m] e gateway_authenticateD [OF gw] k release_provider_keyD(2,3) [OF rel]
    by (intro bexI [of _ a] bexI [of _ c] bexI [of _ r] bexI [of _ k]) (auto simp: gateway_active_def)
qed

section \<open>Hub identities\<close>

text \<open>The empty URL has no host, whatever the parser.\<close>

definition split_blank :: "hub_env \<Rightarrow> bool" where
  "split_blank H \<longleftrightarrow> (\<forall>u. h_split H [] = Some u \<longrightarrow> u_host u = None)"

lemma hub_identity_error_host:
  assumes "hub_identity_error H (PDict d) = Some None" "split_blank H"
  shows "\<exists>url u host. dget d ''api_url'' (PStr []) = PStr url \<and> h_split H url = Some u
    \<and> u_host u = Some host \<and> callable_host H (lower host)"
  using assms
  by (auto simp: hub_identity_error_def Let_def split_blank_def split: pyval.splits option.splits if_splits
      dest: public_hostD)

text \<open>
  A request acts as a hub user only on the hub's own word, freshly asked. When the check of an
  agent's request stores an identity, the hub at the URL the endpoint is bound to answered the
  request's user token with status 200 and a user object whose name the identity carries and whose
  scopes let that user reach a server; and the URL names a host the operator listed, or one all of
  whose addresses are public.
\<close>

lemma hub_identity_vouched:
  assumes "request_hub_identity V db rq = Some ident" "split_blank (au_hub V)"
  shows "\<exists>a \<in> set (rg_agents db). \<exists>d url u host name len user scopes.
      config_value (ag_config a) ''hub_identity'' = Some (PDict d)
    \<and> dget d ''api_url'' (PStr []) = PStr url \<and> h_split (au_hub V) url = Some u \<and> u_host u = Some host
    \<and> callable_host (au_hub V) (lower host)
    \<and> rq_hub_token rq \<noteq> []
    \<and> h_get (au_hub V) (rstrip_slash url @ ''/user'') (rq_hub_token rq) = Inr (200, len, Some (PDict user))
    \<and> dget user ''name'' PNone = PStr name \<and> dget user ''kind'' PNone = PStr ''user''
    \<and> dget user ''scopes'' (PList []) = PList scopes \<and> list_ex (server_scope name) scopes
    \<and> dget ident ''hub_user'' PNone = PStr name"
proof -
  obtain a where m: "matching_agent V db (rq_key rq) = Some a"
    and v: "verified_hub_identity (au_hub V) (ag_config a) (rq_hub_token rq) = Inr (Some ident)"
    using assms(1) by (auto simp: request_hub_identity_def split: option.splits sum.splits)
  obtain d name where c: "config_value (ag_config a) ''hub_identity'' = Some (PDict d)"
    and t: "rq_hub_token rq \<noteq> []" and h: "hub_identity_error (au_hub V) (PDict d) = Some None"
    and ask: "ask_hub (au_hub V) (bound_str (PDict d) ''api_url'') (rq_hub_token rq) = Inr name"
    and i: "dget ident ''hub_user'' PNone = PStr name"
    using v by (auto simp: verified_hub_identity_def Let_def dget_def
        split: option.splits if_splits elim!: is_dict.elims)
  from hub_identity_error_host [OF h assms(2)] obtain url u host where
    u: "dget d ''api_url'' (PStr []) = PStr url" "h_split (au_hub V) url = Some u" "u_host u = Some host"
      "callable_host (au_hub V) (lower host)" by blast
  show ?thesis
  proof (cases "map_of d ''api_url''")
    case None
    with u(1) have "url = []" by (simp add: dget_def)
    with u(2,3) assms(2) show ?thesis by (simp add: split_blank_def)
  next
    case (Some v)
    with u(1) have "bound_str (PDict d) ''api_url'' = url" by (simp add: bound_str_def dget_def)
    with ask_hubD [OF ask] hub_user_nameD u c t i matching_agentD(1) [OF m] show ?thesis by blast
  qed
qed

section \<open>Corners\<close>

text \<open>The refusal of a suspended endpoint is never given: its row is not among the candidates.\<close>

lemma suspended_never_said:
  "authenticate_agent V db rq \<noteq> Inl (AuthenticationFailed ''Endpoint is suspended'') \<or>
   (\<exists>a. matching_agent V db (rq_key rq) = Some a \<and> ag_status a \<noteq> Suspended)"
  using matching_agentD(2) [of V db "rq_key rq"]
  by (cases "matching_agent V db (rq_key rq)") (auto simp: authenticate_agent_def Let_def)

text \<open>An install and a gateway carry no tenant of their own, and are given the standalone one.\<close>

lemma install_gets_standalone_tenant:
  "tenant_of_request mode (InstallUser i) = Some standalone_tenant"
  "tenant_of_request mode (GatewayUser r) = Some standalone_tenant"
  by (simp_all add: tenant_of_request_def)

text \<open>A bound URL that the parser rejects is no refusal but an exception nothing catches.\<close>

lemma malformed_hub_url_uncaught:
  assumes "h_split H url = None" "config_value config ''hub_identity'' = Some (PDict [(''api_url'', PStr url)])"
    "tok \<noteq> []" "length tok \<le> 4096"
  shows "verified_hub_identity H config tok = Inl Uncaught"
  using assms by (simp add: verified_hub_identity_def hub_identity_error_def dget_def)

section \<open>A concrete deployment\<close>

definition demo_keys :: key_env where
  "demo_keys = \<lparr>k_hash = (\<lambda>_ key. CHR ''='' # key), k_check = (\<lambda>key h. Some (h = CHR ''='' # key)),
     k_sha = (\<lambda>_. ''00'')\<rparr>"

definition demo_hub_user :: pyval where
  "demo_hub_user = PDict [(''kind'', PStr ''user''), (''name'', PStr ''ada''),
     (''scopes'', PList [PStr ''access:servers!user=ada''])]"

definition demo_hub :: hub_env where
  "demo_hub = \<lparr>h_split = (\<lambda>url. Some \<lparr>u_scheme = ''http'',
       u_host = (if url = ''http://hub/api'' then Some ''hub'' else None),
       u_user = [], u_password = [], u_query = [], u_fragment = [], u_port = Some None\<rparr>),
     h_addresses = (\<lambda>_ _. None), h_global = (\<lambda>_. False),
     h_get = (\<lambda>url tok. if url = ''http://hub/api/user'' \<and> tok = ''t1''
       then Inr (200, 40, Some demo_hub_user) else Inl True),
     h_allowed = [''hub'']\<rparr>"

definition demo_auth :: auth_env where
  "demo_auth = \<lparr>au_keys = demo_keys, au_hub = demo_hub, au_mode = Some ''standalone'', au_now = 1000\<rparr>"

definition demo_agent :: agent_row where
  "demo_agent = \<lparr>ag_id = ''a1'', ag_tenant = ''t'', ag_agent_id = ''bot'', ag_name = ''bot'', ag_status = Active,
     ag_health = ''healthy'', ag_hash = ''=sk_agent_0123456789abcdefXYZ'', ag_prefix = ''sk_agent_0123456789abcdef'',
     ag_expires = Some 2000, ag_issued = Some 0, ag_registered = 0, ag_audited = Some 2000, ag_unaudited = 0,
     ag_install = None, ag_cluster = None, ag_revoked = None, ag_deployment = [], ag_config = PDict []\<rparr>"

definition demo_hub_agent :: agent_row where
  "demo_hub_agent = demo_agent\<lparr>ag_config := PDict [(''hub_identity'',
     PDict [(''api_url'', PStr ''http://hub/api''), (''hub_id'', PStr ''h1'')])]\<rparr>"

definition demo_registry :: registry where
  "demo_registry = empty_registry\<lparr>rg_agents := [demo_agent],
     rg_gateways := [\<lparr>gr_id = ''g1'', gr_name = ''edge'', gr_cluster_id = ''c'', gr_cluster = None,
       gr_tenants = [''t''], gr_created = 0, gr_revoked = None\<rparr>],
     rg_creds := [\<lparr>gc_id = ''k1'', gc_gateway = ''g1'', gc_prefix = ''sk_gateway_01234567'',
       gc_hash = ''=sk_gateway_0123456789'', gc_last_used = None, gc_revoked = None, gc_expires = None\<rparr>],
     rg_provider := [\<lparr>pk_id = ''p1'', pk_tenant = ''t'', pk_provider = ''anthropic'', pk_active = True,
       pk_encrypted = ''secret'', pk_last_used = None\<rparr>]\<rparr>"

definition demo_request :: http_request where
  "demo_request = \<lparr>rq_method = ''POST'', rq_key = ''sk_agent_0123456789abcdefXYZ'', rq_bearer = [],
     rq_gateway = ''sk_gateway_0123456789'', rq_hub_token = []\<rparr>"

lemma demo_hashes: "hash_accepts (au_keys demo_auth)" "hash_exact (au_keys demo_auth)"
  by (simp_all add: hash_accepts_def hash_exact_def demo_auth_def demo_keys_def)

lemma demo_agent_request:
  "authenticate_agent demo_auth demo_registry demo_request
   = Inr (Some (AgentUser demo_agent, KeyToken ''sk_agent_0123456789abcdefXYZ''))"
  by code_simp

lemma keys_never_open_portal_witness:
  "\<not> portal_access ''POST'' (AgentUser demo_agent)"
  using keys_never_open_portal [of "AgentUser demo_agent" "KeyToken ''sk_agent_0123456789abcdefXYZ''" demo_auth
      "\<lambda>_. None" demo_registry demo_request "''POST''"] demo_agent_request
  by (simp add: key_outcomes_def demo_auth_def is_open_mode_def lower_def lower_char_def)

lemma rotation_replaces_key_witness:
  "\<exists>a'. authenticate_agent demo_auth (demo_registry\<lparr>rg_agents := [a']\<rparr>)
       \<lparr>rq_method = ''POST'', rq_key = ''sk_agent_new'', rq_bearer = [], rq_gateway = [], rq_hub_token = []\<rparr>
     = Inr (Some (AgentUser a', KeyToken ''sk_agent_new''))"
proof -
  define a' where "a' = fst (rotate_agent_key (au_keys demo_auth) ''new'' ''salt'' demo_agent)"
  have rot: "rotate_agent_key (au_keys demo_auth) ''new'' ''salt'' demo_agent = (a', ''sk_agent_new'')"
    by (simp add: a'_def rotate_agent_key_def agent_generate_def generate_api_key_def prefix_agent_def Let_def)
  show ?thesis
    using rotation_replaces_key(1) [OF demo_hashes rot, of "demo_registry\<lparr>rg_agents := [a']\<rparr>" "[]" "[]"
        "''sk_agent_0123456789abcdefXYZ''" "''POST''" "[]" "[]"]
    by (auto simp: demo_agent_def agent_key_expired_def demo_auth_def only_key_of_def)
qed

theorem provider_key_needs_both_witness:
  "\<exists>a \<in> set (rg_agents demo_registry). \<exists>r \<in> set (rg_gateways demo_registry). ag_tenant a \<in> set (gr_tenants r)"
proof -
  have "fst (provider_key_request demo_auth id demo_request ''anthropic'' demo_registry) = Inr ''secret''"
    by code_simp
  then obtain db' where
    "provider_key_request demo_auth id demo_request ''anthropic'' demo_registry = (Inr ''secret'', db')"
    by (cases "provider_key_request demo_auth id demo_request ''anthropic'' demo_registry") simp
  from provider_key_needs_both [OF this] show ?thesis by blast
qed

lemma rg_agents_demo: "rg_agents (demo_registry\<lparr>rg_agents := xs\<rparr>) = xs"
  by simp

lemma demo_hub_matching:
  "matching_agent demo_auth (demo_registry\<lparr>rg_agents := [demo_hub_agent]\<rparr>) ''sk_agent_0123456789abcdefXYZ''
   = Some demo_hub_agent"
  by (simp add: matching_agent_def demo_hub_agent_def demo_agent_def demo_auth_def demo_keys_def key_matches_iff
      agent_key_prefixes_def lookup_prefixes_def prefix_agent_def prefix_random_chars_def)

lemma demo_hub_user_name: "hub_user_name demo_hub_user = Some ''ada''"
  by (simp add: hub_user_name_def demo_hub_user_def dget_def server_scope_def)

lemma demo_hub_identity: "verified_hub_identity demo_hub (ag_config demo_hub_agent) ''t1''
   = Inr (Some [(''user_id'', PStr ''hub:h1:ada''), (''hub_id'', PStr ''h1''), (''hub_user'', PStr ''ada'')])"
  by (simp add: verified_hub_identity_def config_value_def demo_hub_agent_def demo_hub_def dget_def
      hub_identity_error_def public_host_def ask_hub_def demo_hub_user_name bound_str_def rstrip_slash_def
      lower_def lower_char_def)

lemma hub_identity_vouched_witness:
  "\<exists>a \<in> set [demo_hub_agent]. \<exists>d. config_value (ag_config a) ''hub_identity'' = Some (PDict d)"
proof -
  let ?db = "demo_registry\<lparr>rg_agents := [demo_hub_agent]\<rparr>"
  have c: "request_hub_identity demo_auth ?db (demo_request\<lparr>rq_hub_token := ''t1''\<rparr>)
      = Some [(''user_id'', PStr ''hub:h1:ada''), (''hub_id'', PStr ''h1''), (''hub_user'', PStr ''ada'')]"
    using demo_hub_matching demo_hub_identity
    by (simp add: request_hub_identity_def demo_request_def demo_auth_def)
  have b: "split_blank (au_hub demo_auth)"
    by (simp add: split_blank_def demo_auth_def demo_hub_def)
  from hub_identity_vouched [OF c b] obtain a d where "a \<in> set (rg_agents ?db)"
    and "config_value (ag_config a) ''hub_identity'' = Some (PDict d)"
    by (elim bexE exE conjE)
  then show ?thesis unfolding rg_agents_demo by (intro bexI exI)
qed

end
