(* ===== verification/AstroliftDemo.thy ===== *)
theory AstroliftDemo
  imports AstroliftReach PrincipalRules
begin

text \<open>
  A concrete Astrolift deployment, run step by step from the empty registry: a code is issued, an
  install connects with it, registers a cluster and mints an agent key. The registries are the
  results of the operations themselves.
\<close>

definition after :: "astro_error + 'a \<times> registry \<Rightarrow> registry" where
  "after m = (case m of Inr (_, db) \<Rightarrow> db | Inl _ \<Rightarrow> empty_registry)"

definition run_value :: "astro_error + 'a \<times> registry \<Rightarrow> 'a option" where
  "run_value m = (case m of Inr (x, _) \<Rightarrow> Some x | Inl _ \<Rightarrow> None)"

lemma ran: "run_value m \<noteq> None \<Longrightarrow> m = Inr (the (run_value m), after m)"
  by (auto simp: run_value_def after_def split: sum.splits)

definition demo_astro :: astro_env where
  "demo_astro = \<lparr>e_keys = demo_keys\<lparr>k_sha := id\<rparr>, e_iso = (\<lambda>_. ''2030-01-01''), e_lifetime = seconds (7 * 24 * 3600)\<rparr>"

text \<open>The \<open>n\<close>th call draws ids and keys that end in a letter of its own.\<close>

definition demo_fresh :: "char \<Rightarrow> fresh" where
  "demo_fresh ch = \<lparr>fr_id = [CHR ''i'', ch], fr_gateway = [CHR ''g'', ch], fr_credential = [CHR ''c'', ch],
     fr_raw = ''0123456789abcdef'' @ [ch], fr_salt = []\<rparr>"

definition demo_mint :: mint_request where
  "demo_mint = \<lparr>mr_agent = ''box'', mr_ttl = seconds 3600, mr_tenant = [], mr_name = [], mr_deployment = [], mr_cluster = ''k1''\<rparr>"

definition demo_code :: string where "demo_code = ''zen_enroll_0123456789abcdefa''"

definition run_issue where "run_issue = issue_code demo_astro 0 (demo_fresh CHR ''a'') [''t''] ''ada'' None empty_registry"
definition run_connect where "run_connect = connect demo_astro 10 (demo_fresh CHR ''b'') demo_code ''https://a'' ''A'' (after run_issue)"
definition run_register where "run_register = register_cluster demo_astro 20 (demo_fresh CHR ''c'') ''ib'' ''k1'' [] [] None (after run_connect)"
definition run_mint where "run_mint = mint_agent_key demo_astro 30 (demo_fresh CHR ''d'') ''ib'' demo_mint (after run_register)"
definition run_disconnect where "run_disconnect = disconnect_install 40 ''ib'' ''portal'' (after run_mint)"
definition run_rotate where "run_rotate = rotate_cluster demo_astro 40 (demo_fresh CHR ''e'') ''ib'' ''k1'' (seconds 60) ''portal'' (after run_mint)"

lemma demo_runs:
  "run_value run_issue \<noteq> None" "run_value run_connect \<noteq> None" "run_value run_register \<noteq> None"
  "run_value run_mint \<noteq> None" "run_value run_disconnect \<noteq> None" "run_value run_rotate \<noteq> None"
  by code_simp+

lemma demo_fresh_for:
  "fresh_for (demo_fresh CHR ''a'') empty_registry" "fresh_for (demo_fresh CHR ''b'') (after run_issue)"
  "fresh_for (demo_fresh CHR ''c'') (after run_connect)" "fresh_for (demo_fresh CHR ''d'') (after run_register)"
  "fresh_for (demo_fresh CHR ''e'') (after run_mint)"
  by code_simp+

lemma demo_reachable:
  "reachable demo_astro (after run_issue)" "reachable demo_astro (after run_connect)"
  "reachable demo_astro (after run_register)" "reachable demo_astro (after run_mint)"
proof -
  have "reachable demo_astro empty_registry" by (simp add: reachable_def)
  then show 1: "reachable demo_astro (after run_issue)"
    by (rule reachable_step) (rule astro_step.issue [OF ran [OF demo_runs(1), unfolded run_issue_def] demo_fresh_for(1),
        folded run_issue_def], simp add: empty_registry_def)
  from 1 show 2: "reachable demo_astro (after run_connect)"
    by (rule reachable_step) (rule astro_step.connect [OF ran [OF demo_runs(2), unfolded run_connect_def] demo_fresh_for(2),
        folded run_connect_def])
  from 2 show 3: "reachable demo_astro (after run_register)"
    by (rule reachable_step) (rule astro_step.register [OF ran [OF demo_runs(3), unfolded run_register_def] demo_fresh_for(3),
        folded run_register_def])
  from 3 show "reachable demo_astro (after run_mint)"
    by (rule reachable_step) (rule astro_step.mint [OF ran [OF demo_runs(4), unfolded run_mint_def] demo_fresh_for(4),
        folded run_mint_def])
qed

lemma demo_reachable_disconnected: "reachable demo_astro (after run_disconnect)"
  using demo_reachable(4)
  by (rule reachable_step) (rule astro_step.disconnect [OF ran [OF demo_runs(5), unfolded run_disconnect_def],
      folded run_disconnect_def])

definition demo_request_of :: "string \<Rightarrow> http_request" where
  "demo_request_of key = \<lparr>rq_method = ''POST'', rq_key = key, rq_bearer = [], rq_gateway = [], rq_hub_token = []\<rparr>"

end
