(* ===== verification/AstroliftRules.thy ===== *)
theory AstroliftRules
  imports AstroliftDemo
begin

text \<open>
  What the Astrolift registry guarantees in every reachable state, seen from a request: what a
  gateway credential and an agent key of an install still open, how long, and after which stops.
\<close>

section \<open>What a step does to the agents\<close>

inductive agent_change :: "astro_env \<Rightarrow> agent_row \<Rightarrow> agent_row \<Rightarrow> bool" for E :: astro_env where
  reminted: "\<not> stopped_by_others a \<Longrightarrow>
     agent_change E a (reminted_agent now mr cl key (min (now + mr_ttl mr) (now + e_lifetime E)) a)"
| renewed: "ag_status a = Active \<Longrightarrow> agent_change E a (fst (renewed_agent E now ttl a))"
| revoked: "ag_status a = Active \<Longrightarrow> agent_change E a (a\<lparr>ag_status := Terminated, ag_revoked := Some now\<rparr>)"
| stopped: "b \<in> set (stops a) \<Longrightarrow> agent_change E a b"
| rekeyed: "regenerate_key K raw salt a = (b, plain) \<Longrightarrow> agent_change E a b"

definition new_row :: "astro_env \<Rightarrow> registry \<Rightarrow> agent_row \<Rightarrow> bool" where
  "new_row E db a \<longleftrightarrow> ag_id a \<notin> ag_id ` set (rg_agents db) \<and>
     (ag_install a = None \<or> (\<exists>t e. ag_issued a = Some t \<and> ag_expires a = Some e \<and> ag_audited a = Some e
        \<and> e \<le> t + e_lifetime E))"

definition terminate :: "agent_row \<Rightarrow> agent_row" where
  "terminate a = a\<lparr>ag_status := Terminated, ag_revoked := None\<rparr>"

lemma change_id: "agent_change E a b \<Longrightarrow> ag_id b = ag_id a"
  by (induction rule: agent_change.induct)
    (auto simp: reminted_agent_def dest: stops_stopped rekeyed_same)

text \<open>The four ways: untouched, terminated with their install, one more row, one row replaced.\<close>

lemma same_agents:
  "issue_code E now fr ts who ttl db = Inr (xc, db') \<Longrightarrow> rg_agents db' = rg_agents db"
  "connect E now fr code url name db = Inr (xi, db') \<Longrightarrow> rg_agents db' = rg_agents db"
  "rotate_cluster E now fr k ext overlap via db = Inr (xo, db') \<Longrightarrow> rg_agents db' = rg_agents db"
  "revoke_cluster now cl via db = Inr (xv, db') \<Longrightarrow> rg_agents db' = rg_agents db"
  "record_heartbeat now c r cid h v cts inst db = Inr (xh, db') \<Longrightarrow> rg_agents db' = rg_agents db"
  "gateway_register K now fr name cl ts db = Inr (xg, db') \<Longrightarrow> rg_agents db' = rg_agents db"
  "gateway_mint K fr name db = Inr (xg, db') \<Longrightarrow> rg_agents db' = rg_agents db"
  subgoal by (auto simp: issue_code_def Let_def split: if_splits option.splits)
  subgoal by (auto simp: connect_def Let_def case_prod_beta split: if_splits option.splits)
  subgoal by (auto simp: rotate_cluster_def Let_def case_prod_beta split: option.splits)
  subgoal by (auto simp: revoke_cluster_def Let_def split: option.splits if_splits)
  subgoal by (auto simp: record_heartbeat_def Let_def split: option.splits if_splits)
  subgoal by (auto simp: gateway_register_def Let_def case_prod_beta split: if_splits)
  subgoal by (auto simp: gateway_mint_def case_prod_beta split: if_splits)
  done

lemma place_cluster_agents:
  "place_cluster now fr i ext prov reg scope db = Inr (x, db') \<Longrightarrow> rg_agents db' = rg_agents db"
  by (auto simp: place_cluster_def registration_for_new_cluster_def Let_def case_prod_beta
      split: option.splits list.splits if_splits)

lemma same_agents_more:
  "register_cluster E now fr k ext prov reg req db = Inr (xr, db') \<Longrightarrow> rg_agents db' = rg_agents db"
  "gateway_revoke_command now name cred db = Inr db' \<Longrightarrow> rg_agents db' = rg_agents db"
  "ensure_local_gateway K now fr path fe de wr tenant db = (xl, db') \<Longrightarrow> rg_agents db' = rg_agents db"
  subgoal by (auto simp: register_cluster_def Let_def case_prod_beta dest: place_cluster_agents)
  subgoal by (auto simp: gateway_revoke_command_def dest: same_agents(4)
        split: if_splits option.splits sum.splits prod.splits)
  subgoal by (auto simp: ensure_local_gateway_def local_registration_def Let_def case_prod_beta
        split: if_splits option.splits written.splits)
  done

lemma step_agents:
  assumes "astro_step E db db'"
  obtains "rg_agents db' = rg_agents db"
  | p where "rg_agents db' = update_where p terminate (rg_agents db)"
  | a where "rg_agents db' = rg_agents db @ [a]" "new_row E db a"
  | a b where "a \<in> set (rg_agents db)" "agent_change E a b" "rg_agents db' = rg_agents (put_agent b db)"
  using assms
proof cases
  case (disconnect now k via xd)
  from disconnect(1) show ?thesis
    by (cases rule: disconnect_install_tables) (auto intro: that(1,2) simp: terminate_def [abs_def])
next
  case (mint now fr k mr xm)
  obtain a plain created where x: "xm = (a, plain, created)" by (cases xm)
  from mint(1) [unfolded x] show ?thesis
  proof (cases rule: mint_agent_keyD)
    case (1 i tenant cl)
    have "new_row E db a"
      using mint(2) by (auto simp: 1(8) new_row_def new_agent_def fresh_for_def)
    with 1(9) show ?thesis by (rule that(3))
  next
    case (2 i tenant cl old)
    from existing_agentD [OF 2(7)] have "old \<in> set (rg_agents db)" by blast
    moreover have "agent_change E old a" unfolding 2(10) by (rule agent_change.reminted) (rule 2(9))
    ultimately show ?thesis using 2(11) by (rule that(4))
  qed
next
  case (renew now i n ttl t xn)
  from renew(1) show ?thesis
    by (cases rule: renew_agent_keyD) (auto intro: that(4) agent_change.renewed)
next
  case (revoke_key now i n t xk)
  from revoke_key(1) show ?thesis
    by (cases rule: revoke_agent_keyD) (auto intro: that(1) that(4) agent_change.revoked)
next
  case (stop a b)
  then show ?thesis by (auto intro: that(4) agent_change.stopped)
next
  case (rekey a raw salt b plain)
  then show ?thesis by (auto intro: that(4) agent_change.rekeyed)
next
  case (enroll a)
  then show ?thesis by (auto intro: that(3) simp: new_row_def)
qed (blast intro: that(1) same_agents same_agents_more)+

section \<open>Stops that stand\<close>

lemma change_stopped: "agent_change E a b \<Longrightarrow> stopped_by_others a \<Longrightarrow> stopped_by_others b"
  by (induction rule: agent_change.induct)
    (auto simp: stopped_by_others_def rekeyed_same dest: stops_stopped)

lemma step_stopped:
  assumes "astro_step E db db'" "registry_ok db" "a \<in> set (rg_agents db)" "stopped_by_others a"
  shows "\<exists>b \<in> set (rg_agents db'). ag_id b = ag_id a \<and> stopped_by_others b"
  using assms(1)
proof (cases rule: step_agents)
  case 1
  with assms(3,4) show ?thesis by auto
next
  case (2 p)
  have "(if p a then terminate a else a) \<in> set (rg_agents db')"
    using assms(3) by (auto simp: 2 in_update_where)
  with assms(4) show ?thesis
    by (intro bexI [of _ "if p a then terminate a else a"]) (auto simp: terminate_def stopped_by_others_def)
next
  case (3 c)
  with assms(3,4) show ?thesis by auto
next
  case (4 c d)
  have "distinct (map ag_id (rg_agents db))" using assms(2) by (simp add: registry_ok_def ids_ok_def)
  then have "ag_id a = ag_id c \<Longrightarrow> a = c" using same_row [OF _ assms(3) 4(1)] by blast
  moreover note change_id [OF 4(2)] change_stopped [OF 4(2)] assms(3,4)
  ultimately show ?thesis
    using 4(1) unfolding 4(3) Bex_def in_put_agent by (cases "ag_id a = ag_id c") auto
qed

text \<open>
  C13: A stop by anyone but the minting install stands. Once an agent of a reachable registry was
  stopped by an administrator, the operator API, the kill switch, its own deregistration or the
  disconnecting of its install, no sequence of operations - mints, renewals, revokes and
  reconnections of any install, in any order and at any time - makes it active or brings it into
  the state in which its install may mint its key again; only an administrator's reactivation,
  which is not among the steps, does.
\<close>

theorem administrators_stop_stands:
  assumes "reachable E db" "a \<in> set (rg_agents db)" "stopped_by_others a" "(astro_step E)\<^sup>*\<^sup>* db db'"
  shows "\<exists>b \<in> set (rg_agents db'). ag_id b = ag_id a \<and> stopped_by_others b \<and> ag_status b \<noteq> Active"
proof -
  have "\<exists>b \<in> set (rg_agents db'). ag_id b = ag_id a \<and> stopped_by_others b"
    using assms(4)
  proof (induction rule: rtranclp_induct)
    case base
    with assms(2,3) show ?case by blast
  next
    case (step y z)
    then obtain b where b: "b \<in> set (rg_agents y)" "ag_id b = ag_id a" "stopped_by_others b" by blast
    have "registry_ok y" by (rule reachable_ok [OF reachable_steps [OF assms(1) step(1)]])
    from step_stopped [OF step(2) this b(1,3)] b(2) show ?case by simp
  qed
  then show ?thesis by (auto simp: stopped_by_others_def split: if_splits)
qed

section \<open>Keys that end\<close>

text \<open>The bounds an install-minted key keeps, however it is renewed.\<close>

definition key_bounded :: "astro_env \<Rightarrow> agent_row \<Rightarrow> bool" where
  "key_bounded E a \<longleftrightarrow> ag_install a = None \<or>
     (\<exists>t e r. ag_issued a = Some t \<and> ag_expires a = Some e \<and> ag_audited a = Some r
        \<and> e \<le> t + e_lifetime E \<and> e \<le> r + renewal_audit_grace)"

lemma grace_nonneg: "0 \<le> renewal_audit_grace"
  by (simp add: renewal_audit_grace_def seconds_def)

lemma same_bounded:
  "ag_install b = ag_install a \<Longrightarrow> ag_issued b = ag_issued a \<Longrightarrow> ag_expires b = ag_expires a \<Longrightarrow>
   ag_audited b = ag_audited a \<Longrightarrow> key_bounded E b = key_bounded E a"
  by (simp add: key_bounded_def)

lemma terminate_bounded [simp]: "key_bounded E (terminate a) = key_bounded E a"
  by (rule same_bounded) (simp_all add: terminate_def)

lemma renewed_bounded:
  assumes "key_bounded E a"
  shows "key_bounded E (fst (renewed_agent E now ttl a))"
proof (cases "ag_install a")
  case (Some k)
  with assms obtain t e r where "ag_issued a = Some t" "ag_expires a = Some e" "ag_audited a = Some r"
    by (auto simp: key_bounded_def)
  then show ?thesis
    using grace_nonneg Some by (auto simp: key_bounded_def renewed_agent_def Let_def lifetime_ends_at_def)
qed (simp add: key_bounded_def)

lemma change_bounded: "agent_change E a b \<Longrightarrow> key_bounded E a \<Longrightarrow> key_bounded E b"
proof (induction rule: agent_change.induct)
  case (reminted a now mr cl key)
  then show ?case using grace_nonneg by (auto simp: key_bounded_def reminted_agent_def)
next
  case (renewed a now ttl)
  then show ?case by (simp add: renewed_bounded)
next
  case (rekeyed K raw salt a b plain)
  then show ?case using rekeyed_same [OF rekeyed(1)] by (simp add: key_bounded_def)
next
  case (stopped b a)
  then show ?case using stops_stopped [OF stopped(1)] same_bounded [of b a E] by simp
qed (simp add: key_bounded_def)

lemma step_bounded:
  assumes "astro_step E db db'" "\<And>a. a \<in> set (rg_agents db) \<Longrightarrow> key_bounded E a" "b \<in> set (rg_agents db')"
  shows "key_bounded E b"
  using assms(1)
proof (cases rule: step_agents)
  case 1
  with assms(2,3) show ?thesis by simp
next
  case (2 p)
  with assms(2,3) show ?thesis by (auto simp: in_update_where)
next
  case (3 c)
  then have "key_bounded E c" using grace_nonneg by (auto simp: new_row_def key_bounded_def)
  with 3 assms(2,3) show ?thesis by auto
next
  case (4 c d)
  with assms(2) have "key_bounded E d" using change_bounded by blast
  with 4 assms(2,3) show ?thesis by (auto simp: in_put_agent)
qed

lemma reachable_bounded: "reachable E db \<Longrightarrow> a \<in> set (rg_agents db) \<Longrightarrow> key_bounded E a"
  unfolding reachable_def
proof (induction arbitrary: a rule: rtranclp_induct)
  case base
  then show ?case by (simp add: empty_registry_def)
next
  case (step y z)
  from step_bounded [OF step(2) step(3) step(4)] show ?case .
qed


section \<open>Instances\<close>

theorem administrators_stop_stands_witness:
  "\<exists>b \<in> set (rg_agents (after run_disconnect)). stopped_by_others b \<and> ag_status b \<noteq> Active"
proof -
  have "list_ex stopped_by_others (rg_agents (after run_disconnect))" by code_simp
  then obtain a where a: "a \<in> set (rg_agents (after run_disconnect))" "stopped_by_others a"
    by (auto simp: list_ex_iff)
  from administrators_stop_stands [OF demo_reachable_disconnected a rtranclp.rtrancl_refl] show ?thesis by blast
qed


end
