(* ===== verification/AstroliftAccess.thy ===== *)
theory AstroliftAccess
  imports AstroliftRules
begin

text \<open>
  What disconnecting an install closes for good, that an enrollment code connects once, what
  registering and rotating hand out, and what heartbeats add up to.
\<close>

section \<open>Disconnected installs\<close>

text \<open>Installs are never removed, and a revoked one is never connected again.\<close>

definition gone :: "string \<Rightarrow> registry \<Rightarrow> bool" where
  "gone k db \<longleftrightarrow> (\<exists>i \<in> set (rg_installs db). in_id i = k \<and> in_revoked i \<noteq> None)"

lemma same_installs:
  "issue_code E now fr ts who ttl db = Inr (xc, db') \<Longrightarrow> rg_installs db' = rg_installs db"
  "rotate_cluster E now fr k ext overlap via db = Inr (xo, db') \<Longrightarrow> rg_installs db' = rg_installs db"
  "revoke_cluster now cl via db = Inr (xv, db') \<Longrightarrow> rg_installs db' = rg_installs db"
  "record_heartbeat now c r cid h v cts inst db = Inr (xh, db') \<Longrightarrow> rg_installs db' = rg_installs db"
  "gateway_register K now fr name cl ts db = Inr (xg, db') \<Longrightarrow> rg_installs db' = rg_installs db"
  "gateway_mint K fr name db = Inr (xg, db') \<Longrightarrow> rg_installs db' = rg_installs db"
  subgoal by (auto simp: issue_code_def Let_def split: if_splits option.splits)
  subgoal by (auto simp: rotate_cluster_def Let_def case_prod_beta split: option.splits)
  subgoal by (auto simp: revoke_cluster_def Let_def split: option.splits if_splits)
  subgoal by (auto simp: record_heartbeat_def Let_def split: option.splits if_splits)
  subgoal by (auto simp: gateway_register_def Let_def case_prod_beta split: if_splits)
  subgoal by (auto simp: gateway_mint_def case_prod_beta split: if_splits)
  done

lemma place_cluster_installs:
  "place_cluster now fr i ext prov reg scope db = Inr (x, db') \<Longrightarrow> rg_installs db' = rg_installs db"
  by (auto simp: place_cluster_def registration_for_new_cluster_def Let_def case_prod_beta
      split: option.splits list.splits if_splits)

lemma same_installs_more:
  "register_cluster E now fr k ext prov reg req db = Inr (xr, db') \<Longrightarrow> rg_installs db' = rg_installs db"
  "gateway_revoke_command now name cred db = Inr db' \<Longrightarrow> rg_installs db' = rg_installs db"
  "ensure_local_gateway K now fr path fe de wr tenant db = (xl, db') \<Longrightarrow> rg_installs db' = rg_installs db"
  "mint_agent_key E now fr k mr db = Inr (xm, db') \<Longrightarrow> rg_installs db' = rg_installs db"
  "renew_agent_key E now i n ttl t db = Inr (xn, db') \<Longrightarrow> rg_installs db' = rg_installs db"
  "revoke_agent_key now i n t db = Inr (xk, db') \<Longrightarrow> rg_installs db' = rg_installs db"
  subgoal by (auto simp: register_cluster_def Let_def case_prod_beta dest: place_cluster_installs)
  subgoal by (auto simp: gateway_revoke_command_def dest: same_installs(3)
        split: if_splits option.splits sum.splits prod.splits)
  subgoal by (auto simp: ensure_local_gateway_def local_registration_def Let_def case_prod_beta
        split: if_splits option.splits written.splits)
  subgoal by (cases xm) (auto elim: mint_agent_keyD)
  subgoal by (auto elim: renew_agent_keyD)
  subgoal by (auto elim: revoke_agent_keyD)
  done

lemma step_gone:
  assumes "astro_step E db db'" "gone k db"
  shows "gone k db'"
proof -
  from assms(1) have "set (rg_installs db) \<subseteq> set (rg_installs db') \<or>
      (\<exists>j i. in_revoked i \<noteq> None \<and> in_id i = j \<and> rg_installs db' = update_where (\<lambda>x. in_id x = j) (\<lambda>_. i) (rg_installs db))"
  proof cases
    case (connect now fr code url name xi)
    then show ?thesis by (auto simp: connect_def Let_def case_prod_beta split: if_splits option.splits)
  next
    case (disconnect now j via xd)
    from disconnect(1) show ?thesis
    proof (cases rule: disconnect_install_tables)
      case (2 i)
      then show ?thesis by (intro disjI2 exI [of _ j] exI [of _ "i\<lparr>in_revoked := Some now\<rparr>"]) auto
    qed simp
  qed (simp_all add: same_installs same_installs_more)
  then show ?thesis
  proof (elim disjE exE conjE)
    assume "set (rg_installs db) \<subseteq> set (rg_installs db')"
    with assms(2) show ?thesis by (auto simp: gone_def)
  next
    fix j i assume i: "in_revoked i \<noteq> None" "in_id i = j"
      "rg_installs db' = update_where (\<lambda>x. in_id x = j) (\<lambda>_. i) (rg_installs db)"
    from assms(2) obtain x where x: "x \<in> set (rg_installs db)" "in_id x = k" "in_revoked x \<noteq> None"
      by (auto simp: gone_def)
    then have "(if in_id x = j then i else x) \<in> set (rg_installs db')" by (auto simp: i(3) in_update_where)
    with x i show ?thesis unfolding gone_def by (intro bexI [of _ "if in_id x = j then i else x"]) auto
  qed
qed

lemma gone_not_live:
  assumes "registry_ok db" "gone k db" "i \<in> set (rg_installs db)" "in_id i = k"
  shows "in_revoked i \<noteq> None"
proof -
  have "distinct (map in_id (rg_installs db))" using assms(1) by (simp add: registry_ok_def ids_ok_def)
  with assms(2-4) same_row show ?thesis unfolding gone_def by metis
qed

text \<open>A registration linked to a cluster of an install.\<close>

definition gateway_of_install :: "registry \<Rightarrow> string \<Rightarrow> gateway_row \<Rightarrow> bool" where
  "gateway_of_install db k r \<longleftrightarrow> (\<exists>c \<in> set (rg_clusters db). gr_cluster r = Some (cl_id c) \<and> cl_install c = k)"

lemma live_gateway_install:
  assumes ok: "registry_ok db" and r: "r \<in> set (rg_gateways db)" "gr_revoked r = None" "gateway_of_install db k r"
  shows "\<exists>i \<in> set (rg_installs db). in_id i = k \<and> in_revoked i = None \<and> set (gr_tenants r) \<subseteq> set (in_tenants i)"
proof -
  from r(3) obtain c where c: "c \<in> set (rg_clusters db)" "gr_cluster r = Some (cl_id c)" "cl_install c = k"
    by (auto simp: gateway_of_install_def)
  from ok r(1,2) c(2) obtain d i where d: "d \<in> set (rg_clusters db)" "cl_id d = cl_id c" "cl_revoked d = None"
    and i: "i \<in> set (rg_installs db)" "in_id i = cl_install d" "set (gr_tenants r) \<subseteq> set (in_tenants i)"
    unfolding registry_ok_def gateways_ok_def by meson
  have dc: "d = c" using same_row [OF _ d(1) c(1) d(2)] ok by (simp add: registry_ok_def ids_ok_def)
  from ok d obtain j where j: "j \<in> set (rg_installs db)" "in_id j = cl_install d" "in_revoked j = None"
    unfolding registry_ok_def clusters_ok_def by meson
  have "j = i" using same_row [of in_id, OF _ j(1) i(1)] j(2) i(2) ok by (simp add: registry_ok_def ids_ok_def)
  with i j c dc show ?thesis by auto
qed

lemma register_locked: "register_cluster E t fr k ext prov reg req db = Inr x \<Longrightarrow> \<exists>i. locked_install db k = Inr i"
  by (cases "locked_install db k") (simp_all add: register_cluster_def)

text \<open>
  A live credential reaches no further than its install. In a reachable registry a gateway
  credential that authenticates, of a registration linked to a cluster of an install, belongs to a
  connected install, and every tenant the registration serves is one the install was connected for.
\<close>

lemma gateway_within_install:
  assumes "reachable E db" "gateway_authenticate K now db key = Some (c, r)" "gateway_of_install db k r"
  shows "\<exists>i \<in> set (rg_installs db). in_id i = k \<and> install_active i
    \<and> (\<forall>tenant. gateway_serves r tenant \<longrightarrow> tenant \<in> set (in_tenants i))"
  using live_gateway_install [OF reachable_ok [OF assms(1)] gateway_authenticateD(4,6) [OF assms(2)] assms(3)]
  by (auto simp: install_active_def gateway_serves_def)

lemma disconnected_for_good:
  assumes "reachable E db" "disconnect_install now k via db = Inr (i, db1)" "(astro_step E)\<^sup>*\<^sup>* db1 db'"
  shows "install_authenticate K db' key = Some j \<Longrightarrow> in_id j \<noteq> k"
    and "gateway_authenticate K t db' key = Some (c, r) \<Longrightarrow> \<not> gateway_of_install db' k r"
    and "matching_agent V db' key = Some a \<Longrightarrow> ag_install a \<noteq> Some k"
    and "\<nexists>x. register_cluster E t fr k ext prov reg req db' = Inr x"
    and "\<nexists>x. mint_agent_key E t fr k mr db' = Inr x"
proof -
  have r1: "reachable E db1"
    using reachable_step [OF assms(1) astro_step.disconnect [OF assms(2)]] .
  have "gone k db1"
    using assms(2)
  proof (cases rule: disconnect_install_tables)
    case (2 x)
    then have "x\<lparr>in_revoked := Some now\<rparr> \<in> set (rg_installs db1)" unfolding 2(7) in_update_where by force
    with 2 show ?thesis unfolding gone_def by (intro bexI [of _ "x\<lparr>in_revoked := Some now\<rparr>"]) simp_all
  qed (auto simp: gone_def)
  with assms(3) have g: "gone k db'" by (induction rule: rtranclp_induct) (auto intro: step_gone)
  have ok: "registry_ok db'" by (rule reachable_ok [OF reachable_steps [OF r1 assms(3)]])
  note dead = gone_not_live [OF ok g]
  show "install_authenticate K db' key = Some j \<Longrightarrow> in_id j \<noteq> k"
    using install_authenticateD dead by blast
  show "gateway_authenticate K t db' key = Some (c, r) \<Longrightarrow> \<not> gateway_of_install db' k r"
    using gateway_authenticateD(4,6) live_gateway_install [OF ok] dead by blast
  show "matching_agent V db' key = Some a \<Longrightarrow> ag_install a \<noteq> Some k"
    using matching_agentD(1,2) ok dead unfolding registry_ok_def agents_ok_def usable_status_def by blast
  show "\<nexists>x. register_cluster E t fr k ext prov reg req db' = Inr x"
    using dead register_locked locked_installD by blast
  show "\<nexists>x. mint_agent_key E t fr k mr db' = Inr x"
  proof
    assume "\<exists>x. mint_agent_key E t fr k mr db' = Inr x"
    then obtain a p b db'' where "mint_agent_key E t fr k mr db' = Inr ((a, p, b), db'')"
      by (metis prod_cases3 surj_pair)
    then show False by (cases rule: mint_agent_keyD) (use dead in blast)+
  qed
qed


section \<open>Enrollment codes\<close>

definition codes_distinct :: "registry \<Rightarrow> bool" where
  "codes_distinct db \<longleftrightarrow> distinct (map co_hash (rg_codes db))"

definition spent :: "string \<Rightarrow> registry \<Rightarrow> bool" where
  "spent h db \<longleftrightarrow> h \<in> co_hash ` set (rg_codes db) \<and> (\<forall>c \<in> set (rg_codes db). co_hash c = h \<longrightarrow> co_used c \<noteq> None)"

lemma place_cluster_codes:
  "place_cluster now fr i ext prov reg scope db = Inr (x, db') \<Longrightarrow> rg_codes db' = rg_codes db"
  by (auto simp: place_cluster_def registration_for_new_cluster_def Let_def case_prod_beta
      split: option.splits list.splits if_splits)

lemma same_codes:
  "register_cluster E now fr k ext prov reg req db = Inr (xr, db') \<Longrightarrow> rg_codes db' = rg_codes db"
  "rotate_cluster E now fr k ext overlap via db = Inr (xo, db') \<Longrightarrow> rg_codes db' = rg_codes db"
  "revoke_cluster now cl via db = Inr (xv, db') \<Longrightarrow> rg_codes db' = rg_codes db"
  "disconnect_install now k via db = Inr (xd, db') \<Longrightarrow> rg_codes db' = rg_codes db"
  "record_heartbeat now c r cid h v cts inst db = Inr (xh, db') \<Longrightarrow> rg_codes db' = rg_codes db"
  "gateway_register K now fr name cl ts db = Inr (xg, db') \<Longrightarrow> rg_codes db' = rg_codes db"
  "gateway_mint K fr name db = Inr (xg, db') \<Longrightarrow> rg_codes db' = rg_codes db"
  "ensure_local_gateway K now fr path fe de wr tenant db = (xl, db') \<Longrightarrow> rg_codes db' = rg_codes db"
  subgoal by (auto simp: register_cluster_def Let_def case_prod_beta dest: place_cluster_codes)
  subgoal by (auto simp: rotate_cluster_def Let_def case_prod_beta split: option.splits)
  subgoal by (auto simp: revoke_cluster_def Let_def split: option.splits if_splits)
  subgoal by (auto simp: disconnect_install_def Let_def split: option.splits if_splits)
  subgoal by (auto simp: record_heartbeat_def Let_def split: option.splits if_splits)
  subgoal by (auto simp: gateway_register_def Let_def case_prod_beta split: if_splits)
  subgoal by (auto simp: gateway_mint_def case_prod_beta split: if_splits)
  subgoal by (auto simp: ensure_local_gateway_def local_registration_def Let_def case_prod_beta
        split: if_splits option.splits written.splits)
  done

lemma same_codes_more:
  "mint_agent_key E now fr k mr db = Inr (xm, db') \<Longrightarrow> rg_codes db' = rg_codes db"
  "renew_agent_key E now i n ttl t db = Inr (xn, db') \<Longrightarrow> rg_codes db' = rg_codes db"
  "revoke_agent_key now i n t db = Inr (xk, db') \<Longrightarrow> rg_codes db' = rg_codes db"
  "gateway_revoke_command now name cred db = Inr db' \<Longrightarrow> rg_codes db' = rg_codes db"
  subgoal by (cases xm) (auto elim: mint_agent_keyD)
  subgoal by (auto elim: renew_agent_keyD)
  subgoal by (auto elim: revoke_agent_keyD)
  subgoal by (auto simp: gateway_revoke_command_def dest: same_codes(3)
        split: if_splits option.splits sum.splits prod.splits)
  done

lemma connect_codes:
  "connect E now fr code url name db = Inr (x, db') \<Longrightarrow>
   rg_codes db' = update_where (usable_code now (k_sha (e_keys E) code)) (\<lambda>c. c\<lparr>co_used := Some now\<rparr>) (rg_codes db)
   \<and> list_ex (usable_code now (k_sha (e_keys E) code)) (rg_codes db)"
  by (auto simp: connect_def Let_def case_prod_beta split: if_splits option.splits)

lemma issue_codes:
  "issue_code E now fr ts who ttl db = Inr (x, db') \<Longrightarrow>
   \<exists>c. rg_codes db' = rg_codes db @ [c] \<and> co_hash c = k_sha (e_keys E) (prefix_enrollment @ fr_raw fr)"
  by (auto simp: issue_code_def Let_def split: if_splits option.splits)

text \<open>A step leaves the codes alone, adds one with a new hash, or marks some as used.\<close>

lemma step_code_table:
  assumes "astro_step E db db'"
  obtains "rg_codes db' = rg_codes db"
  | c where "rg_codes db' = rg_codes db @ [c]" "co_hash c \<notin> co_hash ` set (rg_codes db)"
  | p now where "rg_codes db' = update_where p (\<lambda>c. c\<lparr>co_used := Some now\<rparr>) (rg_codes db)"
  using assms
proof cases
  case (issue now fr ts who ttl x)
  with issue_codes [OF issue(1)] show ?thesis by (metis that(2))
next
  case (connect now fr code url name xi)
  with connect_codes [OF connect(1)] show ?thesis by (blast intro: that(3))
qed (rule that(1), simp_all add: same_codes same_codes_more)+

lemma step_codes:
  assumes "astro_step E db db'" "codes_distinct db"
  shows "codes_distinct db'"
  using assms(1)
proof (cases rule: step_code_table)
  case (3 p now)
  have "map co_hash (rg_codes db') = map co_hash (rg_codes db)" unfolding 3 by (rule map_update_where) simp
  with assms(2) show ?thesis by (simp add: codes_distinct_def)
qed (use assms(2) in \<open>simp_all add: codes_distinct_def\<close>)

lemma step_spent:
  assumes "astro_step E db db'" "spent h db"
  shows "spent h db'"
  using assms(1)
proof (cases rule: step_code_table)
  case (3 p now)
  have "map co_hash (rg_codes db') = map co_hash (rg_codes db)" unfolding 3 by (rule map_update_where) simp
  then have "co_hash ` set (rg_codes db') = co_hash ` set (rg_codes db)" by (metis list.set_map)
  moreover have "co_used y \<noteq> None" if "y \<in> set (rg_codes db')" "co_hash y = h" for y
  proof -
    from that(1) obtain z where "z \<in> set (rg_codes db)" "y = (if p z then z\<lparr>co_used := Some now\<rparr> else z)"
      unfolding 3 in_update_where by blast
    with assms(2) that(2) show ?thesis by (cases "p z") (auto simp: spent_def)
  qed
  ultimately show ?thesis using assms(2) by (simp add: spent_def)
next
  case (2 c)
  then have "co_hash c \<noteq> h" using assms(2) by (auto simp: spent_def)
  with 2 assms(2) show ?thesis by (auto simp: spent_def)
qed (use assms(2) in \<open>simp add: spent_def\<close>)

lemma reachable_codes: "reachable E db \<Longrightarrow> codes_distinct db"
  unfolding reachable_def
  by (induction rule: rtranclp_induct) (simp add: codes_distinct_def empty_registry_def, rule step_codes)

text \<open>
  C17: An enrollment code connects one install, ever. Once a connect with a code has succeeded in a
  reachable registry, every later connect with the same code, after any steps and at any time, is
  refused like an unknown code.
\<close>

theorem code_connects_once:
  assumes "reachable E db" "connect E now fr code url name db = Inr (x, db1)" "(astro_step E)\<^sup>*\<^sup>* db1 db'"
  shows "connect E now' fr' code url' name' db' = Inl (Refusal ''invalid_enrollment_code''
      ''The enrollment code is unknown, expired or already used. Generate a new one in Zentinelle.'' 400)"
proof -
  let ?h = "k_sha (e_keys E) code"
  note c = connect_codes [OF assms(2)]
  have d: "distinct (map co_hash (rg_codes db))" using reachable_codes [OF assms(1)] by (simp add: codes_distinct_def)
  from c obtain u where u: "u \<in> set (rg_codes db)" "usable_code now ?h u" by (auto simp: list_ex_iff)
  have "spent ?h db1"
    unfolding spent_def
  proof (intro conjI ballI impI)
    have "u\<lparr>co_used := Some now\<rparr> \<in> set (rg_codes db1)" unfolding conjunct1 [OF c] in_update_where using u by force
    with u(2) show "?h \<in> co_hash ` set (rg_codes db1)" by (force simp: usable_code_def)
    fix y assume "y \<in> set (rg_codes db1)" and h: "co_hash y = ?h"
    then obtain z where z: "z \<in> set (rg_codes db)" "y = (if usable_code now ?h z then z\<lparr>co_used := Some now\<rparr> else z)"
      using c by (auto simp: in_update_where)
    with h have "co_hash z = co_hash u" using u(2) by (auto simp: usable_code_def split: if_splits)
    with same_row [OF d z(1) u(1)] z(2) u(2) show "co_used y \<noteq> None" by auto
  qed
  with assms(3) have "spent ?h db'" by (induction rule: rtranclp_induct) (auto intro: step_spent)
  then show ?thesis by (auto simp: connect_def Let_def list_ex_iff spent_def usable_code_def)
qed

section \<open>Instances\<close>

lemma gateway_within_install_witness:
  "\<exists>i \<in> set (rg_installs (after run_register)). in_id i = ''ib'' \<and> install_active i"
proof -
  have "gateway_authenticate demo_keys 30 (after run_register) ''sk_gateway_0123456789abcdefc''
      = Some (hd (rg_creds (after run_register)), hd (rg_gateways (after run_register)))" by code_simp
  moreover have "gateway_of_install (after run_register) ''ib'' (hd (rg_gateways (after run_register)))" by code_simp
  ultimately show ?thesis using gateway_within_install [OF demo_reachable(3)] by blast
qed


theorem code_connects_once_witness:
  "run_value (connect demo_astro 20 (demo_fresh CHR ''f'') demo_code ''https://b'' ''B'' (after run_connect)) = None"
  by (subst code_connects_once [OF demo_reachable(1) ran [OF demo_runs(2), unfolded run_connect_def],
      folded run_connect_def]) (simp_all add: run_value_def)

end
