(* ===== verification/AstroliftGateways.thy ===== *)
theory AstroliftGateways
  imports AstroliftAccess
begin

text \<open>
  What Astrolift gets when it registers and rotates a cluster's gateway credential, and what the
  heartbeats of a gateway's replicas add up to; then a concrete deployment at which the theorems on
  the registry are instantiated.
\<close>

section \<open>Registering\<close>

lemma scope_loop_total: "set ts \<subseteq> set (in_tenants i) \<Longrightarrow> \<exists>scope. scope_loop i acc ts = Inr scope"
  by (induction ts arbitrary: acc) auto

definition allowed_scope :: "install_row \<Rightarrow> string list option \<Rightarrow> string list" where
  "allowed_scope i requested = (case requested of None \<Rightarrow> in_tenants i | Some ts \<Rightarrow> ts)"

lemma cluster_scope_total:
  assumes "set (allowed_scope i req) \<subseteq> set (in_tenants i)"
  obtains scope where "cluster_scope i req = Inr scope" "set scope = set (allowed_scope i req)"
proof (cases req)
  case None
  then show ?thesis by (intro that [of "in_tenants i"]) (simp_all add: cluster_scope_def allowed_scope_def)
next
  case (Some ts)
  with assms scope_loop_total [of ts i "[]"] obtain s where s: "scope_loop i [] ts = Inr s"
    by (auto simp: allowed_scope_def)
  with scope_loop_subset [OF s] Some show ?thesis by (intro that [of s]) (simp_all add: cluster_scope_def allowed_scope_def)
qed

lemma place_cluster_total:
  assumes ok: "registry_ok db"
  shows "\<exists>c r created adopted db'. place_cluster now fr i ext prov reg scope db = Inr ((c, r, created, adopted), db')"
proof (cases "find_cluster db i ext")
  case None
  then show ?thesis by (auto simp: place_cluster_def Let_def case_prod_beta)
next
  case (Some c)
  note c = find_clusterD [OF Some]
  then have "length (filter (linked (cl_id c)) (rg_gateways db)) = 1"
    using ok by (simp add: registry_ok_def one_gateway_def)
  then have "active_registration (db\<lparr>rg_clusters := cs\<rparr>) (cl_id c) \<noteq> None" for cs
    by (auto simp: active_linked)
  with Some show ?thesis by (force simp: place_cluster_def Let_def split: option.split)
qed

lemma locked_install_total:
  assumes "registry_ok db" "i \<in> set (rg_installs db)" "install_active i"
  shows "locked_install db (in_id i) = Inr i"
proof -
  have "List.find (\<lambda>x. in_id x = in_id i) (rg_installs db) = Some i"
    using assms same_row [of in_id "rg_installs db"] by (intro find_unique) (auto simp: registry_ok_def ids_ok_def)
  with assms(3) show ?thesis by (simp add: locked_install_def)
qed

text \<open>The row and plaintext of the next credential, and what is left of the earlier ones.\<close>

lemma next_credentialD:
  assumes "next_credential E now fr g d db = ((plain, c, n), db')"
  shows "plain = prefix_gateway @ fr_raw fr" "gc_id c = fr_credential fr" "gc_gateway c = g"
    "gc_hash c = k_hash (e_keys E) (fr_salt fr) plain" "gc_prefix c = gateway_key_prefix plain"
    "gc_revoked c = None" "gc_expires c = None"
    "rg_creds db' = (case d of None \<Rightarrow> rg_creds db @ [c]
       | Some e \<Rightarrow> update_where (retired g (gc_id c) (now + e)) (\<lambda>x. x\<lparr>gc_expires := Some (now + e)\<rparr>) (rg_creds db) @ [c])"
  using assms
  by (auto simp: next_credential_def mint_credential_def generate_api_key_def gateway_key_prefix_def
      retire_previous_def retired_def update_where_def Let_def split: option.splits)

lemma next_credential_authenticates:
  assumes n: "next_credential E now fr (gr_id r) d db = ((plain, c, n), db')"
    and h: "hash_accepts (e_keys E)" and other: "\<And>x. x \<in> set (rg_creds db) \<Longrightarrow> \<not> key_matches (e_keys E) plain (gc_hash x)"
    and ok: "registry_ok db" and r: "r \<in> set (rg_gateways db)" "gr_revoked r = None"
    and db'': "rg_creds db'' = rg_creds db'" "rg_gateways db'' = rg_gateways db"
  shows "gateway_authenticate (e_keys E) now db'' plain = Some (c, r)"
proof -
  note c = next_credentialD [OF n]
  have m: "key_matches (e_keys E) plain (gc_hash c)"
    unfolding c(4) by (rule minted_matches [OF h]) (simp add: c(1) prefix_gateway_def)
  have g: "live_gateway_of db'' c = Some r"
    unfolding live_gateway_of_def db''(2) c(3)
    using r same_row [of gr_id "rg_gateways db"] ok by (intro find_unique) (auto simp: registry_ok_def ids_ok_def)
  have live: "credential_live now c" using c by (simp add: credential_live_def)
  have old: "\<not> key_matches (e_keys E) plain (gc_hash x)" if "x \<in> set (rg_creds db'')" "x \<noteq> c" for x
    using that other by (auto simp: db'' c(8) in_update_where split: option.splits if_splits)
  have "List.find (\<lambda>x. credential_live now x \<and> gc_prefix x = gateway_key_prefix plain \<and> live_gateway_of db'' x \<noteq> None
      \<and> key_matches (e_keys E) plain (gc_hash x)) (rg_creds db'') = Some c"
    by (rule find_unique) (use m g live c(5) old in \<open>auto simp: db'' c(8) split: option.splits\<close>)
  then show ?thesis using g by (simp add: gateway_authenticate_def c(1) prefix_gateway_def starts_with_def)
qed

text \<open>
  C16: Astrolift can always get a working credential for a cluster. In a reachable registry, a
  connected install that registers any cluster id, new or already registered, with its own tenants
  or some of them, is answered (no refusal and no crash) with a credential that authenticates at
  once as the cluster's gateway and serves exactly the tenants asked for.
\<close>

theorem register_always_yields:
  assumes "reachable E db" "i \<in> set (rg_installs db)" "install_active i" "fresh_for fr db" "hash_accepts (e_keys E)"
    and "set (allowed_scope i requested) \<subseteq> set (in_tenants i)"
    and "\<And>x. x \<in> set (rg_creds db) \<Longrightarrow> \<not> key_matches (e_keys E) (prefix_gateway @ fr_raw fr) (gc_hash x)"
  shows "\<exists>c r plain created cred db'.
      register_cluster E now fr (in_id i) ext prov reg requested db = Inr ((c, r, plain, created), db')
    \<and> gateway_authenticate (e_keys E) now db' plain = Some (cred, r) \<and> gr_cluster r = Some (cl_id c)
    \<and> (\<forall>t. gateway_serves r t \<longleftrightarrow> t \<noteq> [] \<and> t \<in> set (allowed_scope i requested))"
proof -
  note ok = reachable_ok [OF assms(1)]
  obtain scope where s: "cluster_scope i requested = Inr scope" "set scope = set (allowed_scope i requested)"
    using cluster_scope_total [OF assms(6)] .
  obtain c r created adopted db1 where
    p: "place_cluster now fr i ext prov reg scope db = Inr ((c, r, created, adopted), db1)"
    using place_cluster_total [OF ok] by blast
  have i: "in_revoked i = None" "set scope \<subseteq> set (in_tenants i)"
    using assms(3,6) s(2) by (simp_all add: install_active_def)
  note p' = place_cluster_ok [OF p ok assms(4) assms(2) i]
  define d where "d = (if created \<and> \<not> adopted then None else Some default_overlap)"
  obtain plain cred n db2 where nc: "next_credential E now fr (gr_id r) d db1 = ((plain, cred, n), db2)"
    by (metis prod.exhaust)
  have creds: "rg_creds db1 = rg_creds db"
    using p by (auto simp: place_cluster_def registration_for_new_cluster_def Let_def case_prod_beta
        split: option.splits list.splits if_splits)
  obtain db' where reg: "register_cluster E now fr (in_id i) ext prov reg requested db = Inr ((c, r, plain, created), db')"
    and db': "rg_creds db' = rg_creds db2" "rg_gateways db' = rg_gateways db2"
    using locked_install_total [OF ok assms(2,3)] s(1) p nc by (simp add: register_cluster_def d_def Let_def)
  have "gateway_authenticate (e_keys E) now db' plain = Some (cred, r)"
  proof (rule next_credential_authenticates [OF nc assms(5) _ _ _ _ db'(1)])
    show "\<not> key_matches (e_keys E) plain (gc_hash x)" if "x \<in> set (rg_creds db1)" for x
      using assms(7) that next_credentialD(1) [OF nc] by (simp add: creds)
    show "rg_gateways db' = rg_gateways db1" using db'(2) next_credential_tables(2) nc by (metis snd_conv)
  qed (use p' in \<open>simp_all add: linked_def\<close>)
  moreover have "gateway_serves r t \<longleftrightarrow> t \<noteq> [] \<and> t \<in> set (allowed_scope i requested)" for t
    using p' s(2) by (simp add: gateway_serves_def)
  ultimately show ?thesis using reg p' by (auto simp: linked_def)
qed

section \<open>Rotating\<close>

text \<open>
  A rotation overlaps and then cuts. After a cluster's credential has been rotated, every
  credential its gateway had works until the overlap ends, as far as it would have worked anyway,
  and not a moment longer; the new one works without an end; and the credentials of every other
  gateway are as they were.
\<close>

lemma rotation_overlap_exact:
  assumes "rotate_cluster E now fr k ext overlap via db = Inr ((c, r, plain), db')"
    and "fr_credential fr \<notin> gc_id ` set (rg_creds db)"
  shows "\<exists>cred old. rg_creds db' = old @ [cred] \<and> gc_gateway cred = gr_id r \<and> credential_live t cred
    \<and> list_all2 (\<lambda>x y. gc_id y = gc_id x \<and> gc_hash y = gc_hash x \<and> gc_gateway y = gc_gateway x
        \<and> (gc_gateway x \<noteq> gr_id r \<longrightarrow> y = x)
        \<and> (gc_gateway x = gr_id r \<longrightarrow> (credential_live t y \<longleftrightarrow> credential_live t x \<and> t < now + overlap)))
      (rg_creds db) old"
proof -
  obtain cred n db1 where nc: "next_credential E now fr (gr_id r) (Some overlap) db = ((plain, cred, n), db1)"
    and db': "rg_creds db' = rg_creds db1"
    using assms(1) by (auto simp: rotate_cluster_def Let_def case_prod_beta split: option.splits)
      (metis prod.collapse)
  note c = next_credentialD [OF nc]
  let ?old = "update_where (retired (gr_id r) (gc_id cred) (now + overlap)) (\<lambda>x. x\<lparr>gc_expires := Some (now + overlap)\<rparr>) (rg_creds db)"
  have "rg_creds db' = ?old @ [cred]" using c(8) by (simp add: db')
  moreover have "credential_live t cred" using c by (simp add: credential_live_def)
  moreover have "gc_id x \<noteq> gc_id cred" if "x \<in> set (rg_creds db)" for x using assms(2) that c(2) by (metis imageI)
  then have "list_all2 (\<lambda>x y. gc_id y = gc_id x \<and> gc_hash y = gc_hash x \<and> gc_gateway y = gc_gateway x
      \<and> (gc_gateway x \<noteq> gr_id r \<longrightarrow> y = x)
      \<and> (gc_gateway x = gr_id r \<longrightarrow> (credential_live t y \<longleftrightarrow> credential_live t x \<and> t < now + overlap))) (rg_creds db) ?old"
    unfolding update_where_def list.rel_map
    by (intro list.rel_refl_strong) (auto simp: retired_def credential_live_def split: option.splits)
  ultimately show ?thesis using c(3) by blast
qed

section \<open>Heartbeats\<close>

definition sum_counter :: "string \<Rightarrow> beat list \<Rightarrow> int" where
  "sum_counter n bs = sum_list (map snd (filter (\<lambda>kv. fst kv = n) (concat (map be_counters bs))))"

lemma fold_add_counter:
  "(case map_of (fold add_counter kvs acc) n of None \<Rightarrow> 0 | Some v \<Rightarrow> v)
   = (case map_of acc n of None \<Rightarrow> 0 | Some v \<Rightarrow> v) + sum_list (map snd (filter (\<lambda>kv. fst kv = n) kvs))"
  by (induction kvs arbitrary: acc) (auto simp: add_counter_def map_of_dput split: option.splits)

lemma total_counters_sum:
  "(case map_of (total_counters bs) n of None \<Rightarrow> 0 | Some v \<Rightarrow> v) = sum_counter n bs"
  by (simp add: total_counters_def fold_add_counter sum_counter_def)

lemma next_instances_bounds:
  "length (next_instances now name b old) \<le> max_heartbeat_instances"
  "(n, e) \<in> set (next_instances now name b old) \<Longrightarrow> (n, e) = (name, b) \<or>
     (n, e) \<in> set old \<and> n \<noteq> name \<and> now - stale_after \<le> be_seen e"
proof -
  let ?kept = "filter (\<lambda>(n, e). n \<noteq> name \<and> now - stale_after \<le> be_seen e) old"
  let ?new = "sort_key (\<lambda>(_, e). be_seen e) ?kept"
  show "length (next_instances now name b old) \<le> max_heartbeat_instances"
    by (auto simp: next_instances_def Let_def max_heartbeat_instances_def)
  assume "(n, e) \<in> set (next_instances now name b old)"
  then show "(n, e) = (name, b) \<or> (n, e) \<in> set old \<and> n \<noteq> name \<and> now - stale_after \<le> be_seen e"
    using set_drop_subset [of _ ?new] by (auto simp: next_instances_def Let_def split: if_splits)
qed

lemma worst_from_rank:
  "worst_from best n hs = Some w \<Longrightarrow> health_rank best = Some n \<Longrightarrow>
   \<exists>m. health_rank w = Some m \<and> n \<le> m \<and> (\<forall>h \<in> set hs. \<exists>k \<le> m. health_rank h = Some k) \<and> w \<in> insert best (set hs)"
  by (induction best n hs rule: worst_from.induct) (fastforce split: option.splits if_splits)+

lemma worst_health_rank:
  "worst_health hs = Some w \<Longrightarrow>
   \<exists>m. health_rank w = Some m \<and> (\<forall>h \<in> set hs. \<exists>k \<le> m. health_rank h = Some k) \<and> w \<in> set hs"
  by (auto simp: worst_health_def split: list.splits option.splits dest!: worst_from_rank)

text \<open>
  A cluster's telemetry is that of its live replicas. After a heartbeat is stored, the cluster
  of the reporting gateway keeps at most a hundred replicas, all of them heard from within five
  minutes, the reporting one as it just reported; its counters are the sums over exactly those
  replicas, and its health is the worst of theirs.
\<close>

lemma heartbeat_totals:
  assumes "record_heartbeat now c r cid h v cts name db = Inr (u, db')" "distinct (map cl_id (rg_clusters db))"
  shows "\<exists>cl \<in> set (rg_clusters db'). gr_cluster r = Some (cl_id cl) \<and> cl_external cl = cid \<and> cluster_active cl
    \<and> length (cl_instances cl) \<le> 100
    \<and> (name, \<lparr>be_health = h, be_counters = filter (\<lambda>(n, _). n \<in> set heartbeat_counters) cts, be_seen = now\<rparr>)
        \<in> set (cl_instances cl)
    \<and> (\<forall>(n, e) \<in> set (cl_instances cl). now - stale_after \<le> be_seen e)
    \<and> (\<forall>n. (case map_of (cl_counters cl) n of None \<Rightarrow> 0 | Some x \<Rightarrow> x) = sum_counter n (map snd (cl_instances cl)))
    \<and> (\<exists>m. health_rank (cl_health cl) = Some m
        \<and> (\<forall>(n, e) \<in> set (cl_instances cl). \<exists>k \<le> m. health_rank (be_health e) = Some k))"
proof -
  let ?b = "\<lparr>be_health = h, be_counters = filter (\<lambda>(n, _). n \<in> set heartbeat_counters) cts, be_seen = now\<rparr>"
  obtain k cl worst where k: "gr_cluster r = Some k" "List.find (\<lambda>x. cl_id x = k) (rg_clusters db) = Some cl"
    and live: "cluster_active cl" "cl_external cl = cid"
    and w: "worst_health (map (be_health \<circ> snd) (next_instances now name ?b (cl_instances cl))) = Some worst"
    and db': "rg_clusters db' = update_where (\<lambda>x. cl_id x = cl_id cl)
      (\<lambda>x. x\<lparr>cl_health := worst, cl_version := v,
         cl_counters := total_counters (map snd (next_instances now name ?b (cl_instances cl))),
         cl_instances := next_instances now name ?b (cl_instances cl), cl_seen := Some now\<rparr>) (rg_clusters db)"
    using assms(1) by (auto simp: record_heartbeat_def Let_def split: option.splits if_splits Option.bind_splits)
  let ?ins = "next_instances now name ?b (cl_instances cl)"
  let ?cl = "cl\<lparr>cl_health := worst, cl_version := v, cl_counters := total_counters (map snd ?ins),
      cl_instances := ?ins, cl_seen := Some now\<rparr>"
  note cl = find_in [OF k(2)]
  have "?cl \<in> set (rg_clusters db')" unfolding db' in_update_where using cl by force
  moreover from worst_health_rank [OF w] obtain m where "health_rank worst = Some m"
    "\<And>n e. (n, e) \<in> set ?ins \<Longrightarrow> \<exists>k \<le> m. health_rank (be_health e) = Some k" by fastforce
  moreover have "now - stale_after \<le> be_seen e" if "(n, e) \<in> set ?ins" for n e
    using next_instances_bounds(2) [OF that] by (auto simp: stale_after_def)
  moreover have "(name, ?b) \<in> set ?ins" by (simp add: next_instances_def Let_def)
  ultimately show ?thesis
    using k(1) cl live next_instances_bounds(1) [of now name ?b "cl_instances cl"]
    by (intro bexI [of _ ?cl]) (auto simp: total_counters_sum cluster_active_def max_heartbeat_instances_def)
qed

section \<open>Outside the steps\<close>

text \<open>
  A terminated agent cannot be activated, but it can be suspended, and then it can: its key works
  again, although an administrator, or the disconnecting of its install, had ended it.
\<close>

lemma terminated_revived:
  assumes "ag_status a = Terminated"
  shows "activate_endpoint a = None"
    and "\<exists>b c. suspend_endpoint a = Some b \<and> activate_endpoint b = Some c \<and> ag_status c = Active
      \<and> ag_hash c = ag_hash a \<and> ag_prefix c = ag_prefix a \<and> ag_expires c = ag_expires a"
  using assms by (simp_all add: suspend_endpoint_def activate_endpoint_def)

text \<open>The operator's \<open>scope\<close> command does not hold a cluster's registration to its install's tenants.\<close>

lemma scope_command_widens:
  "case gateway_scope ''astrolift-ic'' [''other''] (after run_register) of
     Inr db \<Rightarrow> list_ex (\<lambda>r. gateway_serves r ''other'' \<and> gateway_of_install db ''ib'' r) (rg_gateways db)
       \<and> list_all (\<lambda>i. ''other'' \<notin> set (in_tenants i)) (rg_installs db)
   | Inl _ \<Rightarrow> False"
  by code_simp

section \<open>Instances\<close>

theorem register_always_yields_witness:
  "\<exists>y. register_cluster demo_astro 20 (demo_fresh CHR ''c'') ''ib'' ''k9'' [] [] None (after run_connect) = Inr y"
proof -
  let ?i = "hd (rg_installs (after run_connect))"
  have "?i \<in> set (rg_installs (after run_connect))" "install_active ?i" "in_id ?i = ''ib''"
    "rg_creds (after run_connect) = []" by code_simp+
  moreover have "hash_accepts (e_keys demo_astro)" by (simp add: hash_accepts_def demo_astro_def demo_keys_def)
  ultimately show ?thesis
    using register_always_yields [OF demo_reachable(2), of ?i "demo_fresh CHR ''c''" None 20 "''k9''" "[]" "[]"]
      demo_fresh_for(3) by (auto simp: allowed_scope_def)
qed

lemma rotation_overlap_exact_witness:
  "length (rg_creds (after run_rotate)) = 2"
proof -
  obtain c r plain where x: "the (run_value run_rotate) = (c, r, plain)" by (cases "the (run_value run_rotate)")
  have "rotate_cluster demo_astro 40 (demo_fresh CHR ''e'') ''ib'' ''k1'' (seconds 60) ''portal'' (after run_mint)
      = Inr ((c, r, plain), after run_rotate)"
    using ran [OF demo_runs(6)] x by (simp add: run_rotate_def [symmetric])
  moreover have "fr_credential (demo_fresh CHR ''e'') \<notin> gc_id ` set (rg_creds (after run_mint))" by code_simp
  moreover have "length (rg_creds (after run_mint)) = 1" by code_simp
  ultimately show ?thesis
    using rotation_overlap_exact [of demo_astro 40 "demo_fresh CHR ''e''" "''ib''" "''k1''" "seconds 60" "''portal''"
        "after run_mint" c r plain "after run_rotate" 0] by (auto dest: list_all2_lengthD)
qed

definition run_beat where
  "run_beat = record_heartbeat 50 (hd (rg_creds (after run_register))) (hd (rg_gateways (after run_register)))
     ''k1'' ''healthy'' ''1.0'' [(''requests'', 3)] ''pod'' (after run_register)"

lemma heartbeat_totals_witness:
  "\<exists>cl \<in> set (rg_clusters (after run_beat)). length (cl_instances cl) \<le> 100 \<and> cluster_active cl"
proof -
  have "run_value run_beat \<noteq> None" by code_simp
  from ran [OF this] have "record_heartbeat 50 (hd (rg_creds (after run_register))) (hd (rg_gateways (after run_register)))
     ''k1'' ''healthy'' ''1.0'' [(''requests'', 3)] ''pod'' (after run_register)
      = Inr (the (run_value run_beat), after run_beat)" by (simp add: run_beat_def [symmetric])
  moreover have "distinct (map cl_id (rg_clusters (after run_register)))" by code_simp
  ultimately show ?thesis using heartbeat_totals by blast
qed

end
