(* ===== verification/UsageIngest.thy ===== *)
theory UsageIngest
  imports Reconciliation
begin

text \<open>
  Metering of model calls (\<open>services/usage_ingest.py\<close>, \<open>services/usage_tracking.py\<close>,
  \<open>UsageMetric.record_ai_usage\<close> of \<open>models/usage.py\<close>): the one reader of every producer's token
  counts, the metric rows of a call under its idempotency key, what a repeat adds to them, the
  interaction log of the call and the settlement of its budget reservation. \<open>InvalidUsage\<close> is the
  \<open>ValueError\<close> of the sum; token counts and metric values are integers; a float is a finite
  rational, so the tests for infinities have no case.
\<close>

section \<open>Token counts\<close>

definition usage_event_types :: "string list" where
  "usage_event_types = [''ai_request'', ''llm:usage'', ''model_usage'', ''model_request'']"

definition max_tokens :: int where
  "max_tokens = 2000000000"

definition max_cost_usd :: rat where
  "max_cost_usd = 10000"

definition bounded_count :: "int \<Rightarrow> string \<Rightarrow> pyexc + int option" where
  "bounded_count n key =
     (if n < 0 then Inl (ValueError (key @ '' must not be negative''))
      else if max_tokens < n then Inl (ValueError (key @ '' is out of range''))
      else Inr (Some n))"

fun token_count :: "pyval \<Rightarrow> string \<Rightarrow> pyexc + int option" where
  "token_count PNone key = Inr None"
| "token_count (PInt i) key = bounded_count i key"
| "token_count (PFloat q) key =
     (if q = of_int \<lfloor>q\<rfloor> then bounded_count \<lfloor>q\<rfloor> key
      else Inl (ValueError (key @ '' must be a whole number'')))"
| "token_count _ key = Inl (ValueError (key @ '' must be a whole number''))"

text \<open>\<open>_first\<close>: the first key that is present with a value.\<close>

fun first_count :: "pydict \<Rightarrow> string list \<Rightarrow> pyexc + int option" where
  "first_count d [] = Inr None"
| "first_count d (k # ks) =
     (if dget d k PNone \<noteq> PNone then token_count (dget d k PNone) k else first_count d ks)"

definition input_keys :: "string list" where
  "input_keys = [''input_tokens'', ''prompt_tokens'', ''input_token_count'', ''promptTokenCount'',
     ''prompt_token_count'', ''inputTokens'']"

definition output_keys :: "string list" where
  "output_keys = [''output_tokens'', ''completion_tokens'', ''output_token_count'',
     ''candidatesTokenCount'', ''candidates_token_count'', ''outputTokens'']"

definition read_keys :: "string list" where
  "read_keys = [''cache_read_tokens'', ''cache_read_input_tokens'', ''cacheReadTokens'']"

definition write_keys :: "string list" where
  "write_keys = [''cache_write_tokens'', ''cache_creation_input_tokens'', ''cacheWriteTokens'']"

definition carries_tokens :: "pyval \<Rightarrow> bool" where
  "carries_tokens payload =
     (case payload of
        PDict d \<Rightarrow> list_ex (\<lambda>k. k \<in> fst ` set d) (input_keys @ output_keys @ read_keys @ write_keys)
      | _ \<Rightarrow> False)"

text \<open>Cached counts that are part of the input count they sit beside.\<close>

definition included_cache_keys :: "(string option \<times> string) list" where
  "included_cache_keys =
     [(Some ''prompt_tokens_details'', ''cached_tokens''), (Some ''input_tokens_details'', ''cached_tokens''),
      (None, ''cachedContentTokenCount'')]"

definition included_source :: "pydict \<Rightarrow> string option \<Rightarrow> pyval" where
  "included_source d parent = (case parent of Some p \<Rightarrow> dget d p PNone | None \<Rightarrow> PDict d)"

fun included_cache :: "pydict \<Rightarrow> (string option \<times> string) list \<Rightarrow> (string \<times> pyval) option" where
  "included_cache d [] = None"
| "included_cache d ((parent, key) # rest) =
     (case included_source d parent of
        PDict s \<Rightarrow> if dget s key PNone = PNone then included_cache d rest else Some (key, dget s key PNone)
      | _ \<Rightarrow> included_cache d rest)"

record token_counts =
  tc_input :: int
  tc_output :: int
  tc_read :: int
  tc_write :: int

definition or_0 :: "int option \<Rightarrow> int" where
  "or_0 n = (case n of None \<Rightarrow> 0 | Some i \<Rightarrow> i)"

text \<open>A cached count inside the input count is split off, unless a cache count was sent beside it.\<close>

definition split_cached ::
  "pydict \<Rightarrow> int option \<Rightarrow> int option \<Rightarrow> pyexc + (int option \<times> int option)" where
  "split_cached d inp rd =
     (case included_cache d included_cache_keys of
        None \<Rightarrow> Inr (inp, rd)
      | Some (key, v) \<Rightarrow>
          rbind (token_count v key) (\<lambda>cached.
            if rd \<noteq> None then Inr (inp, rd)
            else if or_0 inp < or_0 cached then Inl (ValueError (key @ '' exceeds the input token count''))
            else Inr (Some (or_0 inp - or_0 cached), cached)))"

definition normalize_tokens :: "pyval \<Rightarrow> pyexc + token_counts" where
  "normalize_tokens data =
     (case data of
        PDict d \<Rightarrow>
          rbind (first_count d input_keys) (\<lambda>inp.
          rbind (first_count d output_keys) (\<lambda>out.
          rbind (first_count d read_keys) (\<lambda>rd.
          rbind (first_count d write_keys) (\<lambda>wr.
          rbind (split_cached d inp rd) (\<lambda>(inp, rd).
            Inr \<lparr>tc_input = or_0 inp, tc_output = or_0 out, tc_read = or_0 rd, tc_write = or_0 wr\<rparr>)))))
      | _ \<Rightarrow> Inl (ValueError ''usage must be an object''))"

fun cost_amount :: "pyval \<Rightarrow> string \<Rightarrow> pyexc + rat option" where
  "cost_amount PNone key = Inr None"
| "cost_amount (PBool b) key = Inl (ValueError (key @ '' must be a number''))"
| "cost_amount (PList xs) key = Inl (ValueError (key @ '' must be a number''))"
| "cost_amount (PDict d) key = Inl (ValueError (key @ '' must be a number''))"
| "cost_amount v key =
     (case dec_of v of
        Inr (DFin q) \<Rightarrow>
          if q < 0 then Inl (ValueError (key @ '' must not be negative''))
          else if max_cost_usd \<le> q then Inl (ValueError (key @ '' is out of range''))
          else Inr (Some q)
      | _ \<Rightarrow> Inl (ValueError (key @ '' must be a number'')))"

definition billable_input :: "token_counts \<Rightarrow> int" where
  "billable_input t = tc_input t + tc_read t + tc_write t"

definition server_cost :: "budget_env \<Rightarrow> string \<Rightarrow> token_counts \<Rightarrow> string \<Rightarrow> rat option" where
  "server_cost e model t provider =
     (if model = [] then None
      else map_option (\<lambda>(i, out). i + out)
             (calculate_cost (b_catalog e) (b_registry e) (b_today e) (PStr model)
                (billable_input t) (tc_output t) (PStr provider)))"

section \<open>Metric rows\<close>

datatype metric_type = AiRequests | AiInput | AiOutput | AiTotal | AiCacheRead | AiCacheWrite

record metric =
  um_tenant :: string
  um_deployment :: string
  um_endpoint :: "string option"
  um_user :: string
  um_provider :: string
  um_model :: string
  um_request :: string
  um_at :: int
  um_meta :: pydict
  um_type :: metric_type
  um_value :: int

record usage_event =
  ue_id :: string
  ue_tenant :: string
  ue_type :: string
  ue_payload :: pyval
  ue_user :: string
  ue_endpoint :: "string option"
  ue_deployment :: string
  ue_at :: int

text \<open>The interaction log of a call, as far as metering fills it.\<close>

record usage_log =
  ul_tenant :: string
  ul_endpoint :: string
  ul_request :: string
  ul_input :: "int option"
  ul_output :: "int option"
  ul_total :: "int option"
  ul_cost :: "rat option"

record usage_state =
  us_metrics :: "metric list"
  us_logs :: "usage_log list"
  us_budget :: budget_state

text \<open>What \<open>record_usage_event\<close> reads of a valid event before it takes the lock.\<close>

record usage_reading =
  rp_event :: usage_event
  rp_tokens :: token_counts
  rp_provider :: string
  rp_model :: string
  rp_request :: string
  rp_key :: string
  rp_user :: string
  rp_source :: string

text \<open>\<open>str(payload.get(key) or '')[:n]\<close>.\<close>

definition payload_text :: "pydict \<Rightarrow> string \<Rightarrow> nat \<Rightarrow> string" where
  "payload_text d key n = take n (py_str (py_or (dget d key PNone) (PStr [])))"

definition read_report :: "usage_event \<Rightarrow> pyexc + usage_reading" where
  "read_report ev =
     (if ue_tenant ev = [] then Inl (ValueError ''usage event has no tenant'')
      else case py_or (ue_payload ev) (PDict []) of
        PDict d \<Rightarrow>
          rbind (normalize_tokens (PDict d)) (\<lambda>tokens.
            let model = payload_text d ''model'' 100; rid = payload_text d ''request_id'' 255 in
            if model = [] then Inl (ValueError ''usage event has no model'')
            else Inr \<lparr>rp_event = ev, rp_tokens = tokens,
                   rp_provider = take 50 (lower (py_str (py_or (dget d ''provider'' PNone) (PStr [])))),
                   rp_model = model, rp_request = rid,
                   rp_key = (if rid \<noteq> [] then rid else ''event:'' @ ue_id ev),
                   rp_user = take 255 (py_str (py_or (py_or (dget d ''user_id'' PNone) (PStr (ue_user ev)))
                                        (PStr ''unknown''))),
                   rp_source = payload_text d ''source'' 50\<rparr>)
      | _ \<Rightarrow> Inl (ValueError ''usage payload must be an object''))"

definition metric_row :: "usage_reading \<Rightarrow> pydict \<Rightarrow> metric_type \<Rightarrow> int \<Rightarrow> metric" where
  "metric_row r meta t v =
     (let ev = rp_event r in
      \<lparr>um_tenant = ue_tenant ev, um_deployment = ue_deployment ev, um_endpoint = ue_endpoint ev,
       um_user = rp_user r, um_provider = rp_provider r, um_model = rp_model r, um_request = rp_key r,
       um_at = ue_at ev, um_meta = meta, um_type = t, um_value = v\<rparr>)"

text \<open>The counts a report states, in the order the rows are written.\<close>

definition reported :: "token_counts \<Rightarrow> (metric_type \<times> int) list" where
  "reported t =
     [(AiInput, tc_input t), (AiOutput, tc_output t), (AiTotal, tc_input t + tc_output t),
      (AiCacheRead, tc_read t), (AiCacheWrite, tc_write t)]"

definition cost_metadata :: "(rat \<times> rat) option \<Rightarrow> pydict" where
  "cost_metadata cost =
     (case cost of
        None \<Rightarrow> [(''pricing'', PStr ''unpriced''), (''calculated_input_cost'', PNone),
                 (''calculated_output_cost'', PNone), (''total_estimated_cost'', PNone)]
      | Some (i, out) \<Rightarrow> [(''calculated_input_cost'', PFloat i), (''calculated_output_cost'', PFloat out),
                 (''total_estimated_cost'', PFloat (i + out))])"

text \<open>\<open>UsageTrackingService.record_usage\<close> and \<open>UsageMetric.record_ai_usage\<close>.\<close>

definition record_ai_usage :: "budget_env \<Rightarrow> usage_reading \<Rightarrow> metric list" where
  "record_ai_usage e r =
     (let t = rp_tokens r;
          cost = calculate_cost (b_catalog e) (b_registry e) (b_today e) (PStr (rp_model r))
                   (billable_input t) (tc_output t) (PStr (rp_provider r));
          meta = [(''event_id'', PStr (ue_id (rp_event r))), (''event_type'', PStr (ue_type (rp_event r))),
                  (''source'', PStr (rp_source r))] @ cost_metadata cost
      in map (\<lambda>(mt, v). metric_row r meta mt v) (filter (\<lambda>(_, v). 0 < v) (reported t))
         @ [metric_row r meta AiRequests 1])"

definition same_call :: "string \<Rightarrow> string \<Rightarrow> metric \<Rightarrow> bool" where
  "same_call tenant key m \<longleftrightarrow> um_tenant m = tenant \<and> um_request m = key"

definition metered :: "metric list \<Rightarrow> string \<Rightarrow> string \<Rightarrow> metric_type \<Rightarrow> int" where
  "metered ms tenant key t =
     sum_list (map um_value (filter (\<lambda>m. same_call tenant key m \<and> um_type m = t) ms))"

text \<open>\<open>_raise_recorded\<close>: what a repeat states above the rows that are there.\<close>

definition raise_recorded :: "metric list \<Rightarrow> usage_reading \<Rightarrow> metric list" where
  "raise_recorded ms r =
     (let so_far = metered ms (ue_tenant (rp_event r)) (rp_key r);
          meta = [(''event_id'', PStr (ue_id (rp_event r))), (''event_type'', PStr (ue_type (rp_event r))),
                  (''raised_repeat'', PBool True)]
      in map (\<lambda>(mt, v). metric_row r meta mt (v - so_far mt))
           (filter (\<lambda>(mt, v). so_far mt < v) (reported (rp_tokens r))))"

definition at_least :: "'a::{linorder,zero} option \<Rightarrow> 'a \<Rightarrow> 'a option" where
  "at_least old v = Some (max (case old of None \<Rightarrow> 0 | Some x \<Rightarrow> x) v)"

definition fill_interaction :: "budget_env \<Rightarrow> usage_reading \<Rightarrow> string \<Rightarrow> usage_log list \<Rightarrow> usage_log list" where
  "fill_interaction e r ep logs =
     (let t = rp_tokens r; inp = billable_input t;
          cost = server_cost e (rp_model r) t (rp_provider r)
      in map (\<lambda>l. if ul_tenant l = ue_tenant (rp_event r) \<and> ul_endpoint l = ep \<and> ul_request l = rp_request r
                  then l\<lparr>ul_input := at_least (ul_input l) inp, ul_output := at_least (ul_output l) (tc_output t),
                         ul_total := at_least (ul_total l) (inp + tc_output t),
                         ul_cost := (case cost of None \<Rightarrow> ul_cost l | Some c \<Rightarrow> at_least (ul_cost l) c)\<rparr>
                  else l) logs)"

text \<open>The log and the budget of the call, for a report that names the request and has an endpoint.\<close>

definition settle_call :: "budget_env \<Rightarrow> policy list \<Rightarrow> usage_reading \<Rightarrow> usage_state \<Rightarrow> pyexc + usage_state" where
  "settle_call e policies r s =
     (case ue_endpoint (rp_event r) of
        None \<Rightarrow> Inr s
      | Some ep \<Rightarrow>
          if rp_request r = [] then Inr s
          else
            rbind (reconcile_reported_usage e policies (ue_tenant (rp_event r)) (Some ep) (rp_request r)
                     (server_cost e (rp_model r) (rp_tokens r) (rp_provider r)) (us_budget s)) (\<lambda>(_, b).
              Inr (s\<lparr>us_logs := fill_interaction e r ep (us_logs s), us_budget := b\<rparr>)))"

definition already_recorded :: "metric list \<Rightarrow> usage_reading \<Rightarrow> bool" where
  "already_recorded ms r =
     list_ex (\<lambda>m. same_call (ue_tenant (rp_event r)) (rp_key r) m \<and> um_type m = AiRequests) ms"

text \<open>
  \<open>record_usage_event\<close>. A repeat settles the call inside its transaction, so a settlement that
  raises takes the raised counts back; a first report has committed its rows, and the log too,
  when the settlement raises.
\<close>

definition record_usage_event ::
  "budget_env \<Rightarrow> policy list \<Rightarrow> usage_event \<Rightarrow> usage_state \<Rightarrow> (pyexc + metric list) \<times> usage_state" where
  "record_usage_event e policies ev s =
     (case read_report ev of
        Inl x \<Rightarrow> (Inl x, s)
      | Inr r \<Rightarrow>
          if already_recorded (us_metrics s) r then
            (let rows = raise_recorded (us_metrics s) r in
             case settle_call e policies r (s\<lparr>us_metrics := us_metrics s @ rows\<rparr>) of
               Inl x \<Rightarrow> (Inl x, s)
             | Inr s' \<Rightarrow> (Inr rows, s'))
          else
            (let rows = record_ai_usage e r; s1 = s\<lparr>us_metrics := us_metrics s @ rows\<rparr> in
             case settle_call e policies r s1 of
               Inl x \<Rightarrow>
                 (Inl x, s1\<lparr>us_logs := fill_interaction e r (case ue_endpoint ev of Some ep \<Rightarrow> ep | None \<Rightarrow> [])
                             (us_logs s1)\<rparr>)
             | Inr s' \<Rightarrow> (Inr rows, s')))"

end
