(* ===== verification/EventPipeline.thy ===== *)
theory EventPipeline
  imports UsageIngest Credentials Capture
begin

text \<open>
  The event pipeline: ingestion (\<open>api/views/events.py\<close>), the event rows (\<open>models/event.py\<close>), batch
  processing (\<open>tasks/events.py\<close>), the alert dispatcher (\<open>services/webhook_dispatcher.py\<close>), the dead
  letter queue (\<open>services/event_store.py\<close>) and the retry sweep (\<open>tasks/scheduled.py\<close>).

  The request is the one the serializer has validated. Saving an event captures its payload under
  the tenant's capture mode; saving named fields stores only those, but the row in memory keeps the
  captured payload. Temporal, the clock, \<open>isoformat\<close> and the HTTP posts are the environment; a post
  that fails is only logged, so a delivery is what was attempted. Times are in microseconds.
\<close>

section \<open>Rows\<close>

datatype event_status = EvPending | EvProcessing | EvProcessed | EvFailed

fun event_status_text :: "event_status \<Rightarrow> string" where
  "event_status_text EvPending = ''pending''"
| "event_status_text EvProcessing = ''processing''"
| "event_status_text EvProcessed = ''processed''"
| "event_status_text EvFailed = ''failed''"

record event_row =
  ev_id :: string
  ev_tenant :: string
  ev_endpoint :: "string option"
  ev_deployment :: string
  ev_user :: string
  ev_type :: string
  ev_category :: string
  ev_payload :: pyval
  ev_status :: event_status
  ev_processed_at :: "int option"
  ev_error :: string
  ev_retries :: nat
  ev_at :: int
  ev_received :: int
  ev_correlation :: string
  ev_producer :: string
  ev_cluster :: "string option"

text \<open>What a heartbeat reads and writes of an endpoint.\<close>

record beat_row =
  bt_id :: string
  bt_agent :: string
  bt_health :: string
  bt_last :: "int option"

record notify_config =
  nc_tenant :: string
  nc_channel :: string
  nc_config :: pyval
  nc_severities :: pyval
  nc_enabled :: bool

datatype delivery =
    WebhookPost pyval string string string pydict
  | SlackPost pyval string string pyval

record pipeline =
  pl_events :: "event_row list"
  pl_usage :: usage_state
  pl_beats :: "beat_row list"
  pl_sent :: "delivery list"

record pipe_env =
  pe_budget :: budget_env
  pe_policies :: "policy list"
  pe_configs :: "notify_config list"
  pe_now :: int
  pe_redactor :: redactor
  pe_mode :: "string \<Rightarrow> capture_mode"
  pe_iso :: "int \<Rightarrow> string"
  pe_error :: "pyexc \<Rightarrow> string"

definition minutes :: "int \<Rightarrow> int" where
  "minutes n = n * 60000000"

definition pipe_capture :: "pipe_env \<Rightarrow> string \<Rightarrow> pyval \<Rightarrow> pyval" where
  "pipe_capture V tenant v = capture_payload (pe_redactor V) (pe_mode V tenant) v"

definition update_event :: "string \<Rightarrow> (event_row \<Rightarrow> event_row) \<Rightarrow> pipeline \<Rightarrow> pipeline" where
  "update_event i f P = P\<lparr>pl_events := update_where (\<lambda>e. ev_id e = i) f (pl_events P)\<rparr>"

section \<open>Alerts\<close>

definition max_retries :: nat where
  "max_retries = 5"

definition alert_severity :: "(string \<times> string) list" where
  "alert_severity = [(''policy_violation'', ''high''), (''budget_exceeded'', ''high''), (''endpoint_unhealthy'', ''medium'')]"

text \<open>\<open>s.replace('_', ' ').title()\<close> over ASCII letters.\<close>

definition is_letter :: "char \<Rightarrow> bool" where
  "is_letter c \<longleftrightarrow> (CHR ''a'' \<le> c \<and> c \<le> CHR ''z'') \<or> (CHR ''A'' \<le> c \<and> c \<le> CHR ''Z'')"

fun title_from :: "bool \<Rightarrow> string \<Rightarrow> string" where
  "title_from prev [] = []"
| "title_from prev (c # cs) = (if prev then lower_char c else upper_char c) # title_from (is_letter c) cs"

definition title_of_type :: "string \<Rightarrow> string" where
  "title_of_type s = title_from False (map (\<lambda>c. if c = CHR ''_'' then CHR '' '' else c) s)"

definition slack_color :: "string \<Rightarrow> string" where
  "slack_color severity =
     (case map_of [(''critical'', ''#dc2626''), (''high'', ''#ea580c''), (''medium'', ''#ca8a04''), (''low'', ''#2563eb'')]
             severity of Some c \<Rightarrow> c | None \<Rightarrow> ''#6b7280'')"

text \<open>\<open>v[:2000]\<close> is for texts and lists; \<open>hmac.new\<close> needs a text secret.\<close>

fun cut_2000 :: "pyval \<Rightarrow> pyval option" where
  "cut_2000 (PStr s) = Some (PStr (take 2000 s))"
| "cut_2000 (PList xs) = Some (PList (take 2000 xs))"
| "cut_2000 _ = None"

definition deliver_webhook :: "notify_config \<Rightarrow> string \<Rightarrow> string \<Rightarrow> pydict \<Rightarrow> delivery list option" where
  "deliver_webhook c etype severity payload =
     do { url \<leftarrow> pget (nc_config c) ''url'' (PStr []);
          secret \<leftarrow> pget (nc_config c) ''secret'' (PStr []);
          if \<not> truthy url then Some []
          else if truthy secret \<and> \<not> is_str secret then None
          else Some [WebhookPost url etype severity (nc_tenant c) payload] }"

definition deliver_slack :: "notify_config \<Rightarrow> string \<Rightarrow> string \<Rightarrow> pydict \<Rightarrow> delivery list option" where
  "deliver_slack c etype severity payload =
     do { url \<leftarrow> pget (nc_config c) ''webhook_url'' (PStr []);
          if \<not> truthy url then Some []
          else do {
            text \<leftarrow> cut_2000 (dget payload ''description'' (dget payload ''reason'' (PStr [])));
            Some [SlackPost url (slack_color severity)
              (''['' @ upper severity @ ''] '' @ py_str (dget payload ''title'' (PStr (title_of_type etype)))) text] } }"

definition deliver_one :: "notify_config \<Rightarrow> string \<Rightarrow> string \<Rightarrow> pydict \<Rightarrow> delivery list option" where
  "deliver_one c etype severity payload =
     (let triggers = py_or (nc_severities c) (PList []) in
      if_m (if truthy triggers then not_m (py_in (PStr severity) triggers) else Some False) (Some [])
        (if nc_channel c = ''webhook'' then deliver_webhook c etype severity payload
         else if nc_channel c = ''slack'' then deliver_slack c etype severity payload
         else Some []))"

text \<open>What was posted before a configuration raised, and whether none did.\<close>

fun deliver_all :: "notify_config list \<Rightarrow> string \<Rightarrow> string \<Rightarrow> pydict \<Rightarrow> delivery list \<times> bool" where
  "deliver_all [] etype severity payload = ([], True)"
| "deliver_all (c # cs) etype severity payload =
     (case deliver_one c etype severity payload of
        None \<Rightarrow> ([], False)
      | Some ds \<Rightarrow> (let (rest, ok) = deliver_all cs etype severity payload in (ds @ rest, ok)))"

definition dispatch_webhook ::
  "notify_config list \<Rightarrow> string \<Rightarrow> string \<Rightarrow> string \<Rightarrow> pydict \<Rightarrow> delivery list \<times> bool" where
  "dispatch_webhook configs tenant etype severity payload =
     deliver_all (filter (\<lambda>c. nc_tenant c = tenant \<and> nc_enabled c \<and> nc_channel c \<in> {''webhook'', ''slack''}) configs)
       etype severity payload"

definition send_alert :: "pipe_env \<Rightarrow> event_row \<Rightarrow> pipeline \<Rightarrow> (pyexc + unit) \<times> pipeline" where
  "send_alert V m P =
     (if ev_tenant m = [] then (Inr (), P)
      else case py_or (ev_payload m) (PDict []) of
        PDict d \<Rightarrow>
          (let agent = (case List.find (\<lambda>b. Some (bt_id b) = ev_endpoint m) (pl_beats P) of
                          Some b \<Rightarrow> bt_agent b | None \<Rightarrow> []);
               payload = dput ''occurred_at'' (PStr (pe_iso V (ev_at m)))
                 (dput ''agent_id'' (PStr agent) (dput ''event_id'' (PStr (ev_id m)) d));
               (ds, ok) = dispatch_webhook (pe_configs V) (ev_tenant m) (ev_type m)
                 (the (map_of alert_severity (ev_type m))) payload
           in (if ok then Inr () else Inl OtherError, P\<lparr>pl_sent := pl_sent P @ ds\<rparr>))
      | _ \<Rightarrow> (Inl OtherError, P))"

section \<open>Processing one event\<close>

text \<open>\<open>AgentEndpoint.update_heartbeat\<close>: conditional on being newer than the heartbeat on record.\<close>

definition update_heartbeat :: "int \<Rightarrow> string \<Rightarrow> pyval \<Rightarrow> int \<Rightarrow> beat_row list \<Rightarrow> beat_row list" where
  "update_heartbeat now ep health sent =
     update_where (\<lambda>b. bt_id b = ep \<and> (case bt_last b of None \<Rightarrow> True | Some l \<Rightarrow> l < sent))
       (\<lambda>b. b\<lparr>bt_last := Some sent,
              bt_health := (case health of
                 PStr h \<Rightarrow> if h \<in> {''healthy'', ''degraded'', ''unhealthy'', ''unknown''} \<and> now - minutes 5 \<le> sent
                           then h else bt_health b
               | _ \<Rightarrow> bt_health b)\<rparr>)"

definition usage_of :: "event_row \<Rightarrow> usage_event" where
  "usage_of m = \<lparr>ue_id = ev_id m, ue_tenant = ev_tenant m, ue_type = ev_type m, ue_payload = ev_payload m,
     ue_user = ev_user m, ue_endpoint = ev_endpoint m, ue_deployment = ev_deployment m, ue_at = ev_at m\<rparr>"

definition process_heartbeat :: "pipe_env \<Rightarrow> event_row \<Rightarrow> pipeline \<Rightarrow> (pyexc + unit) \<times> pipeline" where
  "process_heartbeat V m P =
     (case ev_endpoint m of
        None \<Rightarrow> (Inr (), P)
      | Some ep \<Rightarrow>
          (case pget (ev_payload m) ''status'' (PStr ''healthy'') of
             None \<Rightarrow> (Inl OtherError, P)
           | Some health \<Rightarrow>
               (Inr (), P\<lparr>pl_beats := update_heartbeat (pe_now V) ep health (min (ev_at m) (ev_received m))
                          (pl_beats P)\<rparr>)))"

definition process_single_event :: "pipe_env \<Rightarrow> event_row \<Rightarrow> pipeline \<Rightarrow> (pyexc + unit) \<times> pipeline" where
  "process_single_event V m P =
     (if ev_type m = ''heartbeat'' then process_heartbeat V m P
      else if ev_type m \<in> set usage_event_types then
        (let (out, u) = record_usage_event (pe_budget V) (pe_policies V) (usage_of m) (pl_usage P)
         in (map_sum id (\<lambda>_. ()) out, P\<lparr>pl_usage := u\<rparr>))
      else if map_of alert_severity (ev_type m) \<noteq> None then send_alert V m P
      else (Inr (), P))"

text \<open>The row in memory once it was marked as being processed.\<close>

definition in_memory :: "pipe_env \<Rightarrow> event_row \<Rightarrow> event_row" where
  "in_memory V e = e\<lparr>ev_status := EvProcessing, ev_payload := pipe_capture V (ev_tenant e) (ev_payload e)\<rparr>"

text \<open>\<open>move_to_dlq\<close>: the row it saves; None when the payload takes no item.\<close>

definition move_to_dlq :: "pipe_env \<Rightarrow> event_row \<Rightarrow> string \<Rightarrow> event_row option" where
  "move_to_dlq V m err =
     (case ev_payload m of
        PDict d \<Rightarrow>
          (let note = PDict [(''moved_at'', PStr (pe_iso V (pe_now V))), (''reason'', PStr err),
                 (''original_status'', PStr (event_status_text (ev_status m)))]
           in Some (m\<lparr>ev_status := EvFailed, ev_error := err,
                ev_payload := pipe_capture V (ev_tenant m) (PDict (dput ''dlq'' note d))\<rparr>))
      | _ \<Rightarrow> None)"

definition save_row :: "event_row \<Rightarrow> pipeline \<Rightarrow> pipeline" where
  "save_row m = update_event (ev_id m) (\<lambda>_. m)"

definition mark_failed :: "string \<Rightarrow> event_row \<Rightarrow> event_row" where
  "mark_failed err m = m\<lparr>ev_status := EvFailed, ev_error := err, ev_retries := ev_retries m + 1\<rparr>"

text \<open>\<open>mark_failed\<close> saves the status, the error and the count of the row in memory.\<close>

definition save_failed :: "event_row \<Rightarrow> pipeline \<Rightarrow> pipeline" where
  "save_failed m = update_event (ev_id m)
     (\<lambda>e. e\<lparr>ev_status := ev_status m, ev_error := ev_error m, ev_retries := ev_retries m\<rparr>)"

text \<open>One turn of the loop of \<open>process_event_batch\<close>: whether it raised, and the state it left.\<close>

definition process_event :: "pipe_env \<Rightarrow> event_row \<Rightarrow> pipeline \<Rightarrow> bool \<times> pipeline" where
  "process_event V e P =
     (let m = in_memory V e;
          P1 = update_event (ev_id e) (\<lambda>x. x\<lparr>ev_status := EvProcessing\<rparr>) P
      in case process_single_event V m P1 of
           (Inr _, P2) \<Rightarrow>
             (False, update_event (ev_id e) (\<lambda>x. x\<lparr>ev_status := EvProcessed, ev_processed_at := Some (pe_now V)\<rparr>) P2)
         | (Inl (ValueError why), P2) \<Rightarrow>
             (case move_to_dlq V (m\<lparr>ev_retries := max_retries\<rparr>) (''Invalid usage: '' @ why) of
                None \<Rightarrow> (True, P2)
              | Some row \<Rightarrow> (False, save_row row P2))
         | (Inl x, P2) \<Rightarrow>
             (let f = mark_failed (pe_error V x) m; P3 = save_failed f P2 in
              if ev_retries f < max_retries then (True, P3)
              else case move_to_dlq V f (pe_error V x) of
                     None \<Rightarrow> (True, P3)
                   | Some row \<Rightarrow> (False, save_row row P3)))"

fun process_events :: "pipe_env \<Rightarrow> event_row list \<Rightarrow> pipeline \<Rightarrow> bool \<times> pipeline" where
  "process_events V [] P = (False, P)"
| "process_events V (e # es) P =
     (case process_event V e P of
        (True, P') \<Rightarrow> (True, P')
      | (False, P') \<Rightarrow> process_events V es P')"

definition process_event_batch :: "pipe_env \<Rightarrow> string list \<Rightarrow> pipeline \<Rightarrow> bool \<times> pipeline" where
  "process_event_batch V ids P =
     process_events V (sort_key (\<lambda>e. - ev_at e)
       (filter (\<lambda>e. ev_id e \<in> set ids \<and> ev_status e = EvPending) (pl_events P))) P"

section \<open>The retry sweep\<close>

definition stale_pending_after :: int where
  "stale_pending_after = minutes 10"

definition stale_processing_after :: int where
  "stale_processing_after = minutes 30"

text \<open>The loop over stranded events: it raises where one cannot be dead-lettered.\<close>

fun fail_stranded :: "pipe_env \<Rightarrow> event_row list \<Rightarrow> pipeline \<Rightarrow> bool \<times> pipeline" where
  "fail_stranded V [] P = (False, P)"
| "fail_stranded V (e # es) P =
     (let m = mark_failed ''Stranded in processing: the worker was lost'' e;
          m = m\<lparr>ev_payload := pipe_capture V (ev_tenant m) (ev_payload m)\<rparr>;
          P1 = save_failed m P
      in if ev_retries m < max_retries then fail_stranded V es P1
         else case move_to_dlq V m ''Stranded in processing after max retries'' of
                None \<Rightarrow> (True, P1)
              | Some row \<Rightarrow> fail_stranded V es (save_row row P1))"

definition categories :: "string list" where
  "categories = [''telemetry'', ''audit'', ''alert'']"

text \<open>The events to requeue of each category, in the order the tasks are started.\<close>

definition by_category :: "event_row list \<Rightarrow> (string \<times> string list) list" where
  "by_category es =
     filter (\<lambda>(_, ids). ids \<noteq> [])
       (map (\<lambda>c. (c, map ev_id (filter (\<lambda>e. ev_category e = c) es))) categories)"

text \<open>
  \<open>retry_failed_events\<close>: None when it raised, else how many it requeued; the tasks it started; the
  state. \<open>up\<close> says whether Temporal takes the start of a category's task.
\<close>

definition retry_failed_events ::
  "pipe_env \<Rightarrow> (string \<Rightarrow> bool) \<Rightarrow> nat \<Rightarrow> pipeline \<Rightarrow> nat option \<times> (string \<times> string list) list \<times> pipeline" where
  "retry_failed_events V up batch P =
     (let stranded = take batch (sort_key ev_received
            (filter (\<lambda>e. ev_status e = EvProcessing \<and> ev_received e < pe_now V - stale_processing_after) (pl_events P)))
      in case fail_stranded V stranded P of
           (True, P1) \<Rightarrow> (None, [], P1)
         | (False, P1) \<Rightarrow>
             (let due = take batch (sort_key ev_received
                    (filter (\<lambda>e. (ev_status e = EvFailed \<and> ev_retries e < max_retries) \<or>
                       (ev_status e = EvPending \<and> ev_received e < pe_now V - stale_pending_after)) (pl_events P1)));
                  P2 = P1\<lparr>pl_events := update_where (\<lambda>e. ev_id e \<in> ev_id ` set due)
                         (\<lambda>e. e\<lparr>ev_status := EvPending\<rparr>) (pl_events P1)\<rparr>;
                  tasks = by_category due;
                  started = takeWhile (\<lambda>(c, _). up c) tasks
              in if started = tasks
                 then (Some (sum_list (map (\<lambda>(_, ids). length ids) tasks)), tasks, P2)
                 else (None, started, P2)))"

section \<open>The dead letter queue\<close>

definition dead_lettered :: "event_row \<Rightarrow> bool" where
  "dead_lettered e \<longleftrightarrow> ev_status e = EvFailed \<and> max_retries \<le> ev_retries e"

definition get_dlq_events :: "string \<Rightarrow> nat \<Rightarrow> pipeline \<Rightarrow> event_row list" where
  "get_dlq_events tenant limit P =
     take limit (sort_key (\<lambda>e. - ev_received e)
       (filter (\<lambda>e. ev_tenant e = tenant \<and> dead_lettered e) (pl_events P)))"

text \<open>The row \<open>reprocess\<close> saves before it starts the task; None when it raises.\<close>

definition reprocess :: "pipe_env \<Rightarrow> event_row \<Rightarrow> event_row option" where
  "reprocess V e =
     (let m = e\<lparr>ev_status := EvPending, ev_retries := 0, ev_error := []\<rparr> in
      case py_in (PStr ''dlq'') (ev_payload e) of
        None \<Rightarrow> None
      | Some True \<Rightarrow>
          (case ev_payload e of
             PDict d \<Rightarrow> Some (m\<lparr>ev_payload := pipe_capture V (ev_tenant e) (PDict (ddel ''dlq'' d))\<rparr>)
           | _ \<Rightarrow> None)
      | Some False \<Rightarrow> Some (m\<lparr>ev_payload := pipe_capture V (ev_tenant e) (ev_payload e)\<rparr>))"

fun reprocess_all :: "pipe_env \<Rightarrow> event_row list \<Rightarrow> pipeline \<Rightarrow> bool \<times> pipeline" where
  "reprocess_all V [] P = (False, P)"
| "reprocess_all V (e # es) P =
     (case reprocess V e of
        None \<Rightarrow> (True, P)
      | Some row \<Rightarrow> reprocess_all V es (save_row row P))"

definition process_dead_letter_queue :: "pipe_env \<Rightarrow> string \<Rightarrow> pipeline \<Rightarrow> bool \<times> pipeline" where
  "process_dead_letter_queue V tenant P = reprocess_all V (get_dlq_events tenant 50 P) P"

section \<open>Ingestion\<close>

text \<open>An event as the serializer hands it on; an event without a producer's id has the empty one.\<close>

record incoming =
  ic_type :: string
  ic_event_id :: string
  ic_category :: string
  ic_payload :: pyval
  ic_at :: int
  ic_user :: string

datatype ingest_response =
    BatchTooLarge
  | AgentMismatch
  | EventsConflict "string list"
  | EventsAccepted nat nat

definition max_batch_size :: nat where
  "max_batch_size = 1000"

text \<open>\<open>EventsView._reporting_gateway\<close>.\<close>

definition reporting_gateway :: "key_env \<Rightarrow> int \<Rightarrow> registry \<Rightarrow> string \<Rightarrow> agent_row \<Rightarrow> gateway_row option" where
  "reporting_gateway K now db presented a =
     (if presented = [] then None
      else case gateway_authenticate K now db presented of
             None \<Rightarrow> None
           | Some (c, r) \<Rightarrow> if gateway_serves r (ag_tenant a) then Some r else None)"

definition stamp_source :: "bool \<Rightarrow> string \<Rightarrow> pyval \<Rightarrow> pyval" where
  "stamp_source usage source v =
     (case v of PDict d \<Rightarrow> if usage then PDict (dput ''source'' (PStr source) d) else v | _ \<Rightarrow> v)"

definition make_event ::
  "pipe_env \<Rightarrow> agent_row \<Rightarrow> string option \<Rightarrow> string \<Rightarrow> string option \<Rightarrow> string \<Rightarrow> string \<Rightarrow> incoming \<Rightarrow> event_row" where
  "make_event V a identity source cluster batch i ic =
     (let usage = ic_type ic \<in> set usage_event_types in
      \<lparr>ev_id = i, ev_tenant = ag_tenant a, ev_endpoint = Some (ag_id a), ev_deployment = ag_deployment a,
       ev_user = (case identity of Some u \<Rightarrow> u | None \<Rightarrow> ic_user ic),
       ev_type = ic_type ic, ev_category = ic_category ic,
       ev_payload = stamp_source usage source (pipe_capture V (ag_tenant a) (ic_payload ic)),
       ev_status = EvPending, ev_processed_at = None, ev_error = [], ev_retries = 0,
       ev_at = ic_at ic, ev_received = pe_now V, ev_correlation = batch, ev_producer = ic_event_id ic,
       ev_cluster = (if usage then cluster else None)\<rparr>)"

text \<open>\<open>_event_changed\<close>: whether an id comes back with different data.\<close>

definition event_changed :: "event_row \<Rightarrow> event_row \<Rightarrow> bool" where
  "event_changed old new \<longleftrightarrow> ev_type old \<noteq> ev_type new \<or> ev_category old \<noteq> ev_category new \<or>
     ev_user old \<noteq> ev_user new \<or> ev_at old \<noteq> ev_at new \<or> \<not> py_eq (ev_payload old) (ev_payload new)"

definition same_producer_event :: "event_row \<Rightarrow> event_row \<Rightarrow> bool" where
  "same_producer_event e x \<longleftrightarrow> ev_tenant x = ev_tenant e \<and> ev_endpoint x = ev_endpoint e \<and> ev_producer x = ev_producer e"

text \<open>The loop over the events with a producer's id: created rows, duplicates, conflicting ids.\<close>

fun claim_events :: "pipe_env \<Rightarrow> event_row list \<Rightarrow> event_row list \<Rightarrow>
    event_row list \<times> event_row list \<times> nat \<times> string list" where
  "claim_events V [] rows = (rows, [], 0, [])"
| "claim_events V (e # es) rows =
     (case List.find (same_producer_event e) rows of
        None \<Rightarrow>
          (let saved = e\<lparr>ev_payload := pipe_capture V (ev_tenant e) (ev_payload e)\<rparr>;
               (rows', created, dups, conflicts) = claim_events V es (rows @ [saved])
           in (rows', saved # created, dups, conflicts))
      | Some old \<Rightarrow>
          (let (rows', created, dups, conflicts) = claim_events V es rows in
           if event_changed old e then (rows', created, dups, ev_producer e # conflicts)
           else (rows', created, dups + 1, conflicts)))"

text \<open>
  \<open>EventsView.ingest\<close>: the response, the tasks it starts and the state. \<open>fresh n\<close> is the id of the
  n-th event of the request.
\<close>

definition ingest ::
  "pipe_env \<Rightarrow> (nat \<Rightarrow> string) \<Rightarrow> string \<Rightarrow> agent_row \<Rightarrow> incoming list \<Rightarrow> string option \<Rightarrow> string \<Rightarrow> string option \<Rightarrow>
   pipeline \<Rightarrow> ingest_response \<times> (string \<times> string list) list \<times> pipeline" where
  "ingest V fresh batch a ics identity source cluster P =
     (let made = map (\<lambda>(n, ic). make_event V a identity source cluster batch (fresh n) ic) (enumerate 0 ics);
          legacy = filter (\<lambda>e. ev_producer e = []) made;
          (rows, claimed, dups, conflicts) =
            claim_events V (filter (\<lambda>e. ev_producer e \<noteq> []) made) (pl_events P @ legacy);
          created = legacy @ claimed;
          P' = P\<lparr>pl_events := rows\<rparr>
      in if conflicts \<noteq> [] then (EventsConflict conflicts, [], P')
         else (EventsAccepted (length created) dups, by_category created, P'))"

text \<open>\<open>EventsView.post\<close> of an authenticated agent: the gateway decides the source and the cluster.\<close>

definition post_events ::
  "pipe_env \<Rightarrow> (nat \<Rightarrow> string) \<Rightarrow> string \<Rightarrow> key_env \<Rightarrow> registry \<Rightarrow> string \<Rightarrow> agent_row \<Rightarrow> string \<Rightarrow> incoming list \<Rightarrow>
   string option \<Rightarrow> pipeline \<Rightarrow> ingest_response \<times> (string \<times> string list) list \<times> pipeline" where
  "post_events V fresh batch K db presented a agent_id ics identity P =
     (if max_batch_size < length ics then (BatchTooLarge, [], P)
      else if agent_id \<noteq> [] \<and> ag_agent_id a \<noteq> agent_id then (AgentMismatch, [], P)
      else
        (let gateway = reporting_gateway K (pe_now V) db presented a in
         ingest V fresh batch a ics identity (if gateway = None then ''agent'' else ''gateway'')
           (Option.bind gateway gr_cluster) P))"

end
