(* ===== verification/UsageRules.thy ===== *)
theory UsageRules
  imports UsageIngest
begin

text \<open>
  What metering keeps (\<open>services/usage_ingest.py\<close>): token counts are split without loss, the rows
  of a call add up to the greatest count any report of it stated, in whatever order and how often
  its reports come, and neither a log nor a charge ever falls.
\<close>

section \<open>Token counts\<close>

lemma bounded_count_Inr: "bounded_count n key = Inr v \<longleftrightarrow> v = Some n \<and> 0 \<le> n \<and> n \<le> max_tokens"
  by (auto simp: bounded_count_def)

lemma token_count_range: "token_count v key = Inr n \<Longrightarrow> 0 \<le> or_0 n \<and> or_0 n \<le> max_tokens"
  by (cases "(v, key)" rule: token_count.cases)
    (auto simp: bounded_count_Inr or_0_def max_tokens_def split: if_splits)

lemma token_count_Some: "v \<noteq> PNone \<Longrightarrow> token_count v key = Inr n \<Longrightarrow> n \<noteq> None"
  by (cases "(v, key)" rule: token_count.cases) (auto simp: bounded_count_Inr split: if_splits)

lemma first_count_range: "first_count d ks = Inr n \<Longrightarrow> 0 \<le> or_0 n \<and> or_0 n \<le> max_tokens"
proof (induction ks)
  case Nil
  then show ?case by (auto simp: or_0_def max_tokens_def)
next
  case (Cons k ks)
  then show ?case by (auto split: if_splits dest: token_count_range)
qed

lemma included_cache_value: "included_cache d ps = Some (key, v) \<Longrightarrow> v \<noteq> PNone"
  by (induction d ps rule: included_cache.induct) (auto split: pyval.splits if_splits)

lemma split_cached_cases:
  assumes "split_cached d inp rd = Inr (inp', rd')"
  obtains "inp' = inp" "rd' = rd"
  | cached where "rd = None" "rd' = Some cached" "inp' = Some (or_0 inp - cached)"
      "0 \<le> cached" "cached \<le> or_0 inp" "cached \<le> max_tokens"
proof (cases "included_cache d included_cache_keys")
  case None
  with assms that(1) show thesis by (simp add: split_cached_def)
next
  case (Some kv)
  then obtain key v where kv: "included_cache d included_cache_keys = Some (key, v)" by (cases kv) auto
  with assms obtain c where c: "token_count v key = Inr c" by (auto simp: split_cached_def)
  with included_cache_value [OF kv] obtain n where n: "c = Some n" using token_count_Some by blast
  with token_count_range [OF c] have "0 \<le> n" "n \<le> max_tokens" by (simp_all add: or_0_def)
  with assms kv c n that show thesis
    by (auto simp: split_cached_def or_0_def split: if_splits)
qed

lemma normalize_tokens_parts:
  assumes "normalize_tokens (PDict d) = Inr t"
  obtains i out r w i' r' where "first_count d input_keys = Inr i" "first_count d output_keys = Inr out"
    "first_count d read_keys = Inr r" "first_count d write_keys = Inr w" "split_cached d i r = Inr (i', r')"
    "t = \<lparr>tc_input = or_0 i', tc_output = or_0 out, tc_read = or_0 r', tc_write = or_0 w\<rparr>"
  using assms by (auto simp: normalize_tokens_def)

definition counts_ok :: "token_counts \<Rightarrow> bool" where
  "counts_ok t \<longleftrightarrow> {tc_input t, tc_output t, tc_read t, tc_write t} \<subseteq> {0..max_tokens}"

lemma split_cached_range:
  assumes "split_cached d i r = Inr (i', r')" "0 \<le> or_0 i" "or_0 i \<le> max_tokens" "0 \<le> or_0 r" "or_0 r \<le> max_tokens"
  shows "0 \<le> or_0 i' \<and> or_0 i' \<le> max_tokens \<and> 0 \<le> or_0 r' \<and> or_0 r' \<le> max_tokens"
  using assms(1)
proof (cases rule: split_cached_cases)
  case 1
  with assms show ?thesis by simp
next
  case (2 cached)
  with assms show ?thesis by (simp add: or_0_def [of "Some _"])
qed

lemma normalize_tokens_ok: "normalize_tokens v = Inr t \<Longrightarrow> counts_ok t"
proof -
  assume n: "normalize_tokens v = Inr t"
  then obtain d where "v = PDict d" by (cases v) (simp_all add: normalize_tokens_def)
  with n have "normalize_tokens (PDict d) = Inr t" by simp
  then show "counts_ok t"
  proof (rule normalize_tokens_parts)
    fix i out r w i' r'
    assume a: "first_count d input_keys = Inr i" "first_count d output_keys = Inr out"
      "first_count d read_keys = Inr r" "first_count d write_keys = Inr w" "split_cached d i r = Inr (i', r')"
      "t = \<lparr>tc_input = or_0 i', tc_output = or_0 out, tc_read = or_0 r', tc_write = or_0 w\<rparr>"
    note f = first_count_range
    from split_cached_range [OF a(5)] f [OF a(1)] f [OF a(2)] f [OF a(3)] f [OF a(4)] a(6)
    show ?thesis by (simp add: counts_ok_def)
  qed
qed

text \<open>
  No cached token is lost and none is counted twice. The four counts read from a report are
  whole numbers from zero to the bound. When the producer reports cache reads beside the input, both
  counts are taken as sent; when it reports them inside the input, uncached input and cache reads
  together are exactly the input count sent.
\<close>

lemma cached_tokens_counted_once:
  assumes "normalize_tokens (PDict d) = Inr t" "first_count d input_keys = Inr i" "first_count d read_keys = Inr r"
  shows "counts_ok t \<and> (case r of
      Some n \<Rightarrow> tc_input t = or_0 i \<and> tc_read t = n
    | None \<Rightarrow> tc_input t + tc_read t = or_0 i)"
proof (rule normalize_tokens_parts [OF assms(1)])
  fix i1 out r1 w i' r'
  assume a: "first_count d input_keys = Inr i1" "first_count d read_keys = Inr r1"
    "split_cached d i1 r1 = Inr (i', r')"
    "t = \<lparr>tc_input = or_0 i', tc_output = or_0 out, tc_read = or_0 r', tc_write = or_0 w\<rparr>"
  with assms have same: "i1 = i" "r1 = r" by simp_all
  from a(3) have "case r of Some n \<Rightarrow> or_0 i' = or_0 i \<and> or_0 r' = n | None \<Rightarrow> or_0 i' + or_0 r' = or_0 i"
    unfolding same by (cases rule: split_cached_cases) (auto simp: or_0_def split: option.splits)
  with a(4) normalize_tokens_ok [OF assms(1)] show ?thesis by (simp split: option.splits)
qed

lemma cached_tokens_counted_once_witness:
  "\<exists>t. normalize_tokens (PDict [(''prompt_tokens'', PInt 100), (''completion_tokens'', PInt 7),
      (''prompt_tokens_details'', PDict [(''cached_tokens'', PInt 40)])]) = Inr t
    \<and> tc_input t = 60 \<and> tc_read t = 40 \<and> tc_input t + tc_read t = 100"
proof -
  let ?d = "[(''prompt_tokens'', PInt 100), (''completion_tokens'', PInt 7),
      (''prompt_tokens_details'', PDict [(''cached_tokens'', PInt 40)])]"
  have n: "normalize_tokens (PDict ?d) = Inr \<lparr>tc_input = 60, tc_output = 7, tc_read = 40, tc_write = 0\<rparr>"
    by code_simp
  have "first_count ?d input_keys = Inr (Some 100)" "first_count ?d read_keys = Inr None" by code_simp+
  from cached_tokens_counted_once [OF n this] n show ?thesis by (simp add: or_0_def)
qed

section \<open>The rows of a call\<close>

definition stated :: "token_counts \<Rightarrow> metric_type \<Rightarrow> int" where
  "stated t m = (case m of AiInput \<Rightarrow> tc_input t | AiOutput \<Rightarrow> tc_output t | AiTotal \<Rightarrow> tc_input t + tc_output t
     | AiCacheRead \<Rightarrow> tc_read t | AiCacheWrite \<Rightarrow> tc_write t | AiRequests \<Rightarrow> 1)"

lemma stated_nonneg: "counts_ok t \<Longrightarrow> 0 \<le> stated t m"
  by (cases m) (simp_all add: stated_def counts_ok_def)

lemma read_report_counts: "read_report ev = Inr r \<Longrightarrow> counts_ok (rp_tokens r) \<and> rp_event r = ev"
  by (auto simp: read_report_def Let_def split: if_splits pyval.splits intro: normalize_tokens_ok)

lemma metered_append [simp]: "metered (ms @ ns) tenant key t = metered ms tenant key t + metered ns tenant key t"
  by (simp add: metered_def)

lemma metered_Nil [simp]: "metered [] tenant key t = 0"
  by (simp add: metered_def)

lemma metered_Cons: "metered (m # ms) tenant key t =
    (if same_call tenant key m \<and> um_type m = t then um_value m else 0) + metered ms tenant key t"
  by (simp add: metered_def)

definition of_call :: "usage_reading \<Rightarrow> string \<Rightarrow> string \<Rightarrow> bool" where
  "of_call r tenant key \<longleftrightarrow> ue_tenant (rp_event r) = tenant \<and> rp_key r = key"

lemma same_call_row [simp]: "same_call tenant key (metric_row r meta t v) = of_call r tenant key"
  "um_type (metric_row r meta t v) = t" "um_value (metric_row r meta t v) = v"
  by (simp_all add: same_call_def of_call_def metric_row_def Let_def)

lemma metered_rows:
  "metered (map (\<lambda>(mt, v). metric_row r meta mt (f mt v)) (filter P (reported tk))) tenant key t =
     (if of_call r tenant key \<and> t \<noteq> AiRequests \<and> P (t, stated tk t) then f t (stated tk t) else 0)"
  by (cases t) (auto simp: reported_def metered_Cons stated_def)

lemma metered_record_ai_usage:
  assumes "counts_ok (rp_tokens r)"
  shows "metered (record_ai_usage e r) tenant key t = (if of_call r tenant key then stated (rp_tokens r) t else 0)"
  using stated_nonneg [OF assms, of t]
  by (auto simp: record_ai_usage_def Let_def metered_rows [where f = "\<lambda>_ v. v"] metered_Cons stated_def)

lemma metered_raise_recorded:
  "metered (raise_recorded ms r) tenant key t =
     (if of_call r tenant key \<and> t \<noteq> AiRequests
      then max 0 (stated (rp_tokens r) t - metered ms tenant key t) else 0)"
proof -
  let ?so = "metered ms (ue_tenant (rp_event r)) (rp_key r)"
  note rows = metered_rows [where f = "\<lambda>mt v. v - ?so mt" and P = "\<lambda>(mt, v). ?so mt < v"]
  show ?thesis
    unfolding raise_recorded_def Let_def rows by (auto simp: of_call_def)
qed

lemma already_recorded_append [simp]:
  "already_recorded (ms @ ns) r \<longleftrightarrow> already_recorded ms r \<or> already_recorded ns r"
  by (auto simp: already_recorded_def list_ex_iff)

definition recorded_call :: "metric list \<Rightarrow> string \<Rightarrow> string \<Rightarrow> bool" where
  "recorded_call ms tenant key \<longleftrightarrow> (\<exists>m \<in> set ms. same_call tenant key m \<and> um_type m = AiRequests)"

lemma already_recorded_iff: "already_recorded ms r \<longleftrightarrow> recorded_call ms (ue_tenant (rp_event r)) (rp_key r)"
  by (simp add: already_recorded_def recorded_call_def list_ex_iff)

lemma recorded_call_append [simp]:
  "recorded_call (ms @ ns) tenant key \<longleftrightarrow> recorded_call ms tenant key \<or> recorded_call ns tenant key"
  by (auto simp: recorded_call_def)

lemma recorded_record_ai_usage: "recorded_call (record_ai_usage e r) tenant key \<longleftrightarrow> of_call r tenant key"
  by (auto simp: recorded_call_def record_ai_usage_def Let_def reported_def)

lemma recorded_raise: "\<not> recorded_call (raise_recorded ms r) tenant key"
  by (auto simp: recorded_call_def raise_recorded_def Let_def reported_def)

section \<open>One report\<close>

lemma settle_call_metrics: "settle_call e ps r s = Inr s' \<Longrightarrow> us_metrics s' = us_metrics s"
  by (auto simp: settle_call_def split: option.splits if_splits)

text \<open>What one report does to the rows, when it is answered.\<close>

lemma record_usage_event_metrics:
  assumes "record_usage_event e ps ev s = (out, s')"
  obtains (invalid) x where "read_report ev = Inl x" "s' = s" "out = Inl x"
  | (first) r where "read_report ev = Inr r" "\<not> already_recorded (us_metrics s) r"
      "us_metrics s' = us_metrics s @ record_ai_usage e r"
  | (repeat) r where "read_report ev = Inr r" "already_recorded (us_metrics s) r"
      "us_metrics s' = us_metrics s @ raise_recorded (us_metrics s) r"
  | (undone) r x where "read_report ev = Inr r" "already_recorded (us_metrics s) r" "out = Inl x" "s' = s"
proof (cases "read_report ev")
  case (Inl x)
  with assms invalid show thesis by (simp add: record_usage_event_def)
next
  case (Inr r)
  note r = this
  show thesis
  proof (cases "already_recorded (us_metrics s) r")
    case True
    let ?s1 = "s\<lparr>us_metrics := us_metrics s @ raise_recorded (us_metrics s) r\<rparr>"
    show thesis
    proof (cases "settle_call e ps r ?s1")
      case (Inl x)
      with assms r True show thesis by (intro undone [OF r True, of x]) (simp_all add: record_usage_event_def)
    next
      case (Inr s2)
      with assms r True have "s' = s2" by (simp add: record_usage_event_def)
      with settle_call_metrics [OF Inr] show thesis by (intro repeat [OF r True]) simp
    qed
  next
    case False
    let ?s1 = "s\<lparr>us_metrics := us_metrics s @ record_ai_usage e r\<rparr>"
    show thesis
    proof (cases "settle_call e ps r ?s1")
      case (Inl x)
      with assms r False show thesis by (intro first [OF r False]) (auto simp: record_usage_event_def Let_def)
    next
      case (Inr s2)
      with assms r False have "s' = s2" by (simp add: record_usage_event_def)
      with settle_call_metrics [OF Inr] show thesis by (intro first [OF r False]) simp
    qed
  qed
qed

section \<open>Runs\<close>

type_synonym usage_job = "budget_env \<times> policy list \<times> usage_event"

text \<open>
  Processing one event after another, each under the prices, policies and clock of its moment. An
  invalid report is rejected and the run goes on; None when a settlement raised.
\<close>

fun meter_all :: "usage_job list \<Rightarrow> usage_state \<Rightarrow> usage_state option" where
  "meter_all [] s = Some s"
| "meter_all ((e, ps, ev) # jobs) s =
     (case record_usage_event e ps ev s of
        (Inr _, s') \<Rightarrow> meter_all jobs s'
      | (Inl (ValueError _), s') \<Rightarrow> meter_all jobs s'
      | (Inl _, s') \<Rightarrow> None)"

text \<open>The valid reports of a call, and the greatest count they state.\<close>

definition reports_of :: "usage_job list \<Rightarrow> string \<Rightarrow> string \<Rightarrow> usage_reading list" where
  "reports_of jobs tenant key =
     concat (map (\<lambda>(e, ps, ev). case read_report ev of
        Inr r \<Rightarrow> if of_call r tenant key then [r] else [] | Inl _ \<Rightarrow> []) jobs)"

definition greatest_stated :: "usage_reading list \<Rightarrow> metric_type \<Rightarrow> int" where
  "greatest_stated rs t = Max (insert 0 ((\<lambda>r. stated (rp_tokens r) t) ` set rs))"

lemma greatest_stated_Nil [simp]: "greatest_stated [] t = 0"
  by (simp add: greatest_stated_def)

lemma greatest_stated_snoc [simp]:
  "greatest_stated (rs @ [r]) t = max (greatest_stated rs t) (stated (rp_tokens r) t)"
proof -
  have "insert 0 ((\<lambda>r. stated (rp_tokens r) t) ` set (rs @ [r]))
      = insert (stated (rp_tokens r) t) (insert 0 ((\<lambda>r. stated (rp_tokens r) t) ` set rs))" by auto
  then show ?thesis unfolding greatest_stated_def by (simp only: Max_insert finite.intros finite_imageI finite_set)
    (simp add: max.commute)
qed

lemma greatest_stated_single [simp]: "greatest_stated [r] t = max 0 (stated (rp_tokens r) t)"
  using greatest_stated_snoc [of "[]" r t] by simp

lemma reports_of_snoc [simp]:
  "reports_of (jobs @ [(e, ps, ev)]) tenant key = reports_of jobs tenant key @
     (case read_report ev of Inr r \<Rightarrow> if of_call r tenant key then [r] else [] | Inl _ \<Rightarrow> [])"
  by (simp add: reports_of_def)

definition meters_exactly :: "usage_job list \<Rightarrow> metric list \<Rightarrow> bool" where
  "meters_exactly jobs ms \<longleftrightarrow> (\<forall>tenant key.
     (\<forall>t. metered ms tenant key t = greatest_stated (reports_of jobs tenant key) t) \<and>
     (recorded_call ms tenant key \<longleftrightarrow> reports_of jobs tenant key \<noteq> []))"

lemma greatest_stated_nonneg: "0 \<le> greatest_stated rs t"
  by (simp add: greatest_stated_def)

lemma reports_of_same_call: "r \<in> set (reports_of jobs tenant key) \<Longrightarrow> of_call r tenant key"
  by (auto simp: reports_of_def split: sum.splits if_splits)

lemma greatest_stated_requests: "greatest_stated rs AiRequests = (if rs = [] then 0 else 1)"
proof (cases "rs = []")
  case False
  then have "(\<lambda>r. stated (rp_tokens r) AiRequests) ` set rs = {1}"
    by (simp add: stated_def image_constant_conv)
  with False show ?thesis by (simp add: greatest_stated_def)
qed simp

lemma meters_exactly_step:
  assumes "meters_exactly jobs (us_metrics s)" "record_usage_event e ps ev s = (out, s')"
    and "\<forall>x. out = Inl x \<longrightarrow> (\<exists>m. read_report ev = Inl m)"
  shows "meters_exactly (jobs @ [(e, ps, ev)]) (us_metrics s')"
  using assms(2)
proof (cases rule: record_usage_event_metrics)
  case (invalid x)
  with assms(1) show ?thesis by (simp add: meters_exactly_def)
next
  case (undone r x)
  with assms(3) show ?thesis by simp
next
  case (first r)
  note ok = read_report_counts [OF first(1), THEN conjunct1]
  have "reports_of jobs tenant key = []" if "of_call r tenant key" for tenant key
    using assms(1) first(2) that by (auto simp: meters_exactly_def already_recorded_iff of_call_def)
  with assms(1) first(1,3) stated_nonneg [OF ok] show ?thesis
    by (auto simp: meters_exactly_def metered_record_ai_usage [OF ok] recorded_record_ai_usage max_def)
next
  case (repeat r)
  note ok = read_report_counts [OF repeat(1), THEN conjunct1]
  have "reports_of jobs tenant key \<noteq> []" if "of_call r tenant key" for tenant key
    using assms(1) repeat(2) that by (auto simp: meters_exactly_def already_recorded_iff of_call_def)
  with assms(1) repeat(1,3) show ?thesis
    by (auto simp: meters_exactly_def metered_raise_recorded recorded_raise max_def
        greatest_stated_requests stated_def)
qed

lemma settle_no_value_error: "settle now ch a src rec b \<noteq> Inl (ValueError m)"
  by (auto simp: settle_def Let_def split: option.splits)

lemma reconcile_no_value_error: "reconcile_reported_usage e ps tenant ep rid c b \<noteq> Inl (ValueError m)"
  by (auto simp: reconcile_reported_usage_def Let_def rbind_eq_Inl settle_no_value_error
      split: option.splits)

lemma value_error_invalid:
  assumes "record_usage_event e ps ev s = (Inl (ValueError m), s')"
  shows "\<exists>x. read_report ev = Inl x"
proof (cases "read_report ev")
  case (Inr r)
  have "settle_call e ps r s1 \<noteq> Inl (ValueError m)" for s1
    by (auto simp: settle_call_def rbind_eq_Inl reconcile_no_value_error split: option.splits if_splits)
  with assms Inr show ?thesis
    by (auto simp: record_usage_event_def Let_def split: if_splits sum.splits)
qed simp

lemma meter_all_exact:
  assumes "meter_all jobs s = Some s'" "meters_exactly before (us_metrics s)"
  shows "meters_exactly (before @ jobs) (us_metrics s')"
  using assms
proof (induction jobs arbitrary: s before)
  case Nil
  then show ?case by simp
next
  case (Cons job jobs)
  obtain e ps ev where job: "job = (e, ps, ev)" by (cases job) auto
  obtain out s1 where one: "record_usage_event e ps ev s = (out, s1)" by (cases "record_usage_event e ps ev s") auto
  from Cons.prems(1) have rest: "meter_all jobs s1 = Some s'"
    and fine: "\<forall>x. out = Inl x \<longrightarrow> (\<exists>m. x = ValueError m)"
    by (auto simp: job one split: sum.splits pyexc.splits)
  have "\<forall>x. out = Inl x \<longrightarrow> (\<exists>m. read_report ev = Inl m)"
    using fine value_error_invalid one by blast
  from Cons.IH [OF rest meters_exactly_step [OF Cons.prems(2) one this]] show ?case by (simp add: job)
qed

text \<open>
  C8: Usage is metered once, however often and in whatever order it is reported. From an empty
  table, after any run of usage events in which every settlement went through, the rows of a call
  add up, for each kind of count, to the greatest count any valid report under its idempotency key
  states; the requests of a call that was reported at all add up to one, and an invalid report
  adds nothing.
\<close>

theorem metered_is_greatest_stated:
  assumes "meter_all jobs s = Some s'" "us_metrics s = []"
  shows "metered (us_metrics s') tenant key t = greatest_stated (reports_of jobs tenant key) t
    \<and> metered (us_metrics s') tenant key AiRequests = (if reports_of jobs tenant key = [] then 0 else 1)"
proof -
  have "meters_exactly [] (us_metrics s)"
    using assms(2) by (simp add: meters_exactly_def reports_of_def recorded_call_def)
  from meter_all_exact [OF assms(1) this] show ?thesis
    by (simp add: meters_exactly_def greatest_stated_requests)
qed

section \<open>Nothing falls\<close>

definition or_0r :: "rat option \<Rightarrow> rat" where
  "or_0r q = (case q of None \<Rightarrow> 0 | Some x \<Rightarrow> x)"

definition log_rises :: "usage_log \<Rightarrow> usage_log \<Rightarrow> bool" where
  "log_rises l l' \<longleftrightarrow> or_0 (ul_input l) \<le> or_0 (ul_input l') \<and> or_0 (ul_output l) \<le> or_0 (ul_output l') \<and>
     or_0 (ul_total l) \<le> or_0 (ul_total l') \<and> or_0r (ul_cost l) \<le> or_0r (ul_cost l')"

definition charge_rises :: "charge \<Rightarrow> charge \<Rightarrow> bool" where
  "charge_rises c c' \<longleftrightarrow> bc_id c' = bc_id c \<and> bc_amount c' = bc_amount c \<and> actual_or_0 c \<le> actual_or_0 c' \<and>
     (provider_settled c \<longrightarrow> c' = c)"

lemma log_rises_refl [simp]: "log_rises l l"
  by (simp add: log_rises_def)

lemma charge_rises_refl [simp]: "charge_rises c c"
  by (simp add: charge_rises_def)

lemma fill_interaction_rises: "list_all2 log_rises logs (fill_interaction e r ep logs)"
  by (induction logs)
    (auto simp: fill_interaction_def Let_def log_rises_def or_0_def or_0r_def at_least_def split: option.splits)

lemma settle_charges: "settle now ch a src rec b = Inr (ch', b') \<Longrightarrow>
    bs_charges b' = update_charge ch' (bs_charges b) \<and> bc_id ch' = bc_id ch \<and> bc_amount ch' = bc_amount ch
      \<and> bc_actual ch' = Some a"
  by (auto simp: settle_def Let_def split: option.splits)

lemma update_charge_rises:
  assumes "distinct (map bc_id cs)" "ch \<in> set cs" "charge_rises ch ch'"
  shows "list_all2 charge_rises cs (update_charge ch' cs)"
proof -
  have "charge_rises c (if bc_id c = bc_id ch' then ch' else c)" if "c \<in> set cs" for c
    using assms that inj_onD [of bc_id "set cs" c ch] by (auto simp: distinct_map charge_rises_def)
  then show ?thesis by (simp add: update_charge_def list_all2_map2 list_all2_same)
qed

lemma reconcile_rises:
  assumes "reconcile_reported_usage e ps tenant ep rid cost b = Inr (x, b')" "distinct (map bc_id (bs_charges b))"
  shows "list_all2 charge_rises (bs_charges b) (bs_charges b')"
proof (cases "b' = b")
  case True
  then show ?thesis by (simp add: list_all2_same)
next
  case False
  with assms(1) obtain ch ch' c rel where
    found: "find (\<lambda>c. bc_tenant c = tenant \<and> bc_endpoint c = the ep \<and> bc_request c = rid) (bs_charges b) = Some ch"
    and loose: "\<not> provider_settled ch"
    and st: "settle (b_now e) ch (max (quantize_up c) (actual_or_0 ch)) ''reported-usage'' rel b = Inr (ch', b')"
    by (auto simp: reconcile_reported_usage_def Let_def split: option.splits if_splits)
  from found have "ch \<in> set (bs_charges b)" by (auto simp: find_Some_iff)
  moreover have "charge_rises ch ch'"
    using settle_charges [OF st] loose by (simp add: charge_rises_def actual_or_0_def [of ch'])
  ultimately show ?thesis
    using update_charge_rises [OF assms(2)] settle_charges [OF st] by simp
qed

definition state_rises :: "usage_state \<Rightarrow> usage_state \<Rightarrow> bool" where
  "state_rises s s' \<longleftrightarrow> (\<forall>tenant key t. metered (us_metrics s) tenant key t \<le> metered (us_metrics s') tenant key t)
     \<and> list_all2 log_rises (us_logs s) (us_logs s')
     \<and> list_all2 charge_rises (bs_charges (us_budget s)) (bs_charges (us_budget s'))"

lemma settle_call_rises:
  assumes "settle_call e ps r s = Inr s'" "distinct (map bc_id (bs_charges (us_budget s)))"
  shows "list_all2 log_rises (us_logs s) (us_logs s')
    \<and> list_all2 charge_rises (bs_charges (us_budget s)) (bs_charges (us_budget s'))"
  using assms
  by (auto simp: settle_call_def list_all2_same fill_interaction_rises reconcile_rises
      split: option.splits if_splits)

lemma metered_nonneg_added:
  assumes "counts_ok (rp_tokens r)"
  shows "0 \<le> metered (record_ai_usage e r) tenant key t" "0 \<le> metered (raise_recorded ms r) tenant key t"
  using stated_nonneg [OF assms, of t] by (simp_all add: metered_record_ai_usage [OF assms] metered_raise_recorded)

lemma record_usage_event_logs:
  assumes "record_usage_event e ps ev s = (out, s')" "distinct (map bc_id (bs_charges (us_budget s)))"
  shows "list_all2 log_rises (us_logs s) (us_logs s')
    \<and> list_all2 charge_rises (bs_charges (us_budget s)) (bs_charges (us_budget s'))"
proof (cases "read_report ev")
  case (Inl x)
  with assms(1) show ?thesis by (simp add: record_usage_event_def list_all2_same)
next
  case (Inr r)
  define s1 where "s1 = s\<lparr>us_metrics := us_metrics s @
     (if already_recorded (us_metrics s) r then raise_recorded (us_metrics s) r else record_ai_usage e r)\<rparr>"
  have same: "us_logs s1 = us_logs s" "us_budget s1 = us_budget s" by (simp_all add: s1_def)
  show ?thesis
  proof (cases "settle_call e ps r s1")
    case (Inl x)
    have "s' = s \<or> (\<exists>ep. s' = s1\<lparr>us_logs := fill_interaction e r ep (us_logs s1)\<rparr>)"
      using assms(1) Inr Inl by (auto simp: record_usage_event_def Let_def s1_def split: if_splits)
    then show ?thesis using same by (auto simp: list_all2_same fill_interaction_rises)
  next
    case (Inr s2)
    have "s' = s2"
      using assms(1) \<open>read_report ev = Inr r\<close> Inr by (auto simp: record_usage_event_def Let_def s1_def split: if_splits)
    then show ?thesis using settle_call_rises [OF Inr] assms(2) same by simp
  qed
qed

text \<open>
  C40: No report lowers what was used or spent. Whatever a usage event says and however it is
  answered, no total of any call falls, no count and no cost in an interaction log falls, no
  charge's actual cost falls, and a charge the provider settled is left as it is.
\<close>

theorem no_report_lowers_spend:
  assumes "record_usage_event e ps ev s = (out, s')" "distinct (map bc_id (bs_charges (us_budget s)))"
  shows "state_rises s s'"
proof -
  have "metered (us_metrics s) tenant key t \<le> metered (us_metrics s') tenant key t" for tenant key t
    using assms(1)
  proof (cases rule: record_usage_event_metrics)
    case (first r)
    with metered_nonneg_added(1) read_report_counts [OF first(1)] show ?thesis by simp
  next
    case (repeat r)
    with metered_nonneg_added(2) read_report_counts [OF repeat(1)] show ?thesis by simp
  qed simp_all
  with record_usage_event_logs [OF assms] show ?thesis by (simp add: state_rises_def)
qed

section \<open>The cost shown for a call\<close>

text \<open>
  The Astrolift usage view sums the cost kept on a call's request row. A repeat writes no request
  row, so that cost stays what the first report priced, however much the counts are raised.
\<close>

definition call_cost :: "metric list \<Rightarrow> string \<Rightarrow> string \<Rightarrow> rat" where
  "call_cost ms tenant key =
     sum_list (map (\<lambda>m. case dget (um_meta m) ''total_estimated_cost'' PNone of PFloat q \<Rightarrow> q | _ \<Rightarrow> 0)
       (filter (\<lambda>m. same_call tenant key m \<and> um_type m = AiRequests) ms))"

lemma raised_report_keeps_first_cost:
  assumes "record_usage_event e ps ev s = (out, s')" "read_report ev = Inr r" "already_recorded (us_metrics s) r"
  shows "call_cost (us_metrics s') tenant key = call_cost (us_metrics s) tenant key"
  using assms(1)
proof (cases rule: record_usage_event_metrics)
  case (repeat r')
  have "filter (\<lambda>m. same_call tenant key m \<and> um_type m = AiRequests) (raise_recorded (us_metrics s) r') = []"
    using recorded_raise [of "us_metrics s" r'] by (auto simp: recorded_call_def filter_empty_conv)
  then show ?thesis by (simp add: call_cost_def repeat(3))
qed (use assms in auto)

section \<open>Instances\<close>

definition usage_env :: budget_env where
  "usage_env = \<lparr>b_catalog = [(''m'', \<lparr>pc_input = 2, pc_output = 10, pc_long = None, pc_schedule = []\<rparr>)],
     b_registry = None, b_today = ''2026-10-16'', b_month = 0, b_now = 5, b_json = (\<lambda>_. Inl OtherError),
     b_logs = [], b_pricing_version = ''v''\<rparr>"

definition usage_empty :: usage_state where
  "usage_empty = \<lparr>us_metrics = [], us_logs = [],
     us_budget = \<lparr>bs_accounts = [], bs_charges = [], bs_approvals = []\<rparr>\<rparr>"

definition usage_report :: "string \<Rightarrow> int \<Rightarrow> int \<Rightarrow> usage_event" where
  "usage_report i inp out = \<lparr>ue_id = i, ue_tenant = ''t'', ue_type = ''ai_request'',
     ue_payload = PDict [(''model'', PStr ''m''), (''request_id'', PStr ''q''), (''input_tokens'', PInt inp),
       (''output_tokens'', PInt out)],
     ue_user = ''u'', ue_endpoint = Some ''a'', ue_deployment = ''d'', ue_at = 1\<rparr>"

definition usage_jobs :: "usage_job list" where
  "usage_jobs = map (\<lambda>ev. (usage_env, [], ev))
     [usage_report ''1'' 0 0, usage_report ''2'' 900 100, usage_report ''3'' (- 5) 1, usage_report ''2'' 900 100]"

definition usage_after :: usage_state where
  "usage_after = (case meter_all usage_jobs usage_empty of Some s \<Rightarrow> s | None \<Rightarrow> usage_empty)"

lemma usage_after: "meter_all usage_jobs usage_empty = Some usage_after"
proof -
  have "meter_all usage_jobs usage_empty \<noteq> None" by code_simp
  then show ?thesis by (auto simp: usage_after_def)
qed

theorem metered_is_greatest_stated_witness:
  "metered (us_metrics usage_after) ''t'' ''q'' AiInput = 900 \<and> metered (us_metrics usage_after) ''t'' ''q'' AiRequests = 1"
proof -
  have "us_metrics usage_empty = []" by (simp add: usage_empty_def)
  note exact = metered_is_greatest_stated [OF usage_after this, of "''t''" "''q''" AiInput]
  have "greatest_stated (reports_of usage_jobs ''t'' ''q'') AiInput = 900" "reports_of usage_jobs ''t'' ''q'' \<noteq> []"
    by code_simp+
  with exact show ?thesis by simp
qed

text \<open>Two raised counts whose total is not their sum, and a call shown as free that used a thousand tokens.\<close>

lemma total_is_not_the_sum:
  "(let s = snd (record_usage_event usage_env [] (usage_report ''2'' 0 10)
              (snd (record_usage_event usage_env [] (usage_report ''1'' 10 0) usage_empty)))
    in metered (us_metrics s) ''t'' ''q'' AiInput = 10 \<and> metered (us_metrics s) ''t'' ''q'' AiOutput = 10
      \<and> metered (us_metrics s) ''t'' ''q'' AiTotal = 10)"
  by code_simp

lemma used_call_shown_free:
  "call_cost (us_metrics usage_after) ''t'' ''q'' = 0 \<and> metered (us_metrics usage_after) ''t'' ''q'' AiTotal = 1000"
  by code_simp

definition usage_charged :: usage_state where
  "usage_charged = \<lparr>us_metrics = [],
     us_logs = [\<lparr>ul_tenant = ''t'', ul_endpoint = ''a'', ul_request = ''q'', ul_input = Some 1000, ul_output = None,
       ul_total = None, ul_cost = None\<rparr>],
     us_budget = \<lparr>bs_accounts = [],
       bs_charges = [\<lparr>bc_id = ''c'', bc_tenant = ''t'', bc_endpoint = ''a'', bc_dims = [], bc_request = ''q'',
         bc_amount = 1, bc_accounts = [], bc_actual = Some (1 / 2), bc_reconciled = None, bc_source = [],
         bc_pricing_version = []\<rparr>],
       bs_approvals = []\<rparr>\<rparr>"

theorem no_report_lowers_spend_witness:
  "state_rises usage_charged (snd (record_usage_event usage_env [] (usage_report ''2'' 900 100) usage_charged))"
proof (rule no_report_lowers_spend)
  show "record_usage_event usage_env [] (usage_report ''2'' 900 100) usage_charged =
      (fst (record_usage_event usage_env [] (usage_report ''2'' 900 100) usage_charged),
       snd (record_usage_event usage_env [] (usage_report ''2'' 900 100) usage_charged))" by simp
  show "distinct (map bc_id (bs_charges (us_budget usage_charged)))" by code_simp
qed

end
