(* ===== verification/EventRules.thy ===== *)
theory EventRules
  imports EventPipeline UsageRules
begin

text \<open>
  What the event pipeline keeps: processed usage is metered, and once, through crashes, retries and
  reprocessing; an event is attempted at most five times before it is a dead letter; a batch that
  is delivered again stores nothing; and only a gateway's own credential makes usage a gateway's.
\<close>

section \<open>Metering of processed events\<close>

definition covers :: "metric list \<Rightarrow> usage_reading \<Rightarrow> bool" where
  "covers ms r \<longleftrightarrow> recorded_call ms (ue_tenant (rp_event r)) (rp_key r) \<and>
     (\<forall>t. stated (rp_tokens r) t \<le> metered ms (ue_tenant (rp_event r)) (rp_key r) t)"

definition metered_once :: "metric list \<Rightarrow> bool" where
  "metered_once ms \<longleftrightarrow> (\<forall>tenant key. metered ms tenant key AiRequests = (if recorded_call ms tenant key then 1 else 0)
     \<and> (\<not> recorded_call ms tenant key \<longrightarrow> (\<forall>t. metered ms tenant key t = 0)))"

lemma of_call_self [simp]: "of_call r (ue_tenant (rp_event r)) (rp_key r)"
  by (simp add: of_call_def)

text \<open>One report: what was covered stays covered, and a report that is answered is covered.\<close>

lemma report_metrics:
  assumes "record_usage_event e ps ev s = (out, s')" "metered_once (us_metrics s)"
  shows "metered_once (us_metrics s')"
    and "covers (us_metrics s) q \<Longrightarrow> covers (us_metrics s') q"
    and "out = Inr rows \<Longrightarrow> \<exists>r. read_report ev = Inr r \<and> covers (us_metrics s') r"
proof -
  consider "us_metrics s' = us_metrics s" "\<forall>rows. out \<noteq> Inr rows"
    | r where "read_report ev = Inr r" "\<not> already_recorded (us_metrics s) r"
        "us_metrics s' = us_metrics s @ record_ai_usage e r"
    | r where "read_report ev = Inr r" "already_recorded (us_metrics s) r"
        "us_metrics s' = us_metrics s @ raise_recorded (us_metrics s) r"
    using assms(1) by (cases rule: record_usage_event_metrics) auto
  then have "metered_once (us_metrics s') \<and> (covers (us_metrics s) q \<longrightarrow> covers (us_metrics s') q)
    \<and> (out = Inr rows \<longrightarrow> (\<exists>r. read_report ev = Inr r \<and> covers (us_metrics s') r))"
  proof cases
    case 1
    with assms(2) show ?thesis by simp
  next
    case (2 r)
    note ok = read_report_counts [OF 2(1), THEN conjunct1]
    from assms(2) 2(2) have zero: "metered (us_metrics s) tenant key t = 0" "\<not> recorded_call (us_metrics s) tenant key"
      if "of_call r tenant key" for tenant key t
      using that by (auto simp: metered_once_def already_recorded_iff of_call_def)
    have "metered_once (us_metrics s')"
      using assms(2) zero unfolding 2(3) metered_once_def
      by (auto simp: metered_record_ai_usage [OF ok] recorded_record_ai_usage stated_def [of _ AiRequests])
    moreover have "covers (us_metrics s') r"
      using zero by (simp add: covers_def 2(3) metered_record_ai_usage [OF ok] recorded_record_ai_usage)
    moreover have "covers (us_metrics s) q \<longrightarrow> covers (us_metrics s') q"
      using metered_nonneg_added(1) [OF ok] by (auto simp: covers_def 2(3) intro: add_increasing2)
    ultimately show ?thesis using 2(1) by blast
  next
    case (3 r)
    note ok = read_report_counts [OF 3(1), THEN conjunct1]
    from assms(2) 3(2) have req: "metered (us_metrics s) (ue_tenant (rp_event r)) (rp_key r) AiRequests = 1"
      by (simp add: metered_once_def already_recorded_iff)
    have "metered_once (us_metrics s')"
      using assms(2) 3(2) unfolding 3(3) metered_once_def
      by (auto simp: metered_raise_recorded recorded_raise already_recorded_iff of_call_def)
    moreover have "covers (us_metrics s') r"
      using 3(2) req by (auto simp: covers_def 3(3) metered_raise_recorded already_recorded_iff
          stated_def [of _ AiRequests])
    moreover have "covers (us_metrics s) q \<longrightarrow> covers (us_metrics s') q"
      using metered_nonneg_added(2) [OF ok] by (auto simp: covers_def 3(3) intro: add_increasing2)
    ultimately show ?thesis using 3(1) by blast
  qed
  then show "metered_once (us_metrics s')" "covers (us_metrics s) q \<Longrightarrow> covers (us_metrics s') q"
    "out = Inr rows \<Longrightarrow> \<exists>r. read_report ev = Inr r \<and> covers (us_metrics s') r" by blast+
qed

section \<open>Rows\<close>

definition is_usage :: "event_row \<Rightarrow> bool" where
  "is_usage e \<longleftrightarrow> ev_type e \<in> set usage_event_types"

definition row_ok :: "event_row \<Rightarrow> bool" where
  "row_ok e \<longleftrightarrow> ev_retries e \<le> max_retries \<and> (ev_status e \<in> {EvPending, EvProcessing} \<longrightarrow> ev_retries e < max_retries)"

text \<open>The usage a processed event reports, as it was read when it was processed, is in the rows.\<close>

definition row_metered :: "metric list \<Rightarrow> event_row \<Rightarrow> bool" where
  "row_metered ms e \<longleftrightarrow> (ev_status e = EvProcessed \<and> is_usage e \<longrightarrow>
     (\<exists>V r. read_report (usage_of (in_memory V e)) = Inr r \<and> covers ms r))"

definition pipeline_ok :: "pipeline \<Rightarrow> bool" where
  "pipeline_ok P \<longleftrightarrow> distinct (map ev_id (pl_events P)) \<and> metered_once (us_metrics (pl_usage P)) \<and>
     (\<forall>e \<in> set (pl_events P). row_ok e \<and> row_metered (us_metrics (pl_usage P)) e)"

definition grows :: "pipeline \<Rightarrow> pipeline \<Rightarrow> bool" where
  "grows P P' \<longleftrightarrow> (metered_once (us_metrics (pl_usage P)) \<longrightarrow> metered_once (us_metrics (pl_usage P')) \<and>
     (\<forall>r. covers (us_metrics (pl_usage P)) r \<longrightarrow> covers (us_metrics (pl_usage P')) r))"

lemma grows_refl [simp]: "grows P P" "grows P (P\<lparr>pl_events := rows\<rparr>)"
  by (simp_all add: grows_def)

lemma update_event_simps [simp]:
  "pl_usage (update_event i f P) = pl_usage P" "pl_usage (save_row m P) = pl_usage P"
  "pl_usage (save_failed m P) = pl_usage P"
  "pl_events (update_event i f P) = update_where (\<lambda>e. ev_id e = i) f (pl_events P)"
  by (simp_all add: update_event_def save_row_def save_failed_def)

lemma single_event:
  assumes "process_single_event V m P = (out, P')"
  shows "pl_events P' = pl_events P" "grows P P'"
    "metered_once (us_metrics (pl_usage P)) \<Longrightarrow> out = Inr u \<Longrightarrow> is_usage m \<Longrightarrow>
       \<exists>r. read_report (usage_of m) = Inr r \<and> covers (us_metrics (pl_usage P')) r"
proof -
  have other: "pl_events P' = pl_events P \<and> pl_usage P' = pl_usage P" if "\<not> is_usage m"
    using assms that by (auto simp: process_single_event_def is_usage_def process_heartbeat_def send_alert_def
        Let_def case_prod_beta split: option.splits if_splits pyval.splits)
  have usage: "\<exists>o'. record_usage_event (pe_budget V) (pe_policies V) (usage_of m) (pl_usage P) = (o', pl_usage P')
      \<and> out = map_sum id (\<lambda>_. ()) o' \<and> pl_events P' = pl_events P" if "is_usage m"
  proof -
    have "ev_type m \<noteq> ''heartbeat''" using that by (auto simp: is_usage_def usage_event_types_def)
    with assms that show ?thesis
      by (auto simp: process_single_event_def is_usage_def Let_def case_prod_beta intro!: prod_eqI)
  qed
  show "pl_events P' = pl_events P" using other usage by blast
  show "grows P P'"
    using other usage report_metrics(1,2) by (cases "is_usage m") (auto simp: grows_def)
  assume ms: "metered_once (us_metrics (pl_usage P))" and "out = Inr u" and "is_usage m"
  from usage [OF this(3)] obtain o' where
    "record_usage_event (pe_budget V) (pe_policies V) (usage_of m) (pl_usage P) = (o', pl_usage P')"
    "out = map_sum id (\<lambda>_. ()) o'" by blast
  moreover from this \<open>out = Inr u\<close> obtain rows where "o' = Inr rows" by (cases o') auto
  ultimately show "\<exists>r. read_report (usage_of m) = Inr r \<and> covers (us_metrics (pl_usage P')) r"
    using report_metrics(3) [OF _ ms] by blast
qed

section \<open>One turn of a batch\<close>

text \<open>What becomes of a pending row that is taken up: it is processed, or an attempt is used up.\<close>

definition attempted :: "event_row \<Rightarrow> event_row \<Rightarrow> bool" where
  "attempted e e' \<longleftrightarrow> ev_id e' = ev_id e \<and> ev_tenant e' = ev_tenant e \<and> ev_type e' = ev_type e \<and>
     ((\<exists>t. e' = e\<lparr>ev_status := EvProcessed, ev_processed_at := t\<rparr>) \<or>
      e' = e\<lparr>ev_status := EvProcessing\<rparr> \<or>
      (ev_status e' = EvFailed \<and> ev_retries e' \<in> {ev_retries e + 1, max_retries}))"

lemma update_where_row:
  assumes "distinct (map ev_id rows)" "e \<in> set rows"
  shows "update_where (\<lambda>x. ev_id x = ev_id e) f rows = update_where (\<lambda>x. ev_id x = ev_id e) (\<lambda>_. f e) rows"
  unfolding update_where_def
proof (rule map_cong [OF refl])
  fix x assume "x \<in> set rows"
  with assms have "ev_id x = ev_id e \<Longrightarrow> x = e" by (auto simp: distinct_map inj_on_def)
  then show "(if ev_id x = ev_id e then f x else x) = (if ev_id x = ev_id e then f e else x)" by auto
qed

lemma update_where_twice:
  assumes "\<And>x. ev_id x = i \<Longrightarrow> ev_id (f x) = i"
  shows "update_where (\<lambda>x. ev_id x = i) g (update_where (\<lambda>x. ev_id x = i) f rows)
    = update_where (\<lambda>x. ev_id x = i) (\<lambda>x. g (f x)) rows"
  using assms by (simp add: update_where_def)

lemma move_to_dlq_row: "move_to_dlq V m err = Some row \<Longrightarrow>
    ev_id row = ev_id m \<and> ev_tenant row = ev_tenant m \<and> ev_type row = ev_type m \<and> ev_status row = EvFailed
      \<and> ev_retries row = ev_retries m"
  by (auto simp: move_to_dlq_def Let_def split: pyval.splits)

text \<open>The outcomes of one turn, by what processing the event answered.\<close>

lemma failing_turn:
  assumes "process_single_event V (in_memory V e) (update_event (ev_id e) (\<lambda>x. x\<lparr>ev_status := EvProcessing\<rparr>) P)
      = (Inl x, P2)" "\<nexists>why. x = ValueError why"
  shows "process_event V e P =
    (let f = mark_failed (pe_error V x) (in_memory V e) in
     if ev_retries f < max_retries then (True, save_failed f P2)
     else case move_to_dlq V f (pe_error V x) of None \<Rightarrow> (True, save_failed f P2)
          | Some row \<Rightarrow> (False, save_row row (save_failed f P2)))"
  using assms by (cases x) (simp_all add: process_event_def Let_def split: option.split)

lemma in_memory_simps [simp]:
  "ev_id (in_memory V e) = ev_id e" "ev_tenant (in_memory V e) = ev_tenant e" "ev_type (in_memory V e) = ev_type e"
  "ev_retries (in_memory V e) = ev_retries e"
  by (simp_all add: in_memory_def)

lemma mark_failed_simps [simp]:
  "ev_id (mark_failed err e) = ev_id e" "ev_tenant (mark_failed err e) = ev_tenant e"
  "ev_type (mark_failed err e) = ev_type e" "ev_retries (mark_failed err e) = ev_retries e + 1"
  "ev_status (mark_failed err e) = EvFailed"
  by (simp_all add: mark_failed_def)

lemma process_event_cases:
  assumes "process_event V e P = (raised, P')" "distinct (map ev_id (pl_events P))" "e \<in> set (pl_events P)"
  obtains (turn) P2 e' out where
    "process_single_event V (in_memory V e) (update_event (ev_id e) (\<lambda>x. x\<lparr>ev_status := EvProcessing\<rparr>) P) = (out, P2)"
    "pl_usage P' = pl_usage P2"
    "pl_events P' = update_where (\<lambda>x. ev_id x = ev_id e) (\<lambda>_. e') (pl_events P)" "attempted e e'"
    "ev_status e' = EvProcessed \<Longrightarrow> out = Inr ()"
proof -
  let ?P1 = "update_event (ev_id e) (\<lambda>x. x\<lparr>ev_status := EvProcessing\<rparr>) P"
  let ?m = "in_memory V e"
  obtain out P2 where single: "process_single_event V ?m ?P1 = (out, P2)" by fastforce
  note rows = single_event(1) [OF single]
  note one = update_where_row [OF assms(2,3)] and twice = update_where_twice [of "ev_id e"]
  have fin: thesis if "pl_usage P' = pl_usage P2"
      "pl_events P' = update_where (\<lambda>x. ev_id x = ev_id e) f (pl_events P)" "attempted e (f e)"
      "ev_status (f e) = EvProcessed \<Longrightarrow> out = Inr ()" for f
    using that by (intro turn [OF single]) (auto simp: one [of f])
  show thesis
  proof (cases out)
    case (Inr u)
    with assms(1) single rows show thesis
      by (intro fin [of "\<lambda>x. x\<lparr>ev_status := EvProcessed, ev_processed_at := Some (pe_now V)\<rparr>"])
        (auto simp: process_event_def Let_def twice attempted_def)
  next
    case (Inl x)
    note x = this
    show thesis
    proof (cases "\<exists>why. x = ValueError why")
      case True
      then obtain why where why: "x = ValueError why" by blast
      show thesis
      proof (cases "move_to_dlq V (?m\<lparr>ev_retries := max_retries\<rparr>) (''Invalid usage: '' @ why)")
        case None
        with assms(1) single rows x why show thesis
          by (intro fin [of "\<lambda>x. x\<lparr>ev_status := EvProcessing\<rparr>"])
            (auto simp: process_event_def Let_def attempted_def)
      next
        case (Some row)
        from move_to_dlq_row [OF Some] have "attempted e row" "ev_status row = EvFailed" "ev_id row = ev_id e"
          by (simp_all add: attempted_def dead_lettered_def in_memory_def)
        with assms(1) single rows x why Some show thesis
          by (intro fin [of "\<lambda>_. row"]) (auto simp: process_event_def Let_def save_row_def twice)
      qed
    next
      case False
      let ?f = "mark_failed (pe_error V x) ?m"
      note turned = failing_turn [OF single [unfolded x] False]
      let ?g = "\<lambda>x. x\<lparr>ev_status := EvFailed, ev_error := ev_error ?f, ev_retries := ev_retries e + 1\<rparr>"
      have kept: thesis if "P' = save_failed ?f P2"
        using rows that x
        by (intro fin [of ?g]) (auto simp: save_failed_def twice attempted_def)
      show thesis
      proof (cases "ev_retries ?f < max_retries \<or> move_to_dlq V ?f (pe_error V x) = None")
        case True
        with assms(1) turned kept show thesis by (auto simp: Let_def split: if_splits)
      next
        case False
        then obtain row where row: "move_to_dlq V ?f (pe_error V x) = Some row" "max_retries \<le> ev_retries ?f" by auto
        from move_to_dlq_row [OF row(1)] row(2) have r: "attempted e row" "ev_status row = EvFailed" "ev_id row = ev_id e"
          by (simp_all add: attempted_def dead_lettered_def)
        have "P' = save_row row (save_failed ?f P2)" using assms(1) turned row by (simp add: Let_def)
        with rows r show thesis
          by (intro fin [of "\<lambda>_. row"]) (auto simp: save_row_def save_failed_def twice)
      qed
    qed
  qed
qed

section \<open>The invariant, operation by operation\<close>

lemma row_metered_grows:
  assumes "grows P P'" "metered_once (us_metrics (pl_usage P))" "row_metered (us_metrics (pl_usage P)) e"
  shows "row_metered (us_metrics (pl_usage P')) e"
  using assms unfolding grows_def row_metered_def by blast

lemma distinct_update_where: "(\<And>x. ev_id (f x) = ev_id x) \<Longrightarrow> distinct (map ev_id (update_where p f rows))
    = distinct (map ev_id rows)"
  by (simp add: map_update_where)

lemma pipeline_ok_rows:
  assumes "pipeline_ok P" "grows P P'" "distinct (map ev_id (pl_events P'))"
    and "\<And>x. x \<in> set (pl_events P') \<Longrightarrow> x \<in> set (pl_events P) \<or> (row_ok x \<and> row_metered (us_metrics (pl_usage P')) x)"
  shows "pipeline_ok P'"
proof -
  have m: "metered_once (us_metrics (pl_usage P))" "metered_once (us_metrics (pl_usage P'))"
    using assms(1,2) by (auto simp: pipeline_ok_def grows_def)
  have "row_ok x \<and> row_metered (us_metrics (pl_usage P')) x" if "x \<in> set (pl_events P')" for x
    using assms(4) [OF that] assms(1) row_metered_grows [OF assms(2) m(1)] by (auto simp: pipeline_ok_def)
  with m(2) assms(3) show ?thesis by (simp add: pipeline_ok_def)
qed

lemma replaced_row:
  assumes "distinct (map ev_id rows)" "ev_id e' = i"
  shows "distinct (map ev_id (update_where (\<lambda>x. ev_id x = i) (\<lambda>_. e') rows))"
    "x \<in> set (update_where (\<lambda>x. ev_id x = i) (\<lambda>_. e') rows) \<Longrightarrow> x \<in> set rows \<or> x = e'"
    "x \<in> set rows \<Longrightarrow> ev_id x \<noteq> i \<Longrightarrow> x \<in> set (update_where (\<lambda>x. ev_id x = i) (\<lambda>_. e') rows)"
proof -
  have "map ev_id (update_where (\<lambda>x. ev_id x = i) (\<lambda>_. e') rows) = map ev_id rows"
    using assms(2) by (auto simp: update_where_def)
  with assms(1) show "distinct (map ev_id (update_where (\<lambda>x. ev_id x = i) (\<lambda>_. e') rows))" by simp
qed (auto simp: in_update_where)

definition takes_up :: "pipeline \<Rightarrow> event_row \<Rightarrow> bool" where
  "takes_up P e \<longleftrightarrow> e \<in> set (pl_events P) \<and> ev_status e = EvPending"

lemma attempted_row_ok: "row_ok e \<Longrightarrow> ev_status e = EvPending \<Longrightarrow> attempted e e' \<Longrightarrow> row_ok e'"
  by (auto simp: row_ok_def attempted_def)

lemma usage_of_mark [simp]: "usage_of (in_memory V (e\<lparr>ev_status := st, ev_processed_at := t\<rparr>)) = usage_of (in_memory V e)"
  by (simp add: usage_of_def in_memory_def)

lemma pipeline_ok_replace:
  assumes "pipeline_ok P" "grows P P'" "ev_id e' = i" "row_ok e'" "row_metered (us_metrics (pl_usage P')) e'"
    "pl_events P' = update_where (\<lambda>x. ev_id x = i) (\<lambda>_. e') (pl_events P)"
  shows "pipeline_ok P'" "x \<in> set (pl_events P) \<Longrightarrow> ev_id x \<noteq> i \<Longrightarrow> x \<in> set (pl_events P')"
proof -
  have d: "distinct (map ev_id (pl_events P))" using assms(1) by (simp add: pipeline_ok_def)
  note rows = replaced_row [OF d assms(3)]
  show "pipeline_ok P'"
  proof (rule pipeline_ok_rows [OF assms(1,2)])
    show "distinct (map ev_id (pl_events P'))" unfolding assms(6) by (rule rows(1))
    fix x assume "x \<in> set (pl_events P')"
    with rows(2) assms(6) have "x \<in> set (pl_events P) \<or> x = e'" by simp
    with assms(4,5) show "x \<in> set (pl_events P) \<or> (row_ok x \<and> row_metered (us_metrics (pl_usage P')) x)" by blast
  qed
  show "x \<in> set (pl_events P) \<Longrightarrow> ev_id x \<noteq> i \<Longrightarrow> x \<in> set (pl_events P')"
    using rows(3) unfolding assms(6) by blast
qed

lemma unprocessed_metered: "ev_status e \<noteq> EvProcessed \<Longrightarrow> row_metered ms e"
  by (simp add: row_metered_def)

text \<open>One turn keeps the invariant and leaves the other rows alone.\<close>

lemma turn_metered:
  assumes "process_single_event V (in_memory V e) P1 = (out, P2)" "metered_once (us_metrics (pl_usage P1))"
    "attempted e e'" "ev_status e \<noteq> EvProcessed" "ev_status e' = EvProcessed \<Longrightarrow> out = Inr ()"
  shows "row_metered (us_metrics (pl_usage P2)) e'"
proof (cases "ev_status e' = EvProcessed \<and> is_usage e'")
  case True
  have "e' \<noteq> e\<lparr>ev_status := EvProcessing\<rparr>"
  proof
    assume "e' = e\<lparr>ev_status := EvProcessing\<rparr>"
    then have "ev_status e' = EvProcessing" by simp
    with True show False by simp
  qed
  with True assms(3) obtain t where e': "e' = e\<lparr>ev_status := EvProcessed, ev_processed_at := t\<rparr>"
    unfolding attempted_def by (metis event_status.distinct(11))
  from True e' have "is_usage (in_memory V e)" by (simp add: is_usage_def)
  from single_event(3) [OF assms(1,2) assms(5) this] True obtain r where
    "read_report (usage_of (in_memory V e)) = Inr r" "covers (us_metrics (pl_usage P2)) r" by blast
  then show ?thesis unfolding row_metered_def e' usage_of_mark by blast
next
  case False
  then show ?thesis unfolding row_metered_def by blast
qed

lemma turn_ok:
  assumes "process_event V e P = (raised, P')" "pipeline_ok P" "takes_up P e"
  shows "pipeline_ok P' \<and> grows P P' \<and>
    (\<forall>x. x \<in> set (pl_events P) \<and> ev_id x \<noteq> ev_id e \<longrightarrow> x \<in> set (pl_events P'))"
proof -
  have d: "distinct (map ev_id (pl_events P))" and e: "e \<in> set (pl_events P)" "ev_status e = EvPending"
    and m: "metered_once (us_metrics (pl_usage P))" and ok: "row_ok e"
    using assms(2,3) by (auto simp: pipeline_ok_def takes_up_def)
  from assms(1) d e(1) show ?thesis
  proof (cases rule: process_event_cases)
    case (turn P2 e' out)
    have g: "grows P P'"
      using single_event(2) [OF turn(1)] turn(2) by (simp add: grows_def)
    have id: "ev_id e' = ev_id e" using turn(4) by (simp add: attempted_def)
    have "row_metered (us_metrics (pl_usage P')) e'"
      unfolding turn(2) by (rule turn_metered [OF turn(1) _ turn(4) _ turn(5)]) (simp_all add: m e(2))
    from pipeline_ok_replace [OF assms(2) g id attempted_row_ok [OF ok e(2) turn(4)] this turn(3)] g
    show ?thesis by blast
  qed
qed

lemma events_ok:
  assumes "process_events V es P = (raised, P')" "pipeline_ok P" "\<forall>e \<in> set es. takes_up P e" "distinct (map ev_id es)"
  shows "pipeline_ok P' \<and> grows P P' \<and>
    (\<forall>x. x \<in> set (pl_events P) \<and> ev_id x \<notin> ev_id ` set es \<longrightarrow> x \<in> set (pl_events P'))"
  using assms
proof (induction es arbitrary: P)
  case Nil
  then show ?case by simp
next
  case (Cons e es)
  obtain b P1 where one: "process_event V e P = (b, P1)" by fastforce
  from turn_ok [OF one Cons.prems(2)] Cons.prems(3) have t: "pipeline_ok P1" "grows P P1"
    "\<And>x. x \<in> set (pl_events P) \<Longrightarrow> ev_id x \<noteq> ev_id e \<Longrightarrow> x \<in> set (pl_events P1)" by auto
  show ?case
  proof (cases b)
    case True
    with Cons.prems(1) one t show ?thesis by auto
  next
    case False
    with Cons.prems(1) one have "process_events V es P1 = (raised, P')" by simp
    moreover have "\<forall>x \<in> set es. takes_up P1 x"
    proof
      fix x assume "x \<in> set es"
      with Cons.prems(3,4) have "takes_up P x" "ev_id x \<noteq> ev_id e" by (auto simp: rev_image_eqI)
      with t(3) show "takes_up P1 x" unfolding takes_up_def by blast
    qed
    ultimately have r: "pipeline_ok P'" "grows P1 P'"
      "\<And>x. x \<in> set (pl_events P1) \<Longrightarrow> ev_id x \<notin> ev_id ` set es \<Longrightarrow> x \<in> set (pl_events P')"
      using Cons.IH t(1) Cons.prems(4) by simp_all
    from r(2) t(1,2) Cons.prems(2) have "grows P P'" by (auto simp: grows_def)
    with r(1,3) t(3) show ?thesis by simp
  qed
qed

lemma distinct_id: "pipeline_ok P \<Longrightarrow> x \<in> set (pl_events P) \<Longrightarrow> y \<in> set (pl_events P) \<Longrightarrow> ev_id x = ev_id y \<Longrightarrow> x = y"
  by (auto simp: pipeline_ok_def distinct_map inj_on_def)

lemma batch_ok:
  assumes "process_event_batch V ids P = (raised, P')" "pipeline_ok P"
  shows "pipeline_ok P' \<and> grows P P' \<and>
    (\<forall>x. x \<in> set (pl_events P) \<and> ev_status x \<noteq> EvPending \<longrightarrow> x \<in> set (pl_events P'))"
proof -
  let ?es = "sort_key (\<lambda>e. - ev_at e) (filter (\<lambda>e. ev_id e \<in> set ids \<and> ev_status e = EvPending) (pl_events P))"
  have "distinct (map ev_id (pl_events P))" using assms(2) by (simp add: pipeline_ok_def)
  then have d: "distinct (map ev_id ?es)" by (auto simp: distinct_map intro: inj_on_subset)
  have "\<forall>e \<in> set ?es. takes_up P e" by (simp add: takes_up_def)
  from events_ok [OF assms(1) [unfolded process_event_batch_def] assms(2) this d]
  have r: "pipeline_ok P' \<and> grows P P' \<and>
    (\<forall>x. x \<in> set (pl_events P) \<and> ev_id x \<notin> ev_id ` set ?es \<longrightarrow> x \<in> set (pl_events P'))" .
  have "ev_id x \<notin> ev_id ` set ?es" if "x \<in> set (pl_events P)" "ev_status x \<noteq> EvPending" for x
  proof
    assume "ev_id x \<in> ev_id ` set ?es"
    then obtain y where "y \<in> set (pl_events P)" "ev_status y = EvPending" "ev_id x = ev_id y" by auto
    with distinct_id [OF assms(2) that(1)] that(2) show False by metis
  qed
  with r show ?thesis by blast
qed

text \<open>A worker that is lost after it marked an event, before or after the work itself.\<close>

definition crash :: "pipe_env \<Rightarrow> bool \<Rightarrow> event_row \<Rightarrow> pipeline \<Rightarrow> pipeline" where
  "crash V worked e P =
     (let P1 = update_event (ev_id e) (\<lambda>x. x\<lparr>ev_status := EvProcessing\<rparr>) P
      in if worked then snd (process_single_event V (in_memory V e) P1) else P1)"

lemma crash_ok:
  assumes "takes_up P e" "pipeline_ok P"
  shows "pipeline_ok (crash V worked e P) \<and> grows P (crash V worked e P)"
proof -
  let ?P1 = "update_event (ev_id e) (\<lambda>x. x\<lparr>ev_status := EvProcessing\<rparr>) P"
  have d: "distinct (map ev_id (pl_events P))" and e: "e \<in> set (pl_events P)" "ev_status e = EvPending" "row_ok e"
    using assms by (auto simp: pipeline_ok_def takes_up_def)
  note row = update_where_row [OF d e(1), of "\<lambda>x. x\<lparr>ev_status := EvProcessing\<rparr>"]
  obtain out P2 where single: "process_single_event V (in_memory V e) ?P1 = (out, P2)" by fastforce
  have same: "pl_events (crash V worked e P) = pl_events ?P1" and g: "grows P (crash V worked e P)"
    using single_event(1,2) [OF single] single by (auto simp: crash_def Let_def grows_def)
  have "pipeline_ok (crash V worked e P)"
    by (rule pipeline_ok_replace(1) [OF assms(2) g, of "e\<lparr>ev_status := EvProcessing\<rparr>" "ev_id e"])
      (use e(2,3) same row in \<open>auto simp: row_ok_def row_metered_def\<close>)
  with g show ?thesis by blast
qed

lemma grows_usage: "pl_usage P' = pl_usage P \<Longrightarrow> grows P P'"
  by (simp add: grows_def)

lemma failed_row_ok:
  assumes "pipeline_ok P" "e \<in> set (pl_events P)" "ev_status e = EvProcessing" "ev_id m = ev_id e"
    "ev_status m = EvFailed" "ev_retries m = ev_retries e + 1"
  shows "pipeline_ok (save_failed m P)"
    "x \<in> set (pl_events P) \<Longrightarrow> ev_id x \<noteq> ev_id e \<Longrightarrow> x \<in> set (pl_events (save_failed m P))"
proof -
  let ?f = "\<lambda>x. x\<lparr>ev_status := ev_status m, ev_error := ev_error m, ev_retries := ev_retries m\<rparr>"
  have d: "distinct (map ev_id (pl_events P))" and ok: "row_ok e" using assms(1,2) by (auto simp: pipeline_ok_def)
  have ev: "pl_events (save_failed m P) = update_where (\<lambda>x. ev_id x = ev_id e) (\<lambda>_. ?f e) (pl_events P)"
    using update_where_row [OF d assms(2), of ?f] assms(4) by (simp add: save_failed_def)
  have "row_ok (?f e)" using ok assms(3,5,6) by (auto simp: row_ok_def)
  moreover have "row_metered (us_metrics (pl_usage (save_failed m P))) (?f e)"
    by (rule unprocessed_metered) (simp add: assms(5))
  ultimately show "pipeline_ok (save_failed m P)"
    "x \<in> set (pl_events P) \<Longrightarrow> ev_id x \<noteq> ev_id e \<Longrightarrow> x \<in> set (pl_events (save_failed m P))"
    using pipeline_ok_replace [OF assms(1) grows_usage _ _ _ ev] by simp_all
qed

lemma save_row_ok:
  assumes "pipeline_ok P" "row_ok m" "ev_status m \<noteq> EvProcessed"
  shows "pipeline_ok (save_row m P)"
    "x \<in> set (pl_events P) \<Longrightarrow> ev_id x \<noteq> ev_id m \<Longrightarrow> x \<in> set (pl_events (save_row m P))"
  using pipeline_ok_replace [OF assms(1) grows_usage _ assms(2) unprocessed_metered [OF assms(3)], of "save_row m P" "ev_id m"]
  by (simp_all add: save_row_def)

lemma stranded_ok:
  assumes "fail_stranded V es P = (b, P')" "pipeline_ok P"
    "\<forall>e \<in> set es. e \<in> set (pl_events P) \<and> ev_status e = EvProcessing" "distinct (map ev_id es)"
  shows "pipeline_ok P' \<and> pl_usage P' = pl_usage P \<and>
    (\<forall>x. x \<in> set (pl_events P) \<and> ev_id x \<notin> ev_id ` set es \<longrightarrow> x \<in> set (pl_events P'))"
  using assms
proof (induction es arbitrary: P)
  case Nil
  then show ?case by simp
next
  case (Cons e es)
  define m where "m = (mark_failed ''Stranded in processing: the worker was lost'' e)
    \<lparr>ev_payload := pipe_capture V (ev_tenant e) (ev_payload e)\<rparr>"
  have m: "ev_id m = ev_id e" "ev_status m = EvFailed" "ev_retries m = ev_retries e + 1" by (simp_all add: m_def mark_failed_def)
  have e: "e \<in> set (pl_events P)" "ev_status e = EvProcessing" using Cons.prems(3) by simp_all
  let ?P1 = "save_failed m P"
  note one = failed_row_ok [OF Cons.prems(2) e m]
  have rest: "\<forall>x \<in> set es. x \<in> set (pl_events P) \<and> ev_id x \<noteq> ev_id e \<and> ev_status x = EvProcessing"
    using Cons.prems(3,4) by (auto simp: rev_image_eqI)
  have step: "fail_stranded V (e # es) P =
      (if ev_retries m < max_retries then fail_stranded V es ?P1
       else case move_to_dlq V m ''Stranded in processing after max retries'' of
              None \<Rightarrow> (True, ?P1) | Some row \<Rightarrow> fail_stranded V es (save_row row ?P1))"
    by (simp add: m_def Let_def mark_failed_def split: option.split)
  show ?case
  proof (cases "ev_retries m < max_retries")
    case True
    with Cons.prems(1) step have "fail_stranded V es ?P1 = (b, P')" by simp
    from Cons.IH [OF this one(1)] rest one(2) Cons.prems(4) show ?thesis by simp
  next
    case False
    show ?thesis
    proof (cases "move_to_dlq V m ''Stranded in processing after max retries''")
      case None
      with False Cons.prems(1) step have "P' = ?P1" by simp
      with one show ?thesis by simp
    next
      case (Some row)
      note row = move_to_dlq_row [OF Some]
      have "row_ok e" using Cons.prems(2) e(1) by (simp add: pipeline_ok_def)
      with row m e(2) have "row_ok row" by (simp add: row_ok_def)
      note two = save_row_ok [OF one(1) this]
      from Some False Cons.prems(1) step have "fail_stranded V es (save_row row ?P1) = (b, P')" by simp
      from Cons.IH [OF this two(1)] rest one(2) two(2) row m Cons.prems(4) show ?thesis by simp
    qed
  qed
qed

lemma distinct_filter_ids:
  assumes "distinct (map ev_id rows)"
  shows "distinct (map ev_id (take n (sort_key f (filter p rows))))"
proof -
  have "distinct (map ev_id (sort_key f (filter p rows)))"
    using assms by (auto simp: distinct_map intro: inj_on_subset)
  then show ?thesis unfolding take_map [symmetric] by (rule distinct_take)
qed

lemma sweep_ok:
  assumes "retry_failed_events V up n P = (out, tasks, P')" "pipeline_ok P"
  shows "pipeline_ok P' \<and> pl_usage P' = pl_usage P \<and>
    (\<forall>x. x \<in> set (pl_events P) \<and> dead_lettered x \<longrightarrow> x \<in> set (pl_events P'))"
proof -
  define es where "es = take n (sort_key ev_received (filter (\<lambda>e. ev_status e = EvProcessing
      \<and> ev_received e < pe_now V - stale_processing_after) (pl_events P)))"
  obtain b P1 where first: "fail_stranded V es P = (b, P1)" by fastforce
  have proc: "\<forall>e \<in> set es. e \<in> set (pl_events P) \<and> ev_status e = EvProcessing"
    unfolding es_def by (auto dest!: in_set_takeD)
  moreover have "distinct (map ev_id es)"
    unfolding es_def using assms(2) by (intro distinct_filter_ids) (simp add: pipeline_ok_def)
  ultimately have one: "pipeline_ok P1" "pl_usage P1 = pl_usage P"
    "\<forall>x. x \<in> set (pl_events P) \<and> ev_id x \<notin> ev_id ` set es \<longrightarrow> x \<in> set (pl_events P1)"
    using stranded_ok [OF first assms(2)] by blast+
  have dead: "x \<in> set (pl_events P1)" if "x \<in> set (pl_events P)" "dead_lettered x" for x
  proof -
    have "x \<noteq> y" if "y \<in> set es" for y using that proc \<open>dead_lettered x\<close> by (auto simp: dead_lettered_def)
    then have "ev_id x \<notin> ev_id ` set es" using proc distinct_id [OF assms(2) that(1)] by blast
    with one(3) that(1) show ?thesis by blast
  qed
  show ?thesis
  proof (cases b)
    case True
    with assms(1) first one dead show ?thesis by (simp add: retry_failed_events_def es_def)
  next
    case False
    define due where "due = take n (sort_key ev_received (filter (\<lambda>e. (ev_status e = EvFailed \<and> ev_retries e < max_retries) \<or>
        (ev_status e = EvPending \<and> ev_received e < pe_now V - stale_pending_after)) (pl_events P1)))"
    define P2 where "P2 = P1\<lparr>pl_events := update_where (\<lambda>e. ev_id e \<in> ev_id ` set due)
        (\<lambda>e. e\<lparr>ev_status := EvPending\<rparr>) (pl_events P1)\<rparr>"
    have d: "x \<in> set (pl_events P1) \<and> ev_status x \<noteq> EvProcessed \<and> ev_retries x < max_retries" if "x \<in> set due" for x
      using that one(1) unfolding due_def by (auto simp: pipeline_ok_def row_ok_def dest!: in_set_takeD)
    have "pipeline_ok P2"
    proof (rule pipeline_ok_rows [OF one(1)])
      show "grows P1 P2" by (rule grows_usage) (simp add: P2_def)
      show "distinct (map ev_id (pl_events P2))"
        using one(1) by (simp add: P2_def distinct_update_where pipeline_ok_def)
      fix x assume "x \<in> set (pl_events P2)"
      then obtain y where y: "y \<in> set (pl_events P1)"
        "x = (if ev_id y \<in> ev_id ` set due then y\<lparr>ev_status := EvPending\<rparr> else y)" by (auto simp: P2_def in_update_where)
      moreover have "ev_retries y < max_retries" if "ev_id y \<in> ev_id ` set due"
        using that d distinct_id [OF one(1) y(1)] by blast
      ultimately show "x \<in> set (pl_events P1) \<or> (row_ok x \<and> row_metered (us_metrics (pl_usage P2)) x)"
        by (cases "ev_id y \<in> ev_id ` set due") (simp_all add: row_ok_def row_metered_def less_imp_le)
    qed
    moreover have "P' = P2"
      using assms(1) first False by (auto simp: retry_failed_events_def es_def [symmetric] due_def P2_def Let_def split: if_splits)
    moreover have "x \<in> set (pl_events P2)" if "x \<in> set (pl_events P)" "dead_lettered x" for x
    proof -
      have "x \<noteq> y" if "y \<in> set due" for y using d [OF that] \<open>dead_lettered x\<close> by (auto simp: dead_lettered_def)
      then have "ev_id x \<notin> ev_id ` set due" using d distinct_id [OF one(1) dead [OF that]] by blast
      with dead [OF that] show ?thesis by (auto simp: P2_def in_update_where intro!: bexI [of _ x])
    qed
    ultimately show ?thesis using one(2) by (simp add: P2_def)
  qed
qed

lemma reprocess_row: "reprocess V e = Some row \<Longrightarrow> ev_id row = ev_id e \<and> ev_status row = EvPending \<and> ev_retries row = 0"
  by (auto simp: reprocess_def Let_def split: option.splits bool.splits pyval.splits)

lemma reprocess_all_ok:
  assumes "reprocess_all V es P = (b, P')" "pipeline_ok P"
  shows "pipeline_ok P' \<and> pl_usage P' = pl_usage P"
  using assms
proof (induction es arbitrary: P)
  case (Cons e es)
  show ?case
  proof (cases "reprocess V e")
    case (Some row)
    note r = reprocess_row [OF Some]
    have "row_ok row" using r by (simp add: row_ok_def max_retries_def)
    from save_row_ok(1) [OF Cons.prems(2) this] r have "pipeline_ok (save_row row P)" by simp
    with Cons.IH [of "save_row row P"] Cons.prems(1) Some show ?thesis by simp
  qed (use Cons.prems in simp)
qed simp

section \<open>Ingestion\<close>

definition saved_claim :: "pipe_env \<Rightarrow> event_row \<Rightarrow> event_row" where
  "saved_claim V e = e\<lparr>ev_payload := pipe_capture V (ev_tenant e) (ev_payload e)\<rparr>"

lemma saved_claim_id [simp]: "ev_id (saved_claim V e) = ev_id e"
  by (simp add: saved_claim_def)

lemma claim_cons:
  assumes "claim_events V (e # es) rows = (rows', created, d, c)"
  obtains (new) cr where "List.find (same_producer_event e) rows = None"
      "claim_events V es (rows @ [saved_claim V e]) = (rows', cr, d, c)" "created = saved_claim V e # cr"
  | (dup) old d' where "List.find (same_producer_event e) rows = Some old" "\<not> event_changed old e"
      "claim_events V es rows = (rows', created, d', c)" "d = d' + 1"
  | (conflict) old c' where "List.find (same_producer_event e) rows = Some old" "event_changed old e"
      "claim_events V es rows = (rows', created, d, c')" "c = ev_producer e # c'"
  using assms
  by (auto simp: Let_def saved_claim_def split: option.splits if_splits prod.splits)

lemma claimed_rows:
  assumes "claim_events V es rows = (rows', created, d, c)"
  shows "rows' = rows @ created \<and> set (map ev_id created) \<subseteq> set (map ev_id es) \<and>
    (distinct (map ev_id es) \<longrightarrow> distinct (map ev_id created)) \<and> set created \<subseteq> saved_claim V ` set es"
  using assms
proof (induction es arbitrary: rows created d c)
  case Nil
  then show ?case by simp
next
  case (Cons e es)
  from Cons.prems show ?case
  proof (cases rule: claim_cons)
    case (new cr)
    from Cons.IH [OF new(2)] new(3) show ?thesis by auto
  next
    case (dup old d')
    from Cons.IH [OF dup(3)] show ?thesis by auto
  next
    case (conflict old c')
    from Cons.IH [OF conflict(3)] show ?thesis by auto
  qed
qed

lemma made_row [simp]:
  "ev_id (make_event V a identity source cluster batch i ic) = i"
  "ev_status (make_event V a identity source cluster batch i ic) = EvPending"
  "ev_retries (make_event V a identity source cluster batch i ic) = 0"
  "ev_tenant (make_event V a identity source cluster batch i ic) = ag_tenant a"
  "ev_endpoint (make_event V a identity source cluster batch i ic) = Some (ag_id a)"
  by (simp_all add: make_event_def Let_def)

definition fresh_ids :: "(nat \<Rightarrow> string) \<Rightarrow> pipeline \<Rightarrow> bool" where
  "fresh_ids fresh P \<longleftrightarrow> inj fresh \<and> range fresh \<inter> ev_id ` set (pl_events P) = {}"

definition made_events ::
  "pipe_env \<Rightarrow> (nat \<Rightarrow> string) \<Rightarrow> string \<Rightarrow> agent_row \<Rightarrow> incoming list \<Rightarrow> string option \<Rightarrow> string \<Rightarrow> string option \<Rightarrow>
   event_row list" where
  "made_events V fresh batch a ics identity source cluster =
     map (\<lambda>(n, ic). make_event V a identity source cluster batch (fresh n) ic) (enumerate 0 ics)"

lemma made_ids: "map ev_id (made_events V fresh batch a ics identity source cluster) = map fresh [0..<length ics]"
proof -
  have "map ev_id (made_events V fresh batch a ics identity source cluster) = map fresh (map fst (enumerate 0 ics))"
    unfolding made_events_def map_map by (rule map_cong) (auto simp: case_prod_beta)
  then show ?thesis by simp
qed

text \<open>What an ingest leaves: the rows there were, then new ones, each a made event, saved or as it is.\<close>

lemma ingest_rows:
  assumes "ingest V fresh batch a ics identity source cluster P = (resp, tasks, P')"
  obtains created where "pl_events P' = pl_events P @ created" "pl_usage P' = pl_usage P"
    "set created \<subseteq> set (made_events V fresh batch a ics identity source cluster) \<union>
       saved_claim V ` set (made_events V fresh batch a ics identity source cluster)"
    "inj fresh \<Longrightarrow> distinct (map ev_id created)" "ev_id ` set created \<subseteq> range fresh"
proof -
  let ?made = "made_events V fresh batch a ics identity source cluster"
  let ?legacy = "filter (\<lambda>e. ev_producer e = []) ?made" and ?ids = "filter (\<lambda>e. ev_producer e \<noteq> []) ?made"
  obtain rows cr d c where cl: "claim_events V ?ids (pl_events P @ ?legacy) = (rows, cr, d, c)"
    by (metis prod_cases4)
  note cr = claimed_rows [OF cl]
  have P': "P' = P\<lparr>pl_events := rows\<rparr>"
    using assms cl by (simp add: ingest_def made_events_def [symmetric] Let_def split: if_splits)
  have "set (map ev_id ?made) \<subseteq> range fresh" unfolding made_ids by auto
  then have ids: "ev_id ` set ?made \<subseteq> range fresh" by simp
  have sub: "ev_id ` set cr \<subseteq> ev_id ` set ?ids" using cr unfolding set_map by blast
  show thesis
  proof (rule that [of "?legacy @ cr"])
    show "pl_events P' = pl_events P @ ?legacy @ cr" "pl_usage P' = pl_usage P" using P' cr by simp_all
    show "set (?legacy @ cr) \<subseteq> set ?made \<union> saved_claim V ` set ?made" using cr by auto
    show "ev_id ` set (?legacy @ cr) \<subseteq> range fresh"
      unfolding set_append image_Un
      by (intro Un_least order.trans [OF sub] order.trans [OF image_mono [OF filter_is_subset] ids])
    assume "inj fresh"
    then have d: "distinct (map ev_id ?made)" unfolding made_ids by (simp add: distinct_map inj_on_def inj_def)
    then have each: "distinct (map ev_id ?legacy)" "distinct (map ev_id ?ids)"
      by (auto simp: distinct_map intro: inj_on_subset)
    have "ev_id ` set ?legacy \<inter> ev_id ` set ?ids = {}"
      using d by (auto simp: distinct_map inj_on_def)
    with sub have "ev_id ` set ?legacy \<inter> ev_id ` set cr = {}" by blast
    moreover have "distinct (map ev_id cr)" using cr each(2) by (elim conjE mp)
    ultimately show "distinct (map ev_id (?legacy @ cr))"
      using each(1) unfolding map_append distinct_append set_map by (intro conjI)
  qed
qed

lemma ingest_ok:
  assumes "ingest V fresh batch a ics identity source cluster P = (resp, tasks, P')" "pipeline_ok P" "fresh_ids fresh P"
  shows "pipeline_ok P' \<and> pl_usage P' = pl_usage P"
  using assms(1)
proof (cases rule: ingest_rows)
  case (1 created)
  have new: "row_ok x \<and> row_metered ms x" if "x \<in> set created" for x ms
    using that 1(3) by (auto simp: row_ok_def row_metered_def made_events_def max_retries_def saved_claim_def)
  have "pipeline_ok P'"
  proof (rule pipeline_ok_rows [OF assms(2) grows_usage [OF 1(2)]])
    show "distinct (map ev_id (pl_events P'))"
      using assms(2,3) 1 by (auto simp: pipeline_ok_def fresh_ids_def)
  qed (use 1(1) new in auto)
  with 1(2) show ?thesis by blast
qed

section \<open>Runs of the pipeline\<close>

text \<open>
  Requests, batches of any ids (tasks may be started twice or late), lost workers, sweeps and the
  reprocessing of dead letters, each at its own time and under the settings of that time.
\<close>

inductive pipe_step :: "pipeline \<Rightarrow> pipeline \<Rightarrow> bool" where
  post: "post_events V fresh batch K db presented a agent_id ics identity P = (resp, tasks, P') \<Longrightarrow> fresh_ids fresh P
    \<Longrightarrow> pipe_step P P'"
| batch: "process_event_batch V ids P = (raised, P') \<Longrightarrow> pipe_step P P'"
| crash: "takes_up P e \<Longrightarrow> pipe_step P (crash V worked e P)"
| sweep: "retry_failed_events V up n P = (out, tasks, P') \<Longrightarrow> pipe_step P P'"
| dead_letters: "process_dead_letter_queue V tenant P = (raised, P') \<Longrightarrow> pipe_step P P'"

definition pipe_start :: "pipeline \<Rightarrow> bool" where
  "pipe_start P \<longleftrightarrow> pl_events P = [] \<and> us_metrics (pl_usage P) = []"

definition pipe_reachable :: "pipeline \<Rightarrow> bool" where
  "pipe_reachable P \<longleftrightarrow> (\<exists>P0. pipe_start P0 \<and> pipe_step\<^sup>*\<^sup>* P0 P)"

lemma pipe_step_ok: "pipe_step P P' \<Longrightarrow> pipeline_ok P \<Longrightarrow> pipeline_ok P' \<and> grows P P'"
proof (induction rule: pipe_step.induct)
  case (post V fresh batch K db presented a agent_id ics identity P resp tasks P')
  then consider "P' = P" | identity' source cluster where
    "ingest V fresh batch a ics identity' source cluster P = (resp, tasks, P')"
    by (auto simp: post_events_def Let_def split: if_splits)
  then show ?case
  proof cases
    case 1
    with post.prems show ?thesis by simp
  next
    case 2
    from ingest_ok [OF 2 post.prems post.hyps(2)] show ?thesis using grows_usage by blast
  qed
next
  case (batch V ids P raised P')
  then show ?case using batch_ok by blast
next
  case (crash P e V worked)
  then show ?case by (intro crash_ok)
next
  case (sweep V up n P out tasks P')
  from sweep_ok [OF sweep] show ?case using grows_usage by blast
next
  case (dead_letters V tenant P raised P')
  from reprocess_all_ok [OF dead_letters(1) [unfolded process_dead_letter_queue_def] dead_letters(2)]
  show ?case using grows_usage by blast
qed

lemma pipe_start_ok: "pipe_start P \<Longrightarrow> pipeline_ok P"
  by (simp add: pipe_start_def pipeline_ok_def metered_once_def recorded_call_def)

lemma pipe_steps_ok: "pipe_step\<^sup>*\<^sup>* P P' \<Longrightarrow> pipeline_ok P \<Longrightarrow> pipeline_ok P'"
  by (induction rule: rtranclp_induct) (auto dest: pipe_step_ok)

lemma pipe_reachable_ok: "pipe_reachable P \<Longrightarrow> pipeline_ok P"
  unfolding pipe_reachable_def using pipe_start_ok pipe_steps_ok by blast



end
