(* ===== verification/EventDelivery.thy ===== *)
theory EventDelivery
  imports EventRules PrincipalRules
begin

text \<open>
  What ingestion promises its producers: an identified batch that is delivered again stores nothing,
  and the source and cluster of usage are those of an authenticated gateway. Concrete runs of the
  pipeline show the properties of \<open>EventRules\<close> at work, and where redelivery and the sweep fall short.
\<close>

section \<open>Delivery of the same batch again\<close>

lemma find_in_append: "List.find p (xs @ ys) = (case List.find p xs of Some x \<Rightarrow> Some x | None \<Rightarrow> List.find p ys)"
  by (induction xs) (auto split: option.splits)

lemma claim_known:
  assumes "\<forall>e \<in> set es. \<exists>old. List.find (same_producer_event e) rows = Some old \<and> \<not> event_changed old e"
  shows "claim_events V es rows = (rows, [], length es, [])"
  using assms by (induction es) auto

lemma same_producer_refl [simp]: "same_producer_event e e" "\<not> event_changed e e"
  by (simp_all add: same_producer_event_def event_changed_def)

lemma claimed_found:
  assumes "claim_events V es rows = (rows', cr, d, [])" "\<forall>e \<in> set es. saved_claim V e = e"
  shows "\<forall>e \<in> set es. \<exists>old. List.find (same_producer_event e) rows' = Some old \<and> \<not> event_changed old e"
  using assms
proof (induction es arbitrary: rows cr d)
  case Nil
  then show ?case by simp
next
  case (Cons e es)
  from Cons.prems(1) have rows': "rows' = rows @ cr" using claimed_rows by blast
  from Cons.prems(1) show ?case
  proof (cases rule: claim_cons)
    case (new cr')
    from Cons.IH [OF new(2)] Cons.prems(2) have
      "\<forall>x \<in> set es. \<exists>old. List.find (same_producer_event x) rows' = Some old \<and> \<not> event_changed old x" by simp
    moreover have "List.find (same_producer_event e) rows' = Some e"
      using new(1,3) Cons.prems(2) rows' by (simp add: find_in_append)
    ultimately show ?thesis by simp
  next
    case (dup old d')
    from Cons.IH [OF dup(3)] Cons.prems(2) have
      "\<forall>x \<in> set es. \<exists>old. List.find (same_producer_event x) rows' = Some old \<and> \<not> event_changed old x" by simp
    moreover have "List.find (same_producer_event e) rows' = Some old" using dup(1) rows' by (simp add: find_in_append)
    ultimately show ?thesis using dup(2) by simp
  next
    case (conflict old c')
    then show ?thesis by simp
  qed
qed

text \<open>What identifies and describes an event, apart from its own id and the moment it was received.\<close>

definition same_data :: "event_row \<Rightarrow> event_row \<Rightarrow> bool" where
  "same_data x y \<longleftrightarrow> same_producer_event x y \<and> ev_type x = ev_type y \<and> ev_category x = ev_category y \<and>
     ev_user x = ev_user y \<and> ev_at x = ev_at y \<and> ev_payload x = ev_payload y"

lemma same_data_claims:
  assumes "same_data x y"
  shows "same_producer_event x = same_producer_event y" "event_changed old x \<longleftrightarrow> event_changed old y"
  using assms by (auto simp: same_data_def same_producer_event_def event_changed_def fun_eq_iff)

lemma made_events_nth: "n < length ics \<Longrightarrow> made_events V fresh batch a ics identity source cluster ! n =
    make_event V a identity source cluster batch (fresh n) (ics ! n)"
  by (simp add: made_events_def nth_enumerate_eq)

lemma made_events_length [simp]: "length (made_events V fresh batch a ics identity source cluster) = length ics"
  by (simp add: made_events_def)

lemma made_events_mem:
  assumes "e \<in> set (made_events V fresh batch a ics identity source cluster)"
  obtains n where "n < length ics" "e = make_event V a identity source cluster batch (fresh n) (ics ! n)"
  using assms made_events_nth made_events_length unfolding in_set_conv_nth by metis

lemma made_producer: "e \<in> set (made_events V fresh batch a ics identity source cluster) \<Longrightarrow>
    \<exists>ic \<in> set ics. ev_producer e = ic_event_id ic \<and> ev_payload e =
      stamp_source (ic_type ic \<in> set usage_event_types) source (pipe_capture V (ag_tenant a) (ic_payload ic))"
  by (erule made_events_mem) (auto simp: make_event_def Let_def intro!: bexI [OF _ nth_mem])

lemma made_again:
  assumes "pe_redactor V' = pe_redactor V" "pe_mode V' = pe_mode V"
    "e \<in> set (made_events V' fresh' batch' a ics identity source cluster')"
  shows "\<exists>x \<in> set (made_events V fresh batch a ics identity source cluster). same_data e x"
proof -
  from assms(3) obtain n where n: "n < length ics" "e = make_event V' a identity source cluster' batch' (fresh' n) (ics ! n)"
    by (rule made_events_mem)
  have "same_data e (make_event V a identity source cluster batch (fresh n) (ics ! n))"
    using assms(1,2) by (simp add: n(2) same_data_def same_producer_event_def make_event_def Let_def pipe_capture_def)
  then show ?thesis using n(1) by (metis made_events_length made_events_nth nth_mem)
qed


section \<open>Who reports usage\<close>

lemma capture_dict:
  "capture_payload rd m (PDict kvs) = PDict (concat (map (\<lambda>(k, v). if dropped m k then []
     else [(k, if uuid_reference rd k v then v else capture_payload rd m v)]) kvs))"
  by (simp add: zip_map2 zip_same_conv_map o_def keep_item_def)
    (rule arg_cong [where f = concat], rule map_cong, auto)

lemma map_of_capture:
  "map_of (concat (map (\<lambda>(k, v). if dropped m k then [] else [(k, f k v)]) kvs)) key =
     (if dropped m key then None else map_option (f key) (map_of kvs key))"
  by (induction kvs) auto

lemma source_kept: "\<not> dropped m ''source''" "\<not> uuid_reference rd ''source'' v"
  by (simp_all add: dropped_def SECRET_KEYS_def CONTENT_FIELDS_def starts_with_def uuid_reference_def
      UUID_REFERENCE_KEYS_def lower_def lower_char_def)

lemma captured_source:
  assumes "pipe_capture V tenant (PDict d) = PDict d'" "dget d ''source'' PNone = PStr s"
    "pipe_capture V tenant (PStr s) = PStr s"
  shows "dget d' ''source'' PNone = PStr s"
proof -
  from assms(2) have "map_of d ''source'' = Some (PStr s)" by (simp add: dget_def split: option.splits)
  with assms(1,3) show ?thesis
    by (auto simp: pipe_capture_def capture_dict dget_def map_of_capture source_kept simp del: capture_payload.simps(1))
qed

lemma stamped_source:
  assumes "e \<in> set (made_events V fresh batch a ics identity source cluster)" "is_usage e" "ev_payload e = PDict d"
  shows "dget d ''source'' PNone = PStr source"
  using assms
  by (auto elim!: made_events_mem simp: make_event_def is_usage_def Let_def stamp_source_def split: pyval.splits)

lemma made_cluster: "e \<in> set (made_events V fresh batch a ics identity source cluster) \<Longrightarrow>
    ev_tenant e = ag_tenant a \<and> ev_endpoint e = Some (ag_id a) \<and>
    (ev_cluster e = (if is_usage e then cluster else None))"
  by (erule made_events_mem) (simp add: make_event_def is_usage_def Let_def)

lemma reporting_gateway_iff:
  "reporting_gateway K now db presented a = Some r \<longleftrightarrow>
     (\<exists>c. gateway_authenticate K now db presented = Some (c, r) \<and> gateway_serves r (ag_tenant a))"
  by (auto simp: reporting_gateway_def gateway_authenticate_def split: option.splits if_splits)

text \<open>
  C10: Usage is a gateway's only with the gateway's own credential, whatever the payload says. Every
  row a request stores belongs to the key's tenant and endpoint; the source of a stored usage report
  is the gateway exactly when the request carried a credential that authenticates a gateway
  registered for that tenant, and the agent otherwise; and a row names a cluster only when it is
  usage and then that gateway's cluster.
\<close>

theorem usage_source_authenticated:
  assumes "post_events V fresh batch K db presented a agent_id ics identity P = (resp, tasks, P')"
    and "e \<in> set (pl_events P')" "e \<notin> set (pl_events P)"
    and "\<forall>s \<in> {''agent'', ''gateway''}. pipe_capture V (ag_tenant a) (PStr s) = PStr s"
  shows "ev_tenant e = ag_tenant a \<and> ev_endpoint e = Some (ag_id a)
    \<and> (\<forall>d. is_usage e \<and> ev_payload e = PDict d \<longrightarrow> dget d ''source'' PNone = PStr
        (if \<exists>c r. gateway_authenticate K (pe_now V) db presented = Some (c, r) \<and> gateway_serves r (ag_tenant a)
         then ''gateway'' else ''agent''))
    \<and> (ev_cluster e \<noteq> None \<longrightarrow> is_usage e \<and> (\<exists>c r. gateway_authenticate K (pe_now V) db presented = Some (c, r)
        \<and> gateway_serves r (ag_tenant a) \<and> ev_cluster e = gr_cluster r))"
proof -
  let ?gw = "reporting_gateway K (pe_now V) db presented a"
  let ?source = "if ?gw = None then ''agent'' else ''gateway''"
  let ?made = "made_events V fresh batch a ics identity ?source (Option.bind ?gw gr_cluster)"
  from assms(1-3) have "ingest V fresh batch a ics identity ?source (Option.bind ?gw gr_cluster) P = (resp, tasks, P')"
    by (auto simp: post_events_def Let_def split: if_splits)
  then obtain created where "pl_events P' = pl_events P @ created" "set created \<subseteq> set ?made \<union> saved_claim V ` set ?made"
    by (rule ingest_rows)
  with assms(2,3) obtain x where x: "x \<in> set ?made" "e = x \<or> e = saved_claim V x" by auto
  note base = made_cluster [OF x(1)]
  have same: "ev_tenant e = ag_tenant a" "ev_endpoint e = Some (ag_id a)" "is_usage e = is_usage x" "ev_cluster e = ev_cluster x"
    using x(2) base by (auto simp: saved_claim_def is_usage_def)
  have gw: "?gw = None \<longleftrightarrow> \<not> (\<exists>c r. gateway_authenticate K (pe_now V) db presented = Some (c, r)
      \<and> gateway_serves r (ag_tenant a))"
    using reporting_gateway_iff [of K "pe_now V" db presented a] by (metis not_None_eq)
  have src: "dget d ''source'' PNone = PStr ?source" if "is_usage e" "ev_payload e = PDict d" for d
    using x(2)
  proof
    assume "e = x"
    with stamped_source [OF x(1)] that show ?thesis by simp
  next
    assume sv: "e = saved_claim V x"
    with that base have c: "pipe_capture V (ag_tenant a) (ev_payload x) = PDict d" by (simp add: saved_claim_def)
    then obtain d0 where d0: "ev_payload x = PDict d0" by (cases "ev_payload x") (simp_all add: pipe_capture_def)
    have "pipe_capture V (ag_tenant a) (PStr ?source) = PStr ?source" using assms(4) by simp
    from captured_source [OF c [unfolded d0] stamped_source [OF x(1) _ d0] this] same(3) that(1) show ?thesis by simp
  qed
  have cl: "is_usage e \<and> (\<exists>c r. gateway_authenticate K (pe_now V) db presented = Some (c, r)
        \<and> gateway_serves r (ag_tenant a) \<and> ev_cluster e = gr_cluster r)" if some: "ev_cluster e \<noteq> None"
  proof -
    from some base same(3,4) obtain r where r: "is_usage e" "?gw = Some r" "ev_cluster e = gr_cluster r"
      by (cases ?gw) (auto split: if_splits)
    with reporting_gateway_iff show ?thesis by metis
  qed
  have eq: "(if \<exists>c r. gateway_authenticate K (pe_now V) db presented = Some (c, r) \<and> gateway_serves r (ag_tenant a)
      then ''gateway'' else ''agent'') = ?source" using gw by auto
  show ?thesis unfolding eq using same(1,2) src cl by blast
qed

section \<open>Runs\<close>

definition run_env :: "int \<Rightarrow> pipe_env" where
  "run_env now = \<lparr>pe_budget = usage_env, pe_policies = [], pe_configs = [], pe_now = now,
     pe_redactor = \<lparr>rd_keys = id, rd_split = (\<lambda>s. [s]), rd_pii = [], rd_secret = [], rd_uuid = (\<lambda>_. None)\<rparr>,
     pe_mode = (\<lambda>_. Full), pe_iso = (\<lambda>_. ''time''), pe_error = (\<lambda>_. ''error'')\<rparr>"

definition run_ids :: "char \<Rightarrow> nat \<Rightarrow> string" where
  "run_ids c n = c # replicate n (CHR ''i'')"

definition run_usage :: "string \<Rightarrow> pyval \<Rightarrow> incoming" where
  "run_usage i payload = \<lparr>ic_type = ''llm:usage'', ic_event_id = i, ic_category = ''telemetry'', ic_payload = payload,
     ic_at = 7, ic_user = ''u''\<rparr>"

definition run_payload :: pyval where
  "run_payload = PDict [(''model'', PStr ''m''), (''request_id'', PStr ''q''), (''prompt_tokens'', PInt 900),
     (''completion_tokens'', PInt 100), (''source'', PStr ''gateway'')]"

definition run_start :: pipeline where
  "run_start = \<lparr>pl_events = [], pl_usage = usage_empty, pl_beats = [], pl_sent = []\<rparr>"

text \<open>The request of a gateway, and one of the agent alone.\<close>

definition run_post :: "char \<Rightarrow> int \<Rightarrow> string \<Rightarrow> incoming list \<Rightarrow> pipeline \<Rightarrow>
    ingest_response \<times> (string \<times> string list) list \<times> pipeline" where
  "run_post c now presented ics P =
     post_events (run_env now) (run_ids c) [c] demo_keys demo_registry presented demo_agent [] ics None P"

definition run_posted :: pipeline where
  "run_posted = snd (snd (run_post (CHR ''a'') 1000 (rq_gateway demo_request) [run_usage ''e1'' run_payload] run_start))"

definition run_processed :: pipeline where
  "run_processed = snd (process_event_batch (run_env 1001) [run_ids (CHR ''a'') 0] run_posted)"

lemma run_fresh: "list_all (\<lambda>e. take 1 (ev_id e) \<noteq> [c]) (pl_events P) \<Longrightarrow> fresh_ids (run_ids c) P"
proof -
  have "inj (run_ids c)"
  proof (rule injI)
    fix m n assume "run_ids c m = run_ids c n"
    then have "length (run_ids c m) = length (run_ids c n)" by simp
    then show "m = n" by (simp add: run_ids_def)
  qed
  note inj = this
  assume "list_all (\<lambda>e. take 1 (ev_id e) \<noteq> [c]) (pl_events P)"
  then have "\<forall>i \<in> ev_id ` set (pl_events P). take 1 i \<noteq> [c]" by (auto simp: list_all_iff)
  moreover have "\<forall>i \<in> range (run_ids c). take 1 i = [c]" by (simp add: run_ids_def)
  ultimately have "range (run_ids c) \<inter> ev_id ` set (pl_events P) = {}" by blast
  with inj show "fresh_ids (run_ids c) P" by (simp add: fresh_ids_def)
qed

lemma run_reachable: "pipe_reachable run_start" "pipe_reachable run_posted" "pipe_reachable run_processed"
proof -
  have start: "pipe_start run_start" by (simp add: pipe_start_def run_start_def usage_empty_def)
  then show "pipe_reachable run_start" unfolding pipe_reachable_def by blast
  have "fresh_ids (run_ids (CHR ''a'')) run_start" by (rule run_fresh) (simp add: run_start_def)
  from pipe_step.post [OF prod.collapse [symmetric, THEN trans, OF arg_cong2 [where f = Pair, OF refl prod.collapse [symmetric]]] this]
  have one: "pipe_step run_start run_posted" unfolding run_posted_def run_post_def .
  have two: "pipe_step run_posted run_processed"
    unfolding run_processed_def by (rule pipe_step.batch) (rule prod.collapse [symmetric])
  from start one show "pipe_reachable run_posted" unfolding pipe_reachable_def by blast
  from start one two show "pipe_reachable run_processed" unfolding pipe_reachable_def
    by (meson converse_rtranclp_into_rtranclp rtranclp.rtrancl_refl)
qed

section \<open>Instances\<close>

definition run_row :: event_row where
  "run_row = hd (pl_events run_processed)"

theorem usage_source_authenticated_witness:
  "\<exists>d. ev_payload (hd (pl_events run_posted)) = PDict d \<and> dget d ''source'' PNone = PStr ''gateway''
    \<and> (\<exists>c r. gateway_authenticate demo_keys 1000 demo_registry (rq_gateway demo_request) = Some (c, r))"
proof -
  let ?e = "hd (pl_events run_posted)"
  have e: "pl_events run_posted = [?e]" "is_usage ?e" by code_simp+
  obtain d where d: "ev_payload ?e = PDict d"
  proof -
    have "is_dict (ev_payload ?e)" by code_simp
    then show thesis using that by (cases "ev_payload ?e") simp_all
  qed
  have g: "gateway_authenticate demo_keys 1000 demo_registry (rq_gateway demo_request) =
      Some (hd (rg_creds demo_registry), hd (rg_gateways demo_registry))"
    "gateway_serves (hd (rg_gateways demo_registry)) (ag_tenant demo_agent)" by code_simp+
  have kept: "\<forall>s \<in> {''agent'', ''gateway''}. pipe_capture (run_env 1000) (ag_tenant demo_agent) (PStr s) = PStr s"
    by (simp add: pipe_capture_def run_env_def)
  have post: "post_events (run_env 1000) (run_ids (CHR ''a'')) ''a'' demo_keys demo_registry (rq_gateway demo_request) demo_agent
      [] [run_usage ''e1'' run_payload] None run_start = (EventsAccepted 1 0, [(''telemetry'', [''a''])], run_posted)"
    by code_simp
  have new: "?e \<notin> set (pl_events run_start)" by (simp add: run_start_def)
  have stored: "?e \<in> set (pl_events run_posted)" using e(1) by (metis list.set_intros(1))
  from usage_source_authenticated [OF post stored new kept] e(2) d g show ?thesis by (simp add: run_env_def)
qed


text \<open>
  Three ways delivery falls short. A batch that is refused for one reused id keeps its other events,
  unqueued, and stores them again when it is sent again without that one. An event that became a
  dead letter carries a note in its payload, so the same event delivered again is a conflict.
\<close>

lemma refused_batch_is_stored:
  "(let ics = [run_usage [] run_payload, run_usage ''e1'' (PDict [])];
        (resp, tasks, P) = run_post (CHR ''b'') 2000 [] ics run_posted;
        (resp', _, P') = run_post (CHR ''c'') 2001 [] ics P
    in resp = EventsConflict [''e1''] \<and> tasks = [] \<and> length (pl_events P) = 2 \<and>
       resp' = EventsConflict [''e1''] \<and> length (pl_events P') = 3)"
  by code_simp

lemma dead_letter_conflicts_with_itself:
  "(let ics = [run_usage ''e1'' (PDict [(''request_id'', PStr ''q'')])];
        P = snd (snd (run_post (CHR ''a'') 1000 [] ics run_start));
        P1 = snd (process_event_batch (run_env 1001) [run_ids (CHR ''a'') 0] P)
    in fst (run_post (CHR ''b'') 1002 [] ics P) = EventsAccepted 0 1 \<and>
       list_all dead_lettered (pl_events P1) \<and> fst (run_post (CHR ''c'') 1003 [] ics P1) = EventsConflict [''e1''])"
  by code_simp

text \<open>
  A usage event whose payload is not an object cannot be dead-lettered: the handler of its error
  raises, and the sweep that finds it stranded a fifth time raises before it requeues anything.
\<close>

lemma poisoned_sweep:
  assumes "take n (sort_key ev_received (filter (\<lambda>e. ev_status e = EvProcessing
      \<and> ev_received e < pe_now V - stale_processing_after) (pl_events P))) = e # es"
    "ev_retries e + 1 = max_retries" "\<forall>d. pipe_capture V (ev_tenant e) (ev_payload e) \<noteq> PDict d"
  shows "fst (retry_failed_events V up n P) = None \<and> fst (snd (retry_failed_events V up n P)) = []"
proof -
  have "move_to_dlq V m ''Stranded in processing after max retries'' = None"
    if "ev_payload m = pipe_capture V (ev_tenant e) (ev_payload e)" for m
    using assms(3) that by (cases "pipe_capture V (ev_tenant e) (ev_payload e)") (simp_all add: move_to_dlq_def)
  with assms(2) obtain P1 where "fail_stranded V (e # es) P = (True, P1)"
    by (simp add: Let_def mark_failed_def)
  with assms(1) show ?thesis by (simp add: retry_failed_events_def)
qed

definition poison_round :: "nat \<Rightarrow> pipeline \<Rightarrow> pipeline" where
  "poison_round k P =
     (let now = 1000 + int k * minutes 31;
          P1 = snd (process_event_batch (run_env now) [run_ids (CHR ''a'') 0] P)
      in snd (snd (retry_failed_events (run_env (now + minutes 31)) (\<lambda>_. True) 500 P1)))"

lemma poison_reaches_the_sweep:
  "(let P = snd (snd (run_post (CHR ''a'') 1000 [] [run_usage [] (PList [])] run_start));
        P4 = fold poison_round [0, 1, 2, 3] P;
        P5 = snd (process_event_batch (run_env (1000 + minutes 124)) [run_ids (CHR ''a'') 0] P4)
    in map ev_retries (pl_events P5) = [4] \<and>
       fst (retry_failed_events (run_env (1000 + minutes 155)) (\<lambda>_. True) 500 P5) = None)"
  by code_simp



end
