(* ===== verification/Spec2Isabelle.thy ===== *)
theory Spec2Isabelle
  imports ActionTargets SteerTemplate BudgetLedger ToolRules ApprovalRules SessionRules ClockRules
    ContentRules LookupCache DispatchRules RetentionRules RolloutRules AstroliftGateways EventDelivery
begin
end
